(* ===== verification/Prelude.thy ===== *)
theory Prelude
  imports Complex_Main "HOL-Library.AList" "HOL-Library.Product_Lexorder" "HOL-Library.Char_ord"
    "HOL-Library.List_Lexorder"
begin

text \<open>
  Shared vocabulary of the development: the types that stand for the values of the Python
  code (identifiers, clock readings, JSON documents), the fragment of SQL the repositories use
  (UPDATE, DELETE, count, first row of an ordering) as list functions, decimal printing and
  parsing, and the generic lemmas on them.

  Conventions.  A UUID is its canonical text.  A clock reading is a number of POSIX seconds;
  Python floats and Postgres intervals are idealised to exact reals.  A Python string is a
  list of HOL characters; the few characters outside Latin-1 in message texts (an arrow, a
  dash) are written in ASCII.  A table is a list of row records, and a statement that changes
  several rows changes all of them at once.
\<close>

named_theorems sql_simps \<open>rewriting of the table operations\<close>
named_theorems pystr_simps \<open>rewriting of string helpers\<close>

section \<open>Types\<close>

type_synonym uuid = string
type_synonym time = real

datatype json =
    JNull
  | JBool bool
  | JInt int
  | JDec int nat
  | JStr string
  | JArr "json list"
  | JObj "(string \<times> json) list"

text \<open>\<^term>\<open>JDec m e\<close> is the decimal number m / 10 ^ e, the exact form jsonb keeps.\<close>

type_synonym jobj = "(string \<times> json) list"

section \<open>Decimal numerals and the command status of asyncpg\<close>

definition digit_char :: "nat \<Rightarrow> char" where
  "digit_char d = char_of (48 + d)"

definition is_digit :: "char \<Rightarrow> bool" where
  "is_digit c \<longleftrightarrow> 48 \<le> (of_char c :: nat) \<and> (of_char c :: nat) \<le> 57"

definition is_alpha :: "char \<Rightarrow> bool" where
  "is_alpha c = (let n = of_char c :: nat in (65 \<le> n \<and> n \<le> 90) \<or> (97 \<le> n \<and> n \<le> 122))"

text \<open>A character of a URL scheme.\<close>

definition scheme_char :: "char \<Rightarrow> bool" where
  "scheme_char c \<longleftrightarrow> is_alpha c \<or> is_digit c \<or> c \<in> set ''+-.''"

definition digit_val :: "char \<Rightarrow> nat" where
  "digit_val c = of_char c - 48"

fun dec_nat :: "nat \<Rightarrow> string" where
  "dec_nat n = (if n < 10 then [digit_char n] else dec_nat (n div 10) @ [digit_char (n mod 10)])"

declare dec_nat.simps [simp del]

definition dec_int :: "int \<Rightarrow> string" where
  "dec_int i = (if i < 0 then CHR ''-'' # dec_nat (nat (- i)) else dec_nat (nat i))"

definition parse_nat :: "string \<Rightarrow> nat" where
  "parse_nat s = foldl (\<lambda>a c. 10 * a + digit_val c) 0 s"

definition isdigit_str :: "string \<Rightarrow> bool" where
  "isdigit_str s \<longleftrightarrow> s \<noteq> [] \<and> list_all is_digit s"

text \<open>\<^term>\<open>cmd_status\<close> is the tag Postgres returns for a command, e.g. UPDATE 1.\<close>

definition cmd_status :: "string \<Rightarrow> nat \<Rightarrow> string" where
  "cmd_status cmd n = cmd @ '' '' @ dec_nat n"

text \<open>\<^term>\<open>rsplit1\<close> is Python's \<^verbatim>\<open>s.rsplit(c, 1)\<close> for a one-character separator.\<close>

definition rsplit1 :: "char \<Rightarrow> string \<Rightarrow> string list" where
  "rsplit1 c s = (if c \<in> set s
     then [rev (tl (dropWhile (\<lambda>x. x \<noteq> c) (rev s))), rev (takeWhile (\<lambda>x. x \<noteq> c) (rev s))]
     else [s])"

lemma digit_char_is_digit [pystr_simps]: "d < 10 \<Longrightarrow> is_digit (digit_char d)"
  by (auto simp: is_digit_def digit_char_def)

lemma digit_val_digit_char [pystr_simps]: "d < 10 \<Longrightarrow> digit_val (digit_char d) = d"
  by (auto simp: digit_val_def digit_char_def)

lemma dec_nat_nonempty [simp]: "dec_nat n \<noteq> []"
  by (subst dec_nat.simps) simp

lemma dec_nat_digits: "list_all is_digit (dec_nat n)"
proof (induction n rule: dec_nat.induct)
  case (1 n)
  then show ?case
    by (subst dec_nat.simps) (auto simp: pystr_simps)
qed

lemma parse_nat_snoc: "parse_nat (s @ [c]) = 10 * parse_nat s + digit_val c"
  by (simp add: parse_nat_def)

lemma parse_dec_nat [simp]: "parse_nat (dec_nat n) = n"
proof (induction n rule: dec_nat.induct)
  case (1 n)
  show ?case
  proof (cases "n < 10")
    case True
    then show ?thesis
      by (subst dec_nat.simps) (simp add: parse_nat_def pystr_simps)
  next
    case False
    have "parse_nat (dec_nat n) = 10 * parse_nat (dec_nat (n div 10)) + n mod 10"
      using False by (subst dec_nat.simps) (simp add: parse_nat_snoc pystr_simps)
    with 1 False show ?thesis by simp
  qed
qed

lemma isdigit_dec_nat [simp]: "isdigit_str (dec_nat n)"
  by (simp add: isdigit_str_def dec_nat_digits)

lemma space_not_digit [simp]: "\<not> is_digit CHR '' ''"
  by (simp add: is_digit_def)

lemma dec_nat_no_space: "CHR '' '' \<notin> set (dec_nat n)"
  using dec_nat_digits [of n] by (auto simp: list_all_iff)

lemma rsplit1_last:
  assumes "c \<notin> set t"
  shows "rsplit1 c (s @ c # t) = [s, t]"
proof -
  have "dropWhile (\<lambda>x. x \<noteq> c) (rev t @ c # rev s) = c # rev s"
    using assms by (induction t rule: rev_induct) auto
  moreover have "takeWhile (\<lambda>x. x \<noteq> c) (rev t @ c # rev s) = rev t"
    using assms by (induction t rule: rev_induct) auto
  ultimately show ?thesis
    by (simp add: rsplit1_def)
qed

lemma rsplit1_cmd_status [simp]: "rsplit1 CHR '' '' (cmd_status cmd n) = [cmd, dec_nat n]"
  using rsplit1_last [OF dec_nat_no_space] by (simp add: cmd_status_def)

lemma dec_nat_one: "dec_nat n = ''1'' \<longleftrightarrow> n = 1"
proof
  assume "dec_nat n = ''1''"
  then have "n = parse_nat ''1''"
    using parse_dec_nat [of n] by simp
  then show "n = 1"
    by (simp add: parse_nat_def digit_val_def)
next
  have "dec_nat 1 = ''1''"
    by code_simp
  then show "n = 1 \<Longrightarrow> dec_nat n = ''1''"
    by simp
qed

section \<open>Text of JSON values\<close>

text \<open>
  \<^term>\<open>json_dump\<close> is the text Postgres prints for a jsonb value (a space after each colon and
  comma), \<^term>\<open>jtext\<close> the operator \<^verbatim>\<open>->>\<close> applied to an existing key, and \<^term>\<open>py_repr\<close>,
  \<^term>\<open>py_str\<close> the Python functions \<^verbatim>\<open>repr\<close> and \<^verbatim>\<open>str\<close> on a decoded JSON value.
\<close>

definition hex_digit :: "nat \<Rightarrow> char" where
  "hex_digit d = (if d < 10 then char_of (48 + d) else char_of (87 + d))"

definition hex2 :: "nat \<Rightarrow> string" where
  "hex2 n = [hex_digit (n div 16 mod 16), hex_digit (n mod 16)]"

definition join_with :: "string \<Rightarrow> string list \<Rightarrow> string" where
  "join_with sep xs = (case xs of [] \<Rightarrow> [] | x # r \<Rightarrow> x @ concat (map (\<lambda>y. sep @ y) r))"

definition dec_decimal :: "int \<Rightarrow> nat \<Rightarrow> string" where
  "dec_decimal m e = (let d = dec_nat (nat \<bar>m\<bar>); p = replicate (Suc e - length d) (CHR ''0'') @ d
     in (if m < 0 then ''-'' else []) @ take (length p - e) p
        @ (if e = 0 then [] else ''.'' @ drop (length p - e) p))"

definition json_escape :: "char \<Rightarrow> string" where
  "json_escape c = (let n = of_char c :: nat in
     if n = 34 then [CHR 0x5C, CHR 0x22] else if n = 92 then [CHR 0x5C, CHR 0x5C]
     else if n = 8 then [CHR 0x5C] @ ''b'' else if n = 12 then [CHR 0x5C] @ ''f''
     else if n = 10 then [CHR 0x5C] @ ''n'' else if n = 13 then [CHR 0x5C] @ ''r''
     else if n = 9 then [CHR 0x5C] @ ''t''
     else if n < 32 then [CHR 0x5C] @ ''u00'' @ hex2 n else [c])"

definition json_quote :: "string \<Rightarrow> string" where
  "json_quote s = [CHR 0x22] @ concat (map json_escape s) @ [CHR 0x22]"

fun json_dump :: "json \<Rightarrow> string" where
  "json_dump JNull = ''null''"
| "json_dump (JBool b) = (if b then ''true'' else ''false'')"
| "json_dump (JInt i) = dec_int i"
| "json_dump (JDec m e) = dec_decimal m e"
| "json_dump (JStr s) = json_quote s"
| "json_dump (JArr xs) = ''['' @ join_with '', '' (map json_dump xs) @ '']''"
| "json_dump (JObj kvs) =
     ''{'' @ join_with '', '' (map (\<lambda>kv. json_quote (fst kv) @ '': '' @ json_dump (snd kv)) kvs) @ ''}''"

fun jtext :: "json \<Rightarrow> string option" where
  "jtext JNull = None"
| "jtext (JStr s) = Some s"
| "jtext v = Some (json_dump v)"

definition py_escape :: "char \<Rightarrow> char \<Rightarrow> string" where
  "py_escape q c = (let n = of_char c :: nat in
     if c = q \<or> n = 92 then [CHR 0x5C, c]
     else if n = 10 then [CHR 0x5C] @ ''n'' else if n = 13 then [CHR 0x5C] @ ''r''
     else if n = 9 then [CHR 0x5C] @ ''t''
     else if n < 32 \<or> (127 \<le> n \<and> n \<le> 160) \<or> n = 173 then [CHR 0x5C] @ ''x'' @ hex2 n else [c])"

definition py_repr_str :: "string \<Rightarrow> string" where
  "py_repr_str s = (let q = (if CHR 0x27 \<in> set s \<and> CHR 0x22 \<notin> set s then CHR 0x22 else CHR 0x27)
     in [q] @ concat (map (py_escape q) s) @ [q])"

fun py_repr :: "json \<Rightarrow> string" where
  "py_repr JNull = ''None''"
| "py_repr (JBool b) = (if b then ''True'' else ''False'')"
| "py_repr (JInt i) = dec_int i"
| "py_repr (JDec m e) = dec_decimal m e"
| "py_repr (JStr s) = py_repr_str s"
| "py_repr (JArr xs) = ''['' @ join_with '', '' (map py_repr xs) @ '']''"
| "py_repr (JObj kvs) =
     ''{'' @ join_with '', '' (map (\<lambda>kv. py_repr_str (fst kv) @ '': '' @ py_repr (snd kv)) kvs) @ ''}''"

fun py_str :: "json \<Rightarrow> string" where
  "py_str (JStr s) = s"
| "py_str v = py_repr v"

fun truthy :: "json \<Rightarrow> bool" where
  "truthy JNull = False"
| "truthy (JBool b) = b"
| "truthy (JInt i) = (i \<noteq> 0)"
| "truthy (JDec m e) = (m \<noteq> 0)"
| "truthy (JStr s) = (s \<noteq> [])"
| "truthy (JArr xs) = (xs \<noteq> [])"
| "truthy (JObj kvs) = (kvs \<noteq> [])"

section \<open>Dictionaries\<close>

text \<open>
  \<^term>\<open>jget\<close> is \<^verbatim>\<open>d.get(k)\<close>, \<^term>\<open>jmerge\<close> both \<^verbatim>\<open>{**a, **b}\<close> and the jsonb operator
  \<^verbatim>\<open>a || b\<close> on objects, and \<^term>\<open>jfield\<close> the text \<^verbatim>\<open>d ->> k\<close>.
\<close>

definition jget :: "jobj \<Rightarrow> string \<Rightarrow> json" where
  "jget d k = (case map_of d k of None \<Rightarrow> JNull | Some v \<Rightarrow> v)"

definition jfield :: "jobj \<Rightarrow> string \<Rightarrow> string option" where
  "jfield d k = jtext (jget d k)"

primrec jmerge :: "jobj \<Rightarrow> jobj \<Rightarrow> jobj" where
  "jmerge a [] = a"
| "jmerge a (kv # b) = jmerge (AList.update (fst kv) (snd kv) a) b"

definition jdelete :: "string \<Rightarrow> jobj \<Rightarrow> jobj" where
  "jdelete k d = AList.delete k d"

lemma map_of_jmerge: "distinct (map fst b) \<Longrightarrow> map_of (jmerge a b) = map_of a ++ map_of b"
proof (induction b arbitrary: a)
  case (Cons kv b)
  obtain k v where kv: "kv = (k, v)" by force
  have "k \<notin> dom (map_of b)"
    using Cons.prems kv by (simp add: dom_map_of_conv_image_fst)
  with Cons kv show ?case
    by (auto simp: AList.update_conv' map_add_def fun_eq_iff dom_def split: option.splits)
qed simp

lemma jget_update [simp]: "jget (AList.update k v d) k' = (if k' = k then v else jget d k')"
  by (simp add: jget_def AList.update_conv')

lemma jget_delete [simp]: "jget (jdelete k d) k' = (if k' = k then JNull else jget d k')"
  by (simp add: jget_def jdelete_def AList.delete_conv')

lemma jget_jmerge:
  "distinct (map fst b) \<Longrightarrow>
   jget (jmerge a b) k = (if k \<in> fst ` set b then jget b k else jget a k)"
proof (cases "map_of b k")
  case None
  then have "k \<notin> fst ` set b"
    by (simp add: map_of_eq_None_iff)
  with None show "distinct (map fst b) \<Longrightarrow> ?thesis"
    by (simp add: jget_def map_of_jmerge map_add_def)
next
  case (Some v)
  then have "k \<in> fst ` set b"
    by (force dest: map_of_SomeD)
  with Some show "distinct (map fst b) \<Longrightarrow> ?thesis"
    by (simp add: jget_def map_of_jmerge map_add_def)
qed

section \<open>Tables\<close>

definition sql_update :: "('r \<Rightarrow> bool) \<Rightarrow> ('r \<Rightarrow> 'r) \<Rightarrow> 'r list \<Rightarrow> 'r list" where
  "sql_update p f t = map (\<lambda>r. if p r then f r else r) t"

definition sql_delete :: "('r \<Rightarrow> bool) \<Rightarrow> 'r list \<Rightarrow> 'r list" where
  "sql_delete p t = filter (\<lambda>r. \<not> p r) t"

definition sql_count :: "('r \<Rightarrow> bool) \<Rightarrow> 'r list \<Rightarrow> nat" where
  "sql_count p t = length (filter p t)"

text \<open>
  \<^term>\<open>sql_first_by\<close> is SELECT ... WHERE p ORDER BY key LIMIT 1.  SQL leaves the choice between
  rows of equal key open; the model takes the first of them in table order.
\<close>

definition sql_first_by :: "('r \<Rightarrow> 'k::linorder) \<Rightarrow> ('r \<Rightarrow> bool) \<Rightarrow> 'r list \<Rightarrow> 'r option" where
  "sql_first_by key p t = (case sort_key key (filter p t) of [] \<Rightarrow> None | r # _ \<Rightarrow> Some r)"

lemma sql_update_simps [simp, sql_simps]:
  "sql_update p f [] = []"
  "sql_update p f (r # t) = (if p r then f r else r) # sql_update p f t"
  by (simp_all add: sql_update_def)

lemma sql_delete_simps [simp, sql_simps]:
  "sql_delete p [] = []"
  "sql_delete p (r # t) = (if p r then sql_delete p t else r # sql_delete p t)"
  by (simp_all add: sql_delete_def)

lemma sql_count_simps [simp, sql_simps]:
  "sql_count p [] = 0"
  "sql_count p (r # t) = (if p r then Suc (sql_count p t) else sql_count p t)"
  by (simp_all add: sql_count_def)

lemma set_sql_delete [simp]: "set (sql_delete p t) = {r \<in> set t. \<not> p r}"
  by (auto simp: sql_delete_def)

lemma in_sql_update: "r' \<in> set (sql_update p f t) \<longleftrightarrow> (\<exists>r \<in> set t. r' = (if p r then f r else r))"
  by (auto simp: sql_update_def)

lemma sql_update_map:
  assumes "\<And>r. p r \<Longrightarrow> g (f r) = g r"
  shows "map g (sql_update p f t) = map g t"
  using assms by (induction t) auto

lemma sql_update_all:
  assumes "\<forall>r \<in> set t. Q r" "\<And>r. r \<in> set t \<Longrightarrow> p r \<Longrightarrow> Q r \<Longrightarrow> Q (f r)"
  shows "\<forall>r \<in> set (sql_update p f t). Q r"
  using assms by (auto simp: in_sql_update)

lemma sql_update_none: "sql_count p t = 0 \<Longrightarrow> sql_update p f t = t"
  by (induction t) (auto split: if_splits)

lemma sql_count_0: "sql_count p t = 0 \<longleftrightarrow> (\<forall>r \<in> set t. \<not> p r)"
  by (induction t) auto

lemma sql_count_pos: "0 < sql_count p t \<longleftrightarrow> (\<exists>r \<in> set t. p r)"
  by (induction t) auto

lemma sql_count_key_le_1:
  assumes "distinct (map g t)" "\<And>r. p r \<Longrightarrow> g r = k"
  shows "sql_count p t \<le> 1"
  using assms
proof (induction t)
  case (Cons r t)
  then show ?case
    by (cases "p r") (auto simp: sql_count_0 image_iff)
qed simp

lemma sql_count_key:
  assumes "distinct (map g t)" "\<And>r. p r \<Longrightarrow> g r = k"
  shows "sql_count p t = (if \<exists>r \<in> set t. p r then 1 else 0)"
  using sql_count_key_le_1 [of g t p k, OF assms] sql_count_pos [of p t] sql_count_0 [of p t]
  by (auto simp: le_Suc_eq)

lemma sql_first_by_None: "sql_first_by key p t = None \<longleftrightarrow> (\<forall>r \<in> set t. \<not> p r)"
proof -
  have "sort_key key (filter p t) = [] \<longleftrightarrow> filter p t = []"
    by (metis length_0_conv length_sort)
  then show ?thesis
    by (auto simp: sql_first_by_def filter_empty_conv split: list.splits)
qed

lemma sql_first_by_Some:
  assumes "sql_first_by key p t = Some r"
  shows "r \<in> set t" "p r" "\<And>r'. r' \<in> set t \<Longrightarrow> p r' \<Longrightarrow> key r \<le> key r'"
proof -
  obtain rs where rs: "sort_key key (filter p t) = r # rs"
    using assms by (auto simp: sql_first_by_def split: list.splits)
  have set: "set (r # rs) = {x \<in> set t. p x}"
    using rs by (metis set_filter set_sort)
  have "sorted (map key (r # rs))"
    using rs by (metis sorted_sort_key)
  then show "r \<in> set t" "p r" "\<And>r'. r' \<in> set t \<Longrightarrow> p r' \<Longrightarrow> key r \<le> key r'"
    using set by auto
qed

text \<open>Rows with a primary key: the row of a key, and how updates move it.\<close>

lemma find_key_Some:
  assumes "distinct (map g t)" "r \<in> set t"
  shows "find (\<lambda>x. g x = g r) t = Some r"
  using assms by (induction t) (auto simp: image_iff)

lemma find_sql_update:
  assumes "\<And>r. g (f r) = g r"
  shows "find (\<lambda>r. g r = k) (sql_update p f t) =
         map_option (\<lambda>r. if p r then f r else r) (find (\<lambda>r. g r = k) t)"
  using assms by (induction t) auto

lemma find_in: "find p t = Some r \<Longrightarrow> r \<in> set t \<and> p r"
  by (induction t) (auto split: if_splits)

lemma find_append: "find p (xs @ ys) = (case find p xs of None \<Rightarrow> find p ys | Some x \<Rightarrow> Some x)"
  by (induction xs) auto

lemma find_none: "find p t = None \<longleftrightarrow> (\<forall>r \<in> set t. \<not> p r)"
  by (induction t) auto

section \<open>String helpers of Python\<close>

fun py_in :: "string \<Rightarrow> string \<Rightarrow> bool" where
  "py_in p [] = (p = [])"
| "py_in p (c # s) = (take (length p) (c # s) = p \<or> py_in p s)"

definition is_space :: "char \<Rightarrow> bool" where
  "is_space c = (let n = of_char c :: nat in
     (9 \<le> n \<and> n \<le> 13) \<or> (28 \<le> n \<and> n \<le> 32) \<or> n = 133 \<or> n = 160)"

definition is_linebreak :: "char \<Rightarrow> bool" where
  "is_linebreak c = (let n = of_char c :: nat in
     (10 \<le> n \<and> n \<le> 13) \<or> (28 \<le> n \<and> n \<le> 30) \<or> n = 133)"

definition py_strip :: "string \<Rightarrow> string" where
  "py_strip s = rev (dropWhile is_space (rev (dropWhile is_space s)))"

text \<open>\<^term>\<open>first_line\<close> is \<^verbatim>\<open>s.splitlines()[0]\<close> for a non-empty string.\<close>

definition first_line :: "string \<Rightarrow> string" where
  "first_line s = takeWhile (\<lambda>c. \<not> is_linebreak c) s"

definition opt_str :: "string option \<Rightarrow> string" where
  "opt_str v = (case v of None \<Rightarrow> ''None'' | Some s \<Rightarrow> s)"

text \<open>A string that is present and truthy.\<close>

definition nonempty_str :: "string option \<Rightarrow> string option" where
  "nonempty_str v = (case v of Some s \<Rightarrow> if s = [] then None else Some s | None \<Rightarrow> None)"

text \<open>\<^verbatim>\<open>or_str\<close> is Python's \<^verbatim>\<open>a or b\<close> on an optional string, where the empty string is false.\<close>

definition or_str :: "string option \<Rightarrow> string option \<Rightarrow> string option" where
  "or_str a b = (case a of None \<Rightarrow> b | Some s \<Rightarrow> if s = [] then b else a)"

lemma py_in_append: "py_in p (a @ p @ b)"
proof (induction a)
  case Nil
  show ?case by (cases "p @ b"; cases p) auto
qed auto

section \<open>Transition systems\<close>

text \<open>An invariant that holds initially and is kept by every step holds in every reachable state.\<close>

locale inv_system =
  fixes init :: "'s \<Rightarrow> bool" and step :: "'s \<Rightarrow> 's \<Rightarrow> bool" and inv :: "'s \<Rightarrow> bool"
  assumes init_inv: "init s \<Longrightarrow> inv s"
    and step_inv: "inv s \<Longrightarrow> step s s' \<Longrightarrow> inv s'"
begin

lemma run_inv: "rtranclp step s s' \<Longrightarrow> inv s \<Longrightarrow> inv s'"
  by (induction rule: rtranclp_induct) (auto intro: step_inv)

lemma reach_inv: "init s \<Longrightarrow> rtranclp step s s' \<Longrightarrow> inv s'"
  using run_inv init_inv by blast

text \<open>A relation between observations that each step extends holds along a run.\<close>

lemma run_simulates:
  assumes "rtranclp step s s'" "inv s"
    and "\<And>u u'. inv u \<Longrightarrow> step u u' \<Longrightarrow> R (f u) (f u')"
    and "\<And>x. R x x" "\<And>x y z. R x y \<Longrightarrow> R y z \<Longrightarrow> R x z"
  shows "R (f s) (f s')"
  using assms(1,2)
proof (induction rule: rtranclp_induct)
  case (step y z)
  then have "inv y" using run_inv by blast
  with step assms(3,5) show ?case by blast
qed (rule assms(4))

end

section \<open>Case folding\<close>

definition lower_char :: "char \<Rightarrow> char" where
  "lower_char c = (let n = of_char c :: nat in
     if (65 \<le> n \<and> n \<le> 90) \<or> (192 \<le> n \<and> n \<le> 222 \<and> n \<noteq> 215) then char_of (n + 32) else c)"

definition py_lower :: "string \<Rightarrow> string" where
  "py_lower s = map lower_char s"

text \<open>The characters of this range whose upper case lies outside it are kept as they are.\<close>

definition upper_char :: "char \<Rightarrow> char" where
  "upper_char c = (let n = of_char c :: nat in
     if (97 \<le> n \<and> n \<le> 122) \<or> (224 \<le> n \<and> n \<le> 254 \<and> n \<noteq> 247) then char_of (n - 32) else c)"

definition py_upper :: "string \<Rightarrow> string" where
  "py_upper s = map upper_char s"

text \<open>\<^verbatim>\<open>a or b\<close> on JSON values, and the JSON value of an optional string.\<close>

definition json_or :: "json \<Rightarrow> json \<Rightarrow> json" where
  "json_or a b = (if truthy a then a else b)"

definition jopt :: "string option \<Rightarrow> json" where
  "jopt s = (case s of None \<Rightarrow> JNull | Some t \<Rightarrow> JStr t)"

section \<open>Web handlers\<close>

text \<open>A handler returns a value or raises; \<^verbatim>\<open>HTTPException status detail\<close> is the response the framework sends.\<close>

datatype http_error = HTTPException int string

type_synonym 'a http = "http_error + 'a"

text \<open>\<^verbatim>\<open>s.split(None, 1)\<close>: at most two words, the second with its own blanks.\<close>

definition split_ws1 :: "string \<Rightarrow> string list" where
  "split_ws1 s =
    (let t = dropWhile is_space s; w = takeWhile (\<lambda>c. \<not> is_space c) t; r = dropWhile is_space (drop (length w) t)
     in if w = [] then [] else if r = [] then [w] else [w, r])"

text \<open>\<^verbatim>\<open>s.split(c, 1)\<close> when the separator occurs.\<close>

definition split_first :: "char \<Rightarrow> string \<Rightarrow> (string \<times> string) option" where
  "split_first c s = (if c \<in> set s then Some (takeWhile (\<lambda>x. x \<noteq> c) s, tl (dropWhile (\<lambda>x. x \<noteq> c) s)) else None)"

text \<open>\<^verbatim>\<open>s.split(c)\<close>.\<close>

fun split_on :: "char \<Rightarrow> string \<Rightarrow> string list" where
  "split_on c [] = [[]]"
| "split_on c (x # xs) = (if x = c then [] # split_on c xs
     else case split_on c xs of [] \<Rightarrow> [[x]] | w # ws \<Rightarrow> (x # w) # ws)"

definition starts_with :: "string \<Rightarrow> string \<Rightarrow> bool" where
  "starts_with s p \<longleftrightarrow> take (length p) s = p"

lemma split_on_nonempty [simp]: "split_on c s \<noteq> []"
  by (induction s) (auto split: list.splits)

lemma join_split_on: "join_with [c] (split_on c s) = s"
proof (induction s)
  case (Cons x xs)
  obtain w ws where w: "split_on c xs = w # ws" by (cases "split_on c xs") auto
  with Cons show ?case by (cases ws) (auto simp: join_with_def)
qed (simp add: join_with_def)

text \<open>\<^verbatim>\<open>s.rstrip("/")\<close>, \<^verbatim>\<open>s.endswith(p)\<close>, and \<^verbatim>\<open>d.get(k, default)\<close>.\<close>

definition rstrip_slash :: "string \<Rightarrow> string" where
  "rstrip_slash s = rev (dropWhile (\<lambda>c. c = CHR ''/'') (rev s))"

definition ends_with :: "string \<Rightarrow> string \<Rightarrow> bool" where
  "ends_with s p \<longleftrightarrow> length p \<le> length s \<and> drop (length s - length p) s = p"

definition jget_or :: "jobj \<Rightarrow> string \<Rightarrow> json \<Rightarrow> json" where
  "jget_or d k v = (case map_of d k of None \<Rightarrow> v | Some w \<Rightarrow> w)"

lemma starts_with_append [simp]: "starts_with (p @ s) p"
  by (simp add: starts_with_def)

lemma ends_with_append [simp]: "ends_with (s @ p) p"
  by (simp add: ends_with_def)

lemma ends_with_iff: "ends_with s p \<longleftrightarrow> (\<exists>t. s = t @ p)"
proof
  assume "ends_with s p"
  then have "s = take (length s - length p) s @ p" by (metis ends_with_def append_take_drop_id)
  then show "\<exists>t. s = t @ p" by blast
qed auto

lemma jget_or_update [simp]: "jget_or (AList.update k v d) k' w = (if k' = k then v else jget_or d k' w)"
  by (simp add: jget_or_def AList.update_conv')

section \<open>Conversion to integers\<close>

text \<open>The cast \<^verbatim>\<open>text::int\<close> and Python's \<^verbatim>\<open>int\<close> of a text: optional sign and digits, blanks around them ignored.\<close>

definition text_to_int :: "string \<Rightarrow> int option" where
  "text_to_int s = (case py_strip s of
     [] \<Rightarrow> None
   | c # r \<Rightarrow> if c = CHR ''-'' then (if isdigit_str r then Some (- int (parse_nat r)) else None)
             else if c = CHR ''+'' then (if isdigit_str r then Some (int (parse_nat r)) else None)
             else if isdigit_str (c # r) then Some (int (parse_nat (c # r))) else None)"

text \<open>
  Python's \<^verbatim>\<open>int\<close> on a JSON value: decimals are cut towards zero, a string is an optionally signed decimal
  numeral (digit separators are not modelled); None is the TypeError or ValueError.
\<close>

fun py_int :: "json \<Rightarrow> int option" where
  "py_int (JInt i) = Some i"
| "py_int (JBool b) = Some (if b then 1 else 0)"
| "py_int (JDec m e) = Some (sgn m * (\<bar>m\<bar> div 10 ^ e))"
| "py_int (JStr s) = text_to_int s"
| "py_int _ = None"

end
