(* ===== verification/ProvJob.thy ===== *)
theory ProvJob
  imports Prelude
begin

text \<open>
  The data of the provisioning state machine: \<^verbatim>\<open>state_machine/jobs/model.py\<close> (phases, error
  classes, classified errors, event lines, phase results, the job row).  The job row and the
  pydantic \<^verbatim>\<open>ProvisioningJob\<close> have the same fields, so one record stands for both; its fields
  carry the prefix \<^verbatim>\<open>pj_\<close>.
\<close>

datatype phase =
    PENDING
  | PREFLIGHT
  | PROVISIONING
  | BOOTSTRAPPING
  | READY
  | FAILED
  | CANCELLING
  | TERMINATED

definition all_phases :: "phase list" where
  "all_phases =
     [PENDING, PREFLIGHT, PROVISIONING, BOOTSTRAPPING, READY, FAILED, CANCELLING, TERMINATED]"

primrec phase_value :: "phase \<Rightarrow> string" where
  "phase_value PENDING = ''pending''"
| "phase_value PREFLIGHT = ''preflight''"
| "phase_value PROVISIONING = ''provisioning''"
| "phase_value BOOTSTRAPPING = ''bootstrapping''"
| "phase_value READY = ''ready''"
| "phase_value FAILED = ''failed''"
| "phase_value CANCELLING = ''cancelling''"
| "phase_value TERMINATED = ''terminated''"

text \<open>The enum constructor \<^verbatim>\<open>Phase(text)\<close>; None is the ValueError it raises.\<close>

definition phase_of :: "string \<Rightarrow> phase option" where
  "phase_of s = find (\<lambda>p. phase_value p = s) all_phases"

definition is_terminal :: "phase \<Rightarrow> bool" where
  "is_terminal p \<longleftrightarrow> p \<in> set [READY, FAILED, TERMINATED]"

definition NON_TERMINAL_NON_CANCELLING :: "phase list" where
  "NON_TERMINAL_NON_CANCELLING = [PENDING, PREFLIGHT, PROVISIONING, BOOTSTRAPPING]"

definition CLAIMABLE_PHASES :: "phase list" where
  "CLAIMABLE_PHASES = NON_TERMINAL_NON_CANCELLING @ [CANCELLING]"

datatype error_class = TRANSIENT | PERMANENT | INFRASTRUCTURE

primrec error_class_value :: "error_class \<Rightarrow> string" where
  "error_class_value TRANSIENT = ''TRANSIENT''"
| "error_class_value PERMANENT = ''PERMANENT''"
| "error_class_value INFRASTRUCTURE = ''INFRASTRUCTURE''"

record classified_error =
  ce_class :: error_class
  ce_code :: string
  ce_message :: string
  ce_hint :: "string option"

datatype event_status = EvRunning | EvSucceeded | EvFailed | EvLog

record event_line =
  el_phase :: phase
  el_status :: event_status
  el_message :: string
  el_extra :: "jobj option"

record phase_result =
  pr_next_phase :: "phase option"
  pr_outputs :: "jobj option"
  pr_event :: "event_line option"

record prov_job =
  pj_id :: uuid
  pj_node_id :: uuid
  pj_pool_id :: uuid
  pj_org_id :: string
  pj_provider :: string
  pj_spec :: jobj
  pj_phase :: phase
  pj_attempt_count :: int
  pj_next_attempt_after :: "time option"
  pj_last_error_code :: "string option"
  pj_last_error_message :: "string option"
  pj_last_error_hint :: "string option"
  pj_error_class :: "error_class option"
  pj_lease_holder :: "string option"
  pj_lease_expires_at :: "time option"
  pj_outputs :: "jobj option"
  pj_created_at :: time
  pj_updated_at :: time

lemma phase_all [simp]: "p \<in> set all_phases"
  by (cases p) (simp_all add: all_phases_def)

lemma phase_value_inj [simp]: "phase_value p = phase_value q \<longleftrightarrow> p = q"
  by (cases p; cases q) simp_all

lemma phase_of_value: "phase_of (phase_value p) = Some p"
  by (cases p) (simp_all add: phase_of_def all_phases_def)

lemma phase_of_Some: "phase_of s = Some p \<longleftrightarrow> s = phase_value p"
proof
  assume "phase_of s = Some p"
  then show "s = phase_value p"
    unfolding phase_of_def by (auto dest: find_in)
qed (simp add: phase_of_value)

lemma claimable_iff: "p \<in> set CLAIMABLE_PHASES \<longleftrightarrow> \<not> is_terminal p"
  by (cases p) (simp_all add: CLAIMABLE_PHASES_def NON_TERMINAL_NON_CANCELLING_def is_terminal_def)

lemma in_flight_iff: "p \<in> set NON_TERMINAL_NON_CANCELLING \<longleftrightarrow> \<not> is_terminal p \<and> p \<noteq> CANCELLING"
  by (cases p) (simp_all add: NON_TERMINAL_NON_CANCELLING_def is_terminal_def)

lemma is_terminal_simps [simp]:
  "\<not> is_terminal PENDING" "\<not> is_terminal PREFLIGHT" "\<not> is_terminal PROVISIONING"
  "\<not> is_terminal BOOTSTRAPPING" "is_terminal READY" "is_terminal FAILED"
  "\<not> is_terminal CANCELLING" "is_terminal TERMINATED"
  by (simp_all add: is_terminal_def)

text \<open>
  The edges the phase machine may take: forward one stage at a time, into failed or cancelling
  from anything in flight, from cancelling to terminated or failed, and the operator's edges:
  a retry (failed to preflight) and a deprovision (ready or failed to cancelling).
\<close>

fun phase_edge :: "phase \<Rightarrow> phase \<Rightarrow> bool" where
  "phase_edge PENDING q = (q \<in> {PREFLIGHT, FAILED, CANCELLING})"
| "phase_edge PREFLIGHT q = (q \<in> {PROVISIONING, FAILED, CANCELLING})"
| "phase_edge PROVISIONING q = (q \<in> {BOOTSTRAPPING, FAILED, CANCELLING})"
| "phase_edge BOOTSTRAPPING q = (q \<in> {READY, FAILED, CANCELLING})"
| "phase_edge READY q = (q = CANCELLING)"
| "phase_edge FAILED q = (q \<in> {PREFLIGHT, CANCELLING})"
| "phase_edge CANCELLING q = (q \<in> {TERMINATED, FAILED})"
| "phase_edge TERMINATED q = False"

end
