(* ===== verification/Database.thy ===== *)
theory Database
  imports ProvJob
begin

text \<open>
  The database the repositories share: one record per table row, one record for the tables, and
  the two DELETE statements whose effect depends on foreign keys.  The columns are those the
  Python code reads or writes; NULL is None.

  The foreign keys modelled: \<^verbatim>\<open>provisioning_jobs.node_id\<close> and \<^verbatim>\<open>allocations.node_id\<close> cascade
  from \<^verbatim>\<open>compute_inventory\<close>; \<^verbatim>\<open>compute_inventory.pool_id\<close>, \<^verbatim>\<open>model_deployments.pool_id\<close>,
  \<^verbatim>\<open>worker_bootstrap_tokens.pool_id\<close> and \<^verbatim>\<open>autoscaler_state.pool_id\<close> cascade from
  \<^verbatim>\<open>compute_pools\<close>; \<^verbatim>\<open>model_deployments.target_node_id\<close> and \<^verbatim>\<open>target_pool_id\<close> are NO ACTION.
  The table \<^verbatim>\<open>workload_assignments\<close> is never written by the code and is left out.
\<close>

section \<open>Rows\<close>

record node =
  ci_id :: uuid
  ci_pool_id :: uuid
  ci_provider :: string
  ci_provider_instance_id :: string
  ci_provider_resource_id :: "uuid option"
  ci_hostname :: "string option"
  ci_node_name :: "string option"
  ci_agent_kind :: string
  ci_state :: string
  ci_gpu_total :: "int option"
  ci_gpu_allocated :: int
  ci_vcpu_total :: "int option"
  ci_vcpu_allocated :: int
  ci_ram_gb_total :: "int option"
  ci_ram_gb_allocated :: int
  ci_health_score :: int
  ci_last_heartbeat :: "time option"
  ci_metadata :: "jobj option"
  ci_labels :: jobj
  ci_node_class :: string
  ci_instance_class :: "string option"
  ci_instance_type :: "string option"
  ci_expose_url :: "string option"
  ci_advertise_url :: "string option"
  ci_created_at :: time
  ci_updated_at :: time

record pool =
  cp_id :: uuid
  cp_pool_name :: string
  cp_owner_type :: string
  cp_owner_id :: "string option"
  cp_org_id :: "string option"
  cp_provider :: string
  cp_pool_type :: string
  cp_allowed_gpu_types :: "string list"
  cp_gpu_count :: int
  cp_max_cost_per_hour :: real
  cp_is_dedicated :: bool
  cp_is_active :: bool
  cp_lifecycle_state :: string
  cp_scheduling_policy :: jobj
  cp_provider_pool_id :: "string option"
  cp_provider_credential_name :: "string option"
  cp_cluster_id :: "string option"
  cp_region_constraint :: "string list option"
  cp_max_nodes :: "int option"
  cp_inference_token :: "string option"
  cp_metadata :: "jobj option"
  cp_created_at :: time
  cp_updated_at :: time

record deployment =
  md_id :: uuid
  md_model_id :: "uuid option"
  md_model_name :: "string option"
  md_engine :: "string option"
  md_configuration :: "jobj option"
  md_endpoint :: "string option"
  md_owner_id :: "string option"
  md_org_id :: "string option"
  md_policies :: "string option"
  md_inference_model :: "string option"
  md_model_type :: "string option"
  md_pool_id :: uuid
  md_replicas :: int
  md_gpu_per_replica :: int
  md_state :: string
  md_error_message :: "string option"
  md_llmd_resource_name :: "string option"
  md_allocation_ids :: "uuid list option"
  md_node_ids :: "uuid list option"
  md_target_pool_id :: "uuid option"
  md_target_node_id :: "uuid option"
  md_auto_replica_enabled :: bool
  md_tokens_per_second_threshold :: "real option"
  md_auto_replica_last_scale_at :: "time option"
  md_created_at :: time
  md_updated_at :: time

record prov_event =
  ev_id :: nat
  ev_pool_id :: uuid
  ev_node_id :: "uuid option"
  ev_phase :: string
  ev_status :: string
  ev_message :: "string option"
  ev_extra :: jobj
  ev_created_at :: time

record bootstrap_token =
  bt_id :: uuid
  bt_token_hash :: string
  bt_pool_id :: uuid
  bt_org_id :: string
  bt_expires_at :: time
  bt_consumed_at :: "time option"
  bt_consumed_node_id :: "uuid option"
  bt_created_at :: time

record allocation =
  al_id :: uuid
  al_node_id :: uuid
  al_gpu :: int
  al_vcpu :: int
  al_ram_gb :: int
  al_priority :: int
  al_preemptible :: bool
  al_owner_type :: string
  al_owner_id :: string
  al_node_class :: string
  al_created_at :: time
  al_released_at :: "time option"

record quota =
  qu_owner_type :: string
  qu_owner_id :: string
  qu_max_gpu :: "int option"
  qu_max_vcpu :: "int option"
  qu_max_ram_gb :: "int option"
  qu_max_allocations :: "int option"

record usage =
  us_owner_type :: string
  us_owner_id :: string
  us_gpu_in_use :: int
  us_vcpu_in_use :: int
  us_ram_gb_in_use :: int
  us_allocations :: int

record scaler_state =
  as_pool_id :: uuid
  as_last_scale_at :: "time option"
  as_consecutive_failures :: int

section \<open>Tables\<close>

record db =
  db_now :: time
  db_jobs :: "prov_job list"
  db_nodes :: "node list"
  db_pools :: "pool list"
  db_deps :: "deployment list"
  db_events :: "prov_event list"
  db_event_seq :: nat
  db_tokens :: "bootstrap_token list"
  db_allocs :: "allocation list"
  db_quotas :: "quota list"
  db_usage :: "usage list"
  db_scalers :: "scaler_state list"

definition empty_db :: db where
  "empty_db = \<lparr>db_now = 0, db_jobs = [], db_nodes = [], db_pools = [], db_deps = [], db_events = [],
     db_event_seq = 1, db_tokens = [], db_allocs = [], db_quotas = [], db_usage = [], db_scalers = []\<rparr>"

text \<open>What a statement raises: the constraint violations the code can meet.\<close>

datatype sql_error = ForeignKeyViolation string | UniqueViolation string | InvalidEnum string
  | NotNullViolation string | DataError string

type_synonym 'a tx = "sql_error + 'a"

text \<open>The labels of the Postgres enum node_state, with the value a later migration adds.\<close>

definition node_states :: "string list" where
  "node_states = [''provisioning'', ''ready'', ''busy'', ''draining'', ''unhealthy'', ''terminated'',
     ''failed'']"

text \<open>The text \<^verbatim>\<open>metadata ->> key\<close> of a nullable jsonb column.\<close>

definition meta_field :: "node \<Rightarrow> string \<Rightarrow> string option" where
  "meta_field n k = (case ci_metadata n of None \<Rightarrow> None | Some m \<Rightarrow> jfield m k)"

definition terminating :: "node \<Rightarrow> bool" where
  "terminating n \<longleftrightarrow> meta_field n ''terminating'' = Some ''true''"

text \<open>\<^verbatim>\<open>COALESCE(metadata, '{}') || patch\<close>.\<close>

definition meta_merge :: "jobj \<Rightarrow> node \<Rightarrow> jobj option" where
  "meta_merge patch n = Some (jmerge (case ci_metadata n of None \<Rightarrow> [] | Some m \<Rightarrow> m) patch)"

section \<open>Deletes with foreign keys\<close>

definition delete_node_row :: "uuid \<Rightarrow> db \<Rightarrow> db tx" where
  "delete_node_row nid d =
    (if sql_count (\<lambda>n. ci_id n = nid) (db_nodes d) > 0
        \<and> sql_count (\<lambda>m. md_target_node_id m = Some nid) (db_deps d) > 0
     then Inl (ForeignKeyViolation ''model_deployments.target_node_id'')
     else Inr (if sql_count (\<lambda>n. ci_id n = nid) (db_nodes d) = 0 then d
       else d\<lparr>db_nodes := sql_delete (\<lambda>n. ci_id n = nid) (db_nodes d),
              db_jobs := sql_delete (\<lambda>j. pj_node_id j = nid) (db_jobs d),
              db_allocs := sql_delete (\<lambda>a. al_node_id a = nid) (db_allocs d)\<rparr>))"

definition delete_pool_row :: "uuid \<Rightarrow> db \<Rightarrow> db tx" where
  "delete_pool_row pid d =
    (if sql_count (\<lambda>p. cp_id p = pid) (db_pools d) = 0 then Inr d
     else let gone = map ci_id (filter (\<lambda>n. ci_pool_id n = pid) (db_nodes d));
              deps = sql_delete (\<lambda>m. md_pool_id m = pid) (db_deps d) in
       if sql_count (\<lambda>m. md_target_pool_id m = Some pid) deps > 0
       then Inl (ForeignKeyViolation ''model_deployments.target_pool_id'')
       else if sql_count (\<lambda>m. \<exists>nid \<in> set gone. md_target_node_id m = Some nid) deps > 0
       then Inl (ForeignKeyViolation ''model_deployments.target_node_id'')
       else Inr (d\<lparr>db_pools := sql_delete (\<lambda>p. cp_id p = pid) (db_pools d),
                   db_deps := deps,
                   db_nodes := sql_delete (\<lambda>n. ci_pool_id n = pid) (db_nodes d),
                   db_jobs := sql_delete (\<lambda>j. pj_node_id j \<in> set gone) (db_jobs d),
                   db_allocs := sql_delete (\<lambda>a. al_node_id a \<in> set gone) (db_allocs d),
                   db_tokens := sql_delete (\<lambda>t. bt_pool_id t = pid) (db_tokens d),
                   db_scalers := sql_delete (\<lambda>s. as_pool_id s = pid) (db_scalers d)\<rparr>))"

section \<open>Integrity\<close>

text \<open>Primary keys are distinct and every reference modelled points at a row.\<close>

definition keys_ok :: "db \<Rightarrow> bool" where
  "keys_ok d \<longleftrightarrow> distinct (map pj_id (db_jobs d)) \<and> distinct (map ci_id (db_nodes d))
     \<and> distinct (map cp_id (db_pools d)) \<and> distinct (map md_id (db_deps d))
     \<and> distinct (map bt_token_hash (db_tokens d)) \<and> distinct (map al_id (db_allocs d))"

definition refs_ok :: "db \<Rightarrow> bool" where
  "refs_ok d \<longleftrightarrow>
     list_all (\<lambda>j. pj_node_id j \<in> ci_id ` set (db_nodes d)) (db_jobs d)
   \<and> list_all (\<lambda>a. al_node_id a \<in> ci_id ` set (db_nodes d)) (db_allocs d)
   \<and> list_all (\<lambda>n. ci_pool_id n \<in> cp_id ` set (db_pools d)) (db_nodes d)
   \<and> list_all (\<lambda>m. md_pool_id m \<in> cp_id ` set (db_pools d)
        \<and> (case md_target_pool_id m of None \<Rightarrow> True | Some p \<Rightarrow> p \<in> cp_id ` set (db_pools d))
        \<and> (case md_target_node_id m of None \<Rightarrow> True | Some n \<Rightarrow> n \<in> ci_id ` set (db_nodes d)))
      (db_deps d)
   \<and> list_all (\<lambda>t. bt_pool_id t \<in> cp_id ` set (db_pools d)) (db_tokens d)
   \<and> list_all (\<lambda>s. as_pool_id s \<in> cp_id ` set (db_pools d)) (db_scalers d)"

lemma distinct_sql_delete: "distinct (map f t) \<Longrightarrow> distinct (map f (sql_delete p t))"
  by (simp add: sql_delete_def distinct_map_filter)

lemma delete_node_row_Inr:
  assumes "delete_node_row nid d = Inr d'" "sql_count (\<lambda>n. ci_id n = nid) (db_nodes d) \<noteq> 0"
  shows "d' = d\<lparr>db_nodes := sql_delete (\<lambda>n. ci_id n = nid) (db_nodes d),
              db_jobs := sql_delete (\<lambda>j. pj_node_id j = nid) (db_jobs d),
              db_allocs := sql_delete (\<lambda>a. al_node_id a = nid) (db_allocs d)\<rparr>"
    and "\<forall>m \<in> set (db_deps d). md_target_node_id m \<noteq> Some nid"
proof -
  show "d' = d\<lparr>db_nodes := sql_delete (\<lambda>n. ci_id n = nid) (db_nodes d),
              db_jobs := sql_delete (\<lambda>j. pj_node_id j = nid) (db_jobs d),
              db_allocs := sql_delete (\<lambda>a. al_node_id a = nid) (db_allocs d)\<rparr>"
    using assms unfolding delete_node_row_def by (simp split: if_splits)
  have "\<not> sql_count (\<lambda>m. md_target_node_id m = Some nid) (db_deps d) > 0"
    using assms unfolding delete_node_row_def by (simp split: if_splits)
  then show "\<forall>m \<in> set (db_deps d). md_target_node_id m \<noteq> Some nid"
    by (simp add: sql_count_0)
qed

lemma delete_node_row_refs:
  assumes "refs_ok d" "delete_node_row nid d = Inr d'"
  shows "refs_ok d'"
proof (cases "sql_count (\<lambda>n. ci_id n = nid) (db_nodes d) = 0")
  case True
  with assms show ?thesis
    by (simp add: delete_node_row_def)
next
  case False
  note d' = delete_node_row_Inr [OF assms(2) False]
  show ?thesis
    using assms(1) d'(2) unfolding d'(1) refs_ok_def
    by (fastforce simp: list_all_iff split: option.splits)
qed

lemma delete_pool_row_Inr:
  assumes "delete_pool_row pid d = Inr d'" "sql_count (\<lambda>p. cp_id p = pid) (db_pools d) \<noteq> 0"
  defines "gone \<equiv> map ci_id (filter (\<lambda>n. ci_pool_id n = pid) (db_nodes d))"
    and "deps \<equiv> sql_delete (\<lambda>m. md_pool_id m = pid) (db_deps d)"
  shows "d' = d\<lparr>db_pools := sql_delete (\<lambda>p. cp_id p = pid) (db_pools d),
                   db_deps := deps,
                   db_nodes := sql_delete (\<lambda>n. ci_pool_id n = pid) (db_nodes d),
                   db_jobs := sql_delete (\<lambda>j. pj_node_id j \<in> set gone) (db_jobs d),
                   db_allocs := sql_delete (\<lambda>a. al_node_id a \<in> set gone) (db_allocs d),
                   db_tokens := sql_delete (\<lambda>t. bt_pool_id t = pid) (db_tokens d),
                   db_scalers := sql_delete (\<lambda>s. as_pool_id s = pid) (db_scalers d)\<rparr>"
    and "\<forall>m \<in> set deps. md_target_pool_id m \<noteq> Some pid"
    and "\<forall>m \<in> set deps. \<forall>nid \<in> set gone. md_target_node_id m \<noteq> Some nid"
proof -
  have *: "sql_count (\<lambda>m. md_target_pool_id m = Some pid) deps = 0"
    "sql_count (\<lambda>m. \<exists>nid \<in> set gone. md_target_node_id m = Some nid) deps = 0"
    using assms(1,2) unfolding delete_pool_row_def Let_def gone_def [symmetric] deps_def [symmetric]
    by (simp_all split: if_splits)
  then show "\<forall>m \<in> set deps. md_target_pool_id m \<noteq> Some pid"
    "\<forall>m \<in> set deps. \<forall>nid \<in> set gone. md_target_node_id m \<noteq> Some nid"
    unfolding sql_count_0 by blast+
  show "d' = d\<lparr>db_pools := sql_delete (\<lambda>p. cp_id p = pid) (db_pools d),
                   db_deps := deps,
                   db_nodes := sql_delete (\<lambda>n. ci_pool_id n = pid) (db_nodes d),
                   db_jobs := sql_delete (\<lambda>j. pj_node_id j \<in> set gone) (db_jobs d),
                   db_allocs := sql_delete (\<lambda>a. al_node_id a \<in> set gone) (db_allocs d),
                   db_tokens := sql_delete (\<lambda>t. bt_pool_id t = pid) (db_tokens d),
                   db_scalers := sql_delete (\<lambda>s. as_pool_id s = pid) (db_scalers d)\<rparr>"
    using assms(1,2) * unfolding delete_pool_row_def Let_def gone_def [symmetric] deps_def [symmetric]
    by simp
qed

lemma delete_pool_row_refs:
  assumes "refs_ok d" "delete_pool_row pid d = Inr d'"
  shows "refs_ok d'"
proof (cases "sql_count (\<lambda>p. cp_id p = pid) (db_pools d) = 0")
  case True
  with assms show ?thesis
    by (simp add: delete_pool_row_def)
next
  case False
  note d' = delete_pool_row_Inr [OF assms(2) False]
  show ?thesis
    using assms(1) d'(2,3) unfolding d'(1) refs_ok_def
    by (fastforce simp: list_all_iff split: option.splits)
qed

section \<open>Sample rows\<close>

text \<open>Concrete rows the witnesses of the components start from.\<close>

definition sample_node :: "uuid \<Rightarrow> uuid \<Rightarrow> string \<Rightarrow> int \<Rightarrow> int \<Rightarrow> node" where
  "sample_node i p st gpus alloc = \<lparr>ci_id = i, ci_pool_id = p, ci_provider = ''aws'',
     ci_provider_instance_id = i, ci_provider_resource_id = None, ci_hostname = None,
     ci_node_name = Some i, ci_agent_kind = ''worker'', ci_state = st,
     ci_gpu_total = Some gpus, ci_gpu_allocated = alloc, ci_vcpu_total = Some 8,
     ci_vcpu_allocated = 0, ci_ram_gb_total = Some 64, ci_ram_gb_allocated = 0,
     ci_health_score = 100, ci_last_heartbeat = None, ci_metadata = Some [], ci_labels = [],
     ci_node_class = ''spot'', ci_instance_class = None, ci_instance_type = None,
     ci_expose_url = None, ci_advertise_url = None, ci_created_at = 0, ci_updated_at = 0\<rparr>"

definition sample_pool :: "uuid \<Rightarrow> string \<Rightarrow> pool" where
  "sample_pool i st = \<lparr>cp_id = i, cp_pool_name = i, cp_owner_type = ''organization'',
     cp_owner_id = Some ''org'', cp_org_id = Some ''org'', cp_provider = ''aws'', cp_pool_type = ''job'',
     cp_allowed_gpu_types = [''any''], cp_gpu_count = 1, cp_max_cost_per_hour = 0,
     cp_is_dedicated = False, cp_is_active = True, cp_lifecycle_state = st,
     cp_scheduling_policy = [], cp_provider_pool_id = None, cp_provider_credential_name = None,
     cp_cluster_id = None, cp_region_constraint = None, cp_max_nodes = Some 4,
     cp_inference_token = None, cp_metadata = None, cp_created_at = 0, cp_updated_at = 0\<rparr>"

definition sample_dep :: "uuid \<Rightarrow> uuid \<Rightarrow> string \<Rightarrow> uuid option \<Rightarrow> int \<Rightarrow> deployment" where
  "sample_dep i p st target gpus = \<lparr>md_id = i, md_model_id = None, md_model_name = Some ''m'',
     md_engine = Some ''vllm'', md_configuration = None, md_endpoint = None, md_owner_id = None,
     md_org_id = Some ''org'', md_policies = None, md_inference_model = None,
     md_model_type = Some ''inference'', md_pool_id = p, md_replicas = 1, md_gpu_per_replica = gpus,
     md_state = st, md_error_message = None, md_llmd_resource_name = None,
     md_allocation_ids = None, md_node_ids = None, md_target_pool_id = Some p,
     md_target_node_id = target, md_auto_replica_enabled = False,
     md_tokens_per_second_threshold = None, md_auto_replica_last_scale_at = None,
     md_created_at = 0, md_updated_at = 0\<rparr>"

definition sample_job :: "uuid \<Rightarrow> uuid \<Rightarrow> phase \<Rightarrow> (string \<times> time) option \<Rightarrow> time \<Rightarrow> prov_job" where
  "sample_job i n ph lease upd = \<lparr>pj_id = i, pj_node_id = n, pj_pool_id = ''p'', pj_org_id = ''org'',
     pj_provider = ''aws'', pj_spec = [(''region'', JStr ''us-east-1'')], pj_phase = ph, pj_attempt_count = 0,
     pj_next_attempt_after = None, pj_last_error_code = None, pj_last_error_message = None,
     pj_last_error_hint = None, pj_error_class = None, pj_lease_holder = map_option fst lease,
     pj_lease_expires_at = map_option snd lease, pj_outputs = None, pj_created_at = 0,
     pj_updated_at = upd\<rparr>"

end
