(* ===== verification/InventoryRepo.thy ===== *)
theory InventoryRepo
  imports Database
begin

text \<open>
  \<^verbatim>\<open>repositories/inventory_repo.py\<close>, the methods that change \<^verbatim>\<open>compute_inventory\<close>: registration and
  heartbeats, state changes, GPU reservation, the purge of a node, worker registration, labels.
  Identifiers drawn by \<^verbatim>\<open>uuid4\<close> or by a column default are arguments.  A statement that
  violates a constraint returns the error and leaves the tables as they were.
\<close>

section \<open>Rows and constraints\<close>

definition update_nodes :: "(node \<Rightarrow> bool) \<Rightarrow> (node \<Rightarrow> node) \<Rightarrow> db \<Rightarrow> db" where
  "update_nodes p f d = d\<lparr>db_nodes := sql_update p f (db_nodes d)\<rparr>"

definition update_deps :: "(deployment \<Rightarrow> bool) \<Rightarrow> (deployment \<Rightarrow> deployment) \<Rightarrow> db \<Rightarrow> db" where
  "update_deps p f d = d\<lparr>db_deps := sql_update p f (db_deps d)\<rparr>"

text \<open>A row of \<^verbatim>\<open>compute_inventory\<close> with the column defaults.\<close>

definition blank_node :: "uuid \<Rightarrow> uuid \<Rightarrow> string \<Rightarrow> string \<Rightarrow> string \<Rightarrow> time \<Rightarrow> node" where
  "blank_node i pool prov inst st now = \<lparr>ci_id = i, ci_pool_id = pool, ci_provider = prov,
     ci_provider_instance_id = inst, ci_provider_resource_id = None, ci_hostname = None,
     ci_node_name = None, ci_agent_kind = ''unknown'', ci_state = st,
     ci_gpu_total = None, ci_gpu_allocated = 0, ci_vcpu_total = None, ci_vcpu_allocated = 0,
     ci_ram_gb_total = None, ci_ram_gb_allocated = 0, ci_health_score = 100,
     ci_last_heartbeat = None, ci_metadata = None, ci_labels = [], ci_node_class = ''on_demand'',
     ci_instance_class = None, ci_instance_type = None, ci_expose_url = None,
     ci_advertise_url = None, ci_created_at = now, ci_updated_at = now\<rparr>"

definition same_instance :: "string \<Rightarrow> string \<Rightarrow> node \<Rightarrow> bool" where
  "same_instance prov inst n \<longleftrightarrow> ci_provider n = prov \<and> ci_provider_instance_id n = inst"

text \<open>The partial unique index on (pool_id, node_name) of worker rows.\<close>

definition same_worker_name :: "node \<Rightarrow> node \<Rightarrow> bool" where
  "same_worker_name a b \<longleftrightarrow> ci_agent_kind a = ''worker'' \<and> ci_agent_kind b = ''worker''
     \<and> ci_pool_id a = ci_pool_id b \<and> ci_node_name a \<noteq> None \<and> ci_node_name a = ci_node_name b"

definition node_insert_error :: "node \<Rightarrow> db \<Rightarrow> sql_error option" where
  "node_insert_error n d =
    (if ci_state n \<notin> set node_states then Some (InvalidEnum ''node_state'')
     else if ci_id n \<in> ci_id ` set (db_nodes d) then Some (UniqueViolation ''compute_inventory.id'')
     else if sql_count (same_instance (ci_provider n) (ci_provider_instance_id n)) (db_nodes d) > 0
     then Some (UniqueViolation ''compute_inventory.provider_instance_id'')
     else if sql_count (same_worker_name n) (db_nodes d) > 0
     then Some (UniqueViolation ''compute_inventory.node_name'')
     else if ci_pool_id n \<notin> cp_id ` set (db_pools d)
     then Some (ForeignKeyViolation ''compute_inventory.pool_id'')
     else None)"

definition insert_node :: "node \<Rightarrow> db \<Rightarrow> (db \<times> uuid) tx" where
  "insert_node n d = (case node_insert_error n d of
     Some e \<Rightarrow> Inl e
   | None \<Rightarrow> Inr (d\<lparr>db_nodes := db_nodes d @ [n]\<rparr>, ci_id n))"

section \<open>Registration and heartbeats\<close>

definition inven_register_node ::
  "uuid \<Rightarrow> uuid \<Rightarrow> string \<Rightarrow> string \<Rightarrow> string \<Rightarrow> int \<Rightarrow> int \<Rightarrow> int \<Rightarrow> string \<Rightarrow> db \<Rightarrow> (db \<times> uuid) tx" where
  "inven_register_node i pool prov inst hostname gpu vcpu ram st d =
     insert_node ((blank_node i pool prov inst st (db_now d))\<lparr>ci_hostname := Some hostname,
       ci_gpu_total := Some gpu, ci_vcpu_total := Some vcpu, ci_ram_gb_total := Some ram\<rparr>) d"

text \<open>\<^verbatim>\<open>NodeState.from_incoming\<close> of \<^verbatim>\<open>constants.py\<close>.\<close>

definition from_incoming :: "string \<Rightarrow> string" where
  "from_incoming st = (case map_of [(''failed'', ''unhealthy''), (''completed'', ''terminated'')] (py_lower st)
     of Some v \<Rightarrow> v | None \<Rightarrow> st)"

record heartbeat_data =
  hb_provider :: string
  hb_provider_instance_id :: string
  hb_old_provider_instance_id :: "string option"
  hb_gpu_allocated :: int
  hb_vcpu_allocated :: int
  hb_ram_gb_allocated :: int
  hb_health_score :: int
  hb_state :: string
  hb_expose_url :: "string option"

text \<open>A deployment is bound to a node by its node list or by its target.\<close>

definition bound_to :: "uuid \<Rightarrow> deployment \<Rightarrow> bool" where
  "bound_to nid m \<longleftrightarrow> (case md_node_ids m of None \<Rightarrow> False | Some ns \<Rightarrow> nid \<in> set ns)
     \<or> md_target_node_id m = Some nid"

definition push_endpoint :: "uuid \<Rightarrow> string \<Rightarrow> db \<Rightarrow> db" where
  "push_endpoint nid url d =
     update_deps (\<lambda>m. bound_to nid m \<and> (md_endpoint m = None \<or> md_endpoint m \<noteq> Some url))
       (\<lambda>m. m\<lparr>md_endpoint := Some url, md_updated_at := db_now d\<rparr>) d"

text \<open>
  The two statements of \<^verbatim>\<open>heartbeat\<close> run without a transaction: when the second fails, the swap
  of the instance id has been committed.
\<close>

definition swap_instance :: "heartbeat_data \<Rightarrow> db \<Rightarrow> db tx" where
  "swap_instance h d = (case hb_old_provider_instance_id h of
     None \<Rightarrow> Inr d
   | Some old \<Rightarrow>
       if old = [] then Inr d
       else if old \<noteq> hb_provider_instance_id h
         \<and> sql_count (same_instance (hb_provider h) old) (db_nodes d) > 0
         \<and> sql_count (same_instance (hb_provider h) (hb_provider_instance_id h)) (db_nodes d) > 0
       then Inl (UniqueViolation ''compute_inventory.provider_instance_id'')
       else Inr (update_nodes (same_instance (hb_provider h) old)
              (\<lambda>n. n\<lparr>ci_provider_instance_id := hb_provider_instance_id h, ci_updated_at := db_now d\<rparr>) d))"

definition heartbeat :: "heartbeat_data \<Rightarrow> db \<Rightarrow> db \<times> (uuid \<times> string option) option tx" where
  "heartbeat h d = (let st = from_incoming (hb_state h) in
    case swap_instance h d of
      Inl e \<Rightarrow> (d, Inl e)
    | Inr d1 \<Rightarrow>
        if st \<notin> set node_states then (d1, Inl (InvalidEnum ''node_state''))
        else let p = same_instance (hb_provider h) (hb_provider_instance_id h);
                 d2 = update_nodes p (\<lambda>n. n\<lparr>ci_gpu_allocated := hb_gpu_allocated h,
                        ci_vcpu_allocated := hb_vcpu_allocated h,
                        ci_ram_gb_allocated := hb_ram_gb_allocated h,
                        ci_health_score := hb_health_score h, ci_state := st,
                        ci_expose_url := hb_expose_url h, ci_last_heartbeat := Some (db_now d),
                        ci_updated_at := db_now d\<rparr>) d1
             in case find p (db_nodes d1) of
                  None \<Rightarrow> (d2, Inr None)
                | Some n \<Rightarrow> ((case hb_expose_url h of
                      Some url \<Rightarrow> if url = [] then d2 else push_endpoint (ci_id n) url d2
                    | None \<Rightarrow> d2), Inr (Some (ci_id n, hb_expose_url h))))"

definition mark_unhealthy :: "real \<Rightarrow> db \<Rightarrow> db \<times> uuid list" where
  "mark_unhealthy timeout_seconds d =
    (let p = (\<lambda>n. ci_state n \<in> set [''ready'', ''busy'']
            \<and> (case ci_last_heartbeat n of None \<Rightarrow> False | Some t \<Rightarrow> timeout_seconds < db_now d - t)
            \<and> ci_node_class n \<noteq> ''cluster'')
     in (update_nodes p (\<lambda>n. n\<lparr>ci_state := ''unhealthy'', ci_updated_at := db_now d\<rparr>) d,
         map ci_id (filter p (db_nodes d))))"

definition ensure_node_exists ::
  "uuid \<Rightarrow> uuid \<Rightarrow> string \<Rightarrow> string \<Rightarrow> string \<Rightarrow> int \<Rightarrow> int \<Rightarrow> int \<Rightarrow> db \<Rightarrow> db tx" where
  "ensure_node_exists i pool prov inst hostname gpu vcpu ram d =
    (if sql_count (same_instance prov inst) (db_nodes d) > 0 then Inr d
     else (case insert_node ((blank_node i pool prov inst ''provisioning'' (db_now d))
             \<lparr>ci_hostname := Some hostname, ci_gpu_total := Some gpu, ci_vcpu_total := Some vcpu,
              ci_ram_gb_total := Some ram, ci_last_heartbeat := Some (db_now d)\<rparr>) d of
           Inl e \<Rightarrow> Inl e | Inr (d', _) \<Rightarrow> Inr d'))"

definition mark_ready_after_boot :: "db \<Rightarrow> db \<times> nat" where
  "mark_ready_after_boot d =
    (let p = (\<lambda>n. ci_state n = ''provisioning'' \<and> ci_created_at n \<le> db_now d - 60)
     in (update_nodes p (\<lambda>n. n\<lparr>ci_state := ''unhealthy'', ci_updated_at := db_now d\<rparr>) d,
         sql_count p (db_nodes d)))"

definition coalesce :: "'a option \<Rightarrow> 'a option \<Rightarrow> 'a option" where
  "coalesce a b = (case a of None \<Rightarrow> b | Some x \<Rightarrow> Some x)"

definition register_node ::
  "uuid \<Rightarrow> uuid \<Rightarrow> string \<Rightarrow> string \<Rightarrow> uuid option \<Rightarrow> string \<Rightarrow> int \<Rightarrow> int \<Rightarrow> int \<Rightarrow> string \<Rightarrow> string
    \<Rightarrow> jobj \<Rightarrow> string option \<Rightarrow> db \<Rightarrow> (db \<times> uuid) tx" where
  "register_node i pool prov inst res hostname gpu vcpu ram st node_class metadata expose_url d =
    (if st \<notin> set node_states then Inl (InvalidEnum ''node_state'')
     else (case find (same_instance prov inst) (db_nodes d) of
       Some n \<Rightarrow> Inr (update_nodes (same_instance prov inst)
           (\<lambda>n. n\<lparr>ci_expose_url := coalesce (ci_expose_url n) expose_url, ci_state := st,
                  ci_last_heartbeat := Some (db_now d), ci_updated_at := db_now d\<rparr>) d, ci_id n)
     | None \<Rightarrow> insert_node ((blank_node i pool prov inst st (db_now d))
           \<lparr>ci_provider_resource_id := res, ci_hostname := Some hostname, ci_gpu_total := Some gpu,
            ci_vcpu_total := Some vcpu, ci_ram_gb_total := Some ram, ci_node_class := node_class,
            ci_metadata := Some metadata, ci_expose_url := expose_url,
            ci_last_heartbeat := Some (db_now d)\<rparr>) d))"

text \<open>\<^verbatim>\<open>u\<close> is the uuid of the sentinel instance id, \<^verbatim>\<open>i\<close> the generated row id.\<close>

definition create_provisioning_placeholder ::
  "uuid \<Rightarrow> uuid \<Rightarrow> uuid \<Rightarrow> string \<Rightarrow> string \<Rightarrow> string \<Rightarrow> string option \<Rightarrow> db \<Rightarrow> (db \<times> uuid) tx" where
  "create_provisioning_placeholder i u pool prov iclass itype node_name d =
    (let inst = ''placeholder:'' @ u in
     insert_node ((blank_node i pool prov inst ''provisioning'' (db_now d))
       \<lparr>ci_hostname := or_str node_name (Some inst), ci_agent_kind := ''worker'',
        ci_instance_class := Some iclass, ci_instance_type := Some itype,
        ci_node_name := node_name\<rparr>) d)"

definition create_placeholder ::
  "uuid \<Rightarrow> uuid \<Rightarrow> int \<Rightarrow> int \<Rightarrow> string \<Rightarrow> db \<Rightarrow> (db \<times> uuid) tx" where
  "create_placeholder i pool gpu_total initial_alloc agent_kind d =
    (case find (\<lambda>p. cp_id p = pool) (db_pools d) of
       None \<Rightarrow> Inl (NotNullViolation ''compute_inventory.provider'')
     | Some p \<Rightarrow> insert_node ((blank_node i pool (cp_provider p) (''placeholder:'' @ i) ''provisioning'' (db_now d))
         \<lparr>ci_hostname := Some [], ci_node_name := Some (''node-'' @ i), ci_agent_kind := agent_kind,
          ci_gpu_total := Some gpu_total, ci_gpu_allocated := initial_alloc,
          ci_vcpu_total := Some 0, ci_ram_gb_total := Some 0, ci_metadata := Some []\<rparr>) d)"

section \<open>State changes\<close>

definition mark_ready :: "uuid \<Rightarrow> time option \<Rightarrow> db \<Rightarrow> db" where
  "mark_ready nid hb d = update_nodes (\<lambda>n. ci_id n = nid \<and> ci_state n = ''provisioning'')
     (\<lambda>n. n\<lparr>ci_state := ''ready'', ci_last_heartbeat := hb, ci_updated_at := db_now d\<rparr>) d"

definition finalize_direct_node ::
  "uuid \<Rightarrow> string \<Rightarrow> string \<Rightarrow> int \<Rightarrow> int \<Rightarrow> int \<Rightarrow> string \<Rightarrow> jobj option \<Rightarrow> string option \<Rightarrow> db
    \<Rightarrow> (db \<times> bool) tx" where
  "finalize_direct_node nid inst hostname gpu vcpu ram node_class metadata expose_url d =
    (let p = (\<lambda>n. ci_id n = nid \<and> ci_state n = ''provisioning'') in
     case find p (db_nodes d) of
       None \<Rightarrow> Inr (d, False)
     | Some n \<Rightarrow>
         if sql_count (\<lambda>m. same_instance (ci_provider n) inst m \<and> ci_id m \<noteq> nid) (db_nodes d) > 0
         then Inl (UniqueViolation ''compute_inventory.provider_instance_id'')
         else Inr (update_nodes p (\<lambda>n. n\<lparr>ci_provider_instance_id := inst, ci_hostname := Some hostname,
                ci_gpu_total := Some gpu, ci_vcpu_total := Some vcpu, ci_ram_gb_total := Some ram,
                ci_node_class := node_class,
                ci_metadata := Some (case metadata of None \<Rightarrow> [] | Some m \<Rightarrow> m),
                ci_expose_url := expose_url, ci_state := ''ready'',
                ci_last_heartbeat := Some (db_now d), ci_updated_at := db_now d\<rparr>) d, True))"

definition update_heartbeat :: "uuid \<Rightarrow> time option \<Rightarrow> db \<Rightarrow> db" where
  "update_heartbeat nid hb d = update_nodes (\<lambda>n. ci_id n = nid)
     (\<lambda>n. n\<lparr>ci_last_heartbeat := hb, ci_updated_at := db_now d\<rparr>) d"

definition sync_node_deployments_endpoint :: "uuid \<Rightarrow> string option \<Rightarrow> db \<Rightarrow> db" where
  "sync_node_deployments_endpoint nid expose_url d = (case expose_url of
     None \<Rightarrow> d | Some url \<Rightarrow> if url = [] then d else push_endpoint nid url d)"

definition update_usage :: "uuid \<Rightarrow> int \<Rightarrow> int \<Rightarrow> int \<Rightarrow> int \<Rightarrow> db \<Rightarrow> db" where
  "update_usage nid gpu vcpu ram health d = update_nodes (\<lambda>n. ci_id n = nid)
     (\<lambda>n. n\<lparr>ci_gpu_allocated := gpu, ci_vcpu_allocated := vcpu, ci_ram_gb_allocated := ram,
            ci_health_score := health, ci_updated_at := db_now d\<rparr>) d"

definition mark_terminated :: "uuid \<Rightarrow> db \<Rightarrow> db" where
  "mark_terminated nid d = update_nodes (\<lambda>n. ci_id n = nid)
     (\<lambda>n. n\<lparr>ci_state := ''terminated'', ci_gpu_allocated := 0, ci_vcpu_allocated := 0,
            ci_ram_gb_allocated := 0, ci_updated_at := db_now d\<rparr>) d"

definition mark_destroy_failed :: "uuid \<Rightarrow> string \<Rightarrow> db \<Rightarrow> db" where
  "mark_destroy_failed nid reason d = update_nodes (\<lambda>n. ci_id n = nid)
     (\<lambda>n. n\<lparr>ci_metadata := meta_merge [(''destroy_failed'', JBool True), (''destroy_error'', JStr reason)] n,
            ci_updated_at := db_now d\<rparr>) d"

definition recycle_node :: "uuid \<Rightarrow> db \<Rightarrow> db" where
  "recycle_node nid d = update_nodes (\<lambda>n. ci_id n = nid)
     (\<lambda>n. n\<lparr>ci_state := ''ready'', ci_gpu_allocated := 0, ci_vcpu_allocated := 0,
            ci_ram_gb_allocated := 0, ci_updated_at := db_now d\<rparr>) d"

definition soft_delete_node :: "uuid \<Rightarrow> db \<Rightarrow> db" where
  "soft_delete_node nid d = update_nodes (\<lambda>n. ci_id n = nid)
     (\<lambda>n. n\<lparr>ci_state := ''terminated'', ci_updated_at := db_now d\<rparr>) d"

definition set_state :: "uuid \<Rightarrow> string \<Rightarrow> db \<Rightarrow> db tx" where
  "set_state nid st d = (if st \<notin> set node_states then Inl (InvalidEnum ''node_state'')
     else Inr (update_nodes (\<lambda>n. ci_id n = nid) (\<lambda>n. n\<lparr>ci_state := st, ci_updated_at := db_now d\<rparr>) d))"

text \<open>\<^verbatim>\<open>ts_text\<close> is the text Postgres prints for a timestamp.\<close>

definition mark_terminating_node :: "(time \<Rightarrow> string) \<Rightarrow> uuid \<Rightarrow> db \<Rightarrow> db" where
  "mark_terminating_node ts_text nid d = update_nodes (\<lambda>n. ci_id n = nid)
     (\<lambda>n. n\<lparr>ci_metadata := meta_merge [(''terminating'', JBool True),
              (''terminating_at'', JStr (ts_text (db_now d)))] n,
            ci_updated_at := db_now d\<rparr>) d"

definition clear_terminating_node :: "uuid \<Rightarrow> db \<Rightarrow> db" where
  "clear_terminating_node nid d = update_nodes (\<lambda>n. ci_id n = nid)
     (\<lambda>n. n\<lparr>ci_metadata := Some (jdelete ''terminating_at'' (jdelete ''terminating''
              (case ci_metadata n of None \<Rightarrow> [] | Some m \<Rightarrow> m))),
            ci_updated_at := db_now d\<rparr>) d"

section \<open>GPU reservation\<close>

definition gpu_fits :: "int \<Rightarrow> node \<Rightarrow> bool" where
  "gpu_fits count n \<longleftrightarrow> ci_state n \<in> set [''ready'', ''provisioning''] \<and> \<not> terminating n
     \<and> (case ci_gpu_total n of None \<Rightarrow> False | Some t \<Rightarrow> ci_gpu_allocated n + count \<le> t)"

definition allocate_gpu :: "uuid \<Rightarrow> int \<Rightarrow> db \<Rightarrow> db \<times> bool" where
  "allocate_gpu nid count d =
    (let p = (\<lambda>n. ci_id n = nid \<and> gpu_fits count n)
     in (update_nodes p (\<lambda>n. n\<lparr>ci_gpu_allocated := ci_gpu_allocated n + count\<rparr>) d,
         find p (db_nodes d) \<noteq> None))"

record release_result =
  rr_new_allocated :: int
  rr_should_destroy :: bool

definition active_on :: "uuid \<Rightarrow> deployment \<Rightarrow> bool" where
  "active_on nid m \<longleftrightarrow> md_target_node_id m = Some nid
     \<and> md_state m \<in> set [''PENDING_NODE'', ''DEPLOYING'', ''RUNNING'']"

definition release_gpu :: "uuid \<Rightarrow> int \<Rightarrow> db \<Rightarrow> db \<times> release_result" where
  "release_gpu nid count d =
    (let p = (\<lambda>n. ci_id n = nid \<and> ci_gpu_allocated n \<ge> count);
         d' = update_nodes p (\<lambda>n. n\<lparr>ci_gpu_allocated := ci_gpu_allocated n - count\<rparr>) d;
         no_pending = (sql_count (active_on nid) (db_deps d) = 0)
     in case find p (db_nodes d) of
          None \<Rightarrow> (d', \<lparr>rr_new_allocated =
              (case find (\<lambda>n. ci_id n = nid) (db_nodes d') of None \<Rightarrow> 0 | Some n \<Rightarrow> ci_gpu_allocated n),
            rr_should_destroy = False\<rparr>)
        | Some n \<Rightarrow>
            let new_alloc = ci_gpu_allocated n - count in
            if new_alloc \<noteq> 0 then (d', \<lparr>rr_new_allocated = new_alloc, rr_should_destroy = False\<rparr>)
            else (d', \<lparr>rr_new_allocated = 0, rr_should_destroy = no_pending\<rparr>))"

section \<open>Purge\<close>

definition purge_node :: "uuid \<Rightarrow> db \<Rightarrow> db tx" where
  "purge_node nid d =
    (let d1 = update_deps (\<lambda>m. md_target_node_id m = Some nid
                \<and> md_state m \<notin> set [''TERMINATED'', ''STOPPED'', ''FAILED''])
              (\<lambda>m. m\<lparr>md_state := ''FAILED'', md_error_message := Some ''node deleted'',
                     md_target_node_id := None, md_endpoint := None\<rparr>) d;
         d2 = update_deps (\<lambda>m. md_target_node_id m = Some nid) (\<lambda>m. m\<lparr>md_target_node_id := None\<rparr>) d1;
         d3 = d2\<lparr>db_events := sql_delete (\<lambda>e. ev_node_id e = Some nid) (db_events d2)\<rparr>;
         d4 = d3\<lparr>db_tokens := sql_delete (\<lambda>t. bt_consumed_node_id t = Some nid) (db_tokens d3)\<rparr>;
         d5 = d4\<lparr>db_jobs := sql_delete (\<lambda>j. pj_node_id j = nid) (db_jobs d4)\<rparr>
     in delete_node_row nid d5)"

section \<open>Workers\<close>

datatype inv_error = SqlError sql_error | DuplicateNodeError string | NodeNotFoundError string
  | NodeTerminatedError string | LabelConflictError string | ValueError string

text \<open>\<^verbatim>\<open>COALESCE((j ->> k)::int, 0)\<close>; None is a failing cast.\<close>

definition int_field :: "jobj \<Rightarrow> string \<Rightarrow> int option" where
  "int_field j k = (case jfield j k of None \<Rightarrow> Some 0 | Some s \<Rightarrow> text_to_int s)"

definition upsert_worker ::
  "uuid \<Rightarrow> uuid \<Rightarrow> string \<Rightarrow> string option \<Rightarrow> jobj \<Rightarrow> jobj option \<Rightarrow> db \<Rightarrow> inv_error + (db \<times> node)" where
  "upsert_worker i pool node_name advertise_url allocatable labels d =
    (let existing = find (\<lambda>n. ci_pool_id n = pool \<and> ci_node_name n = Some node_name) (db_nodes d);
         lab = (case labels of None \<Rightarrow> [] | Some l \<Rightarrow> l) in
     if (case existing of None \<Rightarrow> False | Some n \<Rightarrow> ci_agent_kind n \<noteq> ''worker'')
     then Inl (DuplicateNodeError (pool @ ''/'' @ node_name @ '' is held by a non-worker node''))
     else case (int_field allocatable ''gpu'', int_field allocatable ''cpu'', int_field allocatable ''memory_gb'') of
       (Some gpu, Some cpu, Some mem) \<Rightarrow>
         let new = (blank_node i pool ''on_prem'' (''worker-'' @ pool @ ''-'' @ node_name) ''provisioning'' (db_now d))
                     \<lparr>ci_node_name := Some node_name, ci_agent_kind := ''worker'',
                      ci_advertise_url := advertise_url, ci_gpu_total := Some gpu,
                      ci_vcpu_total := Some cpu, ci_ram_gb_total := Some mem,
                      ci_metadata := Some allocatable, ci_labels := lab\<rparr>;
             upd = (\<lambda>n. n\<lparr>ci_advertise_url := coalesce advertise_url (ci_advertise_url n),
                      ci_metadata := Some allocatable, ci_labels := jmerge (ci_labels n) lab,
                      ci_gpu_total := (if gpu > 0 then Some gpu else ci_gpu_total n),
                      ci_vcpu_total := (if cpu > 0 then Some cpu else ci_vcpu_total n),
                      ci_ram_gb_total := (if mem > 0 then Some mem else ci_ram_gb_total n),
                      ci_updated_at := db_now d\<rparr>)
         in (case find (same_worker_name new) (db_nodes d) of
               Some n \<Rightarrow> Inr (update_nodes (same_worker_name new) upd d, upd n)
             | None \<Rightarrow> (case insert_node new d of
                 Inl e \<Rightarrow> Inl (SqlError e)
               | Inr (d', _) \<Rightarrow> Inr (d', new)))
     | _ \<Rightarrow> Inl (SqlError (DataError ''integer'')))"

definition index_metrics :: "jobj list \<Rightarrow> jobj" where
  "index_metrics ms = foldl (\<lambda>acc m. case jget m ''deployment_id'' of
     JStr did \<Rightarrow> if did = [] then acc else AList.update did (JObj m) acc | _ \<Rightarrow> acc) [] ms"

definition update_heartbeat_with_telemetry ::
  "uuid \<Rightarrow> json \<Rightarrow> json \<Rightarrow> jobj list option \<Rightarrow> db \<Rightarrow> db" where
  "update_heartbeat_with_telemetry nid used loaded_models deploy_metrics d =
    (let d1 = update_nodes (\<lambda>n. ci_id n = nid)
           (\<lambda>n. n\<lparr>ci_last_heartbeat := Some (db_now d),
                  ci_metadata := meta_merge [(''used'', used), (''loaded_models'', loaded_models)] n,
                  ci_updated_at := db_now d\<rparr>) d
     in case deploy_metrics of
          None \<Rightarrow> d1
        | Some ms \<Rightarrow> if ms = [] then d1
            else update_nodes (\<lambda>n. ci_id n = nid)
              (\<lambda>n. n\<lparr>ci_metadata := meta_merge [(''deploy_metrics'', JObj (index_metrics ms))] n\<rparr>) d1)"

definition get_deploy_metrics :: "uuid \<Rightarrow> string \<Rightarrow> db \<Rightarrow> json option" where
  "get_deploy_metrics nid did d = (case find (\<lambda>n. ci_id n = nid) (db_nodes d) of
     None \<Rightarrow> None
   | Some n \<Rightarrow> (case ci_metadata n of None \<Rightarrow> None
     | Some m \<Rightarrow> (case jget m ''deploy_metrics'' of
         JObj idx \<Rightarrow> (case map_of idx did of None \<Rightarrow> None
           | Some v \<Rightarrow> if v = JNull then None else Some v)
       | _ \<Rightarrow> None)))"

definition mark_ready_worker :: "uuid \<Rightarrow> db \<Rightarrow> db" where
  "mark_ready_worker nid d = update_nodes
     (\<lambda>n. ci_id n = nid \<and> ci_state n = ''provisioning'' \<and> ci_agent_kind n = ''worker'')
     (\<lambda>n. n\<lparr>ci_state := ''ready'', ci_updated_at := db_now d\<rparr>) d"

definition mark_terminated_worker :: "uuid \<Rightarrow> db \<Rightarrow> db" where
  "mark_terminated_worker nid d = update_nodes (\<lambda>n. ci_id n = nid)
     (\<lambda>n. n\<lparr>ci_state := ''terminated'', ci_gpu_allocated := 0, ci_vcpu_allocated := 0,
            ci_ram_gb_allocated := 0, ci_updated_at := db_now d\<rparr>) d"

definition mark_deprovision_failed :: "uuid \<Rightarrow> string option \<Rightarrow> db \<Rightarrow> db" where
  "mark_deprovision_failed nid reason d = update_nodes (\<lambda>n. ci_id n = nid)
     (\<lambda>n. n\<lparr>ci_metadata := meta_merge [(''deprovision_failed'', JBool True),
              (''deprovision_error'', (case reason of None \<Rightarrow> JNull | Some r \<Rightarrow> JStr r))] n,
            ci_updated_at := db_now d\<rparr>) d"

section \<open>Labels\<close>

definition MAX_LABELS :: nat where "MAX_LABELS = 32"
definition MAX_KEY_LEN :: nat where "MAX_KEY_LEN = 253"
definition MAX_VAL_LEN :: nat where "MAX_VAL_LEN = 253"

definition has_control :: "string \<Rightarrow> bool" where
  "has_control s \<longleftrightarrow> list_ex (\<lambda>c. (of_char c :: nat) < 32) s"

definition check_label :: "string \<times> json \<Rightarrow> inv_error option" where
  "check_label kv =
    (if fst kv = [] \<or> length (fst kv) > MAX_KEY_LEN
     then Some (ValueError (''label key length must be 1..'' @ dec_nat MAX_KEY_LEN @ '': '' @ py_repr_str (fst kv)))
     else case snd kv of
       JStr v \<Rightarrow>
         if length v > MAX_VAL_LEN
         then Some (ValueError (''label value length must be 0..'' @ dec_nat MAX_VAL_LEN @ '': '' @ py_repr_str v))
         else if has_control (fst kv) \<or> has_control v
         then Some (ValueError ''label keys/values must not contain control characters'')
         else None
     | v \<Rightarrow> Some (ValueError (''label value length must be 0..'' @ dec_nat MAX_VAL_LEN @ '': '' @ py_repr v)))"

fun first_error :: "('a \<Rightarrow> 'e option) \<Rightarrow> 'a list \<Rightarrow> 'e option" where
  "first_error f [] = None"
| "first_error f (x # xs) = (case f x of Some e \<Rightarrow> Some e | None \<Rightarrow> first_error f xs)"

definition validate_labels :: "jobj \<Rightarrow> string list \<Rightarrow> inv_error option" where
  "validate_labels add remove =
    (let overlap = filter (\<lambda>k. k \<in> set remove) (map fst add) in
     if overlap \<noteq> [] then Some (LabelConflictError (''labels appear in both add and remove: ''
          @ py_repr (JArr (map JStr (sort overlap)))))
     else if length add + length remove > MAX_LABELS
     then Some (ValueError (''labels payload exceeds '' @ dec_nat MAX_LABELS @ '' entries''))
     else case first_error check_label add of
       Some e \<Rightarrow> Some e
     | None \<Rightarrow> first_error (\<lambda>k. if k = []
           then Some (ValueError (''label remove entries must be non-empty strings: '' @ py_repr_str k))
           else None) remove)"

definition set_labels :: "uuid \<Rightarrow> jobj \<Rightarrow> string list \<Rightarrow> db \<Rightarrow> inv_error + (db \<times> node)" where
  "set_labels nid add remove d = (case validate_labels add remove of
     Some e \<Rightarrow> Inl e
   | None \<Rightarrow> (case find (\<lambda>n. ci_id n = nid) (db_nodes d) of
       None \<Rightarrow> Inl (NodeNotFoundError (''node '' @ nid @ '' not found''))
     | Some n \<Rightarrow>
         if ci_state n = ''terminated'' then Inl (NodeTerminatedError (''node '' @ nid @ '' is terminated''))
         else let merged = foldl (\<lambda>m k. jdelete k m) (jmerge (ci_labels n) add) remove;
                  upd = (\<lambda>n. n\<lparr>ci_labels := merged, ci_updated_at := db_now d\<rparr>)
              in Inr (update_nodes (\<lambda>n. ci_id n = nid) upd d, upd n)))"

section \<open>Lemmas\<close>

definition get_node_row :: "uuid \<Rightarrow> db \<Rightarrow> node option" where
  "get_node_row nid d = find (\<lambda>n. ci_id n = nid) (db_nodes d)"

lemma update_nodes_simps [simp]:
  "db_nodes (update_nodes p f d) = sql_update p f (db_nodes d)"
  "db_deps (update_nodes p f d) = db_deps d"
  "db_jobs (update_nodes p f d) = db_jobs d"
  "db_now (update_nodes p f d) = db_now d"
  by (simp_all add: update_nodes_def)

lemma get_node_update:
  assumes "\<And>n. ci_id (f n) = ci_id n"
  shows "get_node_row i (update_nodes p f d) = map_option (\<lambda>n. if p n then f n else n) (get_node_row i d)"
  unfolding get_node_row_def update_nodes_simps by (rule find_sql_update) (rule assms)

lemma get_node_in: "get_node_row i d = Some n \<Longrightarrow> n \<in> set (db_nodes d) \<and> ci_id n = i"
  unfolding get_node_row_def by (drule find_in) simp

lemma find_guarded:
  assumes "get_node_row i d = Some n" "distinct (map ci_id (db_nodes d))"
  shows "find (\<lambda>m. ci_id m = i \<and> q m) (db_nodes d) = (if q n then Some n else None)"
proof -
  have "find (\<lambda>m. ci_id m = i \<and> q m) ns = (if q n then Some n else None)"
    if "find (\<lambda>m. ci_id m = i) ns = Some n" "distinct (map ci_id ns)" for ns
    using that
  proof (induction ns)
    case (Cons a ns)
    then show ?case
      by (cases "ci_id a = i") (auto simp: find_None_iff image_iff)
  qed simp
  with assms show ?thesis by (simp add: get_node_row_def)
qed

lemma find_guarded_none: "get_node_row i d = None \<Longrightarrow> find (\<lambda>m. ci_id m = i \<and> q m) (db_nodes d) = None"
  by (simp add: get_node_row_def find_none)

text \<open>The purge as one map over the deployments and four deletions.\<close>

definition purge_dep :: "uuid \<Rightarrow> deployment \<Rightarrow> deployment" where
  "purge_dep nid m = (if md_target_node_id m \<noteq> Some nid then m
     else if md_state m \<in> set [''TERMINATED'', ''STOPPED'', ''FAILED''] then m\<lparr>md_target_node_id := None\<rparr>
     else m\<lparr>md_state := ''FAILED'', md_error_message := Some ''node deleted'',
            md_target_node_id := None, md_endpoint := None\<rparr>)"

lemma purge_deps_map:
  "sql_update (\<lambda>m. md_target_node_id m = Some nid) (\<lambda>m. m\<lparr>md_target_node_id := None\<rparr>)
     (sql_update (\<lambda>m. md_target_node_id m = Some nid \<and> md_state m \<notin> set [''TERMINATED'', ''STOPPED'', ''FAILED''])
        (\<lambda>m. m\<lparr>md_state := ''FAILED'', md_error_message := Some ''node deleted'',
               md_target_node_id := None, md_endpoint := None\<rparr>) ms) = map (purge_dep nid) ms"
  by (induction ms) (auto simp: purge_dep_def)

lemma purge_dep_target: "md_target_node_id (purge_dep nid m) \<noteq> Some nid"
  by (simp add: purge_dep_def)

lemma purge_node_eq:
  "purge_node nid d = Inr (
     let d' = d\<lparr>db_deps := map (purge_dep nid) (db_deps d),
                db_events := sql_delete (\<lambda>e. ev_node_id e = Some nid) (db_events d),
                db_tokens := sql_delete (\<lambda>t. bt_consumed_node_id t = Some nid) (db_tokens d),
                db_jobs := sql_delete (\<lambda>j. pj_node_id j = nid) (db_jobs d)\<rparr>
     in if nid \<in> ci_id ` set (db_nodes d)
        then d'\<lparr>db_nodes := sql_delete (\<lambda>n. ci_id n = nid) (db_nodes d),
                db_allocs := sql_delete (\<lambda>a. al_node_id a = nid) (db_allocs d)\<rparr>
        else d')"
proof -
  have "sql_count (\<lambda>m. md_target_node_id m = Some nid) (map (purge_dep nid) (db_deps d)) = 0"
    using purge_dep_target by (auto simp: sql_count_0)
  moreover have "sql_count (\<lambda>n. ci_id n = nid) (db_nodes d) = 0 \<longleftrightarrow> nid \<notin> ci_id ` set (db_nodes d)"
    by (auto simp: sql_count_0)
  moreover have "sql_delete q (sql_delete q t) = sql_delete q t" for q :: "prov_job \<Rightarrow> bool" and t
    by (simp add: sql_delete_def)
  ultimately show ?thesis
    unfolding purge_node_def update_deps_def Let_def delete_node_row_def
    by (simp add: purge_deps_map del: set_simps)
qed

lemma purge_dep_id: "map md_id (map (purge_dep nid) ms) = map md_id ms"
  by (simp add: purge_dep_def)

lemma purge_dep_fields:
  "md_pool_id (purge_dep nid m) = md_pool_id m"
  "md_target_pool_id (purge_dep nid m) = md_target_pool_id m"
  "md_target_node_id (purge_dep nid m) =
     (if md_target_node_id m = Some nid then None else md_target_node_id m)"
  by (simp_all add: purge_dep_def)

lemma refs_ok_purge_deps:
  assumes "refs_ok d"
  shows "refs_ok (d\<lparr>db_deps := map (purge_dep nid) (db_deps d)\<rparr>)"
  using assms unfolding refs_ok_def
  by (simp add: list_all_iff purge_dep_fields) (auto split: option.splits)

lemma refs_ok_delete_rows:
  assumes "refs_ok d"
  shows "refs_ok (d\<lparr>db_events := es, db_tokens := sql_delete q (db_tokens d), db_jobs := sql_delete r (db_jobs d)\<rparr>)"
  using assms by (simp add: refs_ok_def list_all_iff cong: option.case_cong)

lemma purge_node_refs:
  assumes "refs_ok d" "purge_node nid d = Inr d'"
  shows "refs_ok d'"
  using delete_node_row_refs [OF refs_ok_delete_rows [OF refs_ok_purge_deps [OF assms(1)]]] assms(2)
  unfolding purge_node_def update_deps_def Let_def
  by (simp add: purge_deps_map del: set_simps)

lemma purge_dep_idem: "(\<forall>m \<in> set ms. md_target_node_id m \<noteq> Some nid) \<Longrightarrow> map (purge_dep nid) ms = ms"
  by (simp add: purge_dep_def map_idI)

lemma sql_delete_id: "(\<forall>r \<in> set t. \<not> p r) \<Longrightarrow> sql_delete p t = t"
  by (simp add: sql_delete_def filter_id_conv)

section \<open>Reservations as a ledger\<close>

datatype gpu_op = AllocOp uuid int | ReleaseOp uuid int

primrec op_count :: "gpu_op \<Rightarrow> int" where
  "op_count (AllocOp n c) = c"
| "op_count (ReleaseOp n c) = c"

text \<open>
  Runs a sequence of reservations and releases, and sums what was really booked on one node: a
  refused reservation and a release beyond the reserved amount book nothing.
\<close>

fun ledger :: "uuid \<Rightarrow> gpu_op list \<Rightarrow> db \<Rightarrow> db \<times> int" where
  "ledger nid [] d = (d, 0)"
| "ledger nid (AllocOp n c # ops) d =
    (let (d1, ok) = allocate_gpu n c d; (d2, k) = ledger nid ops d1
     in (d2, k + (if n = nid \<and> ok then c else 0)))"
| "ledger nid (ReleaseOp n c # ops) d =
    (let d1 = fst (release_gpu n c d); (d2, k) = ledger nid ops d1;
         applied = (find (\<lambda>m. ci_id m = n \<and> ci_gpu_allocated m \<ge> c) (db_nodes d) \<noteq> None)
     in (d2, k - (if n = nid \<and> applied then c else 0)))"

lemma fst_release_gpu:
  "fst (release_gpu nid c d) = update_nodes (\<lambda>n. ci_id n = nid \<and> ci_gpu_allocated n \<ge> c)
     (\<lambda>n. n\<lparr>ci_gpu_allocated := ci_gpu_allocated n - c\<rparr>) d"
  by (simp add: release_gpu_def Let_def split: option.splits)

lemma allocate_gpu_row:
  assumes "get_node_row nid d = Some n" "distinct (map ci_id (db_nodes d))"
  shows "get_node_row nid (fst (allocate_gpu m c d)) =
      Some (if m = nid \<and> snd (allocate_gpu m c d) then n\<lparr>ci_gpu_allocated := ci_gpu_allocated n + c\<rparr> else n)"
    and "m = nid \<Longrightarrow> snd (allocate_gpu m c d) \<longleftrightarrow> gpu_fits c n"
  using assms get_node_in [OF assms(1)]
  by (auto simp: allocate_gpu_def Let_def get_node_update find_guarded)

lemma gpu_fits_le: "gpu_fits c n \<Longrightarrow> ci_gpu_total n = Some t \<Longrightarrow> ci_gpu_allocated n + c \<le> t"
  by (simp add: gpu_fits_def)

lemma release_gpu_row:
  assumes "get_node_row nid d = Some n"
  shows "get_node_row nid (fst (release_gpu m c d)) =
      Some (if m = nid \<and> ci_gpu_allocated n \<ge> c then n\<lparr>ci_gpu_allocated := ci_gpu_allocated n - c\<rparr> else n)"
  using assms get_node_in [OF assms(1)] by (auto simp: fst_release_gpu get_node_update)

lemma gpu_ids:
  "map ci_id (db_nodes (fst (allocate_gpu m c d))) = map ci_id (db_nodes d)"
  "map ci_id (db_nodes (fst (release_gpu m c d))) = map ci_id (db_nodes d)"
  unfolding fst_release_gpu allocate_gpu_def Let_def fst_conv update_nodes_simps
  by (rule sql_update_map; simp)+

section \<open>Properties\<close>


text \<open>
  the purge records how deployments end.  A deployment still active on the node becomes FAILED
  with the reason and loses endpoint and target; one that had already ended keeps its state,
  endpoint and error and only loses the target.
\<close>

theorem purge_preserves_outcomes:
  assumes "purge_node nid d = Inr d'" "m \<in> set (db_deps d)" "md_target_node_id m = Some nid"
  shows "(if md_state m \<in> {''TERMINATED'', ''STOPPED'', ''FAILED''} then m\<lparr>md_target_node_id := None\<rparr>
          else m\<lparr>md_state := ''FAILED'', md_error_message := Some ''node deleted'',
                 md_target_node_id := None, md_endpoint := None\<rparr>) \<in> set (db_deps d')"
proof -
  have "db_deps d' = map (purge_dep nid) (db_deps d)"
    using assms(1) unfolding purge_node_eq Let_def by (auto split: if_splits)
  then have "purge_dep nid m \<in> set (db_deps d')"
    using assms(2) by simp
  then show ?thesis
    using assms(3) by (simp add: purge_dep_def split: if_splits)
qed

text \<open>
  GPU reservations balance.  After any sequence of reservations and releases of non-negative
  counts, on any nodes, the counter of a node equals its initial value plus what was booked minus
  what was released, and it stays between zero and the node's total.
\<close>

theorem gpu_ledger:
  assumes "distinct (map ci_id (db_nodes d))" "get_node_row nid d = Some n" "ci_gpu_total n = Some t"
    and "0 \<le> ci_gpu_allocated n" "ci_gpu_allocated n \<le> t" "\<forall>op \<in> set ops. 0 \<le> op_count op"
    and "ledger nid ops d = (d', k)"
  shows "\<exists>n'. get_node_row nid d' = Some n' \<and> ci_gpu_allocated n' = ci_gpu_allocated n + k
           \<and> 0 \<le> ci_gpu_allocated n' \<and> ci_gpu_allocated n' \<le> t"
  using assms
proof (induction ops arbitrary: d n k)
  case (Cons op ops)
  note dist = Cons.prems(1) and row = Cons.prems(2)
  show ?case
  proof (cases op)
    case (AllocOp m c)
    define d1 where "d1 = fst (allocate_gpu m c d)"
    define ok where "ok = snd (allocate_gpu m c d)"
    define n1 where "n1 = (if m = nid \<and> ok then n\<lparr>ci_gpu_allocated := ci_gpu_allocated n + c\<rparr> else n)"
    obtain e k' where "ledger nid ops d1 = (e, k')" by force
    then have k': "ledger nid ops d1 = (d', k')" "k = k' + (if m = nid \<and> ok then c else 0)"
      using Cons.prems(7) AllocOp by (simp_all add: d1_def ok_def split_def Let_def)
    have row1: "get_node_row nid d1 = Some n1"
      using allocate_gpu_row(1) [OF row dist] by (simp add: d1_def ok_def n1_def)
    have "m = nid \<and> ok \<Longrightarrow> ci_gpu_allocated n + c \<le> t"
      using allocate_gpu_row(2) [OF row dist] gpu_fits_le Cons.prems(3) by (auto simp: ok_def)
    then have n1: "ci_gpu_total n1 = Some t" "0 \<le> ci_gpu_allocated n1" "ci_gpu_allocated n1 \<le> t"
      using Cons.prems(3-6) AllocOp by (auto simp: n1_def)
    have "distinct (map ci_id (db_nodes d1))"
      using dist by (simp add: d1_def gpu_ids)
    from Cons.IH [OF this row1 n1 _ k'(1)] Cons.prems(6) k'(2) show ?thesis
      by (auto simp: n1_def)
  next
    case (ReleaseOp m c)
    define d1 where "d1 = fst (release_gpu m c d)"
    define ap where "ap = (find (\<lambda>x. ci_id x = m \<and> ci_gpu_allocated x \<ge> c) (db_nodes d) \<noteq> None)"
    define n1 where "n1 = (if m = nid \<and> ci_gpu_allocated n \<ge> c
      then n\<lparr>ci_gpu_allocated := ci_gpu_allocated n - c\<rparr> else n)"
    obtain e k' where "ledger nid ops d1 = (e, k')" by force
    then have k': "ledger nid ops d1 = (d', k')" "k = k' - (if m = nid \<and> ap then c else 0)"
      using Cons.prems(7) ReleaseOp by (simp_all add: d1_def ap_def split_def Let_def)
    have ap: "m = nid \<Longrightarrow> ap \<longleftrightarrow> ci_gpu_allocated n \<ge> c"
      using find_guarded [OF row dist, of "\<lambda>x. c \<le> ci_gpu_allocated x"] by (auto simp: ap_def)
    have row1: "get_node_row nid d1 = Some n1"
      using release_gpu_row [OF row] by (simp add: d1_def n1_def)
    have n1: "ci_gpu_total n1 = Some t" "0 \<le> ci_gpu_allocated n1" "ci_gpu_allocated n1 \<le> t"
      using Cons.prems(3-6) ReleaseOp by (auto simp: n1_def)
    have "distinct (map ci_id (db_nodes d1))"
      using dist by (simp add: d1_def gpu_ids)
    from Cons.IH [OF this row1 n1 _ k'(1)] Cons.prems(6) k'(2) ap show ?thesis
      by (auto simp: n1_def)
  qed
qed auto

text \<open>
  a release asks for the node's destruction only when it is safe: the release was booked, it
  brought the counter to zero, and no deployment that is waiting, deploying or running targets the
  node.  A release of more than is reserved changes nothing and never asks for destruction.
\<close>

theorem release_gpu_safe:
  assumes "distinct (map ci_id (db_nodes d))" "get_node_row nid d = Some n"
  shows "(rr_should_destroy (snd (release_gpu nid c d)) \<longleftrightarrow>
            ci_gpu_allocated n = c
          \<and> (\<forall>m \<in> set (db_deps d). md_target_node_id m = Some nid \<longrightarrow>
               md_state m \<notin> {''PENDING_NODE'', ''DEPLOYING'', ''RUNNING''}))
       \<and> rr_new_allocated (snd (release_gpu nid c d)) =
            (if ci_gpu_allocated n \<ge> c then ci_gpu_allocated n - c else ci_gpu_allocated n)
       \<and> map_option ci_gpu_allocated (get_node_row nid (fst (release_gpu nid c d))) =
            Some (rr_new_allocated (snd (release_gpu nid c d)))
       \<and> (ci_gpu_allocated n < c \<longrightarrow> get_node_row nid (fst (release_gpu nid c d)) = Some n)"
proof -
  have find: "find (\<lambda>n. ci_id n = nid \<and> ci_gpu_allocated n \<ge> c) (db_nodes d)
      = (if ci_gpu_allocated n \<ge> c then Some n else None)"
    by (rule find_guarded [OF assms(2,1)])
  have row: "get_node_row nid (fst (release_gpu nid c d)) =
      Some (if ci_gpu_allocated n \<ge> c then n\<lparr>ci_gpu_allocated := ci_gpu_allocated n - c\<rparr> else n)"
    using release_gpu_row [OF assms(2), of nid c] by simp
  have none: "ci_gpu_allocated n < c \<Longrightarrow> rr_new_allocated (snd (release_gpu nid c d)) = ci_gpu_allocated n"
    using row find unfolding fst_release_gpu get_node_row_def
    by (simp add: release_gpu_def Let_def)
  have snd_release: "ci_gpu_allocated n \<ge> c \<Longrightarrow> snd (release_gpu nid c d) =
      (if ci_gpu_allocated n \<noteq> c then \<lparr>rr_new_allocated = ci_gpu_allocated n - c, rr_should_destroy = False\<rparr>
       else \<lparr>rr_new_allocated = 0, rr_should_destroy = (sql_count (active_on nid) (db_deps d) = 0)\<rparr>)"
    using find by (simp add: release_gpu_def Let_def)
  have under: "ci_gpu_allocated n < c \<Longrightarrow> \<not> rr_should_destroy (snd (release_gpu nid c d))"
    using find by (simp add: release_gpu_def Let_def)
  have idle: "sql_count (active_on nid) (db_deps d) = 0 \<longleftrightarrow>
      (\<forall>m \<in> set (db_deps d). md_target_node_id m = Some nid \<longrightarrow>
         md_state m \<notin> {''PENDING_NODE'', ''DEPLOYING'', ''RUNNING''})"
    by (auto simp: sql_count_0 active_on_def)
  show ?thesis
  proof (cases "ci_gpu_allocated n \<ge> c")
    case True
    then show ?thesis
      unfolding row snd_release [OF True] idle [symmetric] by simp
  next
    case False
    then show ?thesis
      unfolding row using none under by simp
  qed
qed

text \<open>
  a node flagged as terminating takes no new reservation, whatever its state and free
  capacity, and clearing the flag lifts exactly that: reservations depend again on state and
  capacity only.
\<close>

theorem terminating_blocks_reservation:
  assumes "distinct (map ci_id (db_nodes d))" "get_node_row nid d = Some n"
  shows "\<not> snd (allocate_gpu nid c (mark_terminating_node ts nid d))
     \<and> snd (allocate_gpu nid c (clear_terminating_node nid (mark_terminating_node ts nid d))) =
        (ci_state n \<in> {''ready'', ''provisioning''}
         \<and> (\<exists>t. ci_gpu_total n = Some t \<and> ci_gpu_allocated n + c \<le> t))"
proof -
  define d1 where "d1 = mark_terminating_node ts nid d"
  define d2 where "d2 = clear_terminating_node nid d1"
  have ids: "map ci_id (db_nodes d1) = map ci_id (db_nodes d)" "map ci_id (db_nodes d2) = map ci_id (db_nodes d1)"
    unfolding d1_def d2_def mark_terminating_node_def clear_terminating_node_def update_nodes_simps
    by (rule sql_update_map; simp)+
  obtain n1 where n1: "get_node_row nid d1 = Some n1" "terminating n1" "ci_state n1 = ci_state n"
    "ci_gpu_total n1 = ci_gpu_total n" "ci_gpu_allocated n1 = ci_gpu_allocated n"
    using assms(2) get_node_in [OF assms(2)]
    by (simp add: d1_def mark_terminating_node_def get_node_update terminating_def meta_field_def
        meta_merge_def jfield_def)
  obtain n2 where n2: "get_node_row nid d2 = Some n2" "\<not> terminating n2" "ci_state n2 = ci_state n1"
    "ci_gpu_total n2 = ci_gpu_total n1" "ci_gpu_allocated n2 = ci_gpu_allocated n1"
    using n1(1) get_node_in [OF n1(1)]
    by (simp add: d2_def clear_terminating_node_def get_node_update terminating_def meta_field_def jfield_def)
  show ?thesis
    using allocate_gpu_row(2) [OF n1(1), of nid c] allocate_gpu_row(2) [OF n2(1), of nid c] ids assms(1) n1 n2
    unfolding d1_def [symmetric] d2_def [symmetric]
    by (auto simp: gpu_fits_def split: option.splits)
qed

text \<open>
  a label patch does what it says.  When it is accepted, a removed key is gone, an added key
  has its new value, every other key keeps its value; when the same key is added and removed, the
  patch is refused.
\<close>

theorem set_labels_lookup:
  assumes "get_node_row nid d = Some n" "distinct (map fst add)"
  shows "case set_labels nid add remove d of
     Inr (d', n') \<Rightarrow> get_node_row nid d' = Some n' \<and> fst ` set add \<inter> set remove = {}
       \<and> (\<forall>k. jget (ci_labels n') k =
            (if k \<in> set remove then JNull else if k \<in> fst ` set add then jget add k else jget (ci_labels n) k))
   | Inl e \<Rightarrow> ci_state n \<noteq> ''terminated'' \<longrightarrow> validate_labels add remove = Some e"
proof (cases "validate_labels add remove")
  case None
  have dels: "jget (foldl (\<lambda>m k. jdelete k m) l remove) k = (if k \<in> set remove then JNull else jget l k)" for l k
    by (induction remove arbitrary: l) auto
  have "fst ` set add \<inter> set remove = {}"
    using None by (auto simp: validate_labels_def Let_def filter_empty_conv split: if_splits)
  then show ?thesis
    using None assms get_node_in [OF assms(1)]
    by (auto simp: set_labels_def get_node_row_def [symmetric] get_node_update dels jget_jmerge Let_def)
next
  case (Some e)
  then show ?thesis by (simp add: set_labels_def)
qed

text \<open>
  a worker that registers again while its node is being torn down clears the terminating
  flag.  The upsert replaces the metadata by the reported capacity, so the node takes reservations
  again although its destruction is in flight.
\<close>

theorem upsert_worker_clears_terminating:
  assumes "find (\<lambda>n. ci_pool_id n = pool \<and> ci_node_name n = Some name) (db_nodes d) = Some n"
    and "ci_agent_kind n = ''worker''" "terminating n" "jget allocatable ''terminating'' = JNull"
    and "int_field allocatable ''gpu'' = Some g" "int_field allocatable ''cpu'' = Some c"
    and "int_field allocatable ''memory_gb'' = Some m"
  shows "\<exists>d' n'. upsert_worker i pool name url allocatable labels d = Inr (d', n')
           \<and> ci_id n' = ci_id n \<and> ci_state n' = ci_state n \<and> \<not> terminating n'"
proof -
  define new where "new = (blank_node i pool ''on_prem'' (''worker-'' @ pool @ ''-'' @ name) ''provisioning'' (db_now d))
                     \<lparr>ci_node_name := Some name, ci_agent_kind := ''worker'',
                      ci_advertise_url := url, ci_gpu_total := Some g,
                      ci_vcpu_total := Some c, ci_ram_gb_total := Some m,
                      ci_metadata := Some allocatable, ci_labels := (case labels of None \<Rightarrow> [] | Some l \<Rightarrow> l)\<rparr>"
  have same: "same_worker_name new x \<longleftrightarrow> ci_agent_kind x = ''worker'' \<and> ci_pool_id x = pool \<and> ci_node_name x = Some name" for x
    by (auto simp: new_def same_worker_name_def blank_node_def)
  have "find (same_worker_name new) ns = Some n"
    if "find (\<lambda>n. ci_pool_id n = pool \<and> ci_node_name n = Some name) ns = Some n" for ns
    using that assms(2) by (induction ns) (auto simp: same split: if_splits)
  then have "find (same_worker_name new) (db_nodes d) = Some n"
    using assms(1) by blast
  then show ?thesis
    using assms unfolding new_def
    by (simp add: upsert_worker_def Let_def terminating_def meta_field_def jfield_def)
qed

text \<open>
  a heartbeat in the state offline (or ordered) is refused by the database.  Both are listed
  as node states in \<^verbatim>\<open>constants.py\<close> and named as valid in the handler, but the column's enum has
  neither, so the statement raises and the node keeps its old state and heartbeat.
\<close>

theorem heartbeat_rejects_undeclared_state:
  assumes "hb_state h \<in> {''offline'', ''ordered''}" "hb_old_provider_instance_id h = None"
  shows "heartbeat h d = (d, Inl (InvalidEnum ''node_state''))"
proof -
  have "from_incoming ''offline'' = ''offline''" "from_incoming ''ordered'' = ''ordered''"
    by code_simp+
  then show ?thesis
    using assms by (auto simp: heartbeat_def swap_instance_def node_states_def Let_def)
qed

section \<open>Witnesses\<close>

definition sample_fleet :: db where
  "sample_fleet = empty_db\<lparr>db_nodes := [sample_node ''n1'' ''p'' ''ready'' 4 2, sample_node ''n2'' ''p'' ''ready'' 8 0],
     db_pools := [sample_pool ''p'' ''running''],
     db_jobs := [sample_job ''j1'' ''n1'' READY None 0],
     db_deps := [sample_dep ''m1'' ''p'' ''RUNNING'' (Some ''n1'') 2, sample_dep ''m2'' ''p'' ''STOPPED'' (Some ''n1'') 1]\<rparr>"

lemma sample_fleet_refs: "refs_ok sample_fleet"
  by (simp add: refs_ok_def sample_fleet_def sample_node_def sample_pool_def sample_job_def
      sample_dep_def empty_db_def)

lemma sample_fleet_rows:
  "distinct (map ci_id (db_nodes sample_fleet))"
  "get_node_row ''n1'' sample_fleet = Some (sample_node ''n1'' ''p'' ''ready'' 4 2)"
  by (simp_all add: sample_fleet_def sample_node_def get_node_row_def)


theorem purge_preserves_outcomes_witness:
  "\<exists>d'. purge_node ''n1'' sample_fleet = Inr d'
      \<and> (sample_dep ''m2'' ''p'' ''STOPPED'' (Some ''n1'') 1)\<lparr>md_target_node_id := None\<rparr> \<in> set (db_deps d')"
proof -
  obtain d' where "purge_node ''n1'' sample_fleet = Inr d'"
    using purge_node_eq by blast
  with purge_preserves_outcomes [OF this, of "sample_dep ''m2'' ''p'' ''STOPPED'' (Some ''n1'') 1"] show ?thesis
    by (simp add: sample_fleet_def sample_dep_def)
qed

theorem gpu_ledger_witness:
  "\<exists>n'. get_node_row ''n1'' (fst (ledger ''n1'' [AllocOp ''n1'' 2, AllocOp ''n1'' 1, ReleaseOp ''n1'' 3] sample_fleet)) = Some n'
      \<and> ci_gpu_allocated n' \<le> 4"
  using gpu_ledger [OF sample_fleet_rows, of 4 "[AllocOp ''n1'' 2, AllocOp ''n1'' 1, ReleaseOp ''n1'' 3]"
    "fst (ledger ''n1'' [AllocOp ''n1'' 2, AllocOp ''n1'' 1, ReleaseOp ''n1'' 3] sample_fleet)"
    "snd (ledger ''n1'' [AllocOp ''n1'' 2, AllocOp ''n1'' 1, ReleaseOp ''n1'' 3] sample_fleet)"]
  by (auto simp: sample_node_def simp del: ledger.simps)

theorem release_gpu_safe_witness:
  "\<not> rr_should_destroy (snd (release_gpu ''n1'' 2 sample_fleet))"
  using release_gpu_safe [OF sample_fleet_rows, of 2] by (simp add: sample_fleet_def sample_dep_def)

theorem terminating_blocks_reservation_witness:
  "\<not> snd (allocate_gpu ''n1'' 1 (mark_terminating_node (\<lambda>t. ''2026-01-01'') ''n1'' sample_fleet))"
  using terminating_blocks_reservation [OF sample_fleet_rows] by blast

theorem set_labels_lookup_witness:
  "\<exists>d' n'. set_labels ''n1'' [(''zone'', JStr ''a'')] [''old''] sample_fleet = Inr (d', n')
        \<and> jget (ci_labels n') ''zone'' = JStr ''a''"
proof -
  have "\<exists>d' n'. set_labels ''n1'' [(''zone'', JStr ''a'')] [''old''] sample_fleet = Inr (d', n')"
    by (simp add: set_labels_def validate_labels_def check_label_def MAX_LABELS_def MAX_KEY_LEN_def
        MAX_VAL_LEN_def has_control_def sample_fleet_def sample_node_def Let_def)
  with set_labels_lookup [OF sample_fleet_rows(2), of "[(''zone'', JStr ''a'')]" "[''old'']"] show ?thesis
    by (auto simp: jget_def)
qed

theorem upsert_worker_clears_terminating_witness:
  "\<exists>d' n'. upsert_worker ''x'' ''p'' ''n1'' None [(''gpu'', JInt 4)] None
        (mark_terminating_node (\<lambda>t. ''2026-01-01'') ''n1'' sample_fleet) = Inr (d', n') \<and> \<not> terminating n'"
proof -
  let ?d = "mark_terminating_node (\<lambda>t. ''2026-01-01'') ''n1'' sample_fleet"
  have "int_field [(''gpu'', JInt 4)] ''gpu'' = Some 4" "int_field [(''gpu'', JInt 4)] ''cpu'' = Some 0"
    "int_field [(''gpu'', JInt 4)] ''memory_gb'' = Some 0"
    by code_simp+
  moreover have "\<exists>n. find (\<lambda>n. ci_pool_id n = ''p'' \<and> ci_node_name n = Some ''n1'') (db_nodes ?d) = Some n
      \<and> ci_agent_kind n = ''worker'' \<and> terminating n"
    by (simp add: mark_terminating_node_def sample_fleet_def sample_node_def terminating_def meta_field_def
        meta_merge_def jfield_def jget_def)
  ultimately show ?thesis
    using upsert_worker_clears_terminating [of "''p''" "''n1''" ?d _ "[(''gpu'', JInt 4)]" 4 0 0 "''x''" None None]
    by (auto simp: jget_def)
qed

theorem heartbeat_rejects_undeclared_state_witness:
  "\<exists>h. hb_state h = ''offline'' \<and> heartbeat h sample_fleet = (sample_fleet, Inl (InvalidEnum ''node_state''))"
  using heartbeat_rejects_undeclared_state [of "\<lparr>hb_provider = ''nosana'', hb_provider_instance_id = ''i'',
     hb_old_provider_instance_id = None, hb_gpu_allocated = 0, hb_vcpu_allocated = 0, hb_ram_gb_allocated = 0,
     hb_health_score = 100, hb_state = ''offline'', hb_expose_url = None\<rparr>"]
  by force

end
