(* ===== verification/DeploymentRepo.thy ===== *)
theory DeploymentRepo
  imports InventoryRepo
begin

text \<open>
  \<^verbatim>\<open>repositories/model_deployment_repo.py\<close>.  A method that publishes on the event bus returns the
  messages it publishes, each a topic and its payload; \<^verbatim>\<open>bus\<close> says whether a bus is configured,
  where the code asks.
\<close>

type_synonym bus_msg = "string \<times> jobj"

definition opt_json :: "string option \<Rightarrow> json" where
  "opt_json v = (case v of None \<Rightarrow> JNull | Some s \<Rightarrow> JStr s)"

record new_deployment =
  nd_id :: uuid
  nd_model_id :: "uuid option"
  nd_pool_id :: uuid
  nd_replicas :: int
  nd_gpu_per_replica :: int
  nd_state :: string
  nd_engine :: "string option"
  nd_configuration :: "jobj option"
  nd_endpoint :: "string option"
  nd_model_name :: "string option"
  nd_owner_id :: "string option"
  nd_org_id :: "string option"
  nd_policies :: "string option"
  nd_inference_model :: "string option"
  nd_model_type :: "string option"
  nd_target_pool_id :: "uuid option"
  nd_target_node_id :: "uuid option"
  nd_auto_replica_enabled :: bool
  nd_tokens_per_second_threshold :: "real option"

definition deployment_of :: "(string \<Rightarrow> bool) \<Rightarrow> time \<Rightarrow> new_deployment \<Rightarrow> deployment" where
  "deployment_of json_valid now x = \<lparr>md_id = nd_id x, md_model_id = nd_model_id x,
     md_model_name = nd_model_name x, md_engine = nd_engine x, md_configuration = nd_configuration x,
     md_endpoint = nd_endpoint x, md_owner_id = nd_owner_id x, md_org_id = nd_org_id x,
     md_policies = (case nd_policies x of
        Some s \<Rightarrow> if s \<noteq> [] \<and> \<not> json_valid s then Some ''{}'' else Some s
      | None \<Rightarrow> None),
     md_inference_model = nd_inference_model x, md_model_type = nd_model_type x,
     md_pool_id = nd_pool_id x, md_replicas = nd_replicas x,
     md_gpu_per_replica = nd_gpu_per_replica x, md_state = nd_state x, md_error_message = None,
     md_llmd_resource_name = None, md_allocation_ids = None, md_node_ids = None,
     md_target_pool_id = nd_target_pool_id x, md_target_node_id = nd_target_node_id x,
     md_auto_replica_enabled = nd_auto_replica_enabled x,
     md_tokens_per_second_threshold = nd_tokens_per_second_threshold x,
     md_auto_replica_last_scale_at = None, md_created_at = now, md_updated_at = now\<rparr>"

text \<open>\<^verbatim>\<open>json_valid\<close> says whether \<^verbatim>\<open>json.loads\<close> accepts a text.\<close>

definition create_deployment :: "(string \<Rightarrow> bool) \<Rightarrow> new_deployment \<Rightarrow> db \<Rightarrow> db tx" where
  "create_deployment json_valid x d =
    (if nd_id x \<in> md_id ` set (db_deps d) then Inl (UniqueViolation ''model_deployments.deployment_id'')
     else if nd_pool_id x \<notin> cp_id ` set (db_pools d) then Inl (ForeignKeyViolation ''model_deployments.pool_id'')
     else if (case nd_target_pool_id x of None \<Rightarrow> False | Some p \<Rightarrow> p \<notin> cp_id ` set (db_pools d))
     then Inl (ForeignKeyViolation ''model_deployments.target_pool_id'')
     else if (case nd_target_node_id x of None \<Rightarrow> False | Some n \<Rightarrow> n \<notin> ci_id ` set (db_nodes d))
     then Inl (ForeignKeyViolation ''model_deployments.target_node_id'')
     else Inr (d\<lparr>db_deps := db_deps d @ [deployment_of json_valid (db_now d) x]\<rparr>))"

definition state_changed :: "uuid \<Rightarrow> string \<Rightarrow> bus_msg" where
  "state_changed did st = (''deployment.state_changed'', [(''deployment_id'', JStr did), (''state'', JStr st)])"

definition kept_error :: "string \<Rightarrow> string option \<Rightarrow> string option" where
  "kept_error st error_message = (if st \<notin> set [''FAILED'', ''RETRYING''] then None else error_message)"

definition update_state :: "bool \<Rightarrow> uuid \<Rightarrow> string \<Rightarrow> string option \<Rightarrow> db \<Rightarrow> db \<times> bus_msg list" where
  "update_state bus did st error_message d =
    (update_deps (\<lambda>m. md_id m = did)
       (\<lambda>m. m\<lparr>md_state := st, md_error_message := kept_error st error_message, md_updated_at := db_now d\<rparr>) d,
     if bus then [state_changed did st] else [])"

definition update_state_if ::
  "bool \<Rightarrow> uuid \<Rightarrow> string \<Rightarrow> string \<Rightarrow> string option \<Rightarrow> db \<Rightarrow> db \<times> bool \<times> bus_msg list" where
  "update_state_if bus did expected new_state error_message d =
    (let p = (\<lambda>m. md_id m = did \<and> md_state m = expected);
         updated = (cmd_status ''UPDATE'' (sql_count p (db_deps d)) \<noteq> ''UPDATE 0'')
     in (update_deps p (\<lambda>m. m\<lparr>md_state := new_state, md_error_message := kept_error new_state error_message,
                            md_updated_at := db_now d\<rparr>) d,
         updated, if updated \<and> bus then [state_changed did new_state] else []))"

definition uuid_list_json :: "uuid list option \<Rightarrow> json" where
  "uuid_list_json ids = (case ids of None \<Rightarrow> JNull | Some xs \<Rightarrow> if xs = [] then JNull else JArr (map JStr xs))"

definition attach_runtime ::
  "uuid \<Rightarrow> uuid list option \<Rightarrow> uuid list option \<Rightarrow> string option \<Rightarrow> db \<Rightarrow> db \<times> bus_msg list" where
  "attach_runtime did allocation_ids node_ids llmd d =
    (update_deps (\<lambda>m. md_id m = did)
       (\<lambda>m. m\<lparr>md_allocation_ids := allocation_ids, md_node_ids := node_ids, md_llmd_resource_name := llmd,
              md_updated_at := db_now d\<rparr>) d,
     [(''deployment.runtime_attached'', [(''deployment_id'', JStr did),
        (''allocation_ids'', uuid_list_json allocation_ids), (''node_ids'', uuid_list_json node_ids),
        (''llmd_resource_name'', opt_json llmd)])])"

definition update_endpoint :: "uuid \<Rightarrow> string \<Rightarrow> string option \<Rightarrow> db \<Rightarrow> db \<times> bus_msg list" where
  "update_endpoint did endpoint model_name d =
    (update_deps (\<lambda>m. md_id m = did)
       (\<lambda>m. m\<lparr>md_endpoint := Some endpoint, md_model_name := coalesce model_name (md_model_name m),
              md_updated_at := db_now d\<rparr>) d,
     [(''deployment.endpoint_updated'', [(''deployment_id'', JStr did), (''endpoint'', JStr endpoint),
        (''model_name'', opt_json model_name)])])"

text \<open>\<^verbatim>\<open>update\<close> builds the SET clause from the arguments given, numbering the parameters from 2.\<close>

definition number_fields :: "string list \<Rightarrow> string list" where
  "number_fields names = map (\<lambda>(i, n). n @ ''=$'' @ dec_nat i) (enumerate 2 names)"

definition update_deployment ::
  "uuid \<Rightarrow> jobj option \<Rightarrow> string option \<Rightarrow> string option \<Rightarrow> int option \<Rightarrow> db \<Rightarrow> db \<times> bus_msg list" where
  "update_deployment did configuration inference_model endpoint replicas d =
    (let fields = (if configuration \<noteq> None then [''configuration''] else [])
           @ (if inference_model \<noteq> None then [''inference_model''] else [])
           @ (if endpoint \<noteq> None then [''endpoint''] else [])
           @ (if replicas \<noteq> None then [''replicas''] else [])
     in if fields = [] then (d, [])
        else (update_deps (\<lambda>m. md_id m = did)
               (\<lambda>m. m\<lparr>md_configuration := coalesce configuration (md_configuration m),
                      md_inference_model := coalesce inference_model (md_inference_model m),
                      md_endpoint := coalesce endpoint (md_endpoint m),
                      md_replicas := (case replicas of None \<Rightarrow> md_replicas m | Some r \<Rightarrow> r),
                      md_updated_at := db_now d\<rparr>) d,
              [(''deployment.updated'', [(''deployment_id'', JStr did),
                 (''fields'', JArr (map JStr (number_fields fields)))])]))"

definition get_deployment :: "uuid \<Rightarrow> db \<Rightarrow> deployment option" where
  "get_deployment did d = find (\<lambda>m. md_id m = did) (db_deps d)"

definition list_deployments :: "uuid option \<Rightarrow> string option \<Rightarrow> nat \<Rightarrow> nat \<Rightarrow> db \<Rightarrow> deployment list" where
  "list_deployments pool_id org_id limit offset d =
     take limit (drop offset (sort_key (\<lambda>m. - md_created_at m) (filter (\<lambda>m.
       (case pool_id of None \<Rightarrow> True | Some p \<Rightarrow> md_pool_id m = p)
     \<and> (case org_id of None \<Rightarrow> True | Some o' \<Rightarrow> o' = [] \<or> md_org_id m = Some o')) (db_deps d))))"

definition list_by_state :: "string \<Rightarrow> db \<Rightarrow> deployment list" where
  "list_by_state st d = sort_key (\<lambda>m. - md_created_at m) (filter (\<lambda>m. md_state m = st) (db_deps d))"

definition delete_deployment :: "uuid \<Rightarrow> db \<Rightarrow> db \<times> bus_msg list" where
  "delete_deployment did d =
    (d\<lparr>db_deps := sql_delete (\<lambda>m. md_id m = did) (db_deps d)\<rparr>,
     [(''deployment.deleted'', [(''deployment_id'', JStr did)])])"

definition update_auto_replica ::
  "uuid \<Rightarrow> bool option \<Rightarrow> real option \<Rightarrow> time option \<Rightarrow> db \<Rightarrow> db" where
  "update_auto_replica did enabled threshold last_scale_at d =
    (if enabled = None \<and> threshold = None \<and> last_scale_at = None then d
     else update_deps (\<lambda>m. md_id m = did)
       (\<lambda>m. m\<lparr>md_auto_replica_enabled := (case enabled of None \<Rightarrow> md_auto_replica_enabled m | Some b \<Rightarrow> b),
              md_tokens_per_second_threshold := coalesce threshold (md_tokens_per_second_threshold m),
              md_auto_replica_last_scale_at := coalesce last_scale_at (md_auto_replica_last_scale_at m),
              md_updated_at := db_now d\<rparr>) d)"

definition list_auto_replica_deployments :: "db \<Rightarrow> deployment list" where
  "list_auto_replica_deployments d = sort_key (\<lambda>m. - md_created_at m)
     (filter (\<lambda>m. md_state m \<in> set [''RUNNING'', ''DEPLOYING''] \<and> md_auto_replica_enabled m) (db_deps d))"

definition update_configuration :: "uuid \<Rightarrow> jobj \<Rightarrow> db \<Rightarrow> db" where
  "update_configuration did configuration d = update_deps (\<lambda>m. md_id m = did)
     (\<lambda>m. m\<lparr>md_configuration := Some configuration, md_updated_at := db_now d\<rparr>) d"

definition list_pending_for_pool :: "uuid list \<Rightarrow> uuid \<Rightarrow> db \<Rightarrow> deployment list" where
  "list_pending_for_pool locked pid d = sort_key md_created_at
     (filter (\<lambda>m. md_target_pool_id m = Some pid \<and> md_state m = ''PENDING_NODE'' \<and> md_id m \<notin> set locked) (db_deps d))"

definition list_deploying_for_node :: "uuid \<Rightarrow> db \<Rightarrow> deployment list" where
  "list_deploying_for_node nid d = sort_key md_created_at
     (filter (\<lambda>m. md_target_node_id m = Some nid \<and> md_state m = ''DEPLOYING'') (db_deps d))"

definition bind_to_node :: "uuid \<Rightarrow> uuid \<Rightarrow> db \<Rightarrow> db" where
  "bind_to_node did nid d = update_deps (\<lambda>m. md_id m = did) (\<lambda>m. m\<lparr>md_target_node_id := Some nid\<rparr>) d"

definition set_dep_state :: "uuid \<Rightarrow> string \<Rightarrow> db \<Rightarrow> db" where
  "set_dep_state did st d = update_deps (\<lambda>m. md_id m = did) (\<lambda>m. m\<lparr>md_state := st\<rparr>) d"

definition unbind :: "uuid \<Rightarrow> db \<Rightarrow> db" where
  "unbind did d = update_deps (\<lambda>m. md_id m = did) (\<lambda>m. m\<lparr>md_target_node_id := None\<rparr>) d"

section \<open>Lemmas\<close>

lemma update_deps_simps [simp]:
  "db_deps (update_deps p f d) = sql_update p f (db_deps d)"
  "db_nodes (update_deps p f d) = db_nodes d"
  "db_now (update_deps p f d) = db_now d"
  by (simp_all add: update_deps_def)

lemma update_nodes_deps [simp]: "db_deps (fst (allocate_gpu n c d)) = db_deps d"
  by (simp add: allocate_gpu_def Let_def)

lemma get_dep_update:
  assumes "\<And>m. md_id (f m) = md_id m"
  shows "get_deployment i (update_deps p f d) = map_option (\<lambda>m. if p m then f m else m) (get_deployment i d)"
  unfolding get_deployment_def update_deps_simps by (rule find_sql_update) (rule assms)

lemma get_dep_in: "get_deployment i d = Some m \<Longrightarrow> m \<in> set (db_deps d) \<and> md_id m = i"
  unfolding get_deployment_def by (drule find_in) simp

lemma get_dep_mem: "distinct (map md_id (db_deps d)) \<Longrightarrow> m \<in> set (db_deps d) \<Longrightarrow> get_deployment (md_id m) d = Some m"
  by (simp add: get_deployment_def find_key_Some)

lemma get_node_update_deps [simp]: "get_node_row i (update_deps p f d) = get_node_row i d"
  by (simp add: get_node_row_def)

lemma status_zero: "cmd_status ''UPDATE'' n \<noteq> ''UPDATE 0'' \<longleftrightarrow> n \<noteq> 0"
proof -
  have "cmd_status ''UPDATE'' n = ''UPDATE 0'' \<longleftrightarrow> dec_nat n = ''0''"
    by (simp add: cmd_status_def)
  also have "\<dots> \<longleftrightarrow> n = 0"
  proof
    assume "dec_nat n = ''0''"
    then have "n = parse_nat ''0''" using parse_dec_nat [of n] by simp
    then show "n = 0" by (simp add: parse_nat_def digit_val_def)
  next
    have "dec_nat 0 = ''0''" by code_simp
    then show "n = 0 \<Longrightarrow> dec_nat n = ''0''" by simp
  qed
  finally show ?thesis by simp
qed

section \<open>Properties\<close>

text \<open>
  the conditional state change is a compare-and-set.  It reports True, publishes and writes
  exactly when the deployment was in the expected state; an error text survives only in FAILED or
  RETRYING; of two conditional changes out of the same state to other states only one succeeds.
\<close>

theorem update_state_if_cas:
  assumes "distinct (map md_id (db_deps d))" "get_deployment did d = Some m"
    and "update_state_if True did s t err d = (d1, ok, msgs)" "t \<noteq> s"
  shows "(ok \<longleftrightarrow> md_state m = s) \<and> (msgs \<noteq> [] \<longleftrightarrow> ok)
     \<and> (\<exists>m1. get_deployment did d1 = Some m1 \<and> md_state m1 = (if ok then t else md_state m)
          \<and> (ok \<and> t \<notin> {''FAILED'', ''RETRYING''} \<longrightarrow> md_error_message m1 = None))
     \<and> (ok \<longrightarrow> \<not> fst (snd (update_state_if True did s u err' d1)))"
proof -
  have ok: "ok \<longleftrightarrow> md_state m = s"
  proof -
    have "ok \<longleftrightarrow> sql_count (\<lambda>m. md_id m = did \<and> md_state m = s) (db_deps d) \<noteq> 0"
      using assms(3) by (auto simp: update_state_if_def Let_def status_zero)
    also have "\<dots> \<longleftrightarrow> md_state m = s"
      using get_dep_in [OF assms(2)] get_dep_mem [OF assms(1)] assms(2)
      by (metis (mono_tags, lifting) option.inject sql_count_0)
    finally show ?thesis .
  qed
  have d1: "d1 = update_deps (\<lambda>m. md_id m = did \<and> md_state m = s)
      (\<lambda>m. m\<lparr>md_state := t, md_error_message := kept_error t err, md_updated_at := db_now d\<rparr>) d"
    and msgs: "msgs \<noteq> [] \<longleftrightarrow> ok"
    using assms(3) by (auto simp: update_state_if_def Let_def split: if_splits)
  have m1: "get_deployment did d1 = Some (if md_state m = s
      then m\<lparr>md_state := t, md_error_message := kept_error t err, md_updated_at := db_now d\<rparr> else m)"
    unfolding d1 using get_dep_in [OF assms(2)] assms(2) by (simp add: get_dep_update)
  have dist1: "distinct (map md_id (db_deps d1))"
    unfolding d1 update_deps_simps using assms(1) by (subst sql_update_map) auto
  have "ok \<Longrightarrow> sql_count (\<lambda>m. md_id m = did \<and> md_state m = s) (db_deps d1) = 0"
    using m1 ok assms(4) get_dep_mem [OF dist1] by (force simp: sql_count_0)
  then have "ok \<longrightarrow> \<not> fst (snd (update_state_if True did s u err' d1))"
    by (simp add: update_state_if_def Let_def status_zero)
  with ok msgs m1 show ?thesis
    by (auto simp: kept_error_def)
qed

theorem update_state_if_cas_witness:
  "\<exists>d1 msgs. update_state_if True ''m1'' ''RUNNING'' ''STOPPED'' None sample_fleet = (d1, True, msgs)
     \<and> \<not> fst (snd (update_state_if True ''m1'' ''RUNNING'' ''FAILED'' None d1))"
proof -
  have "distinct (map md_id (db_deps sample_fleet))"
    "get_deployment ''m1'' sample_fleet = Some (sample_dep ''m1'' ''p'' ''RUNNING'' (Some ''n1'') 2)"
    by (simp_all add: sample_fleet_def sample_dep_def get_deployment_def)
  from update_state_if_cas [OF this, of "''RUNNING''" "''STOPPED''" None] show ?thesis
    by (cases "update_state_if True ''m1'' ''RUNNING'' ''STOPPED'' None sample_fleet")
      (auto simp: sample_dep_def)
qed

end
