(* ===== verification/Linker.thy ===== *)
theory Linker
  imports DeploymentRepo
begin

text \<open>
  \<^verbatim>\<open>models/model_deployment/deployment_linker.py\<close> with the helpers it calls:
  \<^verbatim>\<open>model_ref.py\<close> (the artifact URI) and \<^verbatim>\<open>mirror_decision.py\<close> (mirror or origin).
  The worker's answer to \<^verbatim>\<open>load_model\<close>, the model-cache lookup and the capability table of
  the provider registry are parameters.
\<close>

section \<open>String helpers\<close>

text \<open>\<^verbatim>\<open>s.split(sep, 1)[-1]\<close>: what follows the first occurrence of the separator, or all of \<^verbatim>\<open>s\<close>.\<close>

fun find_sub :: "string \<Rightarrow> string \<Rightarrow> string option" where
  "find_sub sep [] = (if sep = [] then Some [] else None)"
| "find_sub sep (c # s) = (if take (length sep) (c # s) = sep then Some (drop (length sep) (c # s)) else find_sub sep s)"

definition after_sep :: "string \<Rightarrow> string \<Rightarrow> string" where
  "after_sep sep s = (case find_sub sep s of None \<Rightarrow> s | Some r \<Rightarrow> r)"

definition rstrip_char :: "char \<Rightarrow> string \<Rightarrow> string" where
  "rstrip_char c s = rev (dropWhile (\<lambda>x. x = c) (rev s))"

text \<open>\<^verbatim>\<open>urlparse(s).netloc\<close>.\<close>

definition url_netloc :: "string \<Rightarrow> string" where
  "url_netloc s =
    (let scheme = takeWhile (\<lambda>c. c \<noteq> CHR '':'') s;
         rest = (if CHR '':'' \<in> set s \<and> scheme \<noteq> [] \<and> is_alpha (hd scheme) \<and> list_all scheme_char scheme
                 then drop (Suc (length scheme)) s else s)
     in if take 2 rest = ''//'' then takeWhile (\<lambda>c. c \<notin> set ''/?#'') (drop 2 rest) else [])"

section \<open>model_ref.py\<close>

fun or_json :: "json \<Rightarrow> json \<Rightarrow> json" where
  "or_json a b = (if truthy a then a else b)"

definition sub_obj :: "jobj \<Rightarrow> string \<Rightarrow> jobj" where
  "sub_obj cfg k = (case jget cfg k of JObj o' \<Rightarrow> o' | _ \<Rightarrow> [])"

definition resolve_artifact_uri :: "jobj option \<Rightarrow> string option \<Rightarrow> string option \<Rightarrow> string option" where
  "resolve_artifact_uri configuration inference_model model_name =
    (let cfg = (case configuration of None \<Rightarrow> [] | Some c \<Rightarrow> c);
         model_block = sub_obj cfg ''model'';
         candidate = or_json (jget model_block ''artifact_uri'') (or_json (jget cfg ''artifact_uri'')
           (or_json (jget cfg ''model_id'') (or_json (opt_json inference_model) (opt_json model_name))))
     in if candidate = JNull then None
        else let uri = py_strip (py_str candidate) in
          if uri = [] then None
          else if \<not> py_in ''://'' uri then Some (''hf://'' @ uri) else Some uri)"

section \<open>mirror_decision.py\<close>

definition HF_RECIPES :: "string list" where
  "HF_RECIPES = [''vllm'', ''tei'', ''infinity'', ''inferia-diffusion'']"

definition MIRROR_STATES :: "string list" where
  "MIRROR_STATES = [''cached'', ''downloading'', ''pending'']"

definition derive_cache_key :: "string \<Rightarrow> string \<Rightarrow> string \<times> string \<times> string" where
  "derive_cache_key recipe artifact_uri =
    (let raw = after_sep ''://'' artifact_uri in
     if recipe = ''ollama'' then
       let name = takeWhile (\<lambda>c. c \<noteq> CHR '':'') raw; tag = drop (Suc (length name)) raw
       in (''ollama'', name, if tag \<noteq> [] then tag else ''latest'')
     else (''hf'', raw, ''main''))"

definition choose_fetch_source :: "jobj option \<Rightarrow> string" where
  "choose_fetch_source row = (case row of
     None \<Rightarrow> ''origin''
   | Some r \<Rightarrow> (case jget r ''status'' of
       JStr s \<Rightarrow> if r \<noteq> [] \<and> s \<in> set MIRROR_STATES then ''mirror'' else ''origin''
     | _ \<Rightarrow> ''origin''))"

definition set_env :: "string \<Rightarrow> string \<Rightarrow> jobj \<Rightarrow> jobj" where
  "set_env k v spec = AList.update ''env'' (JObj (AList.update k (JStr v) (sub_obj spec ''env''))) spec"

definition apply_mirror_to_spec :: "string \<Rightarrow> string \<Rightarrow> jobj \<Rightarrow> jobj" where
  "apply_mirror_to_spec recipe mirror_base spec =
    (let base = rstrip_char CHR ''/'' mirror_base in
     if recipe \<in> set HF_RECIPES then set_env ''HF_ENDPOINT'' (base @ ''/hf'') spec
     else if recipe = ''ollama'' then
       let netloc = url_netloc base;
           host = (if netloc \<noteq> [] then netloc else takeWhile (\<lambda>c. c \<noteq> CHR ''/'') (after_sep ''://'' base));
           raw = after_sep ''://'' (py_str (jget (sub_obj spec ''model'') ''artifact_uri''));
           ref = (if CHR ''/'' \<in> set raw then host @ ''/'' @ raw else host @ ''/library/'' @ raw)
       in set_env ''INFERIA_OLLAMA_SERVED_NAME'' raw
            (AList.update ''model'' (JObj (AList.update ''artifact_uri'' (JStr (''http://'' @ ref)) (sub_obj spec ''model''))) spec)
     else spec)"

text \<open>
  \<^verbatim>\<open>cache\<close> is None when no cache repository is configured; its function returns None when the lookup
  raises or finds no row.  \<^verbatim>\<open>prefers_origin\<close> is \<^verbatim>\<open>provider_prefers_origin_model_fetch\<close>.
\<close>

definition resolve_and_apply_mirror ::
  "(string \<Rightarrow> bool) \<Rightarrow> (string \<times> string \<times> string \<Rightarrow> jobj option) option \<Rightarrow> string \<Rightarrow> string \<Rightarrow> string
    \<Rightarrow> string option \<Rightarrow> jobj \<Rightarrow> jobj" where
  "resolve_and_apply_mirror prefers_origin cache recipe artifact_uri mirror_base provider spec =
    (if mirror_base = [] then spec
     else (case cache of
       None \<Rightarrow> spec
     | Some lookup \<Rightarrow>
         if (case provider of None \<Rightarrow> False | Some p \<Rightarrow> prefers_origin p) then spec
         else if choose_fetch_source (lookup (derive_cache_key recipe artifact_uri)) = ''mirror''
         then apply_mirror_to_spec recipe mirror_base spec else spec))"

section \<open>The load spec\<close>

definition DISAGG_RECIPE_MAP :: "(string \<times> string) list" where
  "DISAGG_RECIPE_MAP = [(''vllm'', ''vllm-prefill-decode''), (''sglang'', ''sglang-prefill-decode'')]"

text \<open>A comparison with 0; None is the TypeError for a value that is not a number.\<close>

fun num_pos :: "json \<Rightarrow> bool option" where
  "num_pos (JInt i) = Some (i > 0)"
| "num_pos (JDec m e) = Some (m > 0)"
| "num_pos (JBool b) = Some b"
| "num_pos _ = None"

definition resolve_recipe :: "string \<Rightarrow> bool \<Rightarrow> string" where
  "resolve_recipe engine disagg =
    (if disagg \<and> engine \<notin> set [''vllm-prefill-decode'', ''sglang-prefill-decode'']
     then (case map_of DISAGG_RECIPE_MAP engine of Some r \<Rightarrow> r | None \<Rightarrow> engine) else engine)"

definition build_disagg_spec :: "json \<Rightarrow> json \<Rightarrow> jobj \<Rightarrow> jobj" where
  "build_disagg_spec prefill decode spec =
     AList.update ''decode_replicas'' (or_json decode (JInt 1)) (AList.update ''prefill_replicas'' prefill spec)"

text \<open>
  \<^verbatim>\<open>prefill > 0 or decode > 0\<close> evaluates the second comparison only when the first is false; Inl is
  the TypeError of a comparison or of \<^verbatim>\<open>dict(env)\<close>.
\<close>

definition either_pos :: "json \<Rightarrow> json \<Rightarrow> bool option" where
  "either_pos a b = (case num_pos a of None \<Rightarrow> None | Some True \<Rightarrow> Some True | Some False \<Rightarrow> num_pos b)"

definition spec_from_pending :: "deployment \<Rightarrow> int \<Rightarrow> string + jobj" where
  "spec_from_pending dep gpu_required =
    (let cfg = (case md_configuration dep of None \<Rightarrow> [] | Some c \<Rightarrow> c);
         model_block = sub_obj cfg ''model'';
         uri = (case resolve_artifact_uri (Some cfg) (md_inference_model dep) (md_model_name dep) of
                  None \<Rightarrow> [] | Some u \<Rightarrow> u);
         engine = (case or_str (md_engine dep) (Some ''vllm'') of Some e \<Rightarrow> e | None \<Rightarrow> ''vllm'');
         prefill = (case map_of cfg ''prefill_replicas'' of None \<Rightarrow> JInt 0 | Some v \<Rightarrow> v);
         decode = (case map_of cfg ''decode_replicas'' of None \<Rightarrow> JInt 0 | Some v \<Rightarrow> v)
     in case either_pos prefill decode of
          None \<Rightarrow> Inl ''TypeError''
        | Some disagg \<Rightarrow>
            (case or_json (jget cfg ''env'') (JObj []) of
               JObj env \<Rightarrow>
                 let spec = [(''deployment_id'', JStr (md_id dep)),
                      (''recipe'', JStr (resolve_recipe engine disagg)),
                      (''model'', JObj [(''artifact_uri'', JStr uri),
                         (''format'', JStr (py_str (or_json (jget model_block ''format'') (or_json (jget cfg ''format'') (JStr ''hf''))))),
                         (''backend'', JStr (py_str (or_json (jget model_block ''backend'')
                            (or_json (jget cfg ''backend'') (or_json (opt_json (md_engine dep)) (JStr ''vllm'')))))) ]),
                      (''config'', or_json (jget cfg ''config'') (JObj [])),
                      (''gpu_indices'', JArr (map (\<lambda>i. JInt (int i)) [0..<nat gpu_required])),
                      (''port'', JInt 0),
                      (''env'', JObj env)]
                 in Inr (if disagg then build_disagg_spec prefill decode spec else spec)
             | _ \<Rightarrow> Inl ''TypeError''))"

section \<open>The linker\<close>

definition gpu_required_of :: "deployment \<Rightarrow> int" where
  "gpu_required_of dep = (if md_gpu_per_replica dep = 0 then 1 else md_gpu_per_replica dep)"

text \<open>The loop over the pending deployments; a full node ends it.\<close>

fun bind_loop :: "uuid \<Rightarrow> deployment list \<Rightarrow> db \<Rightarrow> db \<times> deployment list" where
  "bind_loop nid [] d = (d, [])"
| "bind_loop nid (dep # pending) d =
    (if md_target_node_id dep = Some nid then
       let (d', bound) = bind_loop nid pending (set_dep_state (md_id dep) ''DEPLOYING'' d) in (d', dep # bound)
     else if md_target_node_id dep = None then
       let (d1, ok) = allocate_gpu nid (gpu_required_of dep) d in
       if \<not> ok then (d1, [])
       else let (d', bound) = bind_loop nid pending
                  (set_dep_state (md_id dep) ''DEPLOYING'' (bind_to_node (md_id dep) nid d1))
            in (d', dep # bound)
     else bind_loop nid pending d)"

datatype load_result = LoadRaised string | LoadReturned string string

text \<open>What the environment answers: the worker, the mirror configuration, the event bus.\<close>

record link_env =
  le_load_model :: "uuid \<Rightarrow> jobj \<Rightarrow> load_result"
  le_prefers_origin :: "string \<Rightarrow> bool"
  le_cache :: "(string \<times> string \<times> string \<Rightarrow> jobj option) option"
  le_mirror_base :: string
  le_bus :: bool

definition rollback :: "link_env \<Rightarrow> uuid \<Rightarrow> deployment \<Rightarrow> string \<Rightarrow> db \<Rightarrow> db \<times> bus_msg list" where
  "rollback env nid dep message d =
     update_state (le_bus env) (md_id dep) ''FAILED'' (Some message)
       (fst (release_gpu nid (gpu_required_of dep) d))"

definition spec_text :: "jobj \<Rightarrow> string \<Rightarrow> string" where
  "spec_text spec k = (case jget spec k of JStr s \<Rightarrow> s | _ \<Rightarrow> [])"

definition drive_deploy :: "link_env \<Rightarrow> uuid \<Rightarrow> string option \<Rightarrow> deployment \<Rightarrow> db \<Rightarrow> db \<times> bus_msg list" where
  "drive_deploy env nid provider dep d =
    (case spec_from_pending dep (gpu_required_of dep) of
       Inl e \<Rightarrow> rollback env nid dep (''load_model error: '' @ e) d
     | Inr spec0 \<Rightarrow>
         let spec = resolve_and_apply_mirror (le_prefers_origin env) (le_cache env) (spec_text spec0 ''recipe'')
               (spec_text (sub_obj spec0 ''model'') ''artifact_uri'') (le_mirror_base env) provider spec0
         in (case le_load_model env nid spec of
              LoadRaised e \<Rightarrow> rollback env nid dep (''load_model error: '' @ e) d
            | LoadReturned status detail \<Rightarrow>
                if status = ''failed'' then
                  rollback env nid dep (''load_model failed on worker: ''
                    @ (if detail = [] then ''worker reported load failure'' else detail)) d
                else let d1 = set_dep_state (md_id dep) ''RUNNING'' d in
                  (case Option.bind (get_node_row nid d1) ci_advertise_url of
                     None \<Rightarrow> (d1, [])
                   | Some url \<Rightarrow> if url = [] then (d1, []) else update_endpoint (md_id dep) url None d1)))"

fun drive_all :: "link_env \<Rightarrow> uuid \<Rightarrow> string option \<Rightarrow> deployment list \<Rightarrow> db \<Rightarrow> db \<times> bus_msg list" where
  "drive_all env nid provider [] d = (d, [])"
| "drive_all env nid provider (dep # deps) d =
    (let (d1, m1) = drive_deploy env nid provider dep d; (d2, m2) = drive_all env nid provider deps d1
     in (d2, m1 @ m2))"

definition on_worker_ready :: "link_env \<Rightarrow> uuid list \<Rightarrow> uuid \<Rightarrow> db \<Rightarrow> db \<times> bus_msg list" where
  "on_worker_ready env locked nid d = (case get_node_row nid d of
     None \<Rightarrow> (d, [])
   | Some n \<Rightarrow>
       let (d1, bound) = bind_loop nid (list_pending_for_pool locked (ci_pool_id n) d) d;
           (d2, m1) = drive_all env nid (Some (ci_provider n)) bound d1;
           orphaned = filter (\<lambda>m. md_id m \<notin> md_id ` set bound) (list_deploying_for_node nid d2);
           (d3, m2) = drive_all env nid (Some (ci_provider n)) orphaned d2
       in (d3, m1 @ m2))"

section \<open>Lemmas\<close>

lemma get_dep_set_state:
  "get_deployment i (set_dep_state j st d) =
   map_option (\<lambda>m. if md_id m = j then m\<lparr>md_state := st\<rparr> else m) (get_deployment i d)"
  by (simp add: set_dep_state_def get_dep_update)

lemma get_dep_bind:
  "get_deployment i (bind_to_node j n d) =
   map_option (\<lambda>m. if md_id m = j then m\<lparr>md_target_node_id := Some n\<rparr> else m) (get_deployment i d)"
  by (simp add: bind_to_node_def get_dep_update)

lemma get_dep_allocate [simp]: "get_deployment i (fst (allocate_gpu n c d)) = get_deployment i d"
  by (simp add: get_deployment_def)

lemma get_dep_other:
  "i \<noteq> j \<Longrightarrow> get_deployment i (set_dep_state j st d) = get_deployment i d"
  "i \<noteq> j \<Longrightarrow> get_deployment i (bind_to_node j n d) = get_deployment i d"
  by (cases "get_deployment i d"; auto simp: get_dep_set_state get_dep_bind dest: get_dep_in)+

lemma nodes_set_state [simp]:
  "db_nodes (set_dep_state j st d) = db_nodes d" "db_nodes (bind_to_node j n d) = db_nodes d"
  "get_node_row i (set_dep_state j st d) = get_node_row i d" "get_node_row i (bind_to_node j n d) = get_node_row i d"
  by (simp_all add: set_dep_state_def bind_to_node_def)

lemma bind_step:
  "bind_loop nid (dep # ps) d =
    (if md_target_node_id dep = Some nid then
       (fst (bind_loop nid ps (set_dep_state (md_id dep) ''DEPLOYING'' d)),
        dep # snd (bind_loop nid ps (set_dep_state (md_id dep) ''DEPLOYING'' d)))
     else if md_target_node_id dep = None then
       let d1 = fst (allocate_gpu nid (gpu_required_of dep) d);
           d2 = set_dep_state (md_id dep) ''DEPLOYING'' (bind_to_node (md_id dep) nid d1)
       in if snd (allocate_gpu nid (gpu_required_of dep) d)
          then (fst (bind_loop nid ps d2), dep # snd (bind_loop nid ps d2)) else (d1, [])
     else bind_loop nid ps d)"
  by (simp add: split_def Let_def)

declare bind_loop.simps(2) [simp del]

lemma bind_loop_subset:
  "set (snd (bind_loop nid ps d)) \<subseteq> {m \<in> set ps. md_target_node_id m \<in> {None, Some nid}}"
proof (induction ps arbitrary: d)
  case (Cons dep ps)
  show ?case
    using Cons.IH unfolding bind_step Let_def by (fastforce split: if_splits)
qed simp

lemma bind_loop_other:
  "i \<notin> md_id ` set (snd (bind_loop nid ps d)) \<Longrightarrow> get_deployment i (fst (bind_loop nid ps d)) = get_deployment i d"
proof (induction ps arbitrary: d)
  case (Cons dep ps)
  then show ?case
    unfolding bind_step Let_def by (auto simp: get_dep_other split: if_splits)
qed simp

lemma bind_loop_bound:
  assumes "distinct (map md_id ps)" "\<forall>m \<in> set ps. get_deployment (md_id m) d = Some m"
    and "m \<in> set (snd (bind_loop nid ps d))"
  shows "get_deployment (md_id m) (fst (bind_loop nid ps d)) =
    Some (m\<lparr>md_state := ''DEPLOYING'', md_target_node_id := Some nid\<rparr>)"
  using assms
proof (induction ps arbitrary: d)
  case (Cons dep ps)
  define d1 where "d1 = (if md_target_node_id dep = Some nid then set_dep_state (md_id dep) ''DEPLOYING'' d
    else set_dep_state (md_id dep) ''DEPLOYING'' (bind_to_node (md_id dep) nid (fst (allocate_gpu nid (gpu_required_of dep) d))))"
  have head: "get_deployment (md_id dep) d1 = Some (dep\<lparr>md_state := ''DEPLOYING'', md_target_node_id := Some nid\<rparr>)"
    using Cons.prems(2) by (auto simp: d1_def get_dep_set_state get_dep_bind)
  have rest: "\<forall>m \<in> set ps. get_deployment (md_id m) d1 = Some m"
    using Cons.prems(1,2) by (auto simp: d1_def get_dep_other image_iff)
  have sub: "dep \<notin> set (snd (bind_loop nid ps e)) \<and> md_id dep \<notin> md_id ` set (snd (bind_loop nid ps e))" for e
    using bind_loop_subset [of nid ps e] Cons.prems(1) by auto
  have dist: "distinct (map md_id ps)" "\<forall>m \<in> set ps. get_deployment (md_id m) d = Some m"
    using Cons.prems(1,2) by auto
  consider (target) "md_target_node_id dep = Some nid"
    | (free) "md_target_node_id dep = None" "snd (allocate_gpu nid (gpu_required_of dep) d)"
    | (full) "md_target_node_id dep = None" "\<not> snd (allocate_gpu nid (gpu_required_of dep) d)"
    | (other) "md_target_node_id dep \<noteq> None" "md_target_node_id dep \<noteq> Some nid"
    by blast
  then show ?case
  proof cases
    case full
    then show ?thesis using Cons.prems(3) by (simp add: bind_step Let_def)
  next
    case other
    then have "bind_loop nid (dep # ps) d = bind_loop nid ps d"
      by (auto simp: bind_step)
    then show ?thesis using Cons.IH [OF dist] Cons.prems(3) by simp
  next
    case target
    then have step: "bind_loop nid (dep # ps) d = (fst (bind_loop nid ps d1), dep # snd (bind_loop nid ps d1))"
      by (simp add: d1_def bind_step Let_def)
    show ?thesis
      using Cons.IH [OF dist(1) rest] Cons.prems(3) head sub [of d1] bind_loop_other [of "md_id dep" nid ps d1]
      unfolding step by auto
  next
    case free
    then have step: "bind_loop nid (dep # ps) d = (fst (bind_loop nid ps d1), dep # snd (bind_loop nid ps d1))"
      by (simp add: d1_def bind_step Let_def)
    show ?thesis
      using Cons.IH [OF dist(1) rest] Cons.prems(3) head sub [of d1] bind_loop_other [of "md_id dep" nid ps d1]
      unfolding step by auto
  qed
qed simp

definition newly_booked :: "deployment list \<Rightarrow> int" where
  "newly_booked bound = sum_list (map gpu_required_of (filter (\<lambda>m. md_target_node_id m = None) bound))"

lemma gpu_required_pos: "0 \<le> md_gpu_per_replica m \<Longrightarrow> 0 < gpu_required_of m"
  by (simp add: gpu_required_of_def)

lemma bind_loop_alloc:
  assumes "distinct (map ci_id (db_nodes d))" "get_node_row nid d = Some n" "ci_gpu_total n = Some t"
    and "ci_gpu_allocated n \<le> t"
  shows "\<exists>n'. get_node_row nid (fst (bind_loop nid ps d)) = Some n' \<and> ci_gpu_total n' = Some t
     \<and> ci_gpu_allocated n' = ci_gpu_allocated n + newly_booked (snd (bind_loop nid ps d))
     \<and> ci_gpu_allocated n' \<le> t"
  using assms
proof (induction ps arbitrary: d n)
  case (Cons dep ps)
  define g where "g = gpu_required_of dep"
  define d1 where "d1 = fst (allocate_gpu nid g d)"
  define ok where "ok = snd (allocate_gpu nid g d)"
  have row1: "get_node_row nid d1 = Some (if ok then n\<lparr>ci_gpu_allocated := ci_gpu_allocated n + g\<rparr> else n)"
    using allocate_gpu_row(1) [OF Cons.prems(2,1), of nid g] by (simp add: d1_def ok_def)
  have cap: "ok \<Longrightarrow> ci_gpu_allocated n + g \<le> t"
    using allocate_gpu_row(2) [OF Cons.prems(2,1) refl, of g] gpu_fits_le Cons.prems(3) by (simp add: ok_def)
  have dist1: "distinct (map ci_id (db_nodes d1))"
    using Cons.prems(1) by (simp add: d1_def gpu_ids)
  show ?case
  proof (cases "md_target_node_id dep")
    case None
    show ?thesis
    proof (cases ok)
      case True
      have "\<exists>n'. get_node_row nid (fst (bind_loop nid ps (set_dep_state (md_id dep) ''DEPLOYING'' (bind_to_node (md_id dep) nid d1)))) = Some n'
         \<and> ci_gpu_total n' = Some t \<and> ci_gpu_allocated n' = ci_gpu_allocated n + g
             + newly_booked (snd (bind_loop nid ps (set_dep_state (md_id dep) ''DEPLOYING'' (bind_to_node (md_id dep) nid d1))))
         \<and> ci_gpu_allocated n' \<le> t"
        using Cons.IH [of "set_dep_state (md_id dep) ''DEPLOYING'' (bind_to_node (md_id dep) nid d1)"
            "n\<lparr>ci_gpu_allocated := ci_gpu_allocated n + g\<rparr>"] True row1 cap dist1 Cons.prems(3)
        by simp
      with None True show ?thesis
        by (auto simp: d1_def ok_def g_def bind_step Let_def newly_booked_def)
    next
      case False
      with None row1 Cons.prems show ?thesis
        by (simp add: d1_def ok_def g_def bind_step Let_def newly_booked_def)
    qed
  next
    case (Some k)
    then show ?thesis
      using Cons.IH [of d n] Cons.IH [of "set_dep_state (md_id dep) ''DEPLOYING'' d" n] Cons.prems
      by (cases "k = nid") (simp_all add: bind_step Let_def newly_booked_def)
  qed
qed (simp add: newly_booked_def)

lemma get_dep_release [simp]: "get_deployment i (fst (release_gpu n c d)) = get_deployment i d"
  by (simp add: fst_release_gpu get_deployment_def)

lemma rollback_dep:
  "get_deployment i (fst (rollback env nid dep msg d)) = map_option (\<lambda>m. if md_id m = md_id dep
     then m\<lparr>md_state := ''FAILED'', md_error_message := Some msg, md_updated_at := db_now d\<rparr> else m) (get_deployment i d)"
  by (simp add: rollback_def update_state_def kept_error_def get_dep_update fst_release_gpu)
    (simp add: get_deployment_def)

lemma rollback_node:
  "get_node_row i (fst (rollback env nid dep msg d)) = get_node_row i (fst (release_gpu nid (gpu_required_of dep) d))"
  by (simp add: rollback_def update_state_def)

text \<open>The outcomes of driving one deployment.\<close>

lemma drive_deploy_cases:
  obtains (failed) msg where "drive_deploy env nid pr dep d = rollback env nid dep msg d"
  | (running) "fst (drive_deploy env nid pr dep d) = (case Option.bind (get_node_row nid d) ci_advertise_url of
        None \<Rightarrow> set_dep_state (md_id dep) ''RUNNING'' d
      | Some url \<Rightarrow> if url = [] then set_dep_state (md_id dep) ''RUNNING'' d
          else fst (update_endpoint (md_id dep) url None (set_dep_state (md_id dep) ''RUNNING'' d)))"
proof (cases "spec_from_pending dep (gpu_required_of dep)")
  case (Inl e)
  then show thesis by (intro failed) (simp add: drive_deploy_def)
next
  case (Inr spec0)
  define spec where "spec = resolve_and_apply_mirror (le_prefers_origin env) (le_cache env) (spec_text spec0 ''recipe'')
     (spec_text (sub_obj spec0 ''model'') ''artifact_uri'') (le_mirror_base env) pr spec0"
  show thesis
  proof (cases "le_load_model env nid spec")
    case (LoadRaised e)
    with Inr show thesis by (intro failed) (simp add: drive_deploy_def spec_def [symmetric])
  next
    case (LoadReturned st detail)
    show thesis
    proof (cases "st = ''failed''")
      case True
      with Inr LoadReturned show thesis by (intro failed) (simp add: drive_deploy_def spec_def [symmetric])
    next
      case False
      with Inr LoadReturned show thesis
        by (intro running) (simp add: drive_deploy_def spec_def [symmetric] Let_def split: option.splits)
    qed
  qed
qed

lemma get_dep_endpoint:
  "get_deployment i (fst (update_endpoint j url None d)) = map_option (\<lambda>m. if md_id m = j
     then m\<lparr>md_endpoint := Some url, md_updated_at := db_now d\<rparr> else m) (get_deployment i d)"
  by (simp add: update_endpoint_def get_dep_update coalesce_def cong: if_cong)

lemma get_node_endpoint [simp]: "get_node_row i (fst (update_endpoint j url nm d)) = get_node_row i d"
  by (simp add: update_endpoint_def)

lemma drive_deploy_other:
  assumes "i \<noteq> md_id dep"
  shows "get_deployment i (fst (drive_deploy env nid pr dep d)) = get_deployment i d"
proof (cases "get_deployment i d")
  case None
  then show ?thesis
    by (cases rule: drive_deploy_cases [of env nid pr dep d])
      (auto simp: rollback_dep get_dep_set_state get_dep_endpoint split: option.splits)
next
  case (Some m)
  with assms get_dep_in [OF Some] show ?thesis
    by (cases rule: drive_deploy_cases [of env nid pr dep d])
      (auto simp: rollback_dep get_dep_set_state get_dep_endpoint split: option.splits)
qed

lemma drive_all_other:
  "i \<notin> md_id ` set deps \<Longrightarrow> get_deployment i (fst (drive_all env nid pr deps d)) = get_deployment i d"
  by (induction deps arbitrary: d) (auto simp: split_def Let_def drive_deploy_other)

section \<open>Properties\<close>

text \<open>
  C30: linking books each GPU once.  For the pending rows as read, the node's counter grows exactly
  by the requirement of the deployments bound now (those already bound to the node were booked
  when they were placed) and stays within its total; every deployment the loop takes ends up
  DEPLOYING on this node, every other deployment is left as it was.
\<close>

theorem linker_books_once:
  assumes "distinct (map ci_id (db_nodes d))" "get_node_row nid d = Some n" "ci_gpu_total n = Some t"
    and "ci_gpu_allocated n \<le> t" "distinct (map md_id ps)"
    and "\<forall>m \<in> set ps. get_deployment (md_id m) d = Some m" "bind_loop nid ps d = (d', bound)"
  shows "(\<exists>n'. get_node_row nid d' = Some n' \<and> ci_gpu_allocated n' \<le> t
            \<and> ci_gpu_allocated n' = ci_gpu_allocated n
               + (\<Sum>m \<leftarrow> filter (\<lambda>m. md_target_node_id m = None) bound. gpu_required_of m))
     \<and> (\<forall>m \<in> set bound. m \<in> set ps \<and> md_target_node_id m \<in> {None, Some nid}
          \<and> get_deployment (md_id m) d' = Some (m\<lparr>md_state := ''DEPLOYING'', md_target_node_id := Some nid\<rparr>))
     \<and> (\<forall>i. i \<notin> md_id ` set bound \<longrightarrow> get_deployment i d' = get_deployment i d)"
proof -
  have eq: "d' = fst (bind_loop nid ps d)" "bound = snd (bind_loop nid ps d)"
    using assms(7) by simp_all
  obtain n' where "get_node_row nid d' = Some n'" "ci_gpu_allocated n' \<le> t"
    "ci_gpu_allocated n' = ci_gpu_allocated n + newly_booked bound"
    using bind_loop_alloc [OF assms(1-4), of ps] unfolding eq by blast
  moreover have "m \<in> set ps \<and> md_target_node_id m \<in> {None, Some nid}
      \<and> get_deployment (md_id m) d' = Some (m\<lparr>md_state := ''DEPLOYING'', md_target_node_id := Some nid\<rparr>)"
    if "m \<in> set bound" for m
    using bind_loop_subset [of nid ps d] bind_loop_bound [OF assms(5,6)] that unfolding eq by blast
  moreover have "get_deployment i d' = get_deployment i d" if "i \<notin> md_id ` set bound" for i
    using bind_loop_other that unfolding eq by blast
  ultimately show ?thesis
    by (auto simp: newly_booked_def)
qed

text \<open>
  a pending deployment that is already bound to the node can be left behind.  When an older
  pending deployment of the pool has no target and does not fit on the node, the loop stops there,
  so a younger one whose GPUs are reserved on this very node stays PENDING_NODE although the node
  is ready.
\<close>

theorem full_node_starves_bound_deployment:
  assumes "distinct (map md_id (db_deps d))" "get_node_row nid d = Some n"
    and "list_pending_for_pool locked (ci_pool_id n) d = u # ps"
    and "md_target_node_id u = None" "\<not> snd (allocate_gpu nid (gpu_required_of u) d)"
    and "b \<in> set ps" "md_target_node_id b = Some nid"
  shows "get_deployment (md_id b) (fst (on_worker_ready env locked nid d)) = Some b
     \<and> md_state b = ''PENDING_NODE''"
proof -
  have "b \<in> set (list_pending_for_pool locked (ci_pool_id n) d)"
    using assms(3,6) by simp
  then have b: "b \<in> set (db_deps d)" "md_state b = ''PENDING_NODE''"
    by (simp_all add: list_pending_for_pool_def)
  define d1 where "d1 = fst (allocate_gpu nid (gpu_required_of u) d)"
  have loop: "bind_loop nid (u # ps) d = (d1, [])"
    using assms(4,5) by (simp add: bind_step Let_def d1_def)
  have deps: "db_deps d1 = db_deps d"
    by (simp add: d1_def)
  have b1: "get_deployment (md_id b) d1 = Some b"
    using get_dep_mem [OF assms(1) b(1)] by (simp add: d1_def)
  have "md_id b \<notin> md_id ` set (list_deploying_for_node nid d1)"
  proof
    assume "md_id b \<in> md_id ` set (list_deploying_for_node nid d1)"
    then obtain m where m: "m \<in> set (db_deps d)" "md_state m = ''DEPLOYING''" "md_id m = md_id b"
      by (auto simp: list_deploying_for_node_def deps)
    have "m = b"
      using get_dep_mem [OF assms(1) m(1)] get_dep_mem [OF assms(1) b(1)] unfolding m(3) by simp
    then show False using m(2) b(2) by simp
  qed
  then have "get_deployment (md_id b) (fst (drive_all env nid (Some (ci_provider n)) (list_deploying_for_node nid d1) d1)) = Some b"
    using b1 by (simp add: drive_all_other)
  then show ?thesis
    using assms(2,3) b(2) by (simp add: on_worker_ready_def loop split_def Let_def)
qed

text \<open>
  C31: driving one deployment on a worker always settles it.  Whatever the worker, the mirror and the
  cache answer, the row ends RUNNING, with the GPUs still booked and the worker's advertised URL as
  its endpoint, or FAILED with an error message and the booked GPUs given back.
\<close>

theorem drive_deploy_settles:
  assumes "get_deployment (md_id dep) d = Some m" "get_node_row nid d = Some n"
    and "fst (drive_deploy env nid pr dep d) = d'"
  shows "\<exists>m'. get_deployment (md_id dep) d' = Some m'
     \<and> (md_state m' = ''RUNNING'' \<and> get_node_row nid d' = Some n
          \<and> (\<forall>url. ci_advertise_url n = Some url \<and> url \<noteq> [] \<longrightarrow> md_endpoint m' = Some url)
        \<or> md_state m' = ''FAILED'' \<and> md_error_message m' \<noteq> None
          \<and> get_node_row nid d' = get_node_row nid (fst (release_gpu nid (gpu_required_of dep) d)))"
proof (cases rule: drive_deploy_cases [of env nid pr dep d])
  case (failed msg)
  then have "d' = fst (rollback env nid dep msg d)"
    using assms(3) by simp
  then show ?thesis
    using assms(1) get_dep_in [OF assms(1)] by (simp add: rollback_dep rollback_node)
next
  case running
  then show ?thesis
    using assms get_dep_in [OF assms(1)]
    by (auto simp: get_dep_set_state get_dep_endpoint split: option.splits if_splits)
qed

definition sample_link :: db where
  "sample_link = empty_db\<lparr>db_nodes := [sample_node ''n1'' ''p'' ''ready'' 4 3],
     db_pools := [sample_pool ''p'' ''running''],
     db_deps := [sample_dep ''m1'' ''p'' ''PENDING_NODE'' None 1,
       sample_dep ''m2'' ''p'' ''PENDING_NODE'' None 2, sample_dep ''m3'' ''p'' ''PENDING_NODE'' (Some ''n1'') 3]\<rparr>"

definition sample_link_env :: link_env where
  "sample_link_env = \<lparr>le_load_model = (\<lambda>n spec. LoadReturned ''failed'' ''out of memory''), le_prefers_origin = (\<lambda>_. False),
     le_cache = None, le_mirror_base = [], le_bus = True\<rparr>"

lemma sample_link_node:
  "get_node_row ''n1'' sample_link = Some (sample_node ''n1'' ''p'' ''ready'' 4 3)"
  "ci_pool_id (sample_node ''n1'' ''p'' ''ready'' 4 3) = ''p''"
  by (simp_all add: sample_link_def get_node_row_def sample_node_def)

lemma sample_link_deps:
  "get_deployment ''m1'' sample_link = Some (sample_dep ''m1'' ''p'' ''PENDING_NODE'' None 1)"
  "get_deployment ''m2'' sample_link = Some (sample_dep ''m2'' ''p'' ''PENDING_NODE'' None 2)"
  "get_deployment ''m3'' sample_link = Some (sample_dep ''m3'' ''p'' ''PENDING_NODE'' (Some ''n1'') 3)"
  by (simp_all add: sample_link_def get_deployment_def sample_dep_def)

lemma sample_link_pending:
  "list_pending_for_pool [''m1''] ''p'' sample_link =
     [sample_dep ''m2'' ''p'' ''PENDING_NODE'' None 2, sample_dep ''m3'' ''p'' ''PENDING_NODE'' (Some ''n1'') 3]"
  by (simp add: list_pending_for_pool_def sample_link_def sample_dep_def)

lemma sample_link_binds:
  "snd (bind_loop ''n1'' [sample_dep ''m1'' ''p'' ''PENDING_NODE'' None 1] sample_link)
     = [sample_dep ''m1'' ''p'' ''PENDING_NODE'' None 1]"
  by (simp add: bind_step Let_def allocate_gpu_def gpu_fits_def sample_link_def sample_dep_def sample_node_def
      gpu_required_of_def terminating_def meta_field_def update_nodes_def sql_update_def empty_db_def jfield_def jget_def)

lemma sample_dep_fields [simp]:
  "md_id (sample_dep i p st t g) = i" "md_target_node_id (sample_dep i p st t g) = t"
  "md_state (sample_dep i p st t g) = st" "gpu_required_of (sample_dep i p st t g) = (if g = 0 then 1 else g)"
  by (simp_all add: sample_dep_def gpu_required_of_def)

lemma sample_node_fields [simp]:
  "ci_id (sample_node i p st g a) = i" "ci_gpu_total (sample_node i p st g a) = Some g"
  "ci_gpu_allocated (sample_node i p st g a) = a"
  by (simp_all add: sample_node_def)

theorem linker_books_once_witness:
  "\<exists>n'. get_node_row ''n1'' (fst (bind_loop ''n1'' [sample_dep ''m1'' ''p'' ''PENDING_NODE'' None 1] sample_link)) = Some n'
     \<and> ci_gpu_allocated n' = 4"
proof -
  have "distinct (map ci_id (db_nodes sample_link))"
    by (simp add: sample_link_def)
  from linker_books_once [OF this sample_link_node(1), of 4 "[sample_dep ''m1'' ''p'' ''PENDING_NODE'' None 1]",
      OF _ _ _ _ prod.collapse [symmetric]]
  show ?thesis
    by (auto simp: sample_link_binds sample_link_deps)
qed

theorem full_node_starves_bound_deployment_witness:
  "get_deployment ''m3'' (fst (on_worker_ready sample_link_env [''m1''] ''n1'' sample_link))
     = Some (sample_dep ''m3'' ''p'' ''PENDING_NODE'' (Some ''n1'') 3)"
  using full_node_starves_bound_deployment [of sample_link "''n1''" "sample_node ''n1'' ''p'' ''ready'' 4 3"
      "[''m1'']" "sample_dep ''m2'' ''p'' ''PENDING_NODE'' None 2" "[sample_dep ''m3'' ''p'' ''PENDING_NODE'' (Some ''n1'') 3]"
      "sample_dep ''m3'' ''p'' ''PENDING_NODE'' (Some ''n1'') 3" sample_link_env]
  unfolding sample_link_node sample_link_pending
  by (simp add: sample_link_def sample_dep_def sample_node_def gpu_required_of_def allocate_gpu_def gpu_fits_def)

theorem drive_deploy_settles_witness:
  "\<exists>m'. get_deployment ''m1'' (fst (drive_deploy sample_link_env ''n1'' None
       (sample_dep ''m1'' ''p'' ''PENDING_NODE'' None 1) sample_link)) = Some m' \<and> md_state m' \<in> {''RUNNING'', ''FAILED''}"
  using drive_deploy_settles [of "sample_dep ''m1'' ''p'' ''PENDING_NODE'' None 1" sample_link
      "sample_dep ''m1'' ''p'' ''PENDING_NODE'' None 1" "''n1''" "sample_node ''n1'' ''p'' ''ready'' 4 3"
      sample_link_env None, OF _ sample_link_node(1) refl] sample_link_deps(1)
  by (auto simp: sample_dep_def)

end
