(* ===== verification/Scheduler.thy ===== *)
theory Scheduler
  imports DeploymentRepo
begin

text \<open>
  The scheduler: \<^verbatim>\<open>repositories/quota_repo.py\<close>, \<^verbatim>\<open>repositories/scheduler_repo.py\<close> (allocation with quotas and
  preemption), \<^verbatim>\<open>repositories/autoscaler_repo.py\<close> (its statements that write), \<^verbatim>\<open>repositories/placement_repo.py\<close> with
  \<^verbatim>\<open>scheduling/placement_scoring.py\<close> and the two services over them.  A method that returns early commits what it
  wrote; one that raises leaves the tables as they were.
\<close>

section \<open>Quotas\<close>

definition same_owner :: "string \<Rightarrow> string \<Rightarrow> usage \<Rightarrow> bool" where
  "same_owner ot oi u \<longleftrightarrow> us_owner_type u = ot \<and> us_owner_id u = oi"

definition ensure_owner :: "string \<Rightarrow> string \<Rightarrow> db \<Rightarrow> db" where
  "ensure_owner ot oi d = (if list_ex (same_owner ot oi) (db_usage d) then d
     else d\<lparr>db_usage := db_usage d @ [\<lparr>us_owner_type = ot, us_owner_id = oi, us_gpu_in_use = 0, us_vcpu_in_use = 0,
       us_ram_gb_in_use = 0, us_allocations = 0\<rparr>]\<rparr>)"

definition over_limit :: "int option \<Rightarrow> int \<Rightarrow> bool" where
  "over_limit m x = (case m of None \<Rightarrow> False | Some b \<Rightarrow> x > b)"

definition check_hard_limits :: "string \<Rightarrow> string \<Rightarrow> int \<Rightarrow> int \<Rightarrow> int \<Rightarrow> db \<Rightarrow> bool \<times> string option" where
  "check_hard_limits ot oi gpu vcpu ram d =
    (case (find (\<lambda>q. qu_owner_type q = ot \<and> qu_owner_id q = oi) (db_quotas d), find (same_owner ot oi) (db_usage d)) of
       (Some q, Some u) \<Rightarrow>
         if over_limit (qu_max_gpu q) (us_gpu_in_use u + gpu) then (False, Some ''GPU_QUOTA_EXCEEDED'')
         else if over_limit (qu_max_vcpu q) (us_vcpu_in_use u + vcpu) then (False, Some ''VCPU_QUOTA_EXCEEDED'')
         else if over_limit (qu_max_ram_gb q) (us_ram_gb_in_use u + ram) then (False, Some ''RAM_QUOTA_EXCEEDED'')
         else if over_limit (qu_max_allocations q) (us_allocations u + 1) then (False, Some ''ALLOCATION_QUOTA_EXCEEDED'')
         else (True, None)
     | _ \<Rightarrow> (True, None))"

section \<open>Allocation\<close>

text \<open>What aborts a call: an error of the database, or a \<^verbatim>\<open>TypeError\<close> from arithmetic on a NULL total.\<close>

datatype sched_error = SqlError sql_error | NoneArithmetic

type_synonym sched_reply = "bool \<times> string option \<times> uuid option"

definition lock_node :: "uuid \<Rightarrow> db \<Rightarrow> node option" where
  "lock_node nid d = find (\<lambda>n. ci_id n = nid \<and> ci_state n = ''ready'') (db_nodes d)"

text \<open>The conjuncts are evaluated from left to right; a NULL total raises only when it is reached.\<close>

definition room :: "int option \<Rightarrow> int \<Rightarrow> int \<Rightarrow> bool option" where
  "room tot used need = map_option (\<lambda>t. t - used \<ge> need) tot"

definition py_and :: "bool option \<Rightarrow> bool option \<Rightarrow> bool option" where
  "py_and a b = (case a of None \<Rightarrow> None | Some False \<Rightarrow> Some False | Some True \<Rightarrow> b)"

definition has_capacity :: "node \<Rightarrow> int \<Rightarrow> int \<Rightarrow> int \<Rightarrow> bool option" where
  "has_capacity n gpu vcpu ram =
     py_and (room (ci_gpu_total n) (ci_gpu_allocated n) gpu)
       (py_and (room (ci_vcpu_total n) (ci_vcpu_allocated n) vcpu) (room (ci_ram_gb_total n) (ci_ram_gb_allocated n) ram))"

definition commit_allocation ::
  "uuid \<Rightarrow> node \<Rightarrow> int \<Rightarrow> int \<Rightarrow> int \<Rightarrow> int \<Rightarrow> string \<Rightarrow> string \<Rightarrow> db \<Rightarrow> db tx" where
  "commit_allocation aid n gpu vcpu ram_gb priority ot oi d =
    (let d1 = update_nodes (\<lambda>m. ci_id m = ci_id n) (\<lambda>m. m\<lparr>ci_gpu_allocated := ci_gpu_allocated m + gpu,
                ci_vcpu_allocated := ci_vcpu_allocated m + vcpu, ci_ram_gb_allocated := ci_ram_gb_allocated m + ram_gb\<rparr>) d
     in if aid \<in> al_id ` set (db_allocs d) then Inl (UniqueViolation ''allocations_pkey'')
        else Inr (d1\<lparr>db_allocs := db_allocs d @
          [\<lparr>al_id = aid, al_node_id = ci_id n, al_gpu = gpu, al_vcpu = vcpu, al_ram_gb = ram_gb, al_priority = priority,
            al_preemptible = (ci_node_class n = ''spot''), al_owner_type = ot, al_owner_id = oi,
            al_node_class = ci_node_class n, al_created_at = db_now d, al_released_at = None\<rparr>]\<rparr>))"

definition release_allocation_locked :: "uuid \<Rightarrow> uuid \<Rightarrow> int \<Rightarrow> int \<Rightarrow> int \<Rightarrow> db \<Rightarrow> db" where
  "release_allocation_locked aid nid gpu vcpu ram_gb d =
    (let d1 = update_nodes (\<lambda>m. ci_id m = nid) (\<lambda>m. m\<lparr>ci_gpu_allocated := ci_gpu_allocated m - gpu,
                ci_vcpu_allocated := ci_vcpu_allocated m - vcpu, ci_ram_gb_allocated := ci_ram_gb_allocated m - ram_gb\<rparr>) d
     in d1\<lparr>db_allocs := sql_update (\<lambda>a. al_id a = aid) (\<lambda>a. a\<lparr>al_released_at := Some (db_now d)\<rparr>) (db_allocs d)\<rparr>)"

definition allocate ::
  "uuid \<Rightarrow> uuid \<Rightarrow> int \<Rightarrow> int \<Rightarrow> int \<Rightarrow> int \<Rightarrow> string \<Rightarrow> string \<Rightarrow> db \<Rightarrow> sched_error + db \<times> sched_reply" where
  "allocate aid nid gpu vcpu ram_gb priority ot oi d =
    (let d0 = ensure_owner ot oi d; (ok, reason) = check_hard_limits ot oi gpu vcpu ram_gb d0
     in if \<not> ok then Inr (d0, False, reason, None)
        else (case lock_node nid d0 of
            None \<Rightarrow> Inr (d0, False, Some ''NODE_NOT_READY'', None)
          | Some n \<Rightarrow> (case has_capacity n gpu vcpu ram_gb of
              None \<Rightarrow> Inl NoneArithmetic
            | Some False \<Rightarrow> Inr (d0, False, Some ''INSUFFICIENT_CAPACITY'', Some (ci_pool_id n))
            | Some True \<Rightarrow> (case commit_allocation aid n gpu vcpu ram_gb priority ot oi d0 of
                Inl e \<Rightarrow> Inl (SqlError e)
              | Inr d1 \<Rightarrow> Inr (d1, True, Some ''ALLOCATED'', Some (ci_pool_id n))))))"

section \<open>Preemption\<close>

definition victims :: "uuid \<Rightarrow> int \<Rightarrow> db \<Rightarrow> allocation list" where
  "victims nid priority d = sort_key (\<lambda>a. (al_priority a, al_created_at a))
     (filter (\<lambda>a. al_node_id a = nid \<and> al_preemptible a \<and> al_priority a < priority \<and> al_released_at a = None) (db_allocs d))"

type_synonym res = "int \<times> int \<times> int"

definition covers :: "res \<Rightarrow> res \<Rightarrow> bool" where
  "covers r need = (case (r, need) of ((g, v, m), (gpu, vcpu, ram)) \<Rightarrow> g \<ge> gpu \<and> v \<ge> vcpu \<and> m \<ge> ram)"

definition reclaim :: "res \<Rightarrow> allocation \<Rightarrow> res" where
  "reclaim r v = (case r of (g, c, m) \<Rightarrow> (g + al_gpu v, c + al_vcpu v, m + al_ram_gb v))"

text \<open>The loop over the victims: what is reclaimed and the allocations to evict.\<close>

fun evict_loop :: "res \<Rightarrow> res \<Rightarrow> allocation list \<Rightarrow> res \<times> allocation list" where
  "evict_loop need r [] = (r, [])"
| "evict_loop need r (v # vs) =
    (let r' = reclaim r v in
     if covers r' need then (r', [v])
     else let (r'', evict) = evict_loop need r' vs in (r'', v # evict))"

definition evict_all :: "uuid \<Rightarrow> allocation list \<Rightarrow> db \<Rightarrow> db" where
  "evict_all nid evict d =
     fold (\<lambda>v. release_allocation_locked (al_id v) nid (al_gpu v) (al_vcpu v) (al_ram_gb v)) evict d"

definition node_free :: "node \<Rightarrow> res option" where
  "node_free n = (case (ci_gpu_total n, ci_vcpu_total n, ci_ram_gb_total n) of
     (Some g, Some v, Some m) \<Rightarrow> Some (g - ci_gpu_allocated n, v - ci_vcpu_allocated n, m - ci_ram_gb_allocated n)
   | _ \<Rightarrow> None)"

definition allocate_with_preemption ::
  "uuid \<Rightarrow> uuid \<Rightarrow> int \<Rightarrow> int \<Rightarrow> int \<Rightarrow> int \<Rightarrow> string \<Rightarrow> string \<Rightarrow> db \<Rightarrow> sched_error + db \<times> sched_reply" where
  "allocate_with_preemption aid nid gpu vcpu ram_gb priority ot oi d =
    (let d0 = ensure_owner ot oi d; (ok, reason) = check_hard_limits ot oi gpu vcpu ram_gb d0; need = (gpu, vcpu, ram_gb)
     in if \<not> ok then Inr (d0, False, reason, None)
        else (case lock_node nid d0 of
            None \<Rightarrow> Inr (d0, False, Some ''NODE_NOT_READY'', None)
          | Some n \<Rightarrow> (case node_free n of
              None \<Rightarrow> Inl NoneArithmetic
            | Some free \<Rightarrow>
                if covers free need then
                  (case commit_allocation aid n gpu vcpu ram_gb priority ot oi d0 of
                     Inl e \<Rightarrow> Inl (SqlError e)
                   | Inr d1 \<Rightarrow> Inr (d1, True, Some ''ALLOCATED'', Some (ci_pool_id n)))
                else let (reclaimed, evict) = evict_loop need free (victims nid priority d0) in
                  if \<not> covers reclaimed need then Inr (d0, False, Some ''INSUFFICIENT_CAPACITY'', Some (ci_pool_id n))
                  else (case commit_allocation aid n gpu vcpu ram_gb priority ot oi (evict_all nid evict d0) of
                     Inl e \<Rightarrow> Inl (SqlError e)
                   | Inr d1 \<Rightarrow> Inr (d1, True, Some ''PREEMPTED_AND_ALLOCATED'', Some (ci_pool_id n))))))"

definition release_alloc :: "uuid \<Rightarrow> db \<Rightarrow> db \<times> bool" where
  "release_alloc aid d = (case find (\<lambda>a. al_id a = aid \<and> al_released_at a = None) (db_allocs d) of
     None \<Rightarrow> (d, False)
   | Some a \<Rightarrow> (release_allocation_locked (al_id a) (al_node_id a) (al_gpu a) (al_vcpu a) (al_ram_gb a) d, True))"

section \<open>Autoscaler state and the scheduler service\<close>

definition bus_event :: "string \<Rightarrow> string \<Rightarrow> uuid \<Rightarrow> bus_msg" where
  "bus_event topic key i = (topic, [(key, JStr i)])"

definition scaler_row :: "uuid \<Rightarrow> db \<Rightarrow> (db \<times> scaler_state option) tx" where
  "scaler_row pid d =
    (if list_ex (\<lambda>s. as_pool_id s = pid) (db_scalers d) then Inr (d, find (\<lambda>s. as_pool_id s = pid) (db_scalers d))
     else if pid \<notin> cp_id ` set (db_pools d) then Inl (ForeignKeyViolation ''autoscaler_state_pool_id_fkey'')
     else let row = \<lparr>as_pool_id = pid, as_last_scale_at = None, as_consecutive_failures = 0\<rparr>
          in Inr (d\<lparr>db_scalers := db_scalers d @ [row]\<rparr>, Some row))"

definition update_scalers :: "uuid \<Rightarrow> (scaler_state \<Rightarrow> scaler_state) \<Rightarrow> db \<Rightarrow> db" where
  "update_scalers pid f d = d\<lparr>db_scalers := sql_update (\<lambda>s. as_pool_id s = pid) f (db_scalers d)\<rparr>"

definition record_scale :: "uuid \<Rightarrow> db \<Rightarrow> db \<times> bus_msg list" where
  "record_scale pid d = (update_scalers pid (\<lambda>s. s\<lparr>as_last_scale_at := Some (db_now d)\<rparr>) d,
     [bus_event ''autoscaler.scale_recorded'' ''pool_id'' pid])"

definition incr_failures :: "uuid \<Rightarrow> db \<Rightarrow> db \<times> bus_msg list" where
  "incr_failures pid d =
    (update_scalers pid (\<lambda>s. s\<lparr>as_consecutive_failures := as_consecutive_failures s + 1\<rparr>) d,
     [bus_event ''autoscaler.failure_incremented'' ''pool_id'' pid])"

definition reset_failures :: "uuid \<Rightarrow> db \<Rightarrow> db \<times> bus_msg list" where
  "reset_failures pid d = (update_scalers pid (\<lambda>s. s\<lparr>as_consecutive_failures := 0\<rparr>) d,
     [bus_event ''autoscaler.failure_reset'' ''pool_id'' pid])"

definition mark_draining :: "uuid \<Rightarrow> db \<Rightarrow> db \<times> bus_msg list" where
  "mark_draining nid d = (update_nodes (\<lambda>n. ci_id n = nid) (\<lambda>n. n\<lparr>ci_state := ''draining''\<rparr>) d,
     [bus_event ''node.marked_draining'' ''node_id'' nid])"

text \<open>The RPC \<^verbatim>\<open>Allocate\<close>; \<^verbatim>\<open>scaler\<close> says whether the service has an autoscaler repository.\<close>

definition svc_Allocate ::
  "bool \<Rightarrow> uuid \<Rightarrow> uuid \<Rightarrow> int \<Rightarrow> int \<Rightarrow> int \<Rightarrow> int \<Rightarrow> string \<Rightarrow> string \<Rightarrow> db
     \<Rightarrow> sched_error + db \<times> bus_msg list \<times> bool \<times> string option" where
  "svc_Allocate scaler aid nid gpu vcpu ram_gb priority ot oi d =
    (case allocate_with_preemption aid nid gpu vcpu ram_gb priority ot oi d of
       Inl e \<Rightarrow> Inl e
     | Inr (d1, ok, reason, pool) \<Rightarrow>
         let (d2, m1) = (if scaler \<and> \<not> ok then case pool of None \<Rightarrow> (d1, []) | Some p \<Rightarrow> incr_failures p d1 else (d1, []));
             (d3, m2) = (if scaler \<and> ok then case pool of None \<Rightarrow> (d2, []) | Some p \<Rightarrow> reset_failures p d2 else (d2, []))
         in Inr (d3, m1 @ m2, ok, reason))"

section \<open>The placement engine\<close>

record candidate =
  ca_node_id :: uuid
  ca_provider :: string
  ca_state :: string
  ca_agent_kind :: string
  ca_gpu_free :: int
  ca_vcpu_free :: int
  ca_ram_free :: int
  ca_health_score :: int

definition EPHEMERAL_PROVIDERS :: "string list" where
  "EPHEMERAL_PROVIDERS = [''nosana'', ''akash'']"

definition recently_seen :: "time \<Rightarrow> node \<Rightarrow> bool" where
  "recently_seen now n \<longleftrightarrow> ci_node_class n = ''cluster''
     \<or> (case ci_last_heartbeat n of Some t \<Rightarrow> now - 120 < t | None \<Rightarrow> now - 120 < ci_created_at n)"

definition occupied :: "uuid \<Rightarrow> db \<Rightarrow> bool" where
  "occupied nid d = list_ex (\<lambda>m. bound_to nid m \<and> md_state m \<in> set [''RUNNING'', ''READY'', ''PROVISIONING'']) (db_deps d)"

definition candidate_of :: "node \<Rightarrow> candidate list" where
  "candidate_of n = (case node_free n of None \<Rightarrow> []
     | Some (g, v, m) \<Rightarrow> [\<lparr>ca_node_id = ci_id n, ca_provider = ci_provider n, ca_state = ci_state n,
         ca_agent_kind = ci_agent_kind n, ca_gpu_free = g, ca_vcpu_free = v, ca_ram_free = m,
         ca_health_score = ci_health_score n\<rparr>])"

definition schedulable :: "uuid \<Rightarrow> int \<Rightarrow> int \<Rightarrow> int \<Rightarrow> bool \<Rightarrow> db \<Rightarrow> node \<Rightarrow> bool" where
  "schedulable pid gpu_req vcpu_req ram_req ephemeral d n \<longleftrightarrow>
     ci_pool_id n = pid \<and> list_ex (\<lambda>p. cp_id p = pid \<and> cp_is_active p) (db_pools d) \<and> ci_state n = ''ready''
   \<and> take 12 (ci_provider_instance_id n) \<noteq> ''placeholder:''
   \<and> (case node_free n of None \<Rightarrow> False | Some free \<Rightarrow> covers free (gpu_req, vcpu_req, ram_req))
   \<and> recently_seen (db_now d) n \<and> (ephemeral \<longrightarrow> \<not> occupied (ci_id n) d)"

definition fetch_candidate_nodes :: "uuid \<Rightarrow> int \<Rightarrow> int \<Rightarrow> int \<Rightarrow> db \<Rightarrow> candidate list" where
  "fetch_candidate_nodes pid gpu_req vcpu_req ram_req d = (case find (\<lambda>p. cp_id p = pid) (db_pools d) of
     None \<Rightarrow> []
   | Some p \<Rightarrow> concat (map candidate_of
       (filter (schedulable pid gpu_req vcpu_req ram_req (py_lower (cp_provider p) \<in> set EPHEMERAL_PROVIDERS) d) (db_nodes d))))"

text \<open>
  The score of a node, None for infinity.  The strategy is binpack unless \<^verbatim>\<open>spread\<close> is set, \<^verbatim>\<open>cached\<close> is
  the optional flag \<^verbatim>\<open>has_cached_image\<close>.
\<close>

definition score_node :: "bool \<Rightarrow> int \<Rightarrow> bool \<Rightarrow> candidate \<Rightarrow> int option" where
  "score_node spread min_health cached c =
    (if ca_state c \<noteq> ''ready'' then None
     else if ca_health_score c < min_health then None
     else if ca_gpu_free c < 0 \<or> ca_vcpu_free c < 0 \<or> ca_ram_free c < 0 then None
     else let weight = ca_gpu_free c * 100 + ca_vcpu_free c * 10 + ca_ram_free c;
              score = (if spread then - weight else weight) + (100 - ca_health_score c) * 2
          in Some (if cached then score - 50 else score))"

definition score_less :: "int option \<Rightarrow> int option \<Rightarrow> bool" where
  "score_less a b = (case (a, b) of (Some x, Some y) \<Rightarrow> x < y | (Some _, None) \<Rightarrow> True | _ \<Rightarrow> False)"

text \<open>Python's \<^verbatim>\<open>min\<close> with a key keeps the first of the smallest.\<close>

fun min_by :: "('a \<Rightarrow> int option) \<Rightarrow> 'a \<Rightarrow> 'a list \<Rightarrow> 'a" where
  "min_by key best [] = best"
| "min_by key best (c # cs) = min_by key (if score_less (key c) (key best) then c else best) cs"

definition PlaceWorkload :: "uuid \<Rightarrow> int \<Rightarrow> int \<Rightarrow> int \<Rightarrow> db \<Rightarrow> string + uuid" where
  "PlaceWorkload pid gpu_req vcpu_req ram_req d = (case fetch_candidate_nodes pid gpu_req vcpu_req ram_req d of
     [] \<Rightarrow> Inl ''NO_CAPACITY_AVAILABLE''
   | c # cs \<Rightarrow> Inr (ca_node_id (min_by (score_node False 80 False) c cs)))"

section \<open>The allocation ledger\<close>

datatype resource = GPU | VCPU | RAM

primrec al_res :: "resource \<Rightarrow> allocation \<Rightarrow> int" where
  "al_res GPU a = al_gpu a" | "al_res VCPU a = al_vcpu a" | "al_res RAM a = al_ram_gb a"

primrec used_res :: "resource \<Rightarrow> node \<Rightarrow> int" where
  "used_res GPU n = ci_gpu_allocated n" | "used_res VCPU n = ci_vcpu_allocated n" | "used_res RAM n = ci_ram_gb_allocated n"

primrec cap_res :: "resource \<Rightarrow> node \<Rightarrow> int option" where
  "cap_res GPU n = ci_gpu_total n" | "cap_res VCPU n = ci_vcpu_total n" | "cap_res RAM n = ci_ram_gb_total n"

primrec part :: "resource \<Rightarrow> res \<Rightarrow> int" where
  "part GPU r = fst r" | "part VCPU r = fst (snd r)" | "part RAM r = snd (snd r)"

definition live_on :: "uuid \<Rightarrow> allocation \<Rightarrow> bool" where
  "live_on nid a \<longleftrightarrow> al_node_id a = nid \<and> al_released_at a = None"

definition live_sum :: "resource \<Rightarrow> uuid \<Rightarrow> allocation list \<Rightarrow> int" where
  "live_sum r nid as = sum_list (map (al_res r) (filter (live_on nid) as))"

text \<open>What a node has booked beyond its live allocations.\<close>

definition outside :: "resource \<Rightarrow> uuid \<Rightarrow> db \<Rightarrow> int" where
  "outside r nid d = (case get_node_row nid d of None \<Rightarrow> 0 | Some n \<Rightarrow> used_res r n - live_sum r nid (db_allocs d))"

definition within_cap :: "node \<Rightarrow> bool" where
  "within_cap n \<longleftrightarrow> (\<forall>r t. cap_res r n = Some t \<longrightarrow> used_res r n \<le> t)"

definition sched_inv :: "db \<Rightarrow> bool" where
  "sched_inv d \<longleftrightarrow> distinct (map ci_id (db_nodes d)) \<and> distinct (map al_id (db_allocs d))
     \<and> (\<forall>a \<in> set (db_allocs d). \<forall>r. 0 \<le> al_res r a) \<and> (\<forall>n \<in> set (db_nodes d). within_cap n)"

inductive sched_step :: "db \<Rightarrow> db \<Rightarrow> bool" where
  alloc: "\<lbrakk>allocate aid nid gpu vcpu ram prio ot oi d = Inr (d', reply); 0 \<le> gpu; 0 \<le> vcpu; 0 \<le> ram\<rbrakk> \<Longrightarrow> sched_step d d'"
| preempt: "\<lbrakk>svc_Allocate scaler aid nid gpu vcpu ram prio ot oi d = Inr (d', reply); 0 \<le> gpu; 0 \<le> vcpu; 0 \<le> ram\<rbrakk>
    \<Longrightarrow> sched_step d d'"
| rel: "sched_step d (fst (release_alloc aid d))"
| drain: "sched_step d (fst (mark_draining nid d))"

lemma same_tables:
  assumes "db_nodes d' = db_nodes d" "db_allocs d' = db_allocs d"
  shows "outside r i d' = outside r i d" "sched_inv d' = sched_inv d" "get_node_row i d' = get_node_row i d"
  using assms by (simp_all add: outside_def sched_inv_def get_node_row_def cong: option.case_cong)

lemma ensure_owner_tables [simp]:
  "db_nodes (ensure_owner ot oi d) = db_nodes d" "db_allocs (ensure_owner ot oi d) = db_allocs d"
  "db_quotas (ensure_owner ot oi d) = db_quotas d"
  by (simp_all add: ensure_owner_def)

lemma scaler_tables [simp]:
  "db_nodes (update_scalers p f d) = db_nodes d" "db_allocs (update_scalers p f d) = db_allocs d"
  by (simp_all add: update_scalers_def)

lemma update_nodes_allocs [simp]: "db_allocs (update_nodes p f d) = db_allocs d"
  by (simp add: update_nodes_def)

lemma live_sum_append [simp]: "live_sum r i (as @ bs) = live_sum r i as + live_sum r i bs"
  by (simp add: live_sum_def)

lemma live_sum_release:
  assumes "distinct (map al_id as)" "a \<in> set as" "live_on nid a"
  shows "live_sum r i (sql_update (\<lambda>b. al_id b = al_id a) (\<lambda>b. b\<lparr>al_released_at := Some t\<rparr>) as)
    = live_sum r i as - (if i = nid then al_res r a else 0)"
  using assms
proof (induction as)
  case (Cons b as)
  show ?case
  proof (cases "b = a")
    case True
    have "sql_update (\<lambda>b. al_id b = al_id a) (\<lambda>b. b\<lparr>al_released_at := Some t\<rparr>) as = as"
      using Cons.prems(1) True by (intro sql_update_none) (simp add: sql_count_0, metis image_eqI)
    then show ?thesis
      using True Cons.prems(3) by (simp add: live_sum_def live_on_def)
  next
    case False
    then have "al_id b \<noteq> al_id a" "a \<in> set as"
      using Cons.prems by (auto simp: image_iff)
    then show ?thesis
      using Cons by (auto simp: live_sum_def)
  qed
qed simp

text \<open>A change of one node's counters by what its live allocations change keeps the ledger.\<close>

lemma ledger_step:
  assumes "db_nodes d' = sql_update (\<lambda>m. ci_id m = nid) f (db_nodes d)"
    and "\<And>m. ci_id (f m) = ci_id m" "\<And>m. used_res r (f m) = used_res r m + \<delta>"
    and "\<And>i. live_sum r i (db_allocs d') = live_sum r i (db_allocs d) + (if i = nid then \<delta> else 0)"
  shows "outside r i d' = outside r i d"
proof -
  have row: "get_node_row i d' = map_option (\<lambda>m. if ci_id m = nid then f m else m) (get_node_row i d)"
    unfolding get_node_row_def assms(1) by (rule find_sql_update) (rule assms(2))
  show ?thesis
    by (cases "get_node_row i d") (auto simp: outside_def row assms(3,4) dest: get_node_in)
qed

lemma inv_step:
  assumes "sched_inv d" "db_nodes d' = sql_update (\<lambda>m. ci_id m = nid) f (db_nodes d)"
    and "\<And>m. ci_id (f m) = ci_id m"
    and "\<And>m. m \<in> set (db_nodes d) \<Longrightarrow> ci_id m = nid \<Longrightarrow> within_cap m \<Longrightarrow> within_cap (f m)"
    and "distinct (map al_id (db_allocs d'))" "\<forall>a \<in> set (db_allocs d'). \<forall>r. 0 \<le> al_res r a"
  shows "sched_inv d'"
proof -
  have "map ci_id (db_nodes d') = map ci_id (db_nodes d)"
    unfolding assms(2) by (rule sql_update_map) (rule assms(3))
  moreover have "\<forall>n \<in> set (db_nodes d'). within_cap n"
    unfolding assms(2) using assms(1,4) by (intro sql_update_all) (auto simp: sched_inv_def)
  ultimately show ?thesis
    using assms(1,5,6) by (simp add: sched_inv_def)
qed

text \<open>Committing an allocation that fits.\<close>

lemma commit_effect:
  assumes "commit_allocation aid n gpu vcpu ram prio ot oi d = Inr d'"
  shows "outside r i d' = outside r i d"
  using assms
  by (intro ledger_step [where nid = "ci_id n" and \<delta> = "part r (gpu, vcpu, ram)"
        and f = "\<lambda>m. m\<lparr>ci_gpu_allocated := ci_gpu_allocated m + gpu,
                ci_vcpu_allocated := ci_vcpu_allocated m + vcpu, ci_ram_gb_allocated := ci_ram_gb_allocated m + ram\<rparr>"])
    (cases r; auto simp: commit_allocation_def Let_def live_sum_def live_on_def split: if_splits)+

lemma commit_inv:
  assumes "commit_allocation aid n gpu vcpu ram prio ot oi d = Inr d'" "sched_inv d"
    and "get_node_row (ci_id n) d = Some m" "0 \<le> gpu" "0 \<le> vcpu" "0 \<le> ram"
    and "\<And>r t. cap_res r m = Some t \<Longrightarrow> used_res r m + part r (gpu, vcpu, ram) \<le> t"
  shows "sched_inv d'"
proof -
  let ?f = "\<lambda>m. m\<lparr>ci_gpu_allocated := ci_gpu_allocated m + gpu,
                ci_vcpu_allocated := ci_vcpu_allocated m + vcpu, ci_ram_gb_allocated := ci_ram_gb_allocated m + ram\<rparr>"
  let ?a = "\<lparr>al_id = aid, al_node_id = ci_id n, al_gpu = gpu, al_vcpu = vcpu, al_ram_gb = ram, al_priority = prio,
            al_preemptible = (ci_node_class n = ''spot''), al_owner_type = ot, al_owner_id = oi,
            al_node_class = ci_node_class n, al_created_at = db_now d, al_released_at = None\<rparr>"
  have new: "aid \<notin> al_id ` set (db_allocs d)" "db_allocs d' = db_allocs d @ [?a]"
    "db_nodes d' = sql_update (\<lambda>m. ci_id m = ci_id n) ?f (db_nodes d)"
    using assms(1) by (auto simp: commit_allocation_def Let_def split: if_splits)
  have fits: "within_cap (?f m)"
    unfolding within_cap_def
  proof (intro allI impI)
    fix r t assume "cap_res r (?f m) = Some t"
    then show "used_res r (?f m) \<le> t"
      using assms(7) [of r t] by (cases r) auto
  qed
  have only: "x = m" if "x \<in> set (db_nodes d)" "ci_id x = ci_id n" for x
    using get_node_in [OF assms(3)] assms(2) that unfolding sched_inv_def distinct_map by (metis inj_onD)
  have "0 \<le> al_res r ?a" for r
    using assms(4-6) by (cases r) auto
  then show ?thesis
    using assms(2) new fits only by (intro inv_step [OF assms(2) new(3)]) (auto simp: sched_inv_def)
qed

text \<open>Releasing a live allocation.\<close>

lemma release_effect:
  assumes "sched_inv d" "a \<in> set (db_allocs d)" "live_on nid a"
  defines "d' \<equiv> release_allocation_locked (al_id a) nid (al_gpu a) (al_vcpu a) (al_ram_gb a) d"
  shows "outside r i d' = outside r i d" "sched_inv d'"
proof -
  let ?f = "\<lambda>m. m\<lparr>ci_gpu_allocated := ci_gpu_allocated m - al_gpu a,
                ci_vcpu_allocated := ci_vcpu_allocated m - al_vcpu a, ci_ram_gb_allocated := ci_ram_gb_allocated m - al_ram_gb a\<rparr>"
  have new: "db_nodes d' = sql_update (\<lambda>m. ci_id m = nid) ?f (db_nodes d)"
    "db_allocs d' = sql_update (\<lambda>b. al_id b = al_id a) (\<lambda>b. b\<lparr>al_released_at := Some (db_now d)\<rparr>) (db_allocs d)"
    by (simp_all add: d'_def release_allocation_locked_def Let_def)
  have dist: "distinct (map al_id (db_allocs d))"
    using assms(1) by (simp add: sched_inv_def)
  show "outside r i d' = outside r i d"
  proof (rule ledger_step [OF new(1), of r "- al_res r a"])
    show "live_sum r i (db_allocs d') = live_sum r i (db_allocs d) + (if i = nid then - al_res r a else 0)" for i
      using live_sum_release [OF dist assms(2,3), of r i "db_now d"] by (simp add: new)
  qed (cases r; simp)+
  have pos: "0 \<le> al_res r a" for r
    using assms(1,2) by (simp add: sched_inv_def)
  show "sched_inv d'"
  proof (rule inv_step [OF assms(1) new(1)])
    have eqs: "cap_res r (?f m) = cap_res r m" "used_res r (?f m) = used_res r m - al_res r a" for r m
      by (cases r; simp)+
    show "within_cap (?f m)" if "within_cap m" for m
      unfolding within_cap_def eqs
    proof (intro allI impI)
      fix r t assume "cap_res r m = Some t"
      with that have "used_res r m \<le> t"
        unfolding within_cap_def by blast
      then show "used_res r m - al_res r a \<le> t"
        using pos [of r] by simp
    qed
    have "map al_id (db_allocs d') = map al_id (db_allocs d)"
      unfolding new(2) by (rule sql_update_map) simp
    then show "distinct (map al_id (db_allocs d'))"
      using dist by simp
    have res: "al_res r (b\<lparr>al_released_at := t\<rparr>) = al_res r b" for r b t
      by (cases r) simp_all
    show "\<forall>a \<in> set (db_allocs d'). \<forall>r. 0 \<le> al_res r a"
      unfolding new(2) using assms(1) by (intro sql_update_all) (auto simp: sched_inv_def res)
  qed simp
qed

text \<open>The eviction loop stops at the first prefix of the victims that covers the demand.\<close>

lemma evict_loop_spec:
  assumes "evict_loop need r vs = (r', ev)"
  shows "r' = foldl reclaim r ev" "\<exists>k. ev = take k vs" "covers r' need \<or> ev = vs"
    "\<And>k. 0 < k \<Longrightarrow> k < length ev \<Longrightarrow> \<not> covers (foldl reclaim r (take k ev)) need"
proof -
  have "r' = foldl reclaim r ev \<and> (\<exists>k. ev = take k vs) \<and> (covers r' need \<or> ev = vs)
     \<and> (\<forall>k. 0 < k \<and> k < length ev \<longrightarrow> \<not> covers (foldl reclaim r (take k ev)) need)"
    using assms
  proof (induction vs arbitrary: r r' ev)
    case (Cons v vs)
    show ?case
    proof (cases "covers (reclaim r v) need")
      case True
      then have "r' = reclaim r v" "ev = take 1 (v # vs)"
        using Cons.prems by simp_all
      with True show ?thesis by (auto intro: exI [of _ 1])
    next
      case False
      then obtain ev' where ev: "evict_loop need (reclaim r v) vs = (r', ev')" "ev = v # ev'"
        using Cons.prems by (auto simp: split_def Let_def) (metis prod.collapse)
      from Cons.IH [OF ev(1)] obtain k where ih: "r' = foldl reclaim (reclaim r v) ev'" "ev' = take k vs"
        "covers r' need \<or> ev' = vs"
        "\<And>k. 0 < k \<Longrightarrow> k < length ev' \<Longrightarrow> \<not> covers (foldl reclaim (reclaim r v) (take k ev')) need"
        by blast
      have "ev = take (Suc k) (v # vs)" using ev(2) ih(2) by simp
      moreover have "\<not> covers (foldl reclaim r (take j ev)) need" if "0 < j" "j < length ev" for j
        using that ih(4) [of "j - 1"] False ev(2) by (cases j; cases "j = 1") auto
      ultimately show ?thesis
        using ih(1,3) ev(2) by (auto intro: exI [of _ "Suc k"])
    qed
  qed auto
  then show "r' = foldl reclaim r ev" "\<exists>k. ev = take k vs" "covers r' need \<or> ev = vs"
    "\<And>k. 0 < k \<Longrightarrow> k < length ev \<Longrightarrow> \<not> covers (foldl reclaim r (take k ev)) need"
    by blast+
qed

lemma part_reclaim: "part q (foldl reclaim r ev) = part q r + sum_list (map (al_res q) ev)"
  by (induction ev arbitrary: r) (cases q; auto simp: reclaim_def split: prod.splits)+

lemma covers_part: "covers r need \<longleftrightarrow> (\<forall>q. part q need \<le> part q r)"
proof
  assume "covers r need"
  then show "\<forall>q. part q need \<le> part q r"
    by (intro allI, case_tac q) (auto simp: covers_def split: prod.splits)
next
  assume "\<forall>q. part q need \<le> part q r"
  from this [rule_format, of GPU] this [rule_format, of VCPU] this [rule_format, of RAM]
  show "covers r need" by (auto simp: covers_def split: prod.splits)
qed

lemma node_free_part: "node_free n = Some free \<Longrightarrow> \<exists>t. cap_res q n = Some t \<and> part q free = t - used_res q n"
  by (cases q) (auto simp: node_free_def split: option.splits)

lemma release_row:
  "get_node_row nid (release_allocation_locked aid nid g v m d) = map_option (\<lambda>n. n\<lparr>ci_gpu_allocated := ci_gpu_allocated n - g,
     ci_vcpu_allocated := ci_vcpu_allocated n - v, ci_ram_gb_allocated := ci_ram_gb_allocated n - m\<rparr>) (get_node_row nid d)"
proof -
  have "get_node_row nid (release_allocation_locked aid nid g v m d)
    = get_node_row nid (update_nodes (\<lambda>m. ci_id m = nid) (\<lambda>n. n\<lparr>ci_gpu_allocated := ci_gpu_allocated n - g,
     ci_vcpu_allocated := ci_vcpu_allocated n - v, ci_ram_gb_allocated := ci_ram_gb_allocated n - m\<rparr>) d)"
    by (simp add: release_allocation_locked_def Let_def get_node_row_def)
  then show ?thesis
    by (cases "get_node_row nid d") (auto simp: get_node_update dest: get_node_in)
qed

lemma release_keeps:
  assumes "b \<in> set (db_allocs d)" "al_id b \<noteq> aid"
  shows "b \<in> set (db_allocs (release_allocation_locked aid nid g v m d))"
  using assms by (auto simp: release_allocation_locked_def Let_def in_sql_update)

lemma evict_all_effect:
  assumes "sched_inv d" "distinct (map al_id ev)" "\<forall>a \<in> set ev. a \<in> set (db_allocs d) \<and> live_on nid a"
    and "get_node_row nid d = Some n"
  shows "sched_inv (evict_all nid ev d) \<and> outside r i (evict_all nid ev d) = outside r i d
    \<and> (\<exists>m. get_node_row nid (evict_all nid ev d) = Some m \<and> (\<forall>q. cap_res q m = cap_res q n
        \<and> used_res q m = used_res q n - sum_list (map (al_res q) ev)))"
  using assms
proof (induction ev arbitrary: d n)
  case Nil
  then show ?case by (simp add: evict_all_def)
next
  case (Cons a ev)
  define d1 where "d1 = release_allocation_locked (al_id a) nid (al_gpu a) (al_vcpu a) (al_ram_gb a) d"
  define n1 where "n1 = n\<lparr>ci_gpu_allocated := ci_gpu_allocated n - al_gpu a,
     ci_vcpu_allocated := ci_vcpu_allocated n - al_vcpu a, ci_ram_gb_allocated := ci_ram_gb_allocated n - al_ram_gb a\<rparr>"
  have step: "evict_all nid (a # ev) d = evict_all nid ev d1"
    by (simp add: evict_all_def d1_def)
  have eff: "outside r i d1 = outside r i d" "sched_inv d1"
    unfolding d1_def using Cons.prems by (auto intro: release_effect)
  have row: "get_node_row nid d1 = Some n1"
    unfolding d1_def n1_def using Cons.prems(4) by (simp add: release_row)
  have keep: "\<forall>b \<in> set ev. b \<in> set (db_allocs d1) \<and> live_on nid b"
    unfolding d1_def using Cons.prems(2,3) by (auto intro!: release_keeps simp: image_iff)
  have n1: "cap_res q n1 = cap_res q n \<and> used_res q n1 = used_res q n - al_res q a" for q
    by (cases q) (simp_all add: n1_def)
  show ?case
    using Cons.IH [OF eff(2) _ keep row] Cons.prems(2) eff(1) n1 unfolding step by auto
qed

lemma lock_node_row:
  assumes "lock_node nid d = Some n" "distinct (map ci_id (db_nodes d))"
  shows "get_node_row nid d = Some n" "ci_id n = nid" "ci_state n = ''ready''"
proof -
  have n: "n \<in> set (db_nodes d)" "ci_id n = nid" "ci_state n = ''ready''"
    using assms(1) unfolding lock_node_def by (auto dest: find_in)
  then show "get_node_row nid d = Some n" "ci_id n = nid" "ci_state n = ''ready''"
    unfolding get_node_row_def using find_key_Some [OF assms(2) n(1)] by simp_all
qed

lemma victims_in: "a \<in> set (victims nid prio d) \<Longrightarrow> a \<in> set (db_allocs d) \<and> live_on nid a \<and> al_preemptible a \<and> al_priority a < prio"
  by (auto simp: victims_def live_on_def)

lemma distinct_victims: "distinct (map al_id (db_allocs d)) \<Longrightarrow> distinct (map al_id (take k (victims nid prio d)))"
proof -
  assume "distinct (map al_id (db_allocs d))"
  then have "distinct (map al_id (filter P (db_allocs d)))" for P
    by (simp add: distinct_map_filter)
  then have "distinct (map al_id (victims nid prio d))"
    unfolding victims_def by (simp add: distinct_map)
  then show ?thesis
    by (simp add: take_map [symmetric])
qed

text \<open>The outcomes of a preemptive allocation.\<close>

lemma preemption_cases:
  assumes "allocate_with_preemption aid nid gpu vcpu ram prio ot oi d = Inr (d', ok, reason, pool)"
  obtains (refused) "d' = ensure_owner ot oi d" "\<not> ok"
  | (fast) n free where "lock_node nid d = Some n" "node_free n = Some free" "covers free (gpu, vcpu, ram)" "ok"
      "commit_allocation aid n gpu vcpu ram prio ot oi (ensure_owner ot oi d) = Inr d'" "reason = Some ''ALLOCATED''"
  | (evicting) n free reclaimed ev where "lock_node nid d = Some n" "node_free n = Some free" "ok"
      "\<not> covers free (gpu, vcpu, ram)" "covers reclaimed (gpu, vcpu, ram)"
      "evict_loop (gpu, vcpu, ram) free (victims nid prio d) = (reclaimed, ev)"
      "commit_allocation aid n gpu vcpu ram prio ot oi (evict_all nid ev (ensure_owner ot oi d)) = Inr d'"
      "reason = Some ''PREEMPTED_AND_ALLOCATED''"
proof -
  have same: "lock_node nid (ensure_owner ot oi d) = lock_node nid d" "victims nid prio (ensure_owner ot oi d) = victims nid prio d"
    by (simp_all add: lock_node_def victims_def)
  show thesis
    using assms refused fast evicting
    unfolding allocate_with_preemption_def Let_def split_def same
    by (auto split: if_splits option.splits sum.splits simp: prod_eq_iff)
qed

lemma preemption_effect:
  assumes "allocate_with_preemption aid nid gpu vcpu ram prio ot oi d = Inr (d', ok, reason, pool)"
    and "sched_inv d" "0 \<le> gpu" "0 \<le> vcpu" "0 \<le> ram"
  shows "sched_inv d' \<and> outside r i d' = outside r i d"
proof -
  define d0 where "d0 = ensure_owner ot oi d"
  have d0: "sched_inv d0" "outside r i d0 = outside r i d" "lock_node nid d0 = lock_node nid d"
    "victims nid prio d0 = victims nid prio d"
    using assms(2) by (simp_all add: d0_def same_tables [of "ensure_owner ot oi d" d] lock_node_def victims_def)
  from assms(1) show ?thesis
  proof (cases rule: preemption_cases)
    case refused
    then show ?thesis using d0 by (simp add: d0_def)
  next
    case (fast n free)
    have row: "get_node_row nid d0 = Some n" "ci_id n = nid"
      using lock_node_row [of nid d0 n] d0 fast(1) by (auto simp: sched_inv_def)
    have "used_res q n + part q (gpu, vcpu, ram) \<le> t" if "cap_res q n = Some t" for q t
      using node_free_part [OF fast(2), of q] fast(3) that by (auto simp: covers_part dest: spec [of _ q])
    then show ?thesis
      using commit_inv [OF fast(5) [folded d0_def] d0(1)] commit_effect [OF fast(5)] assms(3-5) row d0(2)
      by (auto simp: d0_def)
  next
    case (evicting n free reclaimed ev)
    have row: "get_node_row nid d0 = Some n" "ci_id n = nid"
      using lock_node_row [of nid d0 n] d0 evicting(1) by (auto simp: sched_inv_def)
    obtain k where k: "ev = take k (victims nid prio d0)" "reclaimed = foldl reclaim free ev"
      using evict_loop_spec [OF evicting(6)] d0(4) by auto
    have ev: "\<forall>a \<in> set ev. a \<in> set (db_allocs d0) \<and> live_on nid a" "distinct (map al_id ev)"
      using distinct_victims [of d0 k] d0(1) unfolding k(1) by (auto simp: sched_inv_def dest!: in_set_takeD dest: victims_in)
    obtain m where m: "get_node_row nid (evict_all nid ev d0) = Some m" "sched_inv (evict_all nid ev d0)"
      "outside r i (evict_all nid ev d0) = outside r i d0"
      "\<And>q. cap_res q m = cap_res q n \<and> used_res q m = used_res q n - sum_list (map (al_res q) ev)"
      using evict_all_effect [OF d0(1) ev(2,1) row(1), of r i] by blast
    have "used_res q m + part q (gpu, vcpu, ram) \<le> t" if "cap_res q m = Some t" for q t
      using node_free_part [OF evicting(2), of q] evicting(5) that m(4) [of q]
      unfolding k(2) covers_part part_reclaim by (auto dest: spec [of _ q])
    then show ?thesis
      using commit_inv [OF evicting(7) [folded d0_def] m(2)] commit_effect [OF evicting(7)] assms(3-5) row m(1,3) d0(2)
      by (auto simp: d0_def)
  qed
qed

lemma allocate_effect:
  assumes "allocate aid nid gpu vcpu ram prio ot oi d = Inr (d', reply)"
    and "sched_inv d" "0 \<le> gpu" "0 \<le> vcpu" "0 \<le> ram"
  shows "sched_inv d' \<and> outside r i d' = outside r i d"
proof -
  define d0 where "d0 = ensure_owner ot oi d"
  have d0: "sched_inv d0" "outside r i d0 = outside r i d"
    using assms(2) by (simp_all add: d0_def same_tables [of "ensure_owner ot oi d" d])
  show ?thesis
  proof (cases "d' = d0")
    case False
    then obtain n where n: "lock_node nid d0 = Some n" "has_capacity n gpu vcpu ram = Some True"
      "commit_allocation aid n gpu vcpu ram prio ot oi d0 = Inr d'"
      using assms(1) unfolding allocate_def Let_def split_def d0_def [symmetric]
      by (auto split: if_splits option.splits bool.splits sum.splits)
    have row: "get_node_row nid d0 = Some n" "ci_id n = nid"
      using lock_node_row [OF n(1)] d0(1) by (auto simp: sched_inv_def)
    have "used_res q n + part q (gpu, vcpu, ram) \<le> t" if "cap_res q n = Some t" for q t
      using n(2) that by (cases q) (auto simp: has_capacity_def py_and_def room_def split: option.splits bool.splits)
    then show ?thesis
      using commit_inv [OF n(3) d0(1)] commit_effect [OF n(3)] assms(3-5) row d0(2) by auto
  qed (use d0 in simp)
qed

lemma svc_tables:
  assumes "svc_Allocate scaler aid nid gpu vcpu ram prio ot oi d = Inr (d', reply)"
  obtains d1 ok reason pool where
    "allocate_with_preemption aid nid gpu vcpu ram prio ot oi d = Inr (d1, ok, reason, pool)"
    "db_nodes d' = db_nodes d1" "db_allocs d' = db_allocs d1" "db_usage d' = db_usage d1" "db_quotas d' = db_quotas d1"
  using assms unfolding svc_Allocate_def
  by (auto simp: incr_failures_def reset_failures_def update_scalers_def Let_def
      split: sum.splits if_splits option.splits prod.splits)

lemma sched_step_effect:
  assumes "sched_step d d'" "sched_inv d"
  shows "sched_inv d' \<and> outside r i d' = outside r i d"
  using assms
proof (cases rule: sched_step.cases)
  case (alloc aid nid gpu vcpu ram prio ot oi reply)
  then show ?thesis using allocate_effect assms(2) by blast
next
  case (preempt scaler aid nid gpu vcpu ram prio ot oi reply)
  from preempt(1) obtain d1 ok reason pool where
    "allocate_with_preemption aid nid gpu vcpu ram prio ot oi d = Inr (d1, ok, reason, pool)"
    "db_nodes d' = db_nodes d1" "db_allocs d' = db_allocs d1"
    by (rule svc_tables)
  then show ?thesis
    using preemption_effect [of aid nid gpu vcpu ram prio ot oi d d1 ok reason pool r i] same_tables(1,2) [of d' d1]
      preempt(2-4) assms(2) by simp
next
  case (rel aid)
  show ?thesis
  proof (cases "find (\<lambda>a. al_id a = aid \<and> al_released_at a = None) (db_allocs d)")
    case None
    then show ?thesis using rel assms(2) by (simp add: release_alloc_def)
  next
    case (Some a)
    then have "a \<in> set (db_allocs d)" "live_on (al_node_id a) a"
      by (auto simp: live_on_def dest: find_in)
    then show ?thesis
      using rel Some release_effect [OF assms(2)] by (simp add: release_alloc_def)
  qed
next
  case (drain nid)
  have rows: "db_nodes d' = sql_update (\<lambda>n. ci_id n = nid) (\<lambda>n. n\<lparr>ci_state := ''draining''\<rparr>) (db_nodes d)" "db_allocs d' = db_allocs d"
    by (simp_all add: drain mark_draining_def)
  have res: "used_res q (n\<lparr>ci_state := s\<rparr>) = used_res q n \<and> cap_res q (n\<lparr>ci_state := s\<rparr>) = cap_res q n" for q n s
    by (cases q) simp_all
  have "sched_inv d'"
    using assms(2) rows(2) by (intro inv_step [OF assms(2) rows(1)]) (auto simp: within_cap_def res sched_inv_def)
  moreover have "outside r i d' = outside r i d"
    by (rule ledger_step [OF rows(1), of r 0]) (simp_all add: rows(2) res)
  ultimately show ?thesis ..
qed

interpretation sched: inv_system sched_inv sched_step sched_inv
  by unfold_locales (auto dest: sched_step_effect)

lemma evict_all_allocs:
  "db_allocs (evict_all nid ev d) =
     map (\<lambda>a. if al_id a \<in> al_id ` set ev then a\<lparr>al_released_at := Some (db_now d)\<rparr> else a) (db_allocs d)
   \<and> db_usage (evict_all nid ev d) = db_usage d \<and> db_quotas (evict_all nid ev d) = db_quotas d"
proof (induction ev arbitrary: d)
  case (Cons v ev)
  define d1 where "d1 = release_allocation_locked (al_id v) nid (al_gpu v) (al_vcpu v) (al_ram_gb v) d"
  have "db_allocs d1 = map (\<lambda>a. if al_id a = al_id v then a\<lparr>al_released_at := Some (db_now d)\<rparr> else a) (db_allocs d)"
    "db_now d1 = db_now d" "db_usage d1 = db_usage d" "db_quotas d1 = db_quotas d"
    by (simp_all add: d1_def release_allocation_locked_def Let_def sql_update_def update_nodes_def)
  moreover have "evict_all nid (v # ev) d = evict_all nid ev d1"
    by (simp add: evict_all_def d1_def)
  ultimately show ?case
    using Cons.IH [of d1] by auto
qed (simp add: evict_all_def)

lemma commit_tables:
  assumes "commit_allocation aid n gpu vcpu ram prio ot oi d = Inr d'"
  shows "\<exists>a. db_allocs d' = db_allocs d @ [a] \<and> al_id a = aid \<and> live_on (ci_id n) a
       \<and> al_gpu a = gpu \<and> al_vcpu a = vcpu \<and> al_ram_gb a = ram"
    "db_usage d' = db_usage d" "db_quotas d' = db_quotas d"
  using assms by (auto simp: commit_allocation_def Let_def live_on_def update_nodes_def split: if_splits)

lemma usage_kept:
  assumes "find (same_owner ot oi) (db_usage d) = Some u"
  shows "find (same_owner ot oi) (db_usage (ensure_owner ot' oi' d)) = Some u"
  using assms by (simp add: ensure_owner_def find_append)

lemma step_usage:
  assumes "sched_step d d'" "find (same_owner ot oi) (db_usage d) = Some u"
  shows "find (same_owner ot oi) (db_usage d') = Some u \<and> db_quotas d' = db_quotas d"
  using assms(1)
proof (cases rule: sched_step.cases)
  case (alloc aid nid gpu vcpu ram prio ot' oi' reply)
  have "(db_usage d', db_quotas d') = (db_usage (ensure_owner ot' oi' d), db_quotas d)"
    using alloc(1) unfolding allocate_def Let_def split_def
    by (auto split: if_splits option.splits bool.splits sum.splits dest: commit_tables(2,3))
  then show ?thesis using usage_kept [OF assms(2)] by simp
next
  case (preempt scaler aid nid gpu vcpu ram prio ot' oi' reply)
  from preempt(1) obtain d1 ok reason pool where d1:
    "allocate_with_preemption aid nid gpu vcpu ram prio ot' oi' d = Inr (d1, ok, reason, pool)"
    "db_usage d' = db_usage d1" "db_quotas d' = db_quotas d1"
    by (rule svc_tables)
  from d1(1) have "(db_usage d1, db_quotas d1) = (db_usage (ensure_owner ot' oi' d), db_quotas d)"
    by (cases rule: preemption_cases) (auto dest: commit_tables(2,3) simp: evict_all_allocs)
  then show ?thesis using usage_kept [OF assms(2)] d1 by simp
next
  case (rel aid)
  then show ?thesis
    using assms(2) by (auto simp: release_alloc_def release_allocation_locked_def Let_def update_nodes_def split: option.splits)
next
  case (drain nid)
  then show ?thesis using assms(2) by (simp add: mark_draining_def update_nodes_def)
qed

lemma min_by_least:
  "min_by key b cs \<in> set (b # cs) \<and> (\<forall>c \<in> set (b # cs). \<not> score_less (key c) (key (min_by key b cs)))"
proof (induction cs arbitrary: b)
  case (Cons c cs)
  have trans: "\<not> score_less x z" if "\<not> score_less x y" "\<not> score_less y z" for x y z
    using that by (auto simp: score_less_def split: option.splits)
  have asym: "\<not> score_less y x" if "score_less x y" for x y
    using that by (auto simp: score_less_def split: option.splits)
  show ?case
  proof (cases "score_less (key c) (key b)")
    case True
    then have "\<not> score_less (key b) (key (min_by key c cs))"
      using trans [OF asym [OF True], of "key (min_by key c cs)"] Cons [of c] by simp
    with True Cons [of c] show ?thesis by auto
  next
    case False
    then have "\<not> score_less (key c) (key (min_by key b cs))"
      using trans [OF False, of "key (min_by key b cs)"] Cons [of b] by simp
    with False Cons [of b] show ?thesis by auto
  qed
qed (simp add: score_less_def split: option.splits)

section \<open>Properties\<close>


text \<open>
  C10: preemption is minimal and never crosses priorities.  When a request preempts, the evicted
  allocations are the shortest prefix of the victims (live, preemptible, of strictly lower priority on
  that node, lowest priority and oldest first) whose resources with the free ones cover the request;
  exactly they are marked released and the new allocation is added.
\<close>

theorem preemption_minimal:
  assumes "allocate_with_preemption aid nid gpu vcpu ram prio ot oi d = Inr (d', ok, Some ''PREEMPTED_AND_ALLOCATED'', pool)"
    and "ok" "distinct (map al_id (db_allocs d))" "distinct (map ci_id (db_nodes d))"
  shows "\<exists>n free k a. get_node_row nid d = Some n \<and> ci_state n = ''ready'' \<and> node_free n = Some free
     \<and> covers (foldl reclaim free (take k (victims nid prio d))) (gpu, vcpu, ram)
     \<and> (\<forall>j < k. \<not> covers (foldl reclaim free (take j (victims nid prio d))) (gpu, vcpu, ram))
     \<and> (\<forall>v \<in> set (take k (victims nid prio d)). live_on nid v \<and> al_preemptible v \<and> al_priority v < prio)
     \<and> db_allocs d' = map (\<lambda>v. if v \<in> set (take k (victims nid prio d))
           then v\<lparr>al_released_at := Some (db_now d)\<rparr> else v) (db_allocs d) @ [a]
     \<and> al_id a = aid \<and> live_on nid a \<and> (al_gpu a, al_vcpu a, al_ram_gb a) = (gpu, vcpu, ram)"
  using assms(1)
proof (cases rule: preemption_cases)
  case (evicting n free reclaimed ev)
  define d0 where "d0 = ensure_owner ot oi d"
  have d0: "db_allocs d0 = db_allocs d" "db_now d0 = db_now d"
    by (simp_all add: d0_def ensure_owner_def)
  note loop = evict_loop_spec [OF evicting(6)]
  obtain k0 where k0: "ev = take k0 (victims nid prio d)"
    using loop(2) by blast
  define k where "k = length ev"
  have k: "ev = take k (victims nid prio d)" "k \<le> length (victims nid prio d)"
    unfolding k_def k0 by (simp_all add: min_def)
  have vs: "v \<in> set (db_allocs d) \<and> live_on nid v \<and> al_preemptible v \<and> al_priority v < prio" if "v \<in> set ev" for v
    using that victims_in unfolding k by (auto dest: in_set_takeD)
  obtain a where a: "db_allocs d' = db_allocs (evict_all nid ev d0) @ [a]" "al_id a = aid" "live_on nid a"
    "al_gpu a = gpu" "al_vcpu a = vcpu" "al_ram_gb a = ram"
    using commit_tables(1) [OF evicting(7) [folded d0_def]] lock_node_row(2) [OF evicting(1) assms(4)] by auto
  have "al_id v \<in> al_id ` set ev \<longleftrightarrow> v \<in> set ev" if "v \<in> set (db_allocs d)" for v
    using that vs assms(3) by (auto simp: distinct_map inj_on_def)
  then have "db_allocs d' = map (\<lambda>v. if v \<in> set ev then v\<lparr>al_released_at := Some (db_now d)\<rparr> else v) (db_allocs d) @ [a]"
    unfolding a(1) using evict_all_allocs [of nid ev d0] by (auto simp: d0)
  moreover have "\<not> covers (foldl reclaim free (take j (victims nid prio d))) (gpu, vcpu, ram)" if "j < k" for j
  proof (cases "j = 0")
    case True
    then show ?thesis using evicting(4) by simp
  next
    case False
    moreover have "take j ev = take j (victims nid prio d)"
      using that unfolding k(1) by simp
    ultimately show ?thesis using loop(4) [of j] that k_def by simp
  qed
  ultimately show ?thesis
    using lock_node_row [OF evicting(1) assms(4)] evicting(2,5) loop(1) vs a(2-6) unfolding k(1)
    by (intro exI [of _ n] exI [of _ free] exI [of _ k] exI [of _ a]) auto
qed (use assms(2) in auto)

text \<open>
  quotas do not accumulate.  However many allocations an owner receives, and whether or not they are
  released, the quota check answers as it did at the start: the usage row it compares with the
  quota is never updated, so each request is checked against the quota on its own.
\<close>

theorem quota_never_accumulates:
  assumes "rtranclp sched_step d d'" "list_ex (same_owner ot oi) (db_usage d)"
  shows "check_hard_limits ot oi gpu vcpu ram d' = check_hard_limits ot oi gpu vcpu ram d"
proof -
  obtain u where u: "find (same_owner ot oi) (db_usage d) = Some u"
    using assms(2) by (cases "find (same_owner ot oi) (db_usage d)") (auto simp: find_None_iff list_ex_iff)
  have "find (same_owner ot oi) (db_usage d') = Some u \<and> db_quotas d' = db_quotas d"
    using assms(1) by (induction rule: rtranclp_induct) (use u step_usage in auto)
  then show ?thesis
    using u by (simp add: check_hard_limits_def)
qed

text \<open>
  the placement engine recommends a node of the pool that is ready, real, recently seen and has the
  free resources, and no candidate scores better; it rejects exactly when no node qualifies.
\<close>

theorem place_workload_best:
  assumes "find (\<lambda>p. cp_id p = pid) (db_pools d) = Some p"
  shows "case PlaceWorkload pid gpu vcpu ram d of
      Inl e \<Rightarrow> e = ''NO_CAPACITY_AVAILABLE'' \<and>
        filter (schedulable pid gpu vcpu ram (py_lower (cp_provider p) \<in> {''nosana'', ''akash''}) d) (db_nodes d) = []
    | Inr nid \<Rightarrow> \<exists>n c. n \<in> set (db_nodes d) \<and> ci_id n = nid \<and> candidate_of n = [c]
        \<and> schedulable pid gpu vcpu ram (py_lower (cp_provider p) \<in> {''nosana'', ''akash''}) d n
        \<and> (\<forall>c' \<in> set (fetch_candidate_nodes pid gpu vcpu ram d).
             \<not> score_less (score_node False 80 False c') (score_node False 80 False c))"
proof -
  define ok where "ok = schedulable pid gpu vcpu ram (py_lower (cp_provider p) \<in> {''nosana'', ''akash''}) d"
  have fetch: "fetch_candidate_nodes pid gpu vcpu ram d = concat (map candidate_of (filter ok (db_nodes d)))"
    using assms by (simp add: fetch_candidate_nodes_def ok_def EPHEMERAL_PROVIDERS_def)
  have one: "\<exists>c. candidate_of n = [c] \<and> ca_node_id c = ci_id n" if "ok n" for n
    using that by (auto simp: ok_def schedulable_def candidate_of_def split: option.splits prod.splits)
  show ?thesis
  proof (cases "fetch_candidate_nodes pid gpu vcpu ram d")
    case Nil
    then have "filter ok (db_nodes d) = []"
      using one unfolding fetch by (fastforce simp: filter_empty_conv)
    then show ?thesis
      using Nil by (simp add: PlaceWorkload_def ok_def)
  next
    case (Cons c cs)
    define best where "best = min_by (score_node False 80 False) c cs"
    have "best \<in> set (fetch_candidate_nodes pid gpu vcpu ram d)"
      unfolding Cons best_def by (rule min_by_least [THEN conjunct1])
    then obtain n where n: "n \<in> set (db_nodes d)" "ok n" "best \<in> set (candidate_of n)"
      unfolding fetch by auto
    then have "candidate_of n = [best] \<and> ci_id n = ca_node_id best"
      using one [OF n(2)] by auto
    moreover have "\<forall>c' \<in> set (fetch_candidate_nodes pid gpu vcpu ram d).
        \<not> score_less (score_node False 80 False c') (score_node False 80 False best)"
      unfolding Cons best_def by (rule min_by_least [THEN conjunct2])
    moreover have "PlaceWorkload pid gpu vcpu ram d = Inr (ca_node_id best)"
      by (simp add: PlaceWorkload_def Cons best_def)
    ultimately show ?thesis
      using n by (auto simp: ok_def)
  qed
qed

text \<open>
  A pool whose only candidates score infinity, nodes below the health threshold among them, still gets a
  recommendation.
\<close>

lemma place_workload_accepts_unhealthy:
  assumes "fetch_candidate_nodes pid gpu vcpu ram d = [c]" "ca_health_score c < 80"
  shows "score_node False 80 False c = None \<and> PlaceWorkload pid gpu vcpu ram d = Inr (ca_node_id c)"
  using assms by (simp add: PlaceWorkload_def score_node_def)

section \<open>Witnesses\<close>

definition sample_alloc :: "uuid \<Rightarrow> int \<Rightarrow> allocation" where
  "sample_alloc i gpus = \<lparr>al_id = i, al_node_id = ''n1'', al_gpu = gpus, al_vcpu = 0, al_ram_gb = 0, al_priority = 1,
     al_preemptible = True, al_owner_type = ''user'', al_owner_id = ''u'', al_node_class = ''spot'', al_created_at = 0,
     al_released_at = None\<rparr>"

definition sample_sched :: db where
  "sample_sched = empty_db\<lparr>db_nodes := [sample_node ''n1'' ''p'' ''ready'' 4 3], db_pools := [sample_pool ''p'' ''running''],
     db_allocs := [sample_alloc ''a1'' 1, sample_alloc ''a2'' 2],
     db_quotas := [\<lparr>qu_owner_type = ''user'', qu_owner_id = ''u'', qu_max_gpu = Some 4, qu_max_vcpu = None,
        qu_max_ram_gb = None, qu_max_allocations = None\<rparr>],
     db_usage := [\<lparr>us_owner_type = ''user'', us_owner_id = ''u'', us_gpu_in_use = 0, us_vcpu_in_use = 0,
        us_ram_gb_in_use = 0, us_allocations = 0\<rparr>]\<rparr>"

lemma sample_sched_inv: "sched_inv sample_sched"
proof -
  have "0 \<le> al_res r (sample_alloc i 1)" "0 \<le> al_res r (sample_alloc i 2)" for r i
    by (cases r; simp add: sample_alloc_def)+
  moreover have "within_cap (sample_node ''n1'' ''p'' ''ready'' 4 3)"
    unfolding within_cap_def by (intro allI, case_tac r) (auto simp: sample_node_def)
  ultimately show ?thesis
    by (simp add: sched_inv_def sample_sched_def) (simp add: sample_alloc_def)
qed

lemma sample_sched_node: "get_node_row ''n1'' sample_sched = Some (sample_node ''n1'' ''p'' ''ready'' 4 3)"
  by (simp add: sample_sched_def get_node_row_def sample_node_def)


lemma sample_preempts:
  "\<exists>d'. allocate_with_preemption ''a3'' ''n1'' 3 0 0 5 ''user'' ''u'' sample_sched
     = Inr (d', True, Some ''PREEMPTED_AND_ALLOCATED'', Some ''p'')"
  by (simp add: allocate_with_preemption_def Let_def ensure_owner_def same_owner_def check_hard_limits_def over_limit_def
      sample_sched_def lock_node_def sample_node_def node_free_def covers_def victims_def sample_alloc_def reclaim_def
      commit_allocation_def evict_all_allocs)

theorem preemption_minimal_witness:
  "\<exists>d' free k. allocate_with_preemption ''a3'' ''n1'' 3 0 0 5 ''user'' ''u'' sample_sched
      = Inr (d', True, Some ''PREEMPTED_AND_ALLOCATED'', Some ''p'')
    \<and> covers (foldl reclaim free (take k (victims ''n1'' 5 sample_sched))) (3, 0, 0)"
proof -
  obtain d' where d': "allocate_with_preemption ''a3'' ''n1'' 3 0 0 5 ''user'' ''u'' sample_sched
      = Inr (d', True, Some ''PREEMPTED_AND_ALLOCATED'', Some ''p'')"
    using sample_preempts by blast
  then show ?thesis
    using preemption_minimal [OF d'] sample_sched_inv by (auto simp: sched_inv_def)
qed

theorem quota_never_accumulates_witness:
  "check_hard_limits ''user'' ''u'' 4 0 0 (fst (release_alloc ''a1'' sample_sched)) = (True, None)"
  using quota_never_accumulates [OF r_into_rtranclp [of sched_step, OF sched_step.rel], of "''user''" "''u''" sample_sched 4 0 0 "''a1''"]
  by (simp add: sample_sched_def same_owner_def check_hard_limits_def over_limit_def)

theorem place_workload_best_witness:
  "PlaceWorkload ''p'' 1 0 0 sample_sched = Inr ''n1'' \<and> schedulable ''p'' 1 0 0 False sample_sched (sample_node ''n1'' ''p'' ''ready'' 4 3)"
proof -
  have pool: "find (\<lambda>p. cp_id p = ''p'') (db_pools sample_sched) = Some (sample_pool ''p'' ''running'')"
    "py_lower (cp_provider (sample_pool ''p'' ''running'')) \<notin> {''nosana'', ''akash''}"
    by (simp add: sample_sched_def sample_pool_def) (simp add: sample_pool_def py_lower_def)
  have ok: "PlaceWorkload ''p'' 1 0 0 sample_sched = Inr ''n1''"
    using pool(2) unfolding PlaceWorkload_def fetch_candidate_nodes_def pool(1)
    by (simp add: EPHEMERAL_PROVIDERS_def sample_sched_def schedulable_def sample_node_def node_free_def covers_def
        recently_seen_def occupied_def candidate_of_def sample_pool_def empty_db_def)
  then show ?thesis
    using place_workload_best [OF pool(1), of 1 0 0] pool(2) by (auto simp: sample_sched_def)
qed

end
