(* ===== verification/Concurrency.thy ===== *)
theory Concurrency
  imports Prelude
begin

text \<open>
  \<^verbatim>\<open>inference/core/concurrency_limiter.py\<close>: the in-flight limits on upstream calls, as a transition system.  A call
  enters \<^verbatim>\<open>limit\<close>, waits for the global slot and for the slot of its deployment, runs, and gives both back in the
  \<^verbatim>\<open>finally\<close> clause; the steps of different calls interleave freely.  The deployments' semaphores live in a third-party
  expiring cache, which may drop an entry at any moment.
\<close>

section \<open>State\<close>

datatype stage = Entered | HasGlobal | Waiting | Running | Finished

record call =
  ca_key :: string
  ca_stage :: stage
  ca_acquired_global :: bool
  ca_semaphore :: "nat option"
  ca_acquired_deployment :: bool

text \<open>
  \<^verbatim>\<open>ul_semaphores\<close> holds the value of every semaphore made so far, \<^verbatim>\<open>ul_cache\<close> the one the cache has for a
  deployment.
\<close>

record limiter =
  ul_global_limit :: int
  ul_per_deployment_limit :: int
  ul_global_semaphore :: "nat option"
  ul_semaphores :: "nat list"
  ul_cache :: "string \<rightharpoonup> nat"
  ul_calls :: "call list"

definition new_limiter :: "int \<Rightarrow> int \<Rightarrow> limiter" where
  "new_limiter g p = \<lparr>ul_global_limit = g, ul_per_deployment_limit = p, ul_global_semaphore = None, ul_semaphores = [],
     ul_cache = (\<lambda>k. None), ul_calls = []\<rparr>"

section \<open>Operations\<close>

definition ensure_initialized :: "limiter \<Rightarrow> limiter" where
  "ensure_initialized l = (if ul_global_semaphore l = None \<and> ul_global_limit l > 0
     then l\<lparr>ul_global_semaphore := Some (nat (ul_global_limit l))\<rparr> else l)"

definition set_call :: "nat \<Rightarrow> (call \<Rightarrow> call) \<Rightarrow> limiter \<Rightarrow> limiter" where
  "set_call i f l = l\<lparr>ul_calls := (ul_calls l)[i := f (ul_calls l ! i)]\<rparr>"

definition enter :: "string \<Rightarrow> limiter \<Rightarrow> limiter" where
  "enter key l = (let l1 = ensure_initialized l in l1\<lparr>ul_calls := ul_calls l1 @
     [\<lparr>ca_key = key, ca_stage = Entered, ca_acquired_global = False, ca_semaphore = None, ca_acquired_deployment = False\<rparr>]\<rparr>)"

text \<open>None: the call has to wait.\<close>

definition acquire_global :: "nat \<Rightarrow> limiter \<Rightarrow> limiter option" where
  "acquire_global i l = (case ul_global_semaphore l of
     None \<Rightarrow> Some (set_call i (\<lambda>c. c\<lparr>ca_stage := HasGlobal\<rparr>) l)
   | Some 0 \<Rightarrow> None
   | Some (Suc v) \<Rightarrow> Some (set_call i (\<lambda>c. c\<lparr>ca_stage := HasGlobal, ca_acquired_global := True\<rparr>)
                      (l\<lparr>ul_global_semaphore := Some v\<rparr>)))"

definition get_or_create_semaphore :: "string \<Rightarrow> limiter \<Rightarrow> limiter \<times> nat option" where
  "get_or_create_semaphore key l =
    (if ul_per_deployment_limit l \<le> 0 then (l, None)
     else case ul_cache l key of
            Some s \<Rightarrow> (l, Some s)
          | None \<Rightarrow> (l\<lparr>ul_semaphores := ul_semaphores l @ [nat (ul_per_deployment_limit l)],
                       ul_cache := (ul_cache l)(key \<mapsto> length (ul_semaphores l))\<rparr>, Some (length (ul_semaphores l))))"

definition look_up :: "nat \<Rightarrow> limiter \<Rightarrow> limiter" where
  "look_up i l = (let (l1, s) = get_or_create_semaphore (ca_key (ul_calls l ! i)) l
     in set_call i (\<lambda>c. c\<lparr>ca_stage := (case s of None \<Rightarrow> Running | Some _ \<Rightarrow> Waiting), ca_semaphore := s\<rparr>) l1)"

definition acquire_deployment :: "nat \<Rightarrow> limiter \<Rightarrow> limiter option" where
  "acquire_deployment i l = (case ca_semaphore (ul_calls l ! i) of
     None \<Rightarrow> None
   | Some s \<Rightarrow> (case ul_semaphores l ! s of
        0 \<Rightarrow> None
      | Suc v \<Rightarrow> Some (set_call i (\<lambda>c. c\<lparr>ca_stage := Running, ca_acquired_deployment := True\<rparr>)
                   (l\<lparr>ul_semaphores := (ul_semaphores l)[s := v]\<rparr>))))"

text \<open>The \<^verbatim>\<open>finally\<close> clause, also taken by a call that gave up waiting.\<close>

definition leave :: "nat \<Rightarrow> limiter \<Rightarrow> limiter" where
  "leave i l =
    (let c = ul_calls l ! i;
         l1 = (case ca_semaphore c of
                 Some s \<Rightarrow> if ca_acquired_deployment c then l\<lparr>ul_semaphores := (ul_semaphores l)[s := Suc (ul_semaphores l ! s)]\<rparr> else l
               | None \<Rightarrow> l);
         l2 = (case ul_global_semaphore l1 of
                 Some v \<Rightarrow> if ca_acquired_global c then l1\<lparr>ul_global_semaphore := Some (Suc v)\<rparr> else l1
               | None \<Rightarrow> l1)
     in set_call i (\<lambda>c. c\<lparr>ca_stage := Finished, ca_acquired_global := False, ca_acquired_deployment := False\<rparr>) l2)"

section \<open>Interleavings\<close>

definition at_stage :: "nat \<Rightarrow> stage \<Rightarrow> limiter \<Rightarrow> bool" where
  "at_stage i st l \<longleftrightarrow> i < length (ul_calls l) \<and> ca_stage (ul_calls l ! i) = st"

inductive limiter_step :: "limiter \<Rightarrow> limiter \<Rightarrow> bool" where
  l_enter: "limiter_step l (enter key l)"
| l_global: "at_stage i Entered l \<Longrightarrow> acquire_global i l = Some l' \<Longrightarrow> limiter_step l l'"
| l_look_up: "at_stage i HasGlobal l \<Longrightarrow> limiter_step l (look_up i l)"
| l_deployment: "at_stage i Waiting l \<Longrightarrow> acquire_deployment i l = Some l' \<Longrightarrow> limiter_step l l'"
| l_leave: "at_stage i st l \<Longrightarrow> st \<noteq> Finished \<Longrightarrow> limiter_step l (leave i l)"
| l_expire: "limiter_step l (l\<lparr>ul_cache := (ul_cache l)(key := None)\<rparr>)"

definition holders :: "(call \<Rightarrow> bool) \<Rightarrow> limiter \<Rightarrow> nat" where
  "holders p l = sum_list (map (\<lambda>c. if p c then 1 else 0) (ul_calls l))"

abbreviation holds_global :: "call \<Rightarrow> bool" where
  "holds_global c \<equiv> ca_acquired_global c"

definition holds :: "nat \<Rightarrow> call \<Rightarrow> bool" where
  "holds s c \<longleftrightarrow> ca_acquired_deployment c \<and> ca_semaphore c = Some s"

definition call_ok :: "limiter \<Rightarrow> call \<Rightarrow> bool" where
  "call_ok l c \<longleftrightarrow>
     (\<forall>s. ca_semaphore c = Some s \<longrightarrow> s < length (ul_semaphores l))
   \<and> (case ca_stage c of
        Entered \<Rightarrow> \<not> ca_acquired_global c \<and> \<not> ca_acquired_deployment c \<and> ca_semaphore c = None
      | HasGlobal \<Rightarrow> ca_acquired_global c = (ul_global_limit l > 0) \<and> \<not> ca_acquired_deployment c
      | Waiting \<Rightarrow> ca_acquired_global c = (ul_global_limit l > 0) \<and> \<not> ca_acquired_deployment c
      | Running \<Rightarrow> ca_acquired_global c = (ul_global_limit l > 0)
                  \<and> ca_acquired_deployment c = (ul_per_deployment_limit l > 0) \<and> (ca_semaphore c \<noteq> None) = (ul_per_deployment_limit l > 0)
      | Finished \<Rightarrow> \<not> ca_acquired_global c \<and> \<not> ca_acquired_deployment c)"

definition limiter_inv :: "limiter \<Rightarrow> bool" where
  "limiter_inv l \<longleftrightarrow> (\<forall>c \<in> set (ul_calls l). call_ok l c)
   \<and> (ul_global_semaphore l = None \<longrightarrow> holders holds_global l = 0 \<and> (ul_global_limit l > 0 \<longrightarrow> ul_calls l = []))
   \<and> (\<forall>v. ul_global_semaphore l = Some v \<longrightarrow> ul_global_limit l > 0 \<and> v + holders holds_global l = nat (ul_global_limit l))
   \<and> (\<forall>s < length (ul_semaphores l). ul_semaphores l ! s + holders (holds s) l = nat (ul_per_deployment_limit l))
   \<and> (\<forall>s \<ge> length (ul_semaphores l). holders (holds s) l = 0)
   \<and> (\<forall>k s. ul_cache l k = Some s \<longrightarrow> s < length (ul_semaphores l))"

section \<open>The slots are conserved\<close>

lemma holders_set_call:
  assumes "i < length (ul_calls l)"
  shows "holders p (set_call i f l) + (if p (ul_calls l ! i) then 1 else 0) = holders p l + (if p (f (ul_calls l ! i)) then 1 else 0)"
proof -
  let ?w = "\<lambda>c. if p c then (1::nat) else 0"
  have "?w (ul_calls l ! i) \<le> sum_list (map ?w (ul_calls l))"
    using assms nth_mem [of i "map ?w (ul_calls l)"] by (intro member_le_sum_list) simp_all
  then show ?thesis using assms
    by (simp add: holders_def set_call_def map_update sum_list_update)
qed

lemma holders_same:
  assumes "i < length (ul_calls l)" "p (f (ul_calls l ! i)) = p (ul_calls l ! i)"
  shows "holders p (set_call i f l) = holders p l"
  using holders_set_call [OF assms(1), of p f] assms(2) by simp

lemma holders_frame [simp]:
  "holders p (l\<lparr>ul_global_semaphore := g\<rparr>) = holders p l" "holders p (l\<lparr>ul_semaphores := s\<rparr>) = holders p l"
  "holders p (l\<lparr>ul_cache := c\<rparr>) = holders p l"
  by (simp_all add: holders_def)

lemma set_call_frame [simp]:
  "ul_global_limit (set_call i f l) = ul_global_limit l" "ul_per_deployment_limit (set_call i f l) = ul_per_deployment_limit l"
  "ul_global_semaphore (set_call i f l) = ul_global_semaphore l" "ul_semaphores (set_call i f l) = ul_semaphores l"
  "ul_cache (set_call i f l) = ul_cache l" "length (ul_calls (set_call i f l)) = length (ul_calls l)"
  by (simp_all add: set_call_def)

lemma set_call_calls:
  assumes "\<forall>c \<in> set (ul_calls l). call_ok l c" "call_ok l (f (ul_calls l ! i))"
  shows "\<forall>c \<in> set (ul_calls (set_call i f l)). call_ok l c"
  using assms by (auto simp: set_call_def dest: set_update_subset_insert [THEN subsetD])

lemma call_ok_cong:
  assumes "ul_global_limit l' = ul_global_limit l" "ul_per_deployment_limit l' = ul_per_deployment_limit l"
    and "length (ul_semaphores l) \<le> length (ul_semaphores l')" "call_ok l c"
  shows "call_ok l' c"
  using assms by (auto simp: call_ok_def split: stage.splits)

lemma call_ok_frame [simp]:
  "call_ok (l\<lparr>ul_calls := cs\<rparr>) c = call_ok l c" "call_ok (l\<lparr>ul_cache := m\<rparr>) c = call_ok l c"
  "call_ok (l\<lparr>ul_global_semaphore := g\<rparr>) c = call_ok l c"
  by (simp_all add: call_ok_def cong: stage.case_cong)

lemma call_ok_set_call [simp]: "call_ok (set_call i f l) c = call_ok l c"
  by (simp add: set_call_def)

lemma inv_call: "limiter_inv l \<Longrightarrow> i < length (ul_calls l) \<Longrightarrow> call_ok l (ul_calls l ! i)"
  by (simp add: limiter_inv_def)

lemma ensure_initialized_inv: "limiter_inv l \<Longrightarrow> limiter_inv (ensure_initialized l)"
  by (auto simp: limiter_inv_def ensure_initialized_def)

lemma enter_inv:
  assumes "limiter_inv l"
  shows "limiter_inv (enter key l)"
proof -
  define l1 where "l1 = ensure_initialized l"
  have "limiter_inv l1" and g: "ul_global_semaphore l1 = None \<Longrightarrow> \<not> ul_global_limit l1 > 0"
    using ensure_initialized_inv [OF assms] by (auto simp: l1_def ensure_initialized_def split: if_splits)
  then show ?thesis
    unfolding enter_def l1_def [symmetric] Let_def
    by (auto simp: limiter_inv_def holders_def holds_def) (simp_all add: call_ok_def)
qed

lemma acquire_global_inv:
  assumes inv: "limiter_inv l" and at: "at_stage i Entered l" and acq: "acquire_global i l = Some l'"
  shows "limiter_inv l'"
proof (cases "ul_global_semaphore l")
  case None
  have i: "i < length (ul_calls l)" and st: "ca_stage (ul_calls l ! i) = Entered" using at by (auto simp: at_stage_def)
  then have lim: "\<not> ul_global_limit l > 0" using None inv by (auto simp: limiter_inv_def)
  let ?f = "\<lambda>c. c\<lparr>ca_stage := HasGlobal\<rparr>"
  have l': "l' = set_call i ?f l" using acq None by (simp add: acquire_global_def)
  have "call_ok l (?f (ul_calls l ! i))" using inv_call [OF inv i] st lim by (simp add: call_ok_def)
  then have "\<forall>c \<in> set (ul_calls l'). call_ok l' c"
    using set_call_calls [of l ?f i] inv by (auto simp: l' limiter_inv_def intro: call_ok_cong)
  moreover have "holders p l' = holders p l" if "\<And>c. p (?f c) = p c" for p
    unfolding l' using that by (intro holders_same i) simp
  ultimately show ?thesis using inv None lim by (simp add: limiter_inv_def l' holds_def)
next
  case (Some v')
  then obtain v where v: "ul_global_semaphore l = Some (Suc v)" using acq by (cases v') (auto simp: acquire_global_def)
  have i: "i < length (ul_calls l)" and st: "ca_stage (ul_calls l ! i) = Entered" using at by (auto simp: at_stage_def)
  let ?f = "\<lambda>c. c\<lparr>ca_stage := HasGlobal, ca_acquired_global := True\<rparr>" and ?l = "l\<lparr>ul_global_semaphore := Some v\<rparr>"
  have l': "l' = set_call i ?f ?l" using acq v by (simp add: acquire_global_def)
  have lim: "ul_global_limit l > 0" using inv v by (simp add: limiter_inv_def)
  have ok: "call_ok l (ul_calls l ! i)" by (rule inv_call [OF inv i])
  have "call_ok ?l (?f (ul_calls ?l ! i))" using ok st lim by (simp add: call_ok_def)
  then have "\<forall>c \<in> set (ul_calls l'). call_ok l' c"
    using set_call_calls [of ?l ?f i] inv by (auto simp: l' limiter_inv_def intro: call_ok_cong)
  moreover have "holders holds_global l' = Suc (holders holds_global l)"
    using holders_set_call [of i ?l holds_global ?f] i ok st by (simp add: l' call_ok_def)
  moreover have "holders (holds s) l' = holders (holds s) l" for s
    using holders_same [of i ?l "holds s" ?f] i by (simp add: l' holds_def)
  ultimately show ?thesis using inv v lim by (simp add: limiter_inv_def l')
qed

lemma create_semaphore_inv:
  assumes "limiter_inv l" "ul_per_deployment_limit l > 0"
  shows "limiter_inv (l\<lparr>ul_semaphores := ul_semaphores l @ [nat (ul_per_deployment_limit l)],
     ul_cache := (ul_cache l)(key \<mapsto> length (ul_semaphores l))\<rparr>)"
proof -
  let ?l = "l\<lparr>ul_semaphores := ul_semaphores l @ [nat (ul_per_deployment_limit l)],
     ul_cache := (ul_cache l)(key \<mapsto> length (ul_semaphores l))\<rparr>"
  have "\<forall>c \<in> set (ul_calls ?l). call_ok ?l c"
    using assms(1) by (auto simp: limiter_inv_def intro: call_ok_cong [of _ l])
  moreover have "\<forall>s < length (ul_semaphores ?l). ul_semaphores ?l ! s + holders (holds s) ?l = nat (ul_per_deployment_limit ?l)"
    using assms(1) by (simp add: limiter_inv_def nth_append less_Suc_eq)
  moreover have "\<forall>k s. ul_cache ?l k = Some s \<longrightarrow> s < length (ul_semaphores ?l)"
    using assms(1) by (auto simp: limiter_inv_def less_Suc_eq)
  ultimately show ?thesis using assms(1) by (simp add: limiter_inv_def)
qed

lemma get_or_create_inv:
  fixes key :: string
  assumes "limiter_inv l"
  defines "l1 \<equiv> fst (get_or_create_semaphore key l)" and "s \<equiv> snd (get_or_create_semaphore key l)"
  shows "limiter_inv l1 \<and> ul_calls l1 = ul_calls l \<and> ul_global_limit l1 = ul_global_limit l
    \<and> ul_per_deployment_limit l1 = ul_per_deployment_limit l \<and> (\<forall>x. s = Some x \<longrightarrow> x < length (ul_semaphores l1))
    \<and> (s = None) = (\<not> ul_per_deployment_limit l > 0)"
proof (cases "ul_per_deployment_limit l > 0 \<and> ul_cache l key = None")
  case True
  then show ?thesis using create_semaphore_inv [of l key] assms(1)
    by (simp add: l1_def s_def get_or_create_semaphore_def)
next
  case False
  then have "l1 = l" "s = (if ul_per_deployment_limit l > 0 then ul_cache l key else None)"
    by (auto simp: l1_def s_def get_or_create_semaphore_def split: option.splits)
  with False assms(1) show ?thesis by (auto simp: limiter_inv_def)
qed

lemma look_up_inv:
  assumes inv: "limiter_inv l" and at: "at_stage i HasGlobal l"
  shows "limiter_inv (look_up i l)"
proof -
  have i: "i < length (ul_calls l)" and st: "ca_stage (ul_calls l ! i) = HasGlobal" using at by (auto simp: at_stage_def)
  have ok: "call_ok l (ul_calls l ! i)" by (rule inv_call [OF inv i])
  define l1 s where "l1 = fst (get_or_create_semaphore (ca_key (ul_calls l ! i)) l)"
    and "s = snd (get_or_create_semaphore (ca_key (ul_calls l ! i)) l)"
  let ?f = "\<lambda>c. c\<lparr>ca_stage := (case s of None \<Rightarrow> Running | Some _ \<Rightarrow> Waiting), ca_semaphore := s\<rparr>"
  have l': "look_up i l = set_call i ?f l1" by (simp add: look_up_def l1_def s_def split_def Let_def)
  have l1: "ul_calls l1 = ul_calls l" "limiter_inv l1" "ul_global_limit l1 = ul_global_limit l"
    "ul_per_deployment_limit l1 = ul_per_deployment_limit l" "\<And>x. s = Some x \<Longrightarrow> x < length (ul_semaphores l1)"
    "(s = None) = (\<not> ul_per_deployment_limit l > 0)"
    using get_or_create_inv [OF inv, of "ca_key (ul_calls l ! i)"] by (simp_all add: l1_def s_def)
  have "call_ok l1 (?f (ul_calls l1 ! i))"
    using ok st l1 by (cases s) (auto simp: call_ok_def)
  then have calls: "\<forall>c \<in> set (ul_calls (set_call i ?f l1)). call_ok l1 c"
    using set_call_calls [of l1 ?f i] l1 by (simp add: limiter_inv_def)
  have free: "\<not> ca_acquired_deployment (ul_calls l1 ! i)" using ok st l1 by (simp add: call_ok_def)
  have "holders holds_global (set_call i ?f l1) = holders holds_global l1"
    "holders (holds x) (set_call i ?f l1) = holders (holds x) l1" for x
    using holders_same [of i l1 holds_global ?f] holders_same [of i l1 "holds x" ?f] i free l1 by (simp_all add: holds_def)
  then show ?thesis
    using l1(2) calls i l1(1) unfolding l' limiter_inv_def by (auto intro: call_ok_cong)
qed

lemma acquire_deployment_inv:
  assumes inv: "limiter_inv l" and at: "at_stage i Waiting l" and acq: "acquire_deployment i l = Some l'"
  shows "limiter_inv l'"
proof -
  have i: "i < length (ul_calls l)" and st: "ca_stage (ul_calls l ! i) = Waiting" using at by (auto simp: at_stage_def)
  have ok: "call_ok l (ul_calls l ! i)" by (rule inv_call [OF inv i])
  obtain s v where s: "ca_semaphore (ul_calls l ! i) = Some s" "ul_semaphores l ! s = Suc v"
    and l'0: "l' = set_call i (\<lambda>c. c\<lparr>ca_stage := Running, ca_acquired_deployment := True\<rparr>)
                   (l\<lparr>ul_semaphores := (ul_semaphores l)[s := v]\<rparr>)"
    using acq by (auto simp: acquire_deployment_def split: option.splits nat.splits)
  let ?f = "\<lambda>c. c\<lparr>ca_stage := Running, ca_acquired_deployment := True\<rparr>" and ?l = "l\<lparr>ul_semaphores := (ul_semaphores l)[s := v]\<rparr>"
  have l': "l' = set_call i ?f ?l" using l'0 .
  have slen: "s < length (ul_semaphores l)" using ok s by (simp add: call_ok_def)
  then have "0 < nat (ul_per_deployment_limit l)" using inv s(2) unfolding limiter_inv_def by fastforce
  then have lim: "ul_per_deployment_limit l > 0" by simp
  have "call_ok ?l (?f (ul_calls ?l ! i))" using ok st lim s by (simp add: call_ok_def)
  moreover have "\<forall>c \<in> set (ul_calls ?l). call_ok ?l c" using inv by (auto simp: limiter_inv_def intro: call_ok_cong)
  ultimately have calls: "\<forall>c \<in> set (ul_calls l'). call_ok l' c"
    using set_call_calls [of ?l ?f i] by (simp add: l')
  have "holders (holds s) l' = Suc (holders (holds s) l)"
    using holders_set_call [of i ?l "holds s" ?f] i ok st s by (simp add: l' call_ok_def holds_def)
  moreover have "holders (holds x) l' = holders (holds x) l" if "x \<noteq> s" for x
    using holders_same [of i ?l "holds x" ?f] i s that by (simp add: l' holds_def)
  moreover have "holders holds_global l' = holders holds_global l"
    using holders_same [of i ?l holds_global ?f] i by (simp add: l')
  moreover have "ul_calls l' \<noteq> []" "ul_calls l \<noteq> []" using i by (auto simp: l' set_call_def)
  ultimately show ?thesis
    using inv calls slen s(2) unfolding limiter_inv_def by (auto simp: l' nth_list_update)
qed

lemma leave_inv:
  assumes inv: "limiter_inv l" and at: "at_stage i st l"
  shows "limiter_inv (leave i l)"
proof -
  have i: "i < length (ul_calls l)" using at by (auto simp: at_stage_def)
  have ok: "call_ok l (ul_calls l ! i)" by (rule inv_call [OF inv i])
  define c where "c = ul_calls l ! i"
  let ?f = "\<lambda>c. c\<lparr>ca_stage := Finished, ca_acquired_global := False, ca_acquired_deployment := False\<rparr>"
  define l1 where "l1 = (case ca_semaphore c of
                 Some s \<Rightarrow> if ca_acquired_deployment c then l\<lparr>ul_semaphores := (ul_semaphores l)[s := Suc (ul_semaphores l ! s)]\<rparr> else l
               | None \<Rightarrow> l)"
  define l2 where "l2 = (case ul_global_semaphore l1 of
                 Some v \<Rightarrow> if ca_acquired_global c then l1\<lparr>ul_global_semaphore := Some (Suc v)\<rparr> else l1
               | None \<Rightarrow> l1)"
  have l': "leave i l = set_call i ?f l2" unfolding leave_def Let_def l2_def l1_def c_def by (rule refl)
  have frame: "ul_calls l2 = ul_calls l" "ul_global_limit l2 = ul_global_limit l" "ul_cache l2 = ul_cache l"
    "ul_per_deployment_limit l2 = ul_per_deployment_limit l" "length (ul_semaphores l2) = length (ul_semaphores l)"
    by (auto simp: l2_def l1_def split: option.splits)
  have sems: "ul_semaphores l2 ! s = ul_semaphores l ! s + (if holds s c then 1 else 0)" if "s < length (ul_semaphores l)" for s
    using that by (auto simp: l2_def l1_def holds_def nth_list_update split: option.splits)
  have glob: "ul_global_semaphore l2 = map_option (\<lambda>v. v + (if ca_acquired_global c then 1 else 0)) (ul_global_semaphore l)"
    by (auto simp: l2_def l1_def split: option.splits)
  have hold: "holders p (leave i l) + (if p c then 1 else 0) = holders p l" if "\<not> p (?f c)" for p
    using holders_set_call [of i l2 p ?f] i that frame by (simp add: l' c_def holders_def)
  have "call_ok l2 x" if "call_ok l x" for x
    using that frame by (intro call_ok_cong [of l2 l]) simp_all
  moreover have "call_ok l (?f c)" using ok by (auto simp: call_ok_def c_def split: stage.splits)
  moreover have "\<forall>c \<in> set (ul_calls l). call_ok l c" using inv by (simp add: limiter_inv_def)
  ultimately have calls: "\<forall>c \<in> set (ul_calls (leave i l)). call_ok (leave i l) c"
    using set_call_calls [of l2 ?f i] frame(1) by (simp add: l' c_def)
  have gl: "holders holds_global (leave i l) + (if ca_acquired_global c then 1 else 0) = holders holds_global l"
    by (rule hold) simp
  have dl: "holders (holds s) (leave i l) + (if holds s c then 1 else 0) = holders (holds s) l" for s
    by (rule hold) (simp add: holds_def)
  show ?thesis unfolding limiter_inv_def
  proof (intro conjI allI impI)
    show "\<forall>c \<in> set (ul_calls (leave i l)). call_ok (leave i l) c" by (rule calls)
    show "holders holds_global (leave i l) = 0" if "ul_global_semaphore (leave i l) = None"
      using that glob gl inv by (simp add: l' limiter_inv_def)
    show "ul_calls (leave i l) = []" if "ul_global_semaphore (leave i l) = None" "ul_global_limit (leave i l) > 0"
      using that glob inv i frame by (simp add: l' limiter_inv_def)
    show "ul_global_limit (leave i l) > 0" if "ul_global_semaphore (leave i l) = Some v" for v
      using that glob inv frame by (auto simp: l' limiter_inv_def)
    show "v + holders holds_global (leave i l) = nat (ul_global_limit (leave i l))" if "ul_global_semaphore (leave i l) = Some v" for v
      using that glob gl inv frame unfolding limiter_inv_def by (auto simp: l' split: if_splits)
    show "ul_semaphores (leave i l) ! s + holders (holds s) (leave i l) = nat (ul_per_deployment_limit (leave i l))"
      if "s < length (ul_semaphores (leave i l))" for s
      using that sems [of s] dl [of s] inv frame unfolding limiter_inv_def by (auto simp: l' split: if_splits)
    show "holders (holds s) (leave i l) = 0" if "length (ul_semaphores (leave i l)) \<le> s" for s
      using that dl [of s] inv frame unfolding limiter_inv_def by (auto simp: l')
    show "s < length (ul_semaphores (leave i l))" if "ul_cache (leave i l) k = Some s" for k s
      using that inv frame unfolding limiter_inv_def by (auto simp: l')
  qed
qed

lemma limiter_step_inv:
  assumes "limiter_step l l'" "limiter_inv l"
  shows "limiter_inv l'"
  using assms
proof (induction rule: limiter_step.induct)
  case (l_expire l key)
  then show ?case by (auto simp: limiter_inv_def split: if_splits)
qed (blast intro: enter_inv acquire_global_inv look_up_inv acquire_deployment_inv leave_inv)+

interpretation lim: inv_system "\<lambda>l. l = new_limiter g p" limiter_step limiter_inv for g p
  by unfold_locales (simp add: new_limiter_def limiter_inv_def holders_def, rule limiter_step_inv)

lemma holders_mono: "(\<And>c. c \<in> set (ul_calls l) \<Longrightarrow> p c \<Longrightarrow> q c) \<Longrightarrow> holders p l \<le> holders q l"
  unfolding holders_def by (rule sum_list_mono) auto

section \<open>Properties\<close>

text \<open>
  C13: Whatever the interleaving of calls, timeouts, failures and cache expiries, no more than
  \<^verbatim>\<open>upstream_global_max_in_flight\<close> calls run at once, no more than \<^verbatim>\<open>upstream_per_deployment_max_in_flight\<close>
  of them on one semaphore, and no slot leaks: when every call has ended, all semaphores are back at their limits.
\<close>

theorem in_flight_bounded:
  assumes "rtranclp limiter_step (new_limiter g p) l" "0 < g" "0 < p"
  shows "int (holders (\<lambda>c. ca_stage c = Running) l) \<le> g
    \<and> (\<forall>s. int (holders (\<lambda>c. ca_stage c = Running \<and> ca_semaphore c = Some s) l) \<le> p)
    \<and> ((\<forall>c \<in> set (ul_calls l). ca_stage c = Finished) \<longrightarrow>
         (\<forall>v. ul_global_semaphore l = Some v \<longrightarrow> int v = g) \<and> (\<forall>v \<in> set (ul_semaphores l). int v = p))"
proof -
  have lims: "ul_global_limit l = g \<and> ul_per_deployment_limit l = p"
    using assms(1)
  proof (induction rule: rtranclp_induct)
    case (step y z)
    then show ?case
      by (auto elim!: limiter_step.cases simp: enter_def ensure_initialized_def Let_def acquire_global_def look_up_def
          get_or_create_semaphore_def acquire_deployment_def leave_def split_def split: option.splits nat.splits if_splits)
  qed (simp add: new_limiter_def)
  have inv: "limiter_inv l" using lim.reach_inv [OF refl assms(1)] .
  have ok: "call_ok l c" if "c \<in> set (ul_calls l)" for c using inv that by (simp add: limiter_inv_def)
  have hg: "int (holders holds_global l) \<le> g"
    using inv lims assms(2) unfolding limiter_inv_def by (cases "ul_global_semaphore l") auto
  have hd: "int (holders (holds s) l) \<le> p" for s
    using inv lims assms(3) unfolding limiter_inv_def by (cases "s < length (ul_semaphores l)") auto
  have run: "holds_global c \<and> ca_acquired_deployment c" if "c \<in> set (ul_calls l)" "ca_stage c = Running" for c
    using ok [OF that(1)] that(2) lims assms by (simp add: call_ok_def)
  have "holders (\<lambda>c. ca_stage c = Running) l \<le> holders holds_global l"
    by (rule holders_mono) (use run in blast)
  moreover have "holders (\<lambda>c. ca_stage c = Running \<and> ca_semaphore c = Some s) l \<le> holders (holds s) l" for s
    by (rule holders_mono) (use run in \<open>auto simp: holds_def\<close>)
  moreover have "(\<forall>v. ul_global_semaphore l = Some v \<longrightarrow> int v = g) \<and> (\<forall>v \<in> set (ul_semaphores l). int v = p)"
    if fin: "\<forall>c \<in> set (ul_calls l). ca_stage c = Finished"
  proof -
    have "\<not> ca_acquired_global c \<and> \<not> ca_acquired_deployment c" if "c \<in> set (ul_calls l)" for c
      using ok [OF that] fin that by (auto simp: call_ok_def)
    then have "holders holds_global l = 0" "holders (holds s) l = 0" for s
      by (auto simp: holders_def holds_def)
    then show ?thesis using inv lims assms unfolding limiter_inv_def by (auto simp: in_set_conv_nth)
  qed
  ultimately show ?thesis using hg hd by (meson of_nat_mono order_trans)
qed

text \<open>
  The limit per deployment is not a limit: the cache drops the entry of a semaphore that is still in use (five minutes
  after it was made, whatever runs), the next call makes a new one, and two calls run on a deployment whose limit
  is one.
\<close>

theorem deployment_limit_exceeded:
  "\<exists>l. rtranclp limiter_step (new_limiter 10 1) l
     \<and> holders (\<lambda>c. ca_stage c = Running \<and> ca_key c = ''llama'') l = 2"
proof -
  define call where "call = (\<lambda>i l. the (acquire_deployment i (look_up i (the (acquire_global i l)))))"
  define l1 where "l1 = call 0 (enter ''llama'' (new_limiter 10 1))"
  define l2 where "l2 = l1\<lparr>ul_cache := (ul_cache l1)(''llama'' := None)\<rparr>"
  define l3 where "l3 = call 1 (enter ''llama'' l2)"
  note ops = call_def enter_def ensure_initialized_def new_limiter_def acquire_global_def look_up_def get_or_create_semaphore_def
    acquire_deployment_def set_call_def at_stage_def
  have "rtranclp limiter_step (enter ''llama'' (new_limiter 10 1)) l1"
  proof -
    let ?a = "enter ''llama'' (new_limiter 10 1)"
    have "acquire_global 0 ?a = Some (the (acquire_global 0 ?a))" "at_stage 0 Entered ?a"
      by (simp_all add: ops eval_nat_numeral)
    then have 1: "limiter_step ?a (the (acquire_global 0 ?a))" by (rule l_global [rotated])
    have 2: "limiter_step (the (acquire_global 0 ?a)) (look_up 0 (the (acquire_global 0 ?a)))"
      by (rule l_look_up) (simp add: ops eval_nat_numeral)
    have "limiter_step (look_up 0 (the (acquire_global 0 ?a))) l1" unfolding l1_def call_def
      by (rule l_deployment [of 0]) (simp_all add: ops eval_nat_numeral)
    with 1 2 show ?thesis by (meson rtranclp.rtrancl_into_rtrancl rtranclp.rtrancl_refl)
  qed
  moreover have "limiter_step l1 l2" unfolding l2_def by (rule l_expire)
  moreover have "rtranclp limiter_step (enter ''llama'' l2) l3"
  proof -
    let ?a = "enter ''llama'' l2"
    have "acquire_global 1 ?a = Some (the (acquire_global 1 ?a))" "at_stage 1 Entered ?a"
      by (simp_all add: ops l1_def l2_def eval_nat_numeral)
    then have 1: "limiter_step ?a (the (acquire_global 1 ?a))" by (rule l_global [rotated])
    have 2: "limiter_step (the (acquire_global 1 ?a)) (look_up 1 (the (acquire_global 1 ?a)))"
      by (rule l_look_up) (simp add: ops l1_def l2_def eval_nat_numeral)
    have "limiter_step (look_up 1 (the (acquire_global 1 ?a))) l3" unfolding l3_def call_def
      by (rule l_deployment [of 1]) (simp_all add: ops l1_def l2_def eval_nat_numeral)
    with 1 2 show ?thesis by (meson rtranclp.rtrancl_into_rtrancl rtranclp.rtrancl_refl)
  qed
  moreover have "limiter_step (new_limiter 10 1) (enter ''llama'' (new_limiter 10 1))" "limiter_step l2 (enter ''llama'' l2)"
    by (rule l_enter)+
  ultimately have "rtranclp limiter_step (new_limiter 10 1) l3"
    by (meson converse_rtranclp_into_rtranclp rtranclp_trans)
  moreover have "holders (\<lambda>c. ca_stage c = Running \<and> ca_key c = ''llama'') l3 = 2"
    by (simp add: ops l1_def l2_def l3_def holders_def eval_nat_numeral)
  ultimately show ?thesis by blast
qed

section \<open>Witnesses\<close>

theorem in_flight_bounded_witness:
  "int (holders (\<lambda>c. ca_stage c = Running) (enter ''llama'' (new_limiter 2 1))) \<le> 2"
proof -
  have "rtranclp limiter_step (new_limiter 2 1) (enter ''llama'' (new_limiter 2 1))"
    by (blast intro: l_enter)
  from in_flight_bounded [OF this] show ?thesis by simp
qed

end
