(* ===== verification/Workers.thy ===== *)
theory Workers
  imports Linker "HOL-Library.Sublist"
begin

text \<open>
  The control channel to the workers: message bodies (\<^verbatim>\<open>worker_controller/protocol.py\<close>), the registry of live
  connections, commands and streams (\<^verbatim>\<open>registry.py\<close>), the command facade (\<^verbatim>\<open>controller.py\<close>) and the input validation
  it applies (\<^verbatim>\<open>messaging/uri_validation.py\<close>).  A socket is a number; \<^verbatim>\<open>up\<close> says whether a send on it succeeds; fresh
  identifiers are arguments.
\<close>

section \<open>uri_validation.py\<close>

definition ALLOWED_URI_SCHEMES :: "string list" where
  "ALLOWED_URI_SCHEMES = [''s3'', ''gs'', ''hf'', ''http'', ''https'', ''oci'']"

definition ALLOWED_CONFIG_KEYS :: "string list" where
  "ALLOWED_CONFIG_KEYS = [''tensor_parallel_size'', ''pipeline_parallel_size'', ''dtype'', ''max_model_len'', ''max_num_seqs'',
     ''gpu_memory_utilization'', ''quantization'', ''enforce_eager'', ''trust_remote_code'', ''max_batch_size'',
     ''max_input_length'', ''max_total_tokens'', ''model_type'', ''model_offload'', ''group_offload'']"

definition lower_letter :: "char \<Rightarrow> bool" where
  "lower_letter c = (let n = of_char c :: nat in 97 \<le> n \<and> n \<le> 122)"

definition uri_scheme_char :: "char \<Rightarrow> bool" where
  "uri_scheme_char c \<longleftrightarrow> lower_letter c \<or> is_digit c \<or> c \<in> set ''+-.''"

text \<open>Control characters and shell metacharacters.\<close>

definition uri_unsafe :: "char \<Rightarrow> bool" where
  "uri_unsafe c \<longleftrightarrow> (of_char c :: nat) < 32 \<or> c = CHR 0x60 \<or> c \<in> set ''$;|&><''"

text \<open>\<^verbatim>\<open>$\<close> also matches before a final line feed.\<close>

definition drop_final_newline :: "string \<Rightarrow> string" where
  "drop_final_newline s = (if s \<noteq> [] \<and> last s = CHR 0x0A then butlast s else s)"

definition uri_pattern :: "string \<Rightarrow> bool" where
  "uri_pattern s =
    (let sch = takeWhile (\<lambda>c. c \<noteq> CHR '':'') s; rest = drop (length sch) s; body = drop_final_newline (drop 3 rest)
     in sch \<noteq> [] \<and> lower_letter (hd sch) \<and> list_all uri_scheme_char sch \<and> take 3 rest = ''://''
        \<and> body \<noteq> [] \<and> list_all (\<lambda>c. \<not> uri_unsafe c) body)"

definition uri_scheme :: "string \<Rightarrow> string" where
  "uri_scheme s = takeWhile (\<lambda>c. c \<noteq> CHR '':'') s"

text \<open>Inl is the message of the ValueError.\<close>

definition validate_artifact_uri :: "json \<Rightarrow> string + string" where
  "validate_artifact_uri uri = (case uri of
     JStr s \<Rightarrow>
      if s = [] then Inl ''artifact_uri must be a non-empty string''
      else if \<not> uri_pattern s then Inl (''artifact_uri contains invalid characters: '' @ py_repr_str s)
      else if py_lower (uri_scheme s) \<notin> set ALLOWED_URI_SCHEMES
      then Inl (''artifact_uri scheme '' @ py_repr_str (py_lower (uri_scheme s)) @ '' not in allowed list: ''
             @ py_repr (JArr (map JStr (sort ALLOWED_URI_SCHEMES))))
      else Inr s
   | _ \<Rightarrow> Inl ''artifact_uri must be a non-empty string'')"

definition scalar :: "json \<Rightarrow> bool" where
  "scalar v = (case v of JStr _ \<Rightarrow> True | JInt _ \<Rightarrow> True | JDec _ _ \<Rightarrow> True | JBool _ \<Rightarrow> True | _ \<Rightarrow> False)"

definition sanitize_config :: "jobj \<Rightarrow> jobj" where
  "sanitize_config config = filter (\<lambda>(k, v). k \<in> set ALLOWED_CONFIG_KEYS \<and> scalar v) config"

section \<open>protocol.py\<close>

datatype frame = ShellOutput string string | ShellExit string int string | ShellError string string
  | LogsLine string string string | LogsEnd string string

fun frame_stream :: "frame \<Rightarrow> string" where
  "frame_stream (ShellOutput s _) = s"
| "frame_stream (ShellExit s _ _) = s"
| "frame_stream (ShellError s _) = s"
| "frame_stream (LogsLine s _ _) = s"
| "frame_stream (LogsEnd s _) = s"

fun terminal :: "frame \<Rightarrow> bool" where
  "terminal (ShellExit _ _ _) = True"
| "terminal (ShellError _ _) = True"
| "terminal (LogsEnd _ _) = True"
| "terminal _ = False"

record command_result =
  cr_in_reply_to :: string
  cr_status :: string
  cr_detail :: string
  cr_endpoint_url :: string

text \<open>
  The pydantic models, field by field: a required field must be present, an optional one defaults, a string field takes
  strings only.  \<^verbatim>\<open>as_int\<close> is pydantic's conversion to an integer.
\<close>

definition need_str :: "jobj \<Rightarrow> string \<Rightarrow> string option" where
  "need_str b k = (case map_of b k of Some (JStr s) \<Rightarrow> Some s | _ \<Rightarrow> None)"

definition str_or :: "jobj \<Rightarrow> string \<Rightarrow> string \<Rightarrow> string option" where
  "str_or b k dflt = (case map_of b k of None \<Rightarrow> Some dflt | Some (JStr s) \<Rightarrow> Some s | _ \<Rightarrow> None)"

definition opt_int :: "(json \<Rightarrow> int option) \<Rightarrow> jobj \<Rightarrow> string \<Rightarrow> int \<Rightarrow> int option" where
  "opt_int as_int b k dflt = (case map_of b k of None \<Rightarrow> Some dflt | Some v \<Rightarrow> as_int v)"

definition parse_frame :: "(json \<Rightarrow> int option) \<Rightarrow> string \<Rightarrow> jobj \<Rightarrow> frame option" where
  "parse_frame as_int ty b = Option.bind (need_str b ''stream_id'') (\<lambda>s.
     if ty = ''ShellOutput'' then map_option (ShellOutput s) (need_str b ''data'')
     else if ty = ''ShellExit'' then Option.bind (opt_int as_int b ''exit_code'' 0) (\<lambda>c. map_option (ShellExit s c) (str_or b ''reason'' []))
     else if ty = ''ShellError'' then map_option (ShellError s) (need_str b ''message'')
     else if ty = ''LogsLine'' then Option.bind (str_or b ''stream'' ''stdout'') (\<lambda>st.
       if st \<in> {''stdout'', ''stderr''} then map_option (LogsLine s st) (need_str b ''data'') else None)
     else if ty = ''LogsEnd'' then map_option (LogsEnd s) (str_or b ''reason'' [])
     else None)"

definition parse_command_result :: "jobj \<Rightarrow> command_result option" where
  "parse_command_result b = Option.bind (need_str b ''in_reply_to'') (\<lambda>i. Option.bind (need_str b ''status'') (\<lambda>st.
     if st \<notin> {''ok'', ''failed''} then None
     else Option.bind (str_or b ''detail'' []) (\<lambda>dt. map_option (\<lambda>u. \<lparr>cr_in_reply_to = i, cr_status = st, cr_detail = dt,
        cr_endpoint_url = u\<rparr>) (str_or b ''endpoint_url'' []))))"

text \<open>\<^verbatim>\<open>Envelope.model_dump()\<close> and the bodies the control plane sends.\<close>

record envelope =
  en_type :: string
  en_id :: string
  en_body :: jobj

definition shell_open_body :: "string \<Rightarrow> string \<Rightarrow> string \<Rightarrow> string \<Rightarrow> string \<Rightarrow> int \<Rightarrow> int \<Rightarrow> jobj" where
  "shell_open_body sid shell user dep cont cols rows = [(''stream_id'', JStr sid), (''shell'', JStr shell), (''user'', JStr user),
     (''deployment_id'', JStr dep), (''container_id'', JStr cont), (''cols'', JInt cols), (''rows'', JInt rows)]"

definition logs_open_body :: "string \<Rightarrow> string \<Rightarrow> string \<Rightarrow> jobj" where
  "logs_open_body sid dep cont = [(''stream_id'', JStr sid), (''deployment_id'', JStr dep), (''container_id'', JStr cont)]"

definition shell_input_body :: "string \<Rightarrow> string \<Rightarrow> jobj" where
  "shell_input_body sid x = [(''stream_id'', JStr sid), (''data'', JStr x)]"

definition shell_resize_body :: "string \<Rightarrow> int \<Rightarrow> int \<Rightarrow> jobj" where
  "shell_resize_body sid cols rows = [(''stream_id'', JStr sid), (''cols'', JInt cols), (''rows'', JInt rows)]"

section \<open>registry.py\<close>

definition METRICS_RING_SIZE :: nat where
  "METRICS_RING_SIZE = 360"

datatype stream_kind = Shell | Logs

record worker_conn =
  wc_ws :: nat
  wc_pool_id :: uuid

text \<open>Handles are shared with the proxies that opened them, so they live in a store and outlive their registration.\<close>

record stream_handle =
  sh_stream_id :: string
  sh_node_id :: uuid
  sh_kind :: stream_kind
  sh_incoming :: "frame list"
  sh_closed :: bool

record registry =
  rg_conns :: "(uuid \<times> worker_conn) list"
  rg_pending :: "(string \<times> command_result option) list"
  rg_streams :: "(string \<times> nat) list"
  rg_handles :: "stream_handle list"
  rg_metrics :: "(uuid \<times> json list) list"

definition empty_registry :: registry where
  "empty_registry = \<lparr>rg_conns = [], rg_pending = [], rg_streams = [], rg_handles = [], rg_metrics = []\<rparr>"

datatype wire = Sent nat envelope | CloseSocket nat int string

definition get_conn :: "uuid \<Rightarrow> registry \<Rightarrow> worker_conn option" where
  "get_conn nid r = map_of (rg_conns r) nid"

definition connected_nodes :: "registry \<Rightarrow> uuid list" where
  "connected_nodes r = map fst (rg_conns r)"

definition attach :: "uuid \<Rightarrow> worker_conn \<Rightarrow> registry \<Rightarrow> registry \<times> wire list" where
  "attach nid conn r = (r\<lparr>rg_conns := AList.update nid conn (rg_conns r)\<rparr>,
     case get_conn nid r of None \<Rightarrow> [] | Some old \<Rightarrow> [CloseSocket (wc_ws old) 1000 ''superseded by new connection''])"

definition update_handle :: "nat \<Rightarrow> (stream_handle \<Rightarrow> stream_handle) \<Rightarrow> registry \<Rightarrow> registry" where
  "update_handle h f r = r\<lparr>rg_handles := (rg_handles r)[h := f (rg_handles r ! h)]\<rparr>"

definition stream_of :: "registry \<Rightarrow> string \<times> nat \<Rightarrow> stream_handle" where
  "stream_of r e = rg_handles r ! snd e"

text \<open>The teardown shared by \<^verbatim>\<open>detach\<close> and \<^verbatim>\<open>detach_node\<close>: the node's streams leave the registry and are told.\<close>

definition disconnect :: "stream_handle \<Rightarrow> stream_handle" where
  "disconnect h = h\<lparr>sh_incoming := sh_incoming h @ [ShellError (sh_stream_id h) ''worker disconnected''], sh_closed := True\<rparr>"

definition drop_node :: "uuid \<Rightarrow> registry \<Rightarrow> registry" where
  "drop_node nid r =
    (let orphaned = filter (\<lambda>e. sh_node_id (stream_of r e) = nid) (rg_streams r);
         r1 = r\<lparr>rg_conns := AList.delete nid (rg_conns r), rg_metrics := AList.delete nid (rg_metrics r),
               rg_streams := filter (\<lambda>e. sh_node_id (stream_of r e) \<noteq> nid) (rg_streams r)\<rparr>
     in fold (\<lambda>e. update_handle (snd e) disconnect) orphaned r1)"

definition detach :: "uuid \<Rightarrow> nat \<Rightarrow> registry \<Rightarrow> registry" where
  "detach nid ws r = (case get_conn nid r of
     None \<Rightarrow> r
   | Some c \<Rightarrow> if wc_ws c \<noteq> ws then r else drop_node nid r)"

definition detach_node :: "uuid \<Rightarrow> registry \<Rightarrow> registry \<times> wire list \<times> bool" where
  "detach_node nid r = (drop_node nid r,
     case get_conn nid r of None \<Rightarrow> ([], False) | Some c \<Rightarrow> ([CloseSocket (wc_ws c) 1000 ''node torn down''], True))"

definition send_env :: "(nat \<Rightarrow> bool) \<Rightarrow> uuid \<Rightarrow> envelope \<Rightarrow> registry \<Rightarrow> wire list \<times> bool" where
  "send_env up nid env r = (case get_conn nid r of
     None \<Rightarrow> ([], False)
   | Some c \<Rightarrow> if up (wc_ws c) then ([Sent (wc_ws c) env], True) else ([], False))"

text \<open>Commands: an awaited reply is None until it arrives.\<close>

definition expect_command_result :: "string \<Rightarrow> registry \<Rightarrow> registry" where
  "expect_command_result eid r = r\<lparr>rg_pending := AList.update eid None (rg_pending r)\<rparr>"

definition deliver_command_result :: "command_result \<Rightarrow> registry \<Rightarrow> registry" where
  "deliver_command_result res r = (case map_of (rg_pending r) (cr_in_reply_to res) of
     Some None \<Rightarrow> r\<lparr>rg_pending := AList.update (cr_in_reply_to res) (Some res) (rg_pending r)\<rparr>
   | _ \<Rightarrow> r)"

text \<open>The waiting task wakes with the reply, or on its timeout, and forgets the command.\<close>

definition settle_command :: "string \<Rightarrow> registry \<Rightarrow> registry \<times> command_result option" where
  "settle_command eid r = (r\<lparr>rg_pending := AList.delete eid (rg_pending r)\<rparr>,
     case map_of (rg_pending r) eid of Some (Some res) \<Rightarrow> Some res | _ \<Rightarrow> None)"

text \<open>A deque with \<^verbatim>\<open>maxlen\<close> drops its oldest sample.\<close>

definition ring_append :: "json \<Rightarrow> json list \<Rightarrow> json list" where
  "ring_append x buf = (let b = buf @ [x] in drop (length b - METRICS_RING_SIZE) b)"

definition record_metrics :: "uuid \<Rightarrow> json \<Rightarrow> registry \<Rightarrow> registry" where
  "record_metrics nid sample r = r\<lparr>rg_metrics := AList.update nid
     (ring_append sample (case map_of (rg_metrics r) nid of None \<Rightarrow> [] | Some b \<Rightarrow> b)) (rg_metrics r)\<rparr>"

definition get_metrics :: "uuid \<Rightarrow> registry \<Rightarrow> json list" where
  "get_metrics nid r = (case map_of (rg_metrics r) nid of None \<Rightarrow> [] | Some b \<Rightarrow> b)"

text \<open>Opening a stream: the registration under the lock, then the send, undone when it raises.\<close>

definition open_register :: "uuid \<Rightarrow> string \<Rightarrow> stream_kind \<Rightarrow> registry \<Rightarrow> (registry \<times> nat) option" where
  "open_register nid sid kind r = (case get_conn nid r of
     None \<Rightarrow> None
   | Some c \<Rightarrow> Some (r\<lparr>rg_streams := AList.update sid (length (rg_handles r)) (rg_streams r),
                     rg_handles := rg_handles r @ [\<lparr>sh_stream_id = sid, sh_node_id = nid, sh_kind = kind, sh_incoming = [],
                                                   sh_closed = False\<rparr>]\<rparr>, wc_ws c))"

definition open_rollback :: "string \<Rightarrow> registry \<Rightarrow> registry" where
  "open_rollback sid r = r\<lparr>rg_streams := AList.delete sid (rg_streams r)\<rparr>"

datatype open_error = WorkerNotConnectedError string | SendFailed

definition open_stream ::
  "(nat \<Rightarrow> bool) \<Rightarrow> string \<Rightarrow> uuid \<Rightarrow> string \<Rightarrow> stream_kind \<Rightarrow> string \<Rightarrow> jobj \<Rightarrow> registry \<Rightarrow> registry \<times> wire list \<times> (open_error + nat)" where
  "open_stream up eid nid sid kind ty body r = (case open_register nid sid kind r of
     None \<Rightarrow> (r, [], Inl (WorkerNotConnectedError (''no live connection for node_id='' @ nid)))
   | Some (r1, ws) \<Rightarrow>
      if up ws then (r1, [Sent ws \<lparr>en_type = ty, en_id = eid, en_body = body\<rparr>], Inr (length (rg_handles r)))
      else (open_rollback sid r1, [], Inl SendFailed))"

definition open_shell_stream where
  "open_shell_stream up eid nid sid shell user dep cont cols rows =
     open_stream up eid nid sid Shell ''ShellOpen'' (shell_open_body sid shell user dep cont cols rows)"

definition open_logs_stream where
  "open_logs_stream up eid nid sid dep cont = open_stream up eid nid sid Logs ''LogsOpen'' (logs_open_body sid dep cont)"

text \<open>Forwarding to a stream's worker; None is the exception of a failed send.\<close>

definition forward :: "(nat \<Rightarrow> bool) \<Rightarrow> string \<Rightarrow> string \<Rightarrow> string \<Rightarrow> jobj \<Rightarrow> registry \<Rightarrow> wire list option" where
  "forward up eid sid ty body r = (case map_of (rg_streams r) sid of
     None \<Rightarrow> Some []
   | Some h \<Rightarrow> (case get_conn (sh_node_id (rg_handles r ! h)) r of
        None \<Rightarrow> Some []
      | Some c \<Rightarrow> if up (wc_ws c) then Some [Sent (wc_ws c) \<lparr>en_type = ty, en_id = eid, en_body = body\<rparr>] else None))"

definition send_shell_input where
  "send_shell_input up eid sid x = forward up eid sid ''ShellInput'' (shell_input_body sid x)"

definition send_shell_resize where
  "send_shell_resize up eid sid cols rows = forward up eid sid ''ShellResize'' (shell_resize_body sid cols rows)"

definition deliver_stream_frame :: "frame \<Rightarrow> registry \<Rightarrow> registry" where
  "deliver_stream_frame f r = (case map_of (rg_streams r) (frame_stream f) of
     None \<Rightarrow> r
   | Some h \<Rightarrow> update_handle h (\<lambda>s. s\<lparr>sh_incoming := sh_incoming s @ [f], sh_closed := (sh_closed s \<or> terminal f)\<rparr>) r)"

definition close_stream :: "(nat \<Rightarrow> bool) \<Rightarrow> string \<Rightarrow> string \<Rightarrow> registry \<Rightarrow> registry \<times> wire list" where
  "close_stream up eid sid r = (case map_of (rg_streams r) sid of
     None \<Rightarrow> (r, [])
   | Some h \<Rightarrow>
      let s = rg_handles r ! h;
          ty = (case sh_kind s of Shell \<Rightarrow> ''ShellClose'' | Logs \<Rightarrow> ''LogsClose'');
          r1 = r\<lparr>rg_streams := AList.delete sid (rg_streams r)\<rparr>
      in (update_handle h (\<lambda>s. s\<lparr>sh_closed := True\<rparr>) r1,
          case get_conn (sh_node_id s) r of
            None \<Rightarrow> []
          | Some c \<Rightarrow> if up (wc_ws c) then [Sent (wc_ws c) \<lparr>en_type = ty, en_id = eid, en_body = [(''stream_id'', JStr sid)]\<rparr>] else []))"

section \<open>controller.py\<close>

datatype controller_error = SpecError string | NodeUnreachableError string | CommandTimeout

definition spec_list :: "jobj \<Rightarrow> string \<Rightarrow> json list option" where
  "spec_list spec k = (case map_of spec k of None \<Rightarrow> Some [] | Some (JArr xs) \<Rightarrow> Some xs | _ \<Rightarrow> None)"

definition spec_int :: "jobj \<Rightarrow> string \<Rightarrow> int option" where
  "spec_int spec k = (case map_of spec k of None \<Rightarrow> Some 0 | Some (JInt i) \<Rightarrow> Some i | _ \<Rightarrow> None)"

definition spec_obj :: "jobj \<Rightarrow> string \<Rightarrow> jobj option" where
  "spec_obj spec k = (case map_of spec k of None \<Rightarrow> Some [] | Some (JObj o') \<Rightarrow> Some o' | _ \<Rightarrow> None)"

text \<open>The body of the LoadModel envelope; None for a specification with a missing or ill-typed entry.\<close>

definition load_model_body :: "jobj \<Rightarrow> jobj option" where
  "load_model_body spec =
    Option.bind (spec_obj spec ''model'') (\<lambda>m. Option.bind (need_str m ''artifact_uri'') (\<lambda>uri.
    Option.bind (str_or m ''format'' []) (\<lambda>fmt. Option.bind (str_or m ''backend'' []) (\<lambda>back.
    Option.bind (need_str spec ''deployment_id'') (\<lambda>dep. Option.bind (need_str spec ''recipe'') (\<lambda>recipe.
    Option.bind (spec_obj spec ''config'') (\<lambda>cfg. Option.bind (spec_list spec ''gpu_indices'') (\<lambda>gpus.
    Option.bind (spec_list spec ''prefill_gpu_indices'') (\<lambda>pre. Option.bind (spec_list spec ''decode_gpu_indices'') (\<lambda>dec.
    Option.bind (spec_int spec ''port'') (\<lambda>port. Option.bind (spec_obj spec ''env'') (\<lambda>env.
    Option.bind (spec_int spec ''prefill_replicas'') (\<lambda>pr. Option.bind (spec_int spec ''decode_replicas'') (\<lambda>dr.
      let has_disagg = (pre \<noteq> [] \<or> dec \<noteq> []) in
      Some [(''deployment_id'', JStr dep), (''recipe'', JStr recipe),
        (''model'', JObj [(''artifact_uri'', JStr uri), (''format'', JStr fmt), (''backend'', JStr back)]),
        (''config'', JObj (sanitize_config cfg)), (''gpu_indices'', JArr (if has_disagg then [] else gpus)), (''port'', JInt port),
        (''env'', JObj env), (''prefill_replicas'', JInt pr), (''decode_replicas'', JInt dr),
        (''prefill_gpu_indices'', JArr pre), (''decode_gpu_indices'', JArr dec)]))))))))))))))"

text \<open>
  Sending a command and awaiting its reply.  \<^verbatim>\<open>world\<close> is what happens to the registry in between: the read loops of
  the channels run.
\<close>

definition run_command ::
  "(nat \<Rightarrow> bool) \<Rightarrow> string \<Rightarrow> uuid \<Rightarrow> envelope \<Rightarrow> (registry \<Rightarrow> registry) \<Rightarrow> registry \<Rightarrow> registry \<times> wire list \<times> (controller_error + command_result)" where
  "run_command up eid nid env world r =
    (let r1 = expect_command_result eid r; (w, ok) = send_env up nid env r1
     in if \<not> ok then (r1, w, Inl (NodeUnreachableError (''failed to send to '' @ nid)))
        else let (r2, res) = settle_command eid (world r1)
             in (r2, w, case res of None \<Rightarrow> Inl CommandTimeout | Some x \<Rightarrow> Inr x))"

definition model_uri :: "jobj \<Rightarrow> json" where
  "model_uri spec = (case jget spec ''model'' of JObj m \<Rightarrow> jget m ''artifact_uri'' | _ \<Rightarrow> JNull)"

definition load_model ::
  "(nat \<Rightarrow> bool) \<Rightarrow> string \<Rightarrow> uuid \<Rightarrow> jobj \<Rightarrow> (registry \<Rightarrow> registry) \<Rightarrow> registry \<Rightarrow> registry \<times> wire list \<times> (controller_error + command_result)" where
  "load_model up eid nid spec world r = (case validate_artifact_uri (model_uri spec) of
     Inl e \<Rightarrow> (r, [], Inl (SpecError e))
   | Inr uri \<Rightarrow>
      if get_conn nid r = None then (r, [], Inl (NodeUnreachableError (''node '' @ nid @ '' not connected'')))
      else case load_model_body spec of
             None \<Rightarrow> (r, [], Inl (SpecError ''LoadModelBody''))
           | Some b \<Rightarrow> run_command up eid nid \<lparr>en_type = ''LoadModel'', en_id = eid, en_body = b\<rparr> world r)"

definition unload_model ::
  "(nat \<Rightarrow> bool) \<Rightarrow> string \<Rightarrow> uuid \<Rightarrow> string \<Rightarrow> (registry \<Rightarrow> registry) \<Rightarrow> registry \<Rightarrow> registry \<times> wire list \<times> (controller_error + command_result)" where
  "unload_model up eid nid dep world r =
    (if get_conn nid r = None then (r, [], Inl (NodeUnreachableError (''node '' @ nid @ '' not connected'')))
     else run_command up eid nid \<lparr>en_type = ''UnloadModel'', en_id = eid, en_body = [(''deployment_id'', JStr dep)]\<rparr> world r)"

section \<open>The registry under concurrent use\<close>

text \<open>
  One step is one critical section of the registry.  The component \<^verbatim>\<open>R\<close> of the state collects the handles whose
  opening was rolled back, which no proxy ever saw.  Stream and command identifiers are fresh UUIDs.
\<close>

inductive registry_step :: "registry \<times> nat set \<Rightarrow> registry \<times> nat set \<Rightarrow> bool" where
  r_attach: "registry_step (r, R) (fst (attach nid c r), R)"
| r_detach: "registry_step (r, R) (detach nid ws r, R)"
| r_detach_node: "registry_step (r, R) (fst (detach_node nid r), R)"
| r_expect: "eid \<notin> fst ` set (rg_pending r) \<Longrightarrow> registry_step (r, R) (expect_command_result eid r, R)"
| r_result: "registry_step (r, R) (deliver_command_result res r, R)"
| r_settle: "registry_step (r, R) (fst (settle_command eid r), R)"
| r_metrics: "registry_step (r, R) (record_metrics nid x r, R)"
| r_open: "sid \<notin> fst ` set (rg_streams r) \<Longrightarrow> open_register nid sid kind r = Some (r', ws) \<Longrightarrow> registry_step (r, R) (r', R)"
| r_rollback: "map_of (rg_streams r) sid = Some h \<Longrightarrow> registry_step (r, R) (open_rollback sid r, insert h R)"
| r_frame: "registry_step (r, R) (deliver_stream_frame f r, R)"
| r_close: "registry_step (r, R) (fst (close_stream up eid sid r), R)"

definition stream_ok :: "registry \<Rightarrow> string \<times> nat \<Rightarrow> bool" where
  "stream_ok r e \<longleftrightarrow> snd e < length (rg_handles r) \<and> sh_stream_id (stream_of r e) = fst e
     \<and> sh_node_id (stream_of r e) \<in> fst ` set (rg_conns r)"

definition registry_inv :: "registry \<times> nat set \<Rightarrow> bool" where
  "registry_inv s \<longleftrightarrow> (let (r, R) = s in
     distinct (map fst (rg_conns r)) \<and> distinct (map fst (rg_streams r)) \<and> distinct (map snd (rg_streams r))
     \<and> (\<forall>e \<in> set (rg_streams r). stream_ok r e)
     \<and> (\<forall>h < length (rg_handles r). h \<in> snd ` set (rg_streams r) \<or> sh_closed (rg_handles r ! h) \<or> h \<in> R)
     \<and> (\<forall>e \<in> set (rg_pending r). case snd e of None \<Rightarrow> True | Some res \<Rightarrow> cr_in_reply_to res = fst e)
     \<and> distinct (map fst (rg_pending r))
     \<and> (\<forall>e \<in> set (rg_metrics r). length (snd e) \<le> METRICS_RING_SIZE))"

lemma update_handle_frame [simp]:
  "rg_conns (update_handle h f r) = rg_conns r" "rg_streams (update_handle h f r) = rg_streams r"
  "rg_pending (update_handle h f r) = rg_pending r" "rg_metrics (update_handle h f r) = rg_metrics r"
  "length (rg_handles (update_handle h f r)) = length (rg_handles r)"
  by (simp_all add: update_handle_def)

lemma update_handle_nth:
  "h < length (rg_handles r) \<Longrightarrow> rg_handles (update_handle h f r) ! k = (if k = h then f (rg_handles r ! h) else rg_handles r ! k)"
  by (simp add: update_handle_def)

lemma fold_handles_frame [simp]:
  "rg_conns (fold (\<lambda>e. update_handle (snd e) f) es r) = rg_conns r"
  "rg_streams (fold (\<lambda>e. update_handle (snd e) f) es r) = rg_streams r"
  "rg_pending (fold (\<lambda>e. update_handle (snd e) f) es r) = rg_pending r"
  "rg_metrics (fold (\<lambda>e. update_handle (snd e) f) es r) = rg_metrics r"
  "length (rg_handles (fold (\<lambda>e. update_handle (snd e) f) es r)) = length (rg_handles r)"
  by (induction es arbitrary: r) simp_all

lemma fold_handles_nth:
  assumes "distinct (map snd es)" "\<forall>e \<in> set es. snd e < length (rg_handles r)"
  shows "rg_handles (fold (\<lambda>e. update_handle (snd e) f) es r) ! k =
    (if k \<in> snd ` set es then f (rg_handles r ! k) else rg_handles r ! k)"
  using assms
proof (induction es arbitrary: r)
  case (Cons e es)
  have "\<forall>e' \<in> set es. snd e' < length (rg_handles (update_handle (snd e) f r))" using Cons.prems by simp
  with Cons show ?case by (auto simp: update_handle_nth)
qed simp

lemma inv_handles:
  assumes "registry_inv (r, R)"
  shows "distinct (map snd (rg_streams r))" "\<forall>e \<in> set (rg_streams r). snd e < length (rg_handles r)"
  using assms by (auto simp: registry_inv_def stream_ok_def)

lemma inv_lookup: "registry_inv (r, R) \<Longrightarrow> map_of (rg_streams r) sid = Some h \<Longrightarrow> h < length (rg_handles r)"
  using inv_handles(2) map_of_SomeD by (metis snd_conv)

lemma drop_node_handles:
  fixes nid :: uuid
  assumes "registry_inv (r, R)"
  defines "gone \<equiv> snd ` {e \<in> set (rg_streams r). sh_node_id (stream_of r e) = nid}"
  shows "rg_handles (drop_node nid r) ! k = (if k \<in> gone then disconnect (rg_handles r ! k) else rg_handles r ! k)"
    and "length (rg_handles (drop_node nid r)) = length (rg_handles r)"
    and "rg_streams (drop_node nid r) = filter (\<lambda>e. sh_node_id (stream_of r e) \<noteq> nid) (rg_streams r)"
    and "rg_conns (drop_node nid r) = AList.delete nid (rg_conns r)"
    and "rg_metrics (drop_node nid r) = AList.delete nid (rg_metrics r)"
    and "rg_pending (drop_node nid r) = rg_pending r"
proof -
  let ?es = "filter (\<lambda>e. sh_node_id (stream_of r e) = nid) (rg_streams r)"
  let ?r = "r\<lparr>rg_conns := AList.delete nid (rg_conns r), rg_metrics := AList.delete nid (rg_metrics r),
               rg_streams := filter (\<lambda>e. sh_node_id (stream_of r e) \<noteq> nid) (rg_streams r)\<rparr>"
  have "distinct (map snd ?es)" using inv_handles(1) [OF assms(1)] by (rule distinct_map_filter)
  moreover have "\<forall>e \<in> set ?es. snd e < length (rg_handles ?r)" using inv_handles(2) [OF assms(1)] by simp
  ultimately show "rg_handles (drop_node nid r) ! k = (if k \<in> gone then disconnect (rg_handles r ! k) else rg_handles r ! k)"
    unfolding drop_node_def Let_def gone_def by (subst fold_handles_nth) simp_all
qed (simp_all add: drop_node_def Let_def)

lemma disconnect_fields [simp]:
  "sh_node_id (disconnect h) = sh_node_id h" "sh_stream_id (disconnect h) = sh_stream_id h" "sh_closed (disconnect h)"
  by (simp_all add: disconnect_def)

lemma drop_node_inv:
  assumes inv: "registry_inv (r, R)"
  shows "registry_inv (drop_node nid r, R)"
proof -
  note d = drop_node_handles [OF inv, where nid = nid]
  have keep: "stream_of (drop_node nid r) e = stream_of r e" if "e \<in> set (rg_streams (drop_node nid r))" for e
  proof -
    have e: "e \<in> set (rg_streams r)" "sh_node_id (stream_of r e) \<noteq> nid" using that d(3) by auto
    have "snd e \<notin> snd ` {e \<in> set (rg_streams r). sh_node_id (stream_of r e) = nid}"
    proof
      assume "snd e \<in> snd ` {e \<in> set (rg_streams r). sh_node_id (stream_of r e) = nid}"
      then obtain e' where "e' \<in> set (rg_streams r)" "sh_node_id (stream_of r e') = nid" "snd e' = snd e" by auto
      with e show False by (simp add: stream_of_def)
    qed
    then show ?thesis by (simp add: stream_of_def d(1))
  qed
  have ids: "fst ` set (AList.delete nid (rg_conns r)) = fst ` set (rg_conns r) - {nid}"
    by (auto simp: AList.delete_eq)
  have "\<forall>e \<in> set (rg_streams (drop_node nid r)). stream_ok (drop_node nid r) e"
    using inv keep d(2-4) ids by (auto simp: registry_inv_def stream_ok_def)
  moreover have "h \<in> snd ` set (rg_streams (drop_node nid r)) \<or> sh_closed (rg_handles (drop_node nid r) ! h) \<or> h \<in> R"
    if "h < length (rg_handles r)" for h
  proof -
    have "h \<in> snd ` set (rg_streams r) \<or> sh_closed (rg_handles r ! h) \<or> h \<in> R" using inv that by (simp add: registry_inv_def)
    then show ?thesis unfolding d(1) d(3) by auto
  qed
  moreover have "distinct (map snd (rg_streams (drop_node nid r)))" "distinct (map fst (rg_streams (drop_node nid r)))"
    using inv unfolding d(3) by (auto simp: registry_inv_def intro: distinct_map_filter)
  moreover have "distinct (map fst (AList.delete nid (rg_conns r)))" "set (AList.delete nid (rg_metrics r)) \<subseteq> set (rg_metrics r)"
    using inv by (auto simp: registry_inv_def AList.delete_eq intro: distinct_map_filter)
  ultimately show ?thesis using inv by (auto simp: registry_inv_def d(2,4,5,6))
qed

lemma attach_inv: "registry_inv (r, R) \<Longrightarrow> registry_inv (fst (attach nid c r), R)"
  by (auto simp: registry_inv_def attach_def stream_ok_def stream_of_def distinct_update dom_update)

lemma set_update_sub: "set (AList.update k v xs) \<subseteq> insert (k, v) (set xs)"
  by (induction xs) auto

lemma update_fresh: "k \<notin> fst ` set xs \<Longrightarrow> AList.update k v xs = xs @ [(k, v)]"
  by (induction xs) auto

lemma open_register_inv:
  assumes inv: "registry_inv (r, R)" and op: "open_register nid sid kind r = Some (r', ws)" and fresh: "sid \<notin> fst ` set (rg_streams r)"
  shows "registry_inv (r', R)"
proof -
  let ?h = "\<lparr>sh_stream_id = sid, sh_node_id = nid, sh_kind = kind, sh_incoming = [], sh_closed = False\<rparr>"
  have conn: "nid \<in> fst ` set (rg_conns r)"
    using op by (auto simp: open_register_def get_conn_def split: option.splits dest!: map_of_SomeD intro: rev_image_eqI)
  have "AList.update sid (length (rg_handles r)) (rg_streams r) = rg_streams r @ [(sid, length (rg_handles r))]"
    by (rule update_fresh [OF fresh])
  then have r': "r' = r\<lparr>rg_streams := rg_streams r @ [(sid, length (rg_handles r))], rg_handles := rg_handles r @ [?h]\<rparr>"
    using op by (auto simp: open_register_def split: option.splits)
  have "stream_ok r' e" if "e \<in> set (rg_streams r)" for e
    using inv that by (auto simp: registry_inv_def stream_ok_def r' stream_of_def nth_append)
  moreover have "stream_ok r' (sid, length (rg_handles r))"
    using conn by (simp add: stream_ok_def r' stream_of_def)
  moreover have "length (rg_handles r) \<notin> snd ` set (rg_streams r)"
    using inv_handles(2) [OF inv] by auto
  ultimately show ?thesis
    using inv fresh by (auto simp: registry_inv_def r' nth_append less_Suc_eq)
qed

lemma update_handle_inv:
  assumes inv: "registry_inv (r, R)" and h: "h < length (rg_handles r)"
    and f: "\<And>s. sh_stream_id (f s) = sh_stream_id s" "\<And>s. sh_node_id (f s) = sh_node_id s" "\<And>s. sh_closed s \<Longrightarrow> sh_closed (f s)"
  shows "registry_inv (update_handle h f r, R)"
  using inv h f by (auto simp: registry_inv_def stream_ok_def stream_of_def update_handle_nth)

lemma delete_stream_inv:
  assumes inv: "registry_inv (r, R)" and h: "map_of (rg_streams r) sid = Some h" and fin: "sh_closed (rg_handles r ! h) \<or> h \<in> R'" "R \<subseteq> R'"
  shows "registry_inv (r\<lparr>rg_streams := AList.delete sid (rg_streams r)\<rparr>, R')"
proof -
  have only: "e = (sid, h)" if "e \<in> set (rg_streams r)" "fst e = sid" for e
  proof -
    have "distinct (map fst (rg_streams r))" using inv by (simp add: registry_inv_def)
    with that have "map_of (rg_streams r) sid = Some (snd e)" by (metis map_of_eq_Some_iff prod.collapse)
    with h that(2) show ?thesis by (metis option.inject prod.collapse)
  qed
  have "distinct (map fst (AList.delete sid (rg_streams r)))" "distinct (map snd (AList.delete sid (rg_streams r)))"
    using inv by (auto simp: registry_inv_def AList.delete_eq intro: distinct_map_filter)
  moreover have "x \<in> snd ` set (AList.delete sid (rg_streams r)) \<or> sh_closed (rg_handles r ! x) \<or> x \<in> R'"
    if "x < length (rg_handles r)" for x
  proof (cases "x = h")
    case False
    have "x \<in> snd ` set (rg_streams r) \<or> sh_closed (rg_handles r ! x) \<or> x \<in> R" using inv that by (simp add: registry_inv_def)
    then show ?thesis
    proof (elim disjE)
      assume "x \<in> snd ` set (rg_streams r)"
      then obtain e where e: "e \<in> set (rg_streams r)" "snd e = x" by blast
      with False only have "fst e \<noteq> sid" by fastforce
      with e show ?thesis by (auto simp: AList.delete_eq)
    qed (use fin(2) in blast)+
  qed (use fin in blast)
  ultimately show ?thesis
    using inv by (auto simp: registry_inv_def stream_ok_def stream_of_def AList.delete_eq)
qed

lemma close_stream_inv:
  assumes inv: "registry_inv (r, R)"
  shows "registry_inv (fst (close_stream up eid sid r), R)"
proof (cases "map_of (rg_streams r) sid")
  case (Some h)
  let ?f = "\<lambda>s. s\<lparr>sh_closed := True\<rparr>"
  have h: "h < length (rg_handles r)" by (rule inv_lookup [OF inv Some])
  have "registry_inv (update_handle h ?f r, R)" by (rule update_handle_inv [OF inv h]) simp_all
  moreover have "map_of (rg_streams (update_handle h ?f r)) sid = Some h" "sh_closed (rg_handles (update_handle h ?f r) ! h)"
    using Some h by (simp_all add: update_handle_nth)
  ultimately have "registry_inv ((update_handle h ?f r)\<lparr>rg_streams := AList.delete sid (rg_streams r)\<rparr>, R)"
    using delete_stream_inv [of "update_handle h ?f r" R sid h R] by simp
  moreover have "fst (close_stream up eid sid r) = (update_handle h ?f r)\<lparr>rg_streams := AList.delete sid (rg_streams r)\<rparr>"
    using Some by (simp add: close_stream_def Let_def update_handle_def)
  ultimately show ?thesis by simp
qed (simp add: close_stream_def assms)

lemma deliver_frame_inv:
  assumes inv: "registry_inv (r, R)"
  shows "registry_inv (deliver_stream_frame f r, R)"
proof (cases "map_of (rg_streams r) (frame_stream f)")
  case (Some h)
  have "h < length (rg_handles r)" by (rule inv_lookup [OF inv Some])
  then have "registry_inv (update_handle h (\<lambda>s. s\<lparr>sh_incoming := sh_incoming s @ [f], sh_closed := (sh_closed s \<or> terminal f)\<rparr>) r, R)"
    by (intro update_handle_inv [OF inv]) simp_all
  then show ?thesis using Some by (simp add: deliver_stream_frame_def)
qed (simp add: deliver_stream_frame_def assms)

lemma command_inv:
  assumes inv: "registry_inv (r, R)"
  shows "registry_inv (deliver_command_result res r, R)" "registry_inv (fst (settle_command eid r), R)"
    "registry_inv (expect_command_result eid r, R)"
proof -
  have pend: "\<forall>e \<in> set (AList.update i x (rg_pending r)). case snd e of None \<Rightarrow> True | Some res \<Rightarrow> cr_in_reply_to res = fst e"
    if "\<forall>res. x = Some res \<longrightarrow> cr_in_reply_to res = i" for i x
    using inv that set_update_sub [of i x "rg_pending r"] by (fastforce simp: registry_inv_def split: option.splits)
  have frame: "registry_inv (r\<lparr>rg_pending := p\<rparr>, R)"
    if "\<forall>e \<in> set p. case snd e of None \<Rightarrow> True | Some res \<Rightarrow> cr_in_reply_to res = fst e" "distinct (map fst p)" for p
    using inv that by (auto simp: registry_inv_def stream_ok_def stream_of_def)
  have dist: "distinct (map fst (AList.update i x (rg_pending r)))" for i x
    using inv by (auto simp: registry_inv_def intro: distinct_update)
  show "registry_inv (deliver_command_result res r, R)"
    using inv frame [OF pend dist] by (auto simp: deliver_command_result_def split: option.splits)
  show "registry_inv (expect_command_result eid r, R)"
    using frame [OF pend dist] by (simp add: expect_command_result_def)
  show "registry_inv (fst (settle_command eid r), R)"
    using inv by (auto simp: settle_command_def registry_inv_def AList.delete_eq stream_ok_def stream_of_def intro: distinct_map_filter)
qed

lemma record_metrics_inv:
  assumes inv: "registry_inv (r, R)"
  shows "registry_inv (record_metrics nid x r, R)"
proof -
  have "length (ring_append y b) \<le> METRICS_RING_SIZE" for y b by (simp add: ring_append_def Let_def)
  then have "\<forall>e \<in> set (AList.update nid (ring_append x b) (rg_metrics r)). length (snd e) \<le> METRICS_RING_SIZE" for b
    using inv set_update_sub [of nid _ "rg_metrics r"] by (fastforce simp: registry_inv_def)
  then show ?thesis using inv by (auto simp: registry_inv_def record_metrics_def stream_ok_def stream_of_def)
qed

lemma registry_step_inv: "registry_step s s' \<Longrightarrow> registry_inv s \<Longrightarrow> registry_inv s'"
proof (induction rule: registry_step.induct)
  case (r_detach r R nid ws)
  then show ?case by (auto simp: detach_def drop_node_inv split: option.splits)
next
  case (r_rollback r sid h R)
  then show ?case unfolding open_rollback_def by (intro delete_stream_inv) auto
qed (auto simp: attach_inv drop_node_inv detach_node_def command_inv record_metrics_inv deliver_frame_inv close_stream_inv
    intro: open_register_inv)

interpretation reg: inv_system "\<lambda>s. s = (empty_registry, {})" registry_step registry_inv
  by unfold_locales (simp add: empty_registry_def registry_inv_def, rule registry_step_inv)

text \<open>A handle's queue only grows, and a closed handle stays closed.\<close>

definition handle_grows :: "registry \<Rightarrow> registry \<Rightarrow> bool" where
  "handle_grows r r' \<longleftrightarrow> length (rg_handles r) \<le> length (rg_handles r')
     \<and> (\<forall>h < length (rg_handles r). prefix (sh_incoming (rg_handles r ! h)) (sh_incoming (rg_handles r' ! h))
         \<and> (sh_closed (rg_handles r ! h) \<longrightarrow> sh_closed (rg_handles r' ! h)))"

lemma handle_grows_same: "rg_handles r' = rg_handles r \<Longrightarrow> handle_grows r r'"
  by (simp add: handle_grows_def)

lemma update_handle_grows:
  assumes "h < length (rg_handles r)" "prefix (sh_incoming (rg_handles r ! h)) (sh_incoming (f (rg_handles r ! h)))"
    "sh_closed (rg_handles r ! h) \<longrightarrow> sh_closed (f (rg_handles r ! h))"
  shows "handle_grows r (update_handle h f r)"
  using assms by (auto simp: handle_grows_def update_handle_nth)

lemma drop_node_grows: "registry_inv (r, R) \<Longrightarrow> handle_grows r (drop_node nid r)"
  unfolding handle_grows_def by (auto simp: drop_node_handles disconnect_def)

lemma registry_step_grows: "registry_step s s' \<Longrightarrow> registry_inv s \<Longrightarrow> handle_grows (fst s) (fst s')"
proof (induction rule: registry_step.induct)
  case (r_detach r R nid ws)
  then show ?case by (auto simp: detach_def drop_node_grows handle_grows_same split: option.splits)
next
  case (r_open sid r nid kind r' ws R)
  then show ?case by (auto simp: open_register_def handle_grows_def nth_append split: option.splits)
next
  case (r_frame r R f)
  then show ?case
    by (cases "map_of (rg_streams r) (frame_stream f)")
       (auto simp: deliver_stream_frame_def handle_grows_same intro!: update_handle_grows inv_lookup)
next
  case (r_close r R up eid sid)
  show ?case
  proof (cases "map_of (rg_streams r) sid")
    case (Some h)
    then have "handle_grows (r\<lparr>rg_streams := AList.delete sid (rg_streams r)\<rparr>)
        (update_handle h (\<lambda>s. s\<lparr>sh_closed := True\<rparr>) (r\<lparr>rg_streams := AList.delete sid (rg_streams r)\<rparr>))"
      using inv_lookup [OF r_close Some] by (intro update_handle_grows) simp_all
    then show ?thesis using Some by (simp add: close_stream_def Let_def handle_grows_def)
  qed (simp add: close_stream_def handle_grows_same)
qed (auto simp: attach_def detach_node_def drop_node_grows expect_command_result_def deliver_command_result_def settle_command_def
    record_metrics_def open_rollback_def handle_grows_same split: option.splits)

text \<open>Frames reach a consumer in order and are never lost: along a run every queue is extended at its end only.\<close>

lemma streams_are_fifo:
  assumes "rtranclp registry_step s s'" "registry_inv s"
  shows "handle_grows (fst s) (fst s')"
proof (rule reg.run_simulates [OF assms, where R = handle_grows])
  show "handle_grows (fst u) (fst u')" if "registry_inv u" "registry_step u u'" for u u'
    by (rule registry_step_grows [OF that(2,1)])
  show "handle_grows x x" for x by (simp add: handle_grows_def)
  show "handle_grows x z" if "handle_grows x y" "handle_grows y z" for x y z
    using that unfolding handle_grows_def by (meson le_trans less_le_trans prefix_order.trans)
qed

section \<open>Properties\<close>


lemma command_reply:
  assumes "registry_inv (r, R)" "run_command up eid nid env world r = (r', w, Inr res)"
    and "\<exists>R'. rtranclp registry_step (expect_command_result eid r, R) (world (expect_command_result eid r), R')"
  shows "cr_in_reply_to res = eid" "\<exists>c. get_conn nid r = Some c \<and> w = [Sent (wc_ws c) env]"
proof -
  let ?r1 = "expect_command_result eid r"
  obtain R' where run: "rtranclp registry_step (?r1, R) (world ?r1, R')" using assms(3) by blast
  have inv: "registry_inv (world ?r1, R')"
    using reg.run_inv [OF run] command_inv(3) [OF assms(1)] by blast
  have conn: "get_conn nid ?r1 = get_conn nid r" by (simp add: get_conn_def expect_command_result_def)
  have res: "snd (settle_command eid (world ?r1)) = Some res"
    and c: "\<exists>c. get_conn nid r = Some c \<and> w = [Sent (wc_ws c) env]"
    using assms(2) conn by (auto simp: run_command_def send_env_def Let_def split_def split: if_splits option.splits)
  have "map_of (rg_pending (world ?r1)) eid = Some (Some res)"
    using res by (auto simp: settle_command_def split: option.splits)
  then show "cr_in_reply_to res = eid"
    using inv by (fastforce simp: registry_inv_def dest: map_of_SomeD)
  show "\<exists>c. get_conn nid r = Some c \<and> w = [Sent (wc_ws c) env]" by (rule c)
qed


text \<open>
  A reconnect is not undone by the old connection: once a worker has attached a new socket, the detach of the
  superseded one changes nothing, and the detach of the current one removes the connection, the node's samples
  and its streams, each of which is told that the worker disconnected.
\<close>

theorem detach_is_guarded:
  fixes nid :: uuid
  assumes "registry_inv (r, R)" "wc_ws c \<noteq> ws"
  defines "r1 \<equiv> fst (attach nid c r)"
  shows "detach nid ws r1 = r1 \<and> get_conn nid (detach nid (wc_ws c) r1) = None \<and> get_metrics nid (detach nid (wc_ws c) r1) = []
    \<and> (\<forall>e \<in> set (rg_streams r1). sh_node_id (stream_of r1 e) = nid \<longrightarrow>
         map_of (rg_streams (detach nid (wc_ws c) r1)) (fst e) = None
         \<and> stream_of (detach nid (wc_ws c) r1) e = disconnect (stream_of r1 e))
    \<and> (\<forall>e \<in> set (rg_streams r1). sh_node_id (stream_of r1 e) \<noteq> nid \<longrightarrow>
         e \<in> set (rg_streams (detach nid (wc_ws c) r1)) \<and> stream_of (detach nid (wc_ws c) r1) e = stream_of r1 e)"
proof -
  have inv: "registry_inv (r1, R)" unfolding r1_def by (rule attach_inv [OF assms(1)])
  have conn: "get_conn nid r1 = Some c" by (simp add: r1_def attach_def get_conn_def update_conv')
  have d: "detach nid (wc_ws c) r1 = drop_node nid r1" by (simp add: detach_def conn)
  note dn = drop_node_handles [OF inv, where nid = nid]
  have ids: "distinct (map fst (rg_streams r1))" using inv by (simp add: registry_inv_def)
  have gone: "map_of (rg_streams (drop_node nid r1)) (fst e) = None \<and> stream_of (drop_node nid r1) e = disconnect (stream_of r1 e)"
    if e: "e \<in> set (rg_streams r1)" "sh_node_id (stream_of r1 e) = nid" for e
  proof
    have "fst e \<notin> fst ` set (rg_streams (drop_node nid r1))"
    proof
      assume "fst e \<in> fst ` set (rg_streams (drop_node nid r1))"
      then obtain e' where "e' \<in> set (rg_streams r1)" "sh_node_id (stream_of r1 e') \<noteq> nid" "fst e' = fst e"
        by (auto simp: dn(3))
      with e ids show False by (metis distinct_map inj_onD)
    qed
    then show "map_of (rg_streams (drop_node nid r1)) (fst e) = None" by (simp add: map_of_eq_None_iff)
    show "stream_of (drop_node nid r1) e = disconnect (stream_of r1 e)"
      using e unfolding stream_of_def dn(1) by auto
  qed
  have keep: "e \<in> set (rg_streams (drop_node nid r1)) \<and> stream_of (drop_node nid r1) e = stream_of r1 e"
    if e: "e \<in> set (rg_streams r1)" "sh_node_id (stream_of r1 e) \<noteq> nid" for e
    using e unfolding stream_of_def dn(1,3) by auto
  have same: "detach nid ws r1 = r1" using assms(2) by (simp add: detach_def conn)
  have none: "get_conn nid (drop_node nid r1) = None" "get_metrics nid (drop_node nid r1) = []"
    by (simp_all add: get_conn_def get_metrics_def dn(4,5) AList.delete_conv')
  show ?thesis
    unfolding d by (intro conjI ballI impI) (simp_all add: same none gone keep)
qed

text \<open>A final line feed, a control character, passes the validation of artifact URIs.\<close>

lemma final_newline_accepted: "validate_artifact_uri (JStr (''s3://m'' @ [CHR 0x0A])) = Inr (''s3://m'' @ [CHR 0x0A])"
  by (simp add: validate_artifact_uri_def uri_pattern_def uri_scheme_def drop_final_newline_def lower_letter_def uri_scheme_char_def
      is_digit_def uri_unsafe_def py_lower_def lower_char_def ALLOWED_URI_SCHEMES_def)

text \<open>Samples of a heartbeat that arrives after the teardown of the node make a buffer for a node with no connection.\<close>

lemma metrics_after_teardown:
  "get_conn nid (record_metrics nid x (fst (detach_node nid r))) = None \<and> get_metrics nid (record_metrics nid x (fst (detach_node nid r))) = [x]"
proof -
  have "rg_conns (drop_node nid r) = AList.delete nid (rg_conns r)" "rg_metrics (drop_node nid r) = AList.delete nid (rg_metrics r)"
    by (simp_all add: drop_node_def Let_def)
  then show ?thesis
    by (simp add: detach_node_def record_metrics_def get_conn_def get_metrics_def update_conv' ring_append_def METRICS_RING_SIZE_def AList.delete_conv')
qed

section \<open>Witnesses\<close>

definition one_worker :: registry where
  "one_worker = fst (attach ''n1'' \<lparr>wc_ws = 1, wc_pool_id = ''p''\<rparr> empty_registry)"

lemma one_worker_inv: "registry_inv (one_worker, {})"
  unfolding one_worker_def by (rule attach_inv) (simp add: registry_inv_def empty_registry_def)



theorem detach_is_guarded_witness:
  "detach ''n1'' 1 (fst (attach ''n1'' \<lparr>wc_ws = 2, wc_pool_id = ''p''\<rparr> one_worker)) = fst (attach ''n1'' \<lparr>wc_ws = 2, wc_pool_id = ''p''\<rparr> one_worker)"
  using detach_is_guarded [OF one_worker_inv, of "\<lparr>wc_ws = 2, wc_pool_id = ''p''\<rparr>" 1 "''n1''"] by simp

end
