(* ===== verification/Providers.thy ===== *)
theory Providers
  imports Prelude
begin

text \<open>
  The provider registry: \<^verbatim>\<open>provisioning/engine/base.py\<close> (adapter types, pricing, capabilities), the class attributes of
  the seven adapters, and \<^verbatim>\<open>provisioning/engine/registry.py\<close>.  What an adapter does over the network is an argument.
\<close>

section \<open>base.py\<close>

datatype adapter_type = CLOUD | DEPIN | ON_PREM

datatype pricing_model = FIXED | SPOT | AUCTION | ON_DEMAND

fun pricing_value :: "pricing_model \<Rightarrow> string" where
  "pricing_value FIXED = ''fixed''"
| "pricing_value SPOT = ''spot''"
| "pricing_value AUCTION = ''auction''"
| "pricing_value ON_DEMAND = ''on_demand''"

fun adapter_value :: "adapter_type \<Rightarrow> string" where
  "adapter_value CLOUD = ''cloud''"
| "adapter_value DEPIN = ''depin''"
| "adapter_value ON_PREM = ''on_prem''"

record provider_capabilities =
  supports_log_streaming :: bool
  supports_confidential_compute :: bool
  supports_spot_instances :: bool
  supports_multi_gpu :: bool
  is_ephemeral :: bool
  requires_readiness_poll :: bool
  readiness_timeout_seconds :: int
  polling_interval_seconds :: int
  endpoint_http_probeable :: bool
  endpoint_ready_timeout_seconds :: int
  requires_sidecar :: bool
  supports_direct_provisioning :: bool
  supports_cluster_mode :: bool
  prefers_origin_model_fetch :: bool
  cap_pricing_model :: pricing_model
  cap_features :: jobj

definition default_capabilities :: provider_capabilities where
  "default_capabilities = \<lparr>supports_log_streaming = False, supports_confidential_compute = False, supports_spot_instances = False,
     supports_multi_gpu = True, is_ephemeral = False, requires_readiness_poll = True, readiness_timeout_seconds = 300,
     polling_interval_seconds = 20, endpoint_http_probeable = False, endpoint_ready_timeout_seconds = 1800, requires_sidecar = False,
     supports_direct_provisioning = True, supports_cluster_mode = False, prefers_origin_model_fetch = False,
     cap_pricing_model = FIXED, cap_features = []\<rparr>"

definition capabilities_to_dict :: "provider_capabilities \<Rightarrow> jobj" where
  "capabilities_to_dict c = [(''supports_log_streaming'', JBool (supports_log_streaming c)),
     (''supports_confidential_compute'', JBool (supports_confidential_compute c)),
     (''supports_spot_instances'', JBool (supports_spot_instances c)), (''supports_multi_gpu'', JBool (supports_multi_gpu c)),
     (''is_ephemeral'', JBool (is_ephemeral c)), (''requires_readiness_poll'', JBool (requires_readiness_poll c)),
     (''readiness_timeout_seconds'', JInt (readiness_timeout_seconds c)),
     (''polling_interval_seconds'', JInt (polling_interval_seconds c)),
     (''endpoint_http_probeable'', JBool (endpoint_http_probeable c)),
     (''endpoint_ready_timeout_seconds'', JInt (endpoint_ready_timeout_seconds c)),
     (''requires_sidecar'', JBool (requires_sidecar c)), (''supports_direct_provisioning'', JBool (supports_direct_provisioning c)),
     (''supports_cluster_mode'', JBool (supports_cluster_mode c)), (''prefers_origin_model_fetch'', JBool (prefers_origin_model_fetch c)),
     (''pricing_model'', JStr (pricing_value (cap_pricing_model c))), (''features'', JObj (cap_features c))]"

record adapter =
  ad_class :: string
  ad_type :: adapter_type
  ad_capabilities :: provider_capabilities

section \<open>The adapters\<close>

definition yes :: "string list \<Rightarrow> jobj" where
  "yes ks = map (\<lambda>k. (k, JBool True)) ks"

definition NosanaAdapter :: adapter where
  "NosanaAdapter = \<lparr>ad_class = ''NosanaAdapter'', ad_type = DEPIN, ad_capabilities = default_capabilities\<lparr>
     supports_log_streaming := True, supports_confidential_compute := True, supports_spot_instances := False,
     supports_multi_gpu := True, is_ephemeral := True, requires_readiness_poll := True, readiness_timeout_seconds := 300,
     polling_interval_seconds := 20, endpoint_http_probeable := True, endpoint_ready_timeout_seconds := 2400,
     requires_sidecar := True, supports_direct_provisioning := True, cap_pricing_model := FIXED,
     cap_features := yes [''job_based'', ''market_based_pricing'', ''blockchain_backed'']\<rparr>\<rparr>"

definition KubernetesAdapter :: adapter where
  "KubernetesAdapter = \<lparr>ad_class = ''KubernetesAdapter'', ad_type = ON_PREM, ad_capabilities = default_capabilities\<lparr>
     supports_log_streaming := False, supports_confidential_compute := False, supports_spot_instances := False,
     supports_multi_gpu := True, is_ephemeral := False, requires_readiness_poll := True, readiness_timeout_seconds := 120,
     polling_interval_seconds := 5, requires_sidecar := False, supports_direct_provisioning := True, cap_pricing_model := FIXED,
     cap_features := yes [''native_k8s'', ''pod_based'', ''persistent_volumes'', ''namespace_isolation'']\<rparr>\<rparr>"

definition AkashAdapter :: adapter where
  "AkashAdapter = \<lparr>ad_class = ''AkashAdapter'', ad_type = DEPIN, ad_capabilities = default_capabilities\<lparr>
     supports_log_streaming := False, supports_confidential_compute := False, supports_spot_instances := False,
     supports_multi_gpu := True, is_ephemeral := True, requires_readiness_poll := True, readiness_timeout_seconds := 600,
     polling_interval_seconds := 30, requires_sidecar := True, supports_direct_provisioning := True, cap_pricing_model := AUCTION,
     cap_features := yes [''sdl_based'', ''auction_based_pricing'', ''cosmos_sdk_backed'', ''persistent_storage'']\<rparr>\<rparr>"

definition WorkerAdapter :: adapter where
  "WorkerAdapter = \<lparr>ad_class = ''WorkerAdapter'', ad_type = ON_PREM, ad_capabilities = default_capabilities\<lparr>
     supports_log_streaming := True, supports_confidential_compute := False, supports_spot_instances := False,
     supports_multi_gpu := True, is_ephemeral := False, requires_readiness_poll := False, readiness_timeout_seconds := 180,
     polling_interval_seconds := 5, requires_sidecar := False, supports_direct_provisioning := False, cap_pricing_model := FIXED,
     cap_features := yes [''self_registered_nodes'', ''agent_based'', ''no_cloud_credentials'']\<rparr>\<rparr>"

definition pulumi_adapter :: "string \<Rightarrow> string \<Rightarrow> string \<Rightarrow> adapter" where
  "pulumi_adapter cls cloud bootstrap = \<lparr>ad_class = cls, ad_type = CLOUD, ad_capabilities = default_capabilities\<lparr>
     supports_multi_gpu := True, supports_cluster_mode := True, prefers_origin_model_fetch := True, cap_pricing_model := ON_DEMAND,
     cap_features := [(''cloud'', JStr cloud), (''bootstrap'', JStr bootstrap), (''iac'', JStr ''pulumi'')]\<rparr>\<rparr>"

definition PulumiAWSAdapter :: adapter where
  "PulumiAWSAdapter = pulumi_adapter ''PulumiAWSAdapter'' ''aws'' ''cloud-init''"

definition PulumiGCPAdapter :: adapter where
  "PulumiGCPAdapter = pulumi_adapter ''PulumiGCPAdapter'' ''gcp'' ''startup-script''"

definition PulumiAzureAdapter :: adapter where
  "PulumiAzureAdapter = pulumi_adapter ''PulumiAzureAdapter'' ''azure'' ''custom-data''"

section \<open>registry.py\<close>

definition ADAPTER_REGISTRY :: "(string \<times> adapter) list" where
  "ADAPTER_REGISTRY = [(''nosana'', NosanaAdapter), (''k8s'', KubernetesAdapter), (''akash'', AkashAdapter),
     (''worker'', WorkerAdapter), (''on_prem'', WorkerAdapter), (''aws'', PulumiAWSAdapter), (''gcp'', PulumiGCPAdapter),
     (''azure'', PulumiAzureAdapter)]"

definition ADAPTER_ALIASES :: "string list" where
  "ADAPTER_ALIASES = [''on_prem'']"

definition no_adapter :: "string \<Rightarrow> string" where
  "no_adapter provider = ''No adapter registered for provider '' @ [CHR 0x27] @ provider @ [CHR 0x27] @ ''. Available: ''
     @ py_repr (JArr (map JStr (sort (filter (\<lambda>k. k \<notin> set ADAPTER_ALIASES) (map fst ADAPTER_REGISTRY)))))"

text \<open>Inl is the message of the ValueError.\<close>

definition get_adapter :: "string \<Rightarrow> string + adapter" where
  "get_adapter provider = (case map_of ADAPTER_REGISTRY provider of None \<Rightarrow> Inl (no_adapter provider) | Some a \<Rightarrow> Inr a)"

definition is_direct_provision_provider :: "string option \<Rightarrow> bool" where
  "is_direct_provision_provider provider = (case provider of
     None \<Rightarrow> False
   | Some p \<Rightarrow> if p = [] then False else (case map_of ADAPTER_REGISTRY p of
        None \<Rightarrow> False
      | Some a \<Rightarrow> if \<not> supports_direct_provisioning (ad_capabilities a) then False else ad_type a \<noteq> CLOUD))"

definition provider_prefers_origin_model_fetch :: "string option \<Rightarrow> bool" where
  "provider_prefers_origin_model_fetch provider = (case provider of
     None \<Rightarrow> False
   | Some p \<Rightarrow> if p = [] then False else (case map_of ADAPTER_REGISTRY p of
        None \<Rightarrow> False | Some a \<Rightarrow> prefers_origin_model_fetch (ad_capabilities a)))"

text \<open>No external job: no instance id, or the sentinel of a placeholder row.\<close>

definition no_external_job :: "string \<Rightarrow> bool" where
  "no_external_job pii \<longleftrightarrow> pii = [] \<or> starts_with pii ''placeholder:''"

text \<open>\<^verbatim>\<open>stop\<close> is the adapter's \<^verbatim>\<open>deprovision_node\<close>: None on success, or the text of what it raises.\<close>

definition deprovision_direct_node ::
  "(string \<Rightarrow> string \<Rightarrow> string option \<Rightarrow> string option) \<Rightarrow> string \<Rightarrow> string \<Rightarrow> string option \<Rightarrow> bool \<times> string option" where
  "deprovision_direct_node stop provider pii credential =
    (if no_external_job pii then (True, None)
     else case get_adapter provider of
            Inl e \<Rightarrow> (False, Some e)
          | Inr a \<Rightarrow> (case stop provider pii credential of None \<Rightarrow> (True, None) | Some e \<Rightarrow> (False, Some e)))"

definition get_registered_providers :: "string list" where
  "get_registered_providers = map fst ADAPTER_REGISTRY"

definition get_provider_info :: "(string \<times> adapter_type \<times> jobj) list" where
  "get_provider_info = map (\<lambda>(name, a). (name, ad_type a, capabilities_to_dict (ad_capabilities a)))
     (filter (\<lambda>(name, a). name \<notin> set ADAPTER_ALIASES) ADAPTER_REGISTRY)"

section \<open>Lemmas\<close>

lemmas adapter_defs = ADAPTER_REGISTRY_def NosanaAdapter_def KubernetesAdapter_def AkashAdapter_def WorkerAdapter_def
  PulumiAWSAdapter_def PulumiGCPAdapter_def PulumiAzureAdapter_def pulumi_adapter_def default_capabilities_def

text \<open>The providers whose external job a delete has to stop, and those that fetch models from their origin.\<close>

lemma direct_providers:
  "is_direct_provision_provider (Some p) \<longleftrightarrow> p \<in> {''nosana'', ''k8s'', ''akash''}"
  "is_direct_provision_provider None = False"
  by (simp_all add: is_direct_provision_provider_def adapter_defs)

lemma origin_providers:
  "provider_prefers_origin_model_fetch (Some p) \<longleftrightarrow> p \<in> {''aws'', ''gcp'', ''azure''}"
  by (simp add: provider_prefers_origin_model_fetch_def adapter_defs)

text \<open>
  No provider is torn down twice: the ones with an inline stop are not the ones that the reconciler destroys, and the latter
  are exactly those that fetch models from their origin.
\<close>

lemma teardown_disjoint:
  "is_direct_provision_provider (Some p) \<Longrightarrow> \<not> provider_prefers_origin_model_fetch (Some p)"
  by (auto simp: direct_providers origin_providers)

end
