(* ===== verification/JobRepo.thy ===== *)
theory JobRepo
  imports Database
begin

text \<open>
  \<^verbatim>\<open>state_machine/jobs/repository.py\<close>: the provisioning-job queue.  Each method is one SQL
  statement, modelled as one function on the database; the Boolean results go through the command
  status text and its parsing, as in the code.  The lemmas give the row invariant and its
  preservation, the phase graph, and what a lease protects.
\<close>

section \<open>Operations\<close>

definition affected_one :: "string \<Rightarrow> bool" where
  "affected_one status = (let parts = rsplit1 CHR '' '' status
     in length parts = 2 \<and> parts ! 1 = ''1'')"

definition affected_count :: "string \<Rightarrow> nat" where
  "affected_count status = (let parts = rsplit1 CHR '' '' status
     in if length parts = 2 \<and> isdigit_str (parts ! 1) then parse_nat (parts ! 1) else 0)"

text \<open>An UPDATE of the job table, with the command status it returns.\<close>

definition update_jobs :: "(prov_job \<Rightarrow> bool) \<Rightarrow> (prov_job \<Rightarrow> prov_job) \<Rightarrow> db \<Rightarrow> db \<times> string" where
  "update_jobs p f d = (d\<lparr>db_jobs := sql_update p f (db_jobs d)\<rparr>,
     cmd_status ''UPDATE'' (sql_count p (db_jobs d)))"

definition new_job ::
  "uuid \<Rightarrow> uuid \<Rightarrow> uuid \<Rightarrow> string \<Rightarrow> string \<Rightarrow> jobj option \<Rightarrow> time \<Rightarrow> prov_job" where
  "new_job job_id node_id pool_id org_id provider spec now =
     \<lparr>pj_id = job_id, pj_node_id = node_id, pj_pool_id = pool_id, pj_org_id = org_id,
      pj_provider = provider, pj_spec = (case spec of None \<Rightarrow> [] | Some s \<Rightarrow> s),
      pj_phase = PREFLIGHT, pj_attempt_count = 0, pj_next_attempt_after = None,
      pj_last_error_code = None, pj_last_error_message = None, pj_last_error_hint = None,
      pj_error_class = None, pj_lease_holder = None, pj_lease_expires_at = None,
      pj_outputs = None, pj_created_at = now, pj_updated_at = now\<rparr>"

text \<open>\<^verbatim>\<open>job_id\<close> is the fresh \<^verbatim>\<open>uuid.uuid4()\<close>; the insert checks the reference to the node.\<close>

definition enqueue ::
  "uuid \<Rightarrow> uuid \<Rightarrow> uuid \<Rightarrow> string \<Rightarrow> string \<Rightarrow> jobj option \<Rightarrow> db \<Rightarrow> (db \<times> uuid) tx" where
  "enqueue job_id node_id pool_id org_id provider spec d =
    (if job_id \<in> pj_id ` set (db_jobs d) then Inl (UniqueViolation ''provisioning_jobs.id'')
     else if node_id \<notin> ci_id ` set (db_nodes d)
     then Inl (ForeignKeyViolation ''provisioning_jobs.node_id'')
     else Inr (d\<lparr>db_jobs := db_jobs d @ [new_job job_id node_id pool_id org_id provider spec (db_now d)]\<rparr>,
               job_id))"

text \<open>
  \<^verbatim>\<open>locked\<close> are the ids of the rows a concurrent transaction has locked when the statement
  runs; SKIP LOCKED passes over them.
\<close>

definition claimable :: "uuid list \<Rightarrow> time \<Rightarrow> prov_job \<Rightarrow> bool" where
  "claimable locked now j \<longleftrightarrow>
     pj_phase j \<in> set CLAIMABLE_PHASES
   \<and> (case pj_lease_expires_at j of None \<Rightarrow> True | Some t \<Rightarrow> t < now)
   \<and> (case pj_next_attempt_after j of None \<Rightarrow> True | Some t \<Rightarrow> t \<le> now)
   \<and> pj_id j \<notin> set locked"

definition claim_key :: "prov_job \<Rightarrow> bool \<times> time" where
  "claim_key j = (pj_phase j \<noteq> CANCELLING, pj_updated_at j)"

definition claim_next_job :: "uuid list \<Rightarrow> string \<Rightarrow> real \<Rightarrow> db \<Rightarrow> db \<times> prov_job option" where
  "claim_next_job locked lease_holder lease_seconds d =
    (case sql_first_by claim_key (claimable locked (db_now d)) (db_jobs d) of
       None \<Rightarrow> (d, None)
     | Some j \<Rightarrow>
         let upd = (\<lambda>r. r\<lparr>pj_lease_holder := Some lease_holder,
                          pj_lease_expires_at := Some (db_now d + lease_seconds),
                          pj_updated_at := db_now d\<rparr>)
         in (fst (update_jobs (\<lambda>r. pj_id r = pj_id j) upd d), Some (upd j)))"

definition renew_lease :: "uuid \<Rightarrow> string \<Rightarrow> real \<Rightarrow> db \<Rightarrow> db \<times> bool" where
  "renew_lease job_id lease_holder lease_seconds d =
    (let (d', res) = update_jobs (\<lambda>r. pj_id r = job_id \<and> pj_lease_holder r = Some lease_holder)
           (\<lambda>r. r\<lparr>pj_lease_expires_at := Some (db_now d + lease_seconds), pj_updated_at := db_now d\<rparr>) d
     in (d', affected_one res))"

definition release_lease :: "uuid \<Rightarrow> string \<Rightarrow> db \<Rightarrow> db" where
  "release_lease job_id lease_holder d =
    fst (update_jobs (\<lambda>r. pj_id r = job_id \<and> pj_lease_holder r = Some lease_holder)
      (\<lambda>r. r\<lparr>pj_lease_holder := None, pj_lease_expires_at := None, pj_updated_at := db_now d\<rparr>) d)"

definition transition_to ::
  "uuid \<Rightarrow> phase \<Rightarrow> phase \<Rightarrow> string \<Rightarrow> jobj option \<Rightarrow> db \<Rightarrow> db \<times> bool" where
  "transition_to job_id current_phase next_phase lease_holder outputs d =
    (let (d', res) = update_jobs
           (\<lambda>r. pj_id r = job_id \<and> pj_phase r = current_phase \<and> pj_lease_holder r = Some lease_holder)
           (\<lambda>r. r\<lparr>pj_phase := next_phase,
                  pj_outputs := Some (jmerge (case pj_outputs r of None \<Rightarrow> [] | Some x \<Rightarrow> x)
                                             (case outputs of None \<Rightarrow> [] | Some x \<Rightarrow> x)),
                  pj_last_error_code := None, pj_last_error_message := None,
                  pj_last_error_hint := None, pj_error_class := None,
                  pj_next_attempt_after := None, pj_lease_holder := None,
                  pj_lease_expires_at := None, pj_updated_at := db_now d\<rparr>) d
     in (d', affected_one res))"

definition record_error :: "classified_error \<Rightarrow> prov_job \<Rightarrow> prov_job" where
  "record_error e r = r\<lparr>pj_last_error_code := Some (ce_code e),
     pj_last_error_message := Some (ce_message e), pj_last_error_hint := ce_hint e,
     pj_error_class := Some (ce_class e)\<rparr>"

definition schedule_retry ::
  "uuid \<Rightarrow> phase \<Rightarrow> string \<Rightarrow> time \<Rightarrow> int \<Rightarrow> classified_error \<Rightarrow> db \<Rightarrow> db \<times> bool" where
  "schedule_retry job_id current_phase lease_holder next_after attempt_count error d =
    (let (d', res) = update_jobs (\<lambda>r. pj_id r = job_id \<and> pj_phase r = current_phase)
           (\<lambda>r. (record_error error r)\<lparr>pj_attempt_count := attempt_count,
                  pj_next_attempt_after := Some next_after, pj_lease_holder := None,
                  pj_lease_expires_at := None, pj_updated_at := db_now d\<rparr>) d
     in (d', affected_one res))"

definition fail_job :: "uuid \<Rightarrow> phase \<Rightarrow> string \<Rightarrow> classified_error \<Rightarrow> db \<Rightarrow> db \<times> bool" where
  "fail_job job_id current_phase lease_holder error d =
    (let (d', res) = update_jobs
           (\<lambda>r. pj_id r = job_id \<and> pj_phase r = current_phase \<and> pj_lease_holder r = Some lease_holder)
           (\<lambda>r. (record_error error r)\<lparr>pj_phase := FAILED, pj_lease_holder := None,
                  pj_lease_expires_at := None, pj_next_attempt_after := None,
                  pj_updated_at := db_now d\<rparr>) d
     in (d', affected_one res))"

definition fail_deployments_for_node :: "uuid \<Rightarrow> string \<Rightarrow> db \<Rightarrow> db \<times> nat" where
  "fail_deployments_for_node node_id message d =
    (let p = (\<lambda>m. md_target_node_id m = Some node_id
               \<and> md_state m \<in> set [''PENDING_NODE'', ''PENDING'', ''DEPLOYING'', ''CREATED''])
     in (d\<lparr>db_deps := sql_update p (\<lambda>m. m\<lparr>md_state := ''FAILED'', md_error_message := Some message,
                                        md_updated_at := db_now d\<rparr>) (db_deps d)\<rparr>,
         affected_count (cmd_status ''UPDATE'' (sql_count p (db_deps d)))))"

definition cancel_row :: "time \<Rightarrow> prov_job \<Rightarrow> prov_job" where
  "cancel_row now r = r\<lparr>pj_phase := CANCELLING, pj_next_attempt_after := None,
     pj_lease_holder := None, pj_lease_expires_at := None, pj_updated_at := now\<rparr>"

definition request_cancel :: "uuid \<Rightarrow> db \<Rightarrow> db \<times> bool" where
  "request_cancel node_id d =
    (let (d', res) = update_jobs
           (\<lambda>r. pj_node_id r = node_id \<and> pj_phase r \<in> set NON_TERMINAL_NON_CANCELLING)
           (cancel_row (db_now d)) d
     in (d', affected_one res))"

definition force_cancel :: "uuid \<Rightarrow> db \<Rightarrow> db \<times> bool" where
  "force_cancel node_id d =
    (let (d', res) = update_jobs
           (\<lambda>r. pj_node_id r = node_id \<and> pj_phase r \<notin> set [CANCELLING, TERMINATED])
           (cancel_row (db_now d)) d
     in (d', affected_one res))"

definition force_cancel_pool :: "uuid \<Rightarrow> db \<Rightarrow> db \<times> nat" where
  "force_cancel_pool pool_id d =
    (let (d', res) = update_jobs
           (\<lambda>r. pj_pool_id r = pool_id \<and> pj_phase r \<notin> set [CANCELLING, TERMINATED])
           (cancel_row (db_now d)) d
     in (d', affected_count res))"

definition reset_row :: "time \<Rightarrow> prov_job \<Rightarrow> prov_job" where
  "reset_row now r = r\<lparr>pj_phase := PREFLIGHT, pj_attempt_count := 0, pj_next_attempt_after := None,
     pj_last_error_code := None, pj_last_error_message := None, pj_last_error_hint := None,
     pj_error_class := None, pj_lease_holder := None, pj_lease_expires_at := None,
     pj_updated_at := now\<rparr>"

definition reset_for_retry :: "uuid \<Rightarrow> db \<Rightarrow> db \<times> prov_job option" where
  "reset_for_retry node_id d =
    (let p = (\<lambda>r. pj_node_id r = node_id \<and> pj_phase r = FAILED)
     in (fst (update_jobs p (reset_row (db_now d)) d),
         map_option (reset_row (db_now d)) (find p (db_jobs d))))"

definition get_job :: "uuid \<Rightarrow> db \<Rightarrow> prov_job option" where
  "get_job job_id d = find (\<lambda>r. pj_id r = job_id) (db_jobs d)"

definition get_by_node :: "uuid \<Rightarrow> db \<Rightarrow> prov_job option" where
  "get_by_node node_id d =
     sql_first_by (\<lambda>r. - pj_created_at r) (\<lambda>r. pj_node_id r = node_id) (db_jobs d)"

section \<open>Status parsing\<close>

lemma affected_one_status [simp]: "affected_one (cmd_status cmd n) \<longleftrightarrow> n = 1"
  by (simp add: affected_one_def dec_nat_one)

lemma affected_count_status [simp]: "affected_count (cmd_status cmd n) = n"
  by (simp add: affected_count_def)

section \<open>The row invariant\<close>

text \<open>
  Lease holder and expiry are set together; a terminal job carries neither a lease nor a backoff;
  attempts are counted from zero.
\<close>

definition job_ok :: "prov_job \<Rightarrow> bool" where
  "job_ok j \<longleftrightarrow> (pj_lease_holder j = None \<longleftrightarrow> pj_lease_expires_at j = None)
     \<and> (is_terminal (pj_phase j) \<longrightarrow> pj_lease_holder j = None \<and> pj_next_attempt_after j = None)
     \<and> 0 \<le> pj_attempt_count j"

definition jobs_inv :: "db \<Rightarrow> bool" where
  "jobs_inv d \<longleftrightarrow> distinct (map pj_id (db_jobs d)) \<and> (\<forall>j \<in> set (db_jobs d). job_ok j)"

text \<open>What an UPDATE of the queue must satisfy on the rows it selects.\<close>

definition good_update :: "db \<Rightarrow> (prov_job \<Rightarrow> bool) \<Rightarrow> (prov_job \<Rightarrow> prov_job) \<Rightarrow> bool" where
  "good_update d p f \<longleftrightarrow> (\<forall>r \<in> set (db_jobs d). p r \<longrightarrow>
     job_ok (f r) \<and> (pj_phase (f r) = pj_phase r \<or> phase_edge (pj_phase r) (pj_phase (f r))))
   \<and> (\<forall>r. pj_id (f r) = pj_id r)"

lemma update_jobs_simps [simp]:
  "db_jobs (fst (update_jobs p f d)) = sql_update p f (db_jobs d)"
  "db_now (fst (update_jobs p f d)) = db_now d"
  "snd (update_jobs p f d) = cmd_status ''UPDATE'' (sql_count p (db_jobs d))"
  by (simp_all add: update_jobs_def)

lemma get_job_update:
  assumes "\<And>r. pj_id (f r) = pj_id r"
  shows "get_job i (fst (update_jobs p f d)) = map_option (\<lambda>r. if p r then f r else r) (get_job i d)"
  unfolding get_job_def update_jobs_simps by (rule find_sql_update) (rule assms)

lemma good_update_inv:
  assumes "jobs_inv d" "good_update d p f"
  shows "jobs_inv (fst (update_jobs p f d))"
proof -
  have "map pj_id (sql_update p f (db_jobs d)) = map pj_id (db_jobs d)"
    using assms(2) by (intro sql_update_map) (simp add: good_update_def)
  moreover have "\<forall>j \<in> set (sql_update p f (db_jobs d)). job_ok j"
    using assms by (intro sql_update_all) (auto simp: jobs_inv_def good_update_def)
  ultimately show ?thesis
    using assms(1) by (simp add: jobs_inv_def)
qed

lemma get_job_in: "get_job i d = Some j \<Longrightarrow> j \<in> set (db_jobs d) \<and> pj_id j = i"
  unfolding get_job_def by (drule find_in) simp

lemma get_job_mem: "jobs_inv d \<Longrightarrow> j \<in> set (db_jobs d) \<Longrightarrow> get_job (pj_id j) d = Some j"
  by (simp add: get_job_def jobs_inv_def find_key_Some)

lemma job_ok_get: "jobs_inv d \<Longrightarrow> get_job i d = Some j \<Longrightarrow> job_ok j"
  using get_job_in by (auto simp: jobs_inv_def)

text \<open>Each operation as an UPDATE, and that the UPDATE is good.\<close>

lemma cancel_row_good:
  "(\<And>r. p r \<Longrightarrow> phase_edge (pj_phase r) CANCELLING) \<Longrightarrow> good_update d p (cancel_row t)"
  if "jobs_inv d"
  using that by (auto simp: good_update_def cancel_row_def job_ok_def jobs_inv_def)

lemma claim_good:
  assumes "jobs_inv d" "sql_first_by claim_key (claimable l (db_now d)) (db_jobs d) = Some j"
  shows "good_update d (\<lambda>r. pj_id r = pj_id j)
    (\<lambda>r. r\<lparr>pj_lease_holder := Some h, pj_lease_expires_at := Some e, pj_updated_at := t\<rparr>)"
proof -
  have j: "j \<in> set (db_jobs d)" "claimable l (db_now d) j"
    using sql_first_by_Some [OF assms(2)] by auto
  have "job_ok (r\<lparr>pj_lease_holder := Some h, pj_lease_expires_at := Some e, pj_updated_at := t\<rparr>)"
    if r: "r \<in> set (db_jobs d)" "pj_id r = pj_id j" for r
  proof -
    have "r = j"
      using get_job_mem [OF assms(1) r(1)] get_job_mem [OF assms(1) j(1)] r(2)
      by (metis option.inject)
    then have "\<not> is_terminal (pj_phase r)" "job_ok r"
      using assms(1) j by (simp_all add: claimable_def claimable_iff jobs_inv_def)
    then show ?thesis
      by (simp add: job_ok_def)
  qed
  then show ?thesis
    by (simp add: good_update_def)
qed

lemma renew_good:
  "jobs_inv d \<Longrightarrow> good_update d (\<lambda>r. pj_id r = i \<and> pj_lease_holder r = Some h)
     (\<lambda>r. r\<lparr>pj_lease_expires_at := Some e, pj_updated_at := t\<rparr>)"
  by (auto simp: good_update_def job_ok_def jobs_inv_def)

lemma release_good:
  "jobs_inv d \<Longrightarrow> good_update d p
     (\<lambda>r. r\<lparr>pj_lease_holder := None, pj_lease_expires_at := None, pj_updated_at := t\<rparr>)"
  by (auto simp: good_update_def job_ok_def jobs_inv_def)

lemma transition_good:
  "jobs_inv d \<Longrightarrow> phase_edge cur nxt \<Longrightarrow>
   good_update d (\<lambda>r. pj_id r = i \<and> pj_phase r = cur \<and> pj_lease_holder r = Some h)
     (\<lambda>r. r\<lparr>pj_phase := nxt, pj_outputs := out r,
            pj_last_error_code := None, pj_last_error_message := None,
            pj_last_error_hint := None, pj_error_class := None,
            pj_next_attempt_after := None, pj_lease_holder := None,
            pj_lease_expires_at := None, pj_updated_at := t\<rparr>)"
  by (auto simp: good_update_def job_ok_def jobs_inv_def)

lemma retry_good:
  "jobs_inv d \<Longrightarrow> \<not> is_terminal cur \<Longrightarrow> 0 \<le> n \<Longrightarrow>
   good_update d (\<lambda>r. pj_id r = i \<and> pj_phase r = cur)
     (\<lambda>r. (record_error err r)\<lparr>pj_attempt_count := n, pj_next_attempt_after := Some a,
            pj_lease_holder := None, pj_lease_expires_at := None, pj_updated_at := t\<rparr>)"
  by (auto simp: good_update_def job_ok_def jobs_inv_def record_error_def)

lemma fail_good:
  assumes "jobs_inv d"
  shows "good_update d (\<lambda>r. pj_id r = i \<and> pj_phase r = cur \<and> pj_lease_holder r = Some h)
     (\<lambda>r. (record_error err r)\<lparr>pj_phase := FAILED, pj_lease_holder := None,
            pj_lease_expires_at := None, pj_next_attempt_after := None, pj_updated_at := t\<rparr>)"
proof -
  have "phase_edge cur FAILED"
    if "r \<in> set (db_jobs d)" "pj_phase r = cur" "pj_lease_holder r = Some h" for r
    using assms that by (cases cur) (auto simp: jobs_inv_def job_ok_def)
  then show ?thesis
    using assms by (auto simp: good_update_def job_ok_def jobs_inv_def record_error_def)
qed

lemma reset_good:
  "jobs_inv d \<Longrightarrow> good_update d (\<lambda>r. pj_node_id r = i \<and> pj_phase r = FAILED) (reset_row t)"
  by (auto simp: good_update_def job_ok_def jobs_inv_def reset_row_def)

lemma in_flight_edge: "p \<in> set NON_TERMINAL_NON_CANCELLING \<Longrightarrow> phase_edge p CANCELLING"
  by (cases p) (simp_all add: in_flight_iff)

lemma force_edge: "p \<notin> set [CANCELLING, TERMINATED] \<Longrightarrow> phase_edge p CANCELLING"
  by (cases p) simp_all

lemma request_cancel_good:
  "jobs_inv d \<Longrightarrow> good_update d
     (\<lambda>r. pj_node_id r = n \<and> pj_phase r \<in> set NON_TERMINAL_NON_CANCELLING) (cancel_row t)"
  by (rule cancel_row_good) (auto intro: in_flight_edge)

lemma force_cancel_good:
  "jobs_inv d \<Longrightarrow> good_update d
     (\<lambda>r. pj_node_id r = n \<and> pj_phase r \<notin> set [CANCELLING, TERMINATED]) (cancel_row t)"
  by (rule cancel_row_good) (auto intro!: force_edge)

lemma force_cancel_pool_good:
  "jobs_inv d \<Longrightarrow> good_update d
     (\<lambda>r. pj_pool_id r = n \<and> pj_phase r \<notin> set [CANCELLING, TERMINATED]) (cancel_row t)"
  by (rule cancel_row_good) (auto intro!: force_edge)

section \<open>Steps of the queue\<close>

text \<open>
  One step is one statement of the repository, or the passing of time.  A transition follows the
  phase graph and a retry is asked only for a phase in progress: both are what the reconciler does.
\<close>

inductive repo_step :: "db \<Rightarrow> db \<Rightarrow> bool" where
  step_enqueue: "enqueue i n p org prov sp d = Inr (d', k) \<Longrightarrow> repo_step d d'"
| step_claim: "claim_next_job l h s d = (d', r) \<Longrightarrow> repo_step d d'"
| step_renew: "renew_lease i h s d = (d', b) \<Longrightarrow> repo_step d d'"
| step_release: "release_lease i h d = d' \<Longrightarrow> repo_step d d'"
| step_transition: "phase_edge cur nxt \<Longrightarrow> transition_to i cur nxt h out d = (d', b) \<Longrightarrow> repo_step d d'"
| step_retry: "\<not> is_terminal cur \<Longrightarrow> 0 \<le> n \<Longrightarrow> schedule_retry i cur h a n e d = (d', b) \<Longrightarrow> repo_step d d'"
| step_fail: "fail_job i cur h e d = (d', b) \<Longrightarrow> repo_step d d'"
| step_request_cancel: "request_cancel n d = (d', b) \<Longrightarrow> repo_step d d'"
| step_force_cancel: "force_cancel n d = (d', b) \<Longrightarrow> repo_step d d'"
| step_force_cancel_pool: "force_cancel_pool p d = (d', k) \<Longrightarrow> repo_step d d'"
| step_reset: "reset_for_retry n d = (d', r) \<Longrightarrow> repo_step d d'"
| step_tick: "0 \<le> t \<Longrightarrow> repo_step d (d\<lparr>db_now := db_now d + t\<rparr>)"

lemma claim_cases:
  assumes "claim_next_job l h s d = (d', r)"
  obtains (none) "d' = d" "r = None"
  | (some) j where "sql_first_by claim_key (claimable l (db_now d)) (db_jobs d) = Some j"
      "d' = fst (update_jobs (\<lambda>r. pj_id r = pj_id j) (\<lambda>r. r\<lparr>pj_lease_holder := Some h,
              pj_lease_expires_at := Some (db_now d + s), pj_updated_at := db_now d\<rparr>) d)"
      "r = Some (j\<lparr>pj_lease_holder := Some h, pj_lease_expires_at := Some (db_now d + s),
              pj_updated_at := db_now d\<rparr>)"
  using assms unfolding claim_next_job_def Let_def by (auto split: option.splits)

lemma repo_step_cases:
  assumes "repo_step d d'" "jobs_inv d"
  obtains (upd) p f where "good_update d p f" "d' = fst (update_jobs p f d)"
  | (enq) j where "job_ok j" "pj_id j \<notin> pj_id ` set (db_jobs d)" "db_jobs d' = db_jobs d @ [j]"
  | (same) "db_jobs d' = db_jobs d"
  using assms(1)
proof cases
  case (step_enqueue i n p org prov sp k)
  then show thesis
    by (intro enq [of "new_job i n p org prov sp (db_now d)"])
      (auto simp: enqueue_def job_ok_def new_job_def split: if_splits)
next
  case (step_claim l h s r)
  then show thesis
  proof (cases rule: claim_cases)
    case none
    then show thesis by (intro same) simp
  next
    case (some j)
    show thesis by (rule upd [OF claim_good [OF assms(2) some(1)] some(2)])
  qed
next
  case (step_renew i h s b)
  then show thesis
    using renew_good [OF assms(2)] by (intro upd) (auto simp: renew_lease_def split_def Let_def)
next
  case (step_release i h)
  then show thesis
    using release_good [OF assms(2)] by (intro upd) (auto simp: release_lease_def)
next
  case (step_transition cur nxt i h out b)
  then show thesis
    using transition_good [OF assms(2) step_transition(1)]
    by (intro upd) (auto simp: transition_to_def split_def Let_def)
next
  case (step_retry cur n i h a e b)
  then show thesis
    using retry_good [OF assms(2) step_retry(1,2)]
    by (intro upd) (auto simp: schedule_retry_def split_def Let_def)
next
  case (step_fail i cur h e b)
  then show thesis
    using fail_good [OF assms(2)] by (intro upd) (auto simp: fail_job_def split_def Let_def)
next
  case (step_request_cancel n b)
  then show thesis
    using request_cancel_good [OF assms(2)] by (intro upd) (auto simp: request_cancel_def split_def Let_def)
next
  case (step_force_cancel n b)
  then show thesis
    using force_cancel_good [OF assms(2)] by (intro upd) (auto simp: force_cancel_def split_def Let_def)
next
  case (step_force_cancel_pool n b)
  then show thesis
    using force_cancel_pool_good [OF assms(2)] by (intro upd) (auto simp: force_cancel_pool_def split_def Let_def)
next
  case (step_reset n r)
  then show thesis
    using reset_good [OF assms(2)] by (intro upd) (auto simp: reset_for_retry_def split_def Let_def)
next
  case (step_tick t)
  then show thesis
    by (intro same) simp
qed

lemma repo_step_inv: "jobs_inv d \<Longrightarrow> repo_step d d' \<Longrightarrow> jobs_inv d'"
proof (erule repo_step_cases, assumption, goal_cases)
  case (1 p f)
  then show ?case by (simp add: good_update_inv)
next
  case (2 j)
  then show ?case by (auto simp: jobs_inv_def)
next
  case 3
  then show ?case by (simp add: jobs_inv_def)
qed

interpretation queue: inv_system "\<lambda>d. db_jobs d = []" repo_step jobs_inv
  by unfold_locales (simp add: jobs_inv_def, rule repo_step_inv)

text \<open>The phase of a job, None before it is enqueued.\<close>

definition phase_at :: "uuid \<Rightarrow> db \<Rightarrow> phase option" where
  "phase_at i d = map_option pj_phase (get_job i d)"

definition phase_path :: "phase option \<Rightarrow> phase option \<Rightarrow> bool" where
  "phase_path x y \<longleftrightarrow> (case (x, y) of
     (None, _) \<Rightarrow> True
   | (Some p, Some q) \<Rightarrow> rtranclp phase_edge p q
   | (Some p, None) \<Rightarrow> False)"

lemma phase_path_refl: "phase_path x x"
  by (cases x) (simp_all add: phase_path_def)

lemma phase_path_trans: "phase_path x y \<Longrightarrow> phase_path y z \<Longrightarrow> phase_path x z"
  by (auto simp: phase_path_def split: option.splits)

lemma repo_step_path:
  assumes "jobs_inv d" "repo_step d d'"
  shows "phase_path (phase_at i d) (phase_at i d')"
proof (cases "get_job i d")
  case None
  then show ?thesis by (simp add: phase_path_def phase_at_def)
next
  case (Some j)
  note j = get_job_in [OF this]
  from assms(2,1) show ?thesis
  proof (cases rule: repo_step_cases)
    case (upd p f)
    have id: "\<And>r. pj_id (f r) = pj_id r"
      using upd(1) by (simp add: good_update_def)
    have "get_job i d' = Some (if p j then f j else j)"
      using Some upd(2) get_job_update [OF id] by simp
    with upd(1) j Some show ?thesis
      by (auto simp: phase_path_def phase_at_def good_update_def)
  next
    case (enq k)
    then have "get_job i d' = Some j"
      using Some by (auto simp: get_job_def find_append split: option.splits)
    with Some show ?thesis by (simp add: phase_path_def phase_at_def)
  next
    case same
    with Some show ?thesis by (simp add: phase_path_def phase_at_def get_job_def)
  qed
qed

lemma terminated_final: "rtranclp phase_edge TERMINATED q \<Longrightarrow> q = TERMINATED"
  by (induction rule: rtranclp_induct) auto

section \<open>What a lease protects\<close>

text \<open>
  The interface between the queue and a worker that holds a lease: as long as the clock has not
  passed the expiry, no action of another worker changes the job.
\<close>

locale lease_guard =
  fixes inv :: "'s \<Rightarrow> bool" and clock :: "'s \<Rightarrow> real"
    and lease :: "'s \<Rightarrow> 'i \<Rightarrow> ('h \<times> real) option" and view :: "'s \<Rightarrow> 'i \<Rightarrow> 'v"
    and act :: "'h \<Rightarrow> 's \<Rightarrow> 's \<Rightarrow> bool"
  assumes act_inv: "inv s \<Longrightarrow> act b s s' \<Longrightarrow> inv s'"
    and act_clock: "act b s s' \<Longrightarrow> clock s \<le> clock s'"
    and act_foreign: "inv s \<Longrightarrow> act b s s' \<Longrightarrow> lease s i = Some (a, e) \<Longrightarrow> a \<noteq> b \<Longrightarrow> clock s \<le> e
      \<Longrightarrow> lease s' i = Some (a, e) \<and> view s' i = view s i"
begin

lemma foreign_run:
  assumes "rtranclp (\<lambda>s s'. \<exists>b. b \<noteq> a \<and> act b s s') s s'"
    and "inv s" "lease s i = Some (a, e)" "clock s' \<le> e"
  shows "lease s' i = Some (a, e) \<and> view s' i = view s i \<and> inv s'"
  using assms
proof (induction rule: rtranclp_induct)
  case (step y z)
  then obtain b where b: "b \<noteq> a" "act b y z" by blast
  have "clock y \<le> e"
    using act_clock [OF b(2)] step.prems by simp
  with step have "lease y i = Some (a, e) \<and> view y i = view s i \<and> inv y" by simp
  with act_foreign [of y b z i a e] act_inv [of y b z] b \<open>clock y \<le> e\<close> show ?case by auto
qed simp

end

text \<open>
  The actions of the worker \<^verbatim>\<open>b\<close>: everything the reconciler issues under its own lease holder
  name, with a retry only for a job it still holds, and the passing of time.
\<close>

inductive worker_act :: "string \<Rightarrow> db \<Rightarrow> db \<Rightarrow> bool" where
  act_claim: "claim_next_job l b s d = (d', r) \<Longrightarrow> worker_act b d d'"
| act_renew: "renew_lease i b s d = (d', k) \<Longrightarrow> worker_act b d d'"
| act_release: "release_lease i b d = d' \<Longrightarrow> worker_act b d d'"
| act_transition: "phase_edge cur nxt \<Longrightarrow> transition_to i cur nxt b out d = (d', k) \<Longrightarrow> worker_act b d d'"
| act_fail: "fail_job i cur b e d = (d', k) \<Longrightarrow> worker_act b d d'"
| act_retry: "get_job i d = Some j \<Longrightarrow> pj_lease_holder j = Some b \<Longrightarrow> \<not> is_terminal cur \<Longrightarrow> 0 \<le> n \<Longrightarrow>
    schedule_retry i cur b a n e d = (d', k) \<Longrightarrow> worker_act b d d'"
| act_tick: "0 \<le> t \<Longrightarrow> worker_act b d (d\<lparr>db_now := db_now d + t\<rparr>)"

definition lease_of :: "db \<Rightarrow> uuid \<Rightarrow> (string \<times> time) option" where
  "lease_of d i = (case get_job i d of None \<Rightarrow> None
     | Some j \<Rightarrow> (case (pj_lease_holder j, pj_lease_expires_at j) of
         (Some h, Some e) \<Rightarrow> Some (h, e) | _ \<Rightarrow> None))"

lemma lease_of_Some:
  "lease_of d i = Some (a, e) \<longleftrightarrow>
   (\<exists>j. get_job i d = Some j \<and> pj_lease_holder j = Some a \<and> pj_lease_expires_at j = Some e)"
  by (auto simp: lease_of_def split: option.splits)

lemma worker_act_step: "worker_act b d d' \<Longrightarrow> repo_step d d'"
  by (induction rule: worker_act.induct) (auto intro: repo_step.intros)

lemma unselected_unchanged:
  assumes "\<And>r. pj_id (f r) = pj_id r" "get_job i d = Some j" "\<not> p j"
  shows "get_job i (fst (update_jobs p f d)) = Some j"
  using assms get_job_update [of f i p d] by simp

lemma claim_now: "claim_next_job l h s d = (d', r) \<Longrightarrow> db_now d' = db_now d"
  by (erule claim_cases) simp_all

lemma worker_act_clock: "worker_act b d d' \<Longrightarrow> db_now d \<le> db_now d'"
  by (induction rule: worker_act.induct)
    (auto simp: renew_lease_def release_lease_def transition_to_def fail_job_def schedule_retry_def
      split_def Let_def claim_now)

lemma worker_act_foreign:
  assumes "worker_act b d d'" "jobs_inv d" "get_job i d = Some j"
    and "pj_lease_holder j = Some a" "pj_lease_expires_at j = Some e" "a \<noteq> b" "db_now d \<le> e"
  shows "get_job i d' = Some j"
  using assms(1)
proof cases
  case (act_claim l s r)
  then show ?thesis
  proof (cases rule: claim_cases)
    case (some k)
    have "claimable l (db_now d) k"
      using sql_first_by_Some [OF some(1)] by simp
    moreover have "\<not> claimable l (db_now d) j"
      using assms by (simp add: claimable_def)
    moreover have "get_job (pj_id k) d = Some k"
      using sql_first_by_Some [OF some(1)] get_job_mem assms(2) by simp
    ultimately have "pj_id j \<noteq> pj_id k"
      using assms(3) get_job_in [OF assms(3)] by (metis option.inject)
    then show ?thesis
      unfolding some(2) by (intro unselected_unchanged assms(3)) simp_all
  qed (use assms in simp)
next
  case (act_renew k s u)
  then have d': "d' = fst (renew_lease k b s d)" by simp
  show ?thesis
    unfolding d' renew_lease_def split_def Let_def fst_conv
    by (intro unselected_unchanged assms(3)) (use assms in simp_all)
next
  case (act_release k)
  then have d': "d' = release_lease k b d" by simp
  show ?thesis
    unfolding d' release_lease_def by (intro unselected_unchanged assms(3)) (use assms in simp_all)
next
  case (act_transition cur nxt k out u)
  then have d': "d' = fst (transition_to k cur nxt b out d)" by simp
  show ?thesis
    unfolding d' transition_to_def split_def Let_def fst_conv
    by (intro unselected_unchanged assms(3)) (use assms in simp_all)
next
  case (act_fail k cur err u)
  then have d': "d' = fst (fail_job k cur b err d)" by simp
  show ?thesis
    unfolding d' fail_job_def split_def Let_def fst_conv
    by (intro unselected_unchanged assms(3)) (use assms in \<open>simp_all add: record_error_def\<close>)
next
  case (act_retry k j' cur n t err u)
  then have d': "d' = fst (schedule_retry k cur b t n err d)" by simp
  have "k \<noteq> i"
    using act_retry assms by auto
  then show ?thesis
    unfolding d' schedule_retry_def split_def Let_def fst_conv
    by (intro unselected_unchanged assms(3))
      (use get_job_in [OF assms(3)] in \<open>simp_all add: record_error_def\<close>)
next
  case (act_tick t)
  then show ?thesis
    using assms by (simp add: get_job_def)
qed

interpretation lq: lease_guard jobs_inv db_now lease_of "\<lambda>d i. get_job i d" worker_act
proof (unfold_locales, goal_cases)
  case (1 s b s')
  then show ?case using worker_act_step repo_step_inv by blast
next
  case (2 b s s')
  then show ?case by (rule worker_act_clock)
next
  case (3 s b s' i a e)
  then obtain j where j: "get_job i s = Some j" "pj_lease_holder j = Some a" "pj_lease_expires_at j = Some e"
    by (auto simp: lease_of_Some)
  with worker_act_foreign 3 have "get_job i s' = Some j" by blast
  with j show ?case by (simp add: lease_of_Some)
qed

section \<open>Properties\<close>

text \<open>How many rows a statement keyed by the job id touches.\<close>

lemma count_job:
  assumes "jobs_inv d"
  shows "sql_count (\<lambda>r. pj_id r = i \<and> q r) (db_jobs d) =
         (case get_job i d of None \<Rightarrow> 0 | Some j \<Rightarrow> if q j then 1 else 0)"
proof (cases "get_job i d")
  case None
  then have "sql_count (\<lambda>r. pj_id r = i \<and> q r) (db_jobs d) = 0"
    by (simp add: get_job_def find_none sql_count_0)
  with None show ?thesis by simp
next
  case (Some j)
  have "(\<exists>r \<in> set (db_jobs d). pj_id r = i \<and> q r) \<longleftrightarrow> q j"
    using get_job_in [OF Some] get_job_mem [OF assms] Some by (metis option.inject)
  then show ?thesis
    using sql_count_key [of pj_id "db_jobs d" "\<lambda>r. pj_id r = i \<and> q r" i] assms Some
    by (simp add: jobs_inv_def)
qed

lemmas guarded_ops = transition_to_def fail_job_def schedule_retry_def renew_lease_def

text \<open>
  the command-status parser is exact.  For every command tag and row count, \<^verbatim>\<open>_affected_one\<close>
  holds iff the count is one (so UPDATE 11 is not taken for one row) and \<^verbatim>\<open>_affected_count\<close>
  returns the count.
\<close>

theorem affected_roundtrip:
  "affected_one (cmd_status cmd n) = (n = 1) \<and> affected_count (cmd_status cmd n) = n"
  by simp



text \<open>
  a claim returns the row it leased, and that row was claimable: in progress, its backoff
  over, its previous lease absent or expired.  Cancelling jobs come first, then the one updated
  longest ago; no other job changes.  A claim returns nothing only if nothing is claimable.
\<close>

theorem claim_spec:
  assumes "jobs_inv d" "claim_next_job l h s d = (d', r)"
  shows "case r of
     None \<Rightarrow> d' = d \<and> (\<forall>k \<in> set (db_jobs d). \<not> claimable l (db_now d) k)
   | Some j \<Rightarrow> get_job (pj_id j) d' = Some j
       \<and> pj_lease_holder j = Some h \<and> pj_lease_expires_at j = Some (db_now d + s)
       \<and> (\<exists>j0. get_job (pj_id j) d = Some j0 \<and> \<not> is_terminal (pj_phase j0)
            \<and> pj_phase j = pj_phase j0
            \<and> (\<forall>e. pj_lease_expires_at j0 = Some e \<longrightarrow> e < db_now d)
            \<and> (\<forall>t. pj_next_attempt_after j0 = Some t \<longrightarrow> t \<le> db_now d)
            \<and> (\<forall>k \<in> set (db_jobs d). claimable l (db_now d) k \<longrightarrow>
                 (pj_phase j0 = CANCELLING \<and> pj_phase k \<noteq> CANCELLING)
               \<or> (pj_phase j0 = CANCELLING \<longleftrightarrow> pj_phase k = CANCELLING)
                 \<and> pj_updated_at j0 \<le> pj_updated_at k))
       \<and> (\<forall>i. i \<noteq> pj_id j \<longrightarrow> get_job i d' = get_job i d)"
  using assms(2)
proof (cases rule: claim_cases)
  case none
  then show ?thesis
    using assms(2) by (auto simp: claim_next_job_def sql_first_by_None split: option.splits)
next
  case (some j0)
  note first = sql_first_by_Some [OF some(1)]
  have get: "get_job (pj_id j0) d = Some j0"
    using first(1) get_job_mem assms(1) by simp
  have upd: "get_job i d' = map_option (\<lambda>r. if pj_id r = pj_id j0 then r\<lparr>pj_lease_holder := Some h,
      pj_lease_expires_at := Some (db_now d + s), pj_updated_at := db_now d\<rparr> else r) (get_job i d)" for i
    unfolding some(2) by (rule get_job_update) simp
  have other: "get_job i d' = get_job i d" if "i \<noteq> pj_id j0" for i
    using upd [of i] get_job_in [of i d] that by (cases "get_job i d") auto
  have order: "(pj_phase j0 = CANCELLING \<and> pj_phase k \<noteq> CANCELLING)
      \<or> (pj_phase j0 = CANCELLING \<longleftrightarrow> pj_phase k = CANCELLING) \<and> pj_updated_at j0 \<le> pj_updated_at k"
    if "k \<in> set (db_jobs d)" "claimable l (db_now d) k" for k
    using first(3) [OF that] by (auto simp: claim_key_def less_eq_prod_def)
  show ?thesis
    unfolding some(3) option.case
    using get upd [of "pj_id j0"] other order first(2)
    by (auto simp: claimable_def claimable_iff split: option.splits)
qed

text \<open>
  C3: two claims never hand out the same job while the first lease runs: a second claim made,
  under any holder name, before the lease of the first has expired returns another job.
\<close>

theorem no_double_claim:
  assumes "jobs_inv d" "claim_next_job l a s d = (d1, Some j1)" "0 \<le> t" "t \<le> s"
    and "claim_next_job l' b s' (d1\<lparr>db_now := db_now d1 + t\<rparr>) = (d2, Some j2)"
  shows "pj_id j1 \<noteq> pj_id j2"
proof -
  have j1: "get_job (pj_id j1) d1 = Some j1 \<and> pj_lease_expires_at j1 = Some (db_now d + s)"
    using assms(2)
  proof (cases rule: claim_cases)
    case (some j0)
    have "get_job (pj_id j0) d = Some j0"
      using sql_first_by_Some [OF some(1)] get_job_mem assms(1) by simp
    with some(3) show ?thesis
      unfolding some(2) by (simp add: get_job_update)
  qed simp
  have "db_now d1 = db_now d"
    using claim_now [OF assms(2)] .
  from assms(5) obtain k where k: "k \<in> set (db_jobs d1)" "claimable l' (db_now d + t) k" "pj_id k = pj_id j2"
  proof (cases rule: claim_cases)
    case (some k)
    with sql_first_by_Some [OF some(1)] \<open>db_now d1 = db_now d\<close> that show thesis by simp
  qed simp
  have "jobs_inv d1"
    using repo_step_inv [OF assms(1)] step_claim [OF assms(2)] by blast
  then have "get_job (pj_id j2) d1 = Some k"
    using get_job_mem k by metis
  then show ?thesis
    using j1 k(2) assms(4) by (auto simp: claimable_def)
qed

text \<open>
  C32: a live lease is exclusive.  Whatever other workers do meanwhile (claims, renewals, releases,
  transitions, failures, and retries of jobs they hold), until the clock passes the expiry the
  leased job is unchanged, and the holder's own transition still applies.
\<close>

theorem lease_protects:
  assumes "jobs_inv d" "get_job i d = Some j"
    and "pj_lease_holder j = Some a" "pj_lease_expires_at j = Some e"
    and "rtranclp (\<lambda>x y. \<exists>b. b \<noteq> a \<and> worker_act b x y) d d'" "db_now d' \<le> e"
  shows "get_job i d' = Some j \<and> snd (transition_to i (pj_phase j) nxt a out d')
    \<and> map_option pj_phase (get_job i (fst (transition_to i (pj_phase j) nxt a out d'))) = Some nxt"
proof -
  have "lease_of d i = Some (a, e)"
    using assms by (simp add: lease_of_Some)
  from lq.foreign_run [OF assms(5,1) this assms(6)] assms(2)
  have d': "get_job i d' = Some j" "jobs_inv d'" by auto
  then show ?thesis
    using assms(3) count_job [OF d'(2), of i "\<lambda>r. pj_phase r = pj_phase j \<and> pj_lease_holder r = Some a"]
    by (simp add: transition_to_def split_def Let_def get_job_update get_job_in)
qed

text \<open>
  a cancellation wins over the worker that runs the job.  After \<^verbatim>\<open>force_cancel\<close> the worker's
  transition, retry and failure of the phase it was running are all refused, its lease renewal
  too, and the job stays in cancelling.
\<close>

theorem cancel_preempts_worker:
  assumes "jobs_inv d" "get_job i d = Some j" "pj_phase j \<noteq> CANCELLING" "pj_phase j \<noteq> TERMINATED"
    and "d1 = fst (force_cancel (pj_node_id j) d)"
  shows "\<exists>j'. get_job i d1 = Some j' \<and> pj_phase j' = CANCELLING \<and> pj_lease_holder j' = None
     \<and> \<not> snd (transition_to i (pj_phase j) nxt h out d1)
     \<and> get_job i (fst (transition_to i (pj_phase j) nxt h out d1)) = Some j'
     \<and> \<not> snd (schedule_retry i (pj_phase j) h t n err d1)
     \<and> get_job i (fst (schedule_retry i (pj_phase j) h t n err d1)) = Some j'
     \<and> \<not> snd (fail_job i (pj_phase j) h err d1)
     \<and> get_job i (fst (fail_job i (pj_phase j) h err d1)) = Some j'
     \<and> \<not> snd (renew_lease i h s d1)"
proof -
  have "get_job i d1 = Some (cancel_row (db_now d) j)"
    unfolding assms(5) force_cancel_def split_def Let_def fst_conv
    using get_job_update [of "cancel_row (db_now d)"] assms(2-4) by (simp add: cancel_row_def)
  moreover have "jobs_inv d1"
    using repo_step_inv [OF assms(1)] step_force_cancel [of "pj_node_id j" d] assms(5)
    by (metis prod.collapse)
  ultimately show ?thesis
    using assms(3)
    by (intro exI [of _ "cancel_row (db_now d) j"])
      (auto simp: guarded_ops split_def Let_def count_job get_job_update record_error_def cancel_row_def)
qed

text \<open>
  a retry is not guarded by the lease.  \<^verbatim>\<open>schedule_retry\<close> takes a lease holder but its
  statement matches only id and phase, so a call made under any holder name, also one that lost
  the lease, succeeds and takes the lease away from the worker that holds it now.
\<close>

theorem retry_ignores_lease:
  assumes "jobs_inv d" "get_job i d = Some j"
  shows "snd (schedule_retry i (pj_phase j) b t n err d)
    \<and> (\<exists>j'. get_job i (fst (schedule_retry i (pj_phase j) b t n err d)) = Some j'
         \<and> pj_lease_holder j' = None \<and> pj_lease_expires_at j' = None
         \<and> pj_attempt_count j' = n \<and> pj_next_attempt_after j' = Some t)"
  using assms get_job_in [OF assms(2)]
  by (simp add: schedule_retry_def split_def Let_def count_job get_job_update record_error_def)

section \<open>Witnesses\<close>

definition sample_queue :: db where
  "sample_queue = empty_db\<lparr>db_now := 100, db_jobs := [
     sample_job ''j1'' ''n1'' PROVISIONING (Some (''A'', 400)) 90,
     sample_job ''j2'' ''n2'' PREFLIGHT None 50,
     sample_job ''j3'' ''n3'' CANCELLING None 80]\<rparr>"

lemma sample_queue_inv: "jobs_inv sample_queue"
  by (simp add: jobs_inv_def sample_queue_def sample_job_def job_ok_def)

lemma sample_queue_j1: "get_job ''j1'' sample_queue = Some (sample_job ''j1'' ''n1'' PROVISIONING (Some (''A'', 400)) 90)"
  by (simp add: get_job_def sample_queue_def sample_job_def)

lemma sample_claim: "\<exists>d' j. claim_next_job [] ''B'' 300 sample_queue = (d', Some j) \<and> pj_id j = ''j3''"
  by (simp add: claim_next_job_def sql_first_by_def sample_queue_def sample_job_def claimable_def
      CLAIMABLE_PHASES_def NON_TERMINAL_NON_CANCELLING_def claim_key_def Let_def)

definition sample_enqueued :: db where
  "sample_enqueued = empty_db\<lparr>db_nodes := [sample_node ''n1'' ''p'' ''provisioning'' 1 0]\<rparr>"



theorem claim_spec_witness:
  "\<exists>d' j. claim_next_job [] ''B'' 300 sample_queue = (d', Some j) \<and> pj_id j = ''j3''
        \<and> get_job ''j3'' d' = Some j \<and> pj_lease_holder j = Some ''B''"
proof -
  obtain d' j where c: "claim_next_job [] ''B'' 300 sample_queue = (d', Some j)" "pj_id j = ''j3''"
    using sample_claim by blast
  with claim_spec [OF sample_queue_inv c(1)] show ?thesis by auto
qed

theorem no_double_claim_witness:
  "\<exists>d1 j1 d2 j2. claim_next_job [] ''B'' 300 sample_queue = (d1, Some j1)
        \<and> claim_next_job [] ''C'' 300 (d1\<lparr>db_now := db_now d1 + 10\<rparr>) = (d2, Some j2) \<and> pj_id j1 \<noteq> pj_id j2"
proof -
  have "\<exists>d1 j1 d2 j2. claim_next_job [] ''B'' 300 sample_queue = (d1, Some j1)
        \<and> claim_next_job [] ''C'' 300 (d1\<lparr>db_now := db_now d1 + 10\<rparr>) = (d2, Some j2)"
    by (simp add: claim_next_job_def sql_first_by_def sample_queue_def sample_job_def claimable_def
        update_jobs_def CLAIMABLE_PHASES_def NON_TERMINAL_NON_CANCELLING_def claim_key_def Let_def)
  then show ?thesis
    using no_double_claim [OF sample_queue_inv, of "[]" "''B''" 300 _ _ 10 "[]" "''C''" 300] by force
qed

theorem lease_protects_witness:
  "\<exists>d'. claim_next_job [] ''B'' 300 sample_queue = (d', snd (claim_next_job [] ''B'' 300 sample_queue))
      \<and> snd (transition_to ''j1'' PROVISIONING BOOTSTRAPPING ''A'' None d')"
proof -
  define d' where "d' = fst (claim_next_job [] ''B'' 300 sample_queue)"
  have c: "claim_next_job [] ''B'' 300 sample_queue = (d', snd (claim_next_job [] ''B'' 300 sample_queue))"
    by (simp add: d'_def)
  have "''B'' \<noteq> ''A'' \<and> worker_act ''B'' sample_queue d'"
    using act_claim [OF c] by simp
  then have "rtranclp (\<lambda>x y. \<exists>b. b \<noteq> ''A'' \<and> worker_act b x y) sample_queue d'"
    by (intro r_into_rtranclp exI)
  moreover have "db_now d' \<le> 400"
    using claim_now [OF c] by (simp add: sample_queue_def)
  ultimately show ?thesis
    using lease_protects [OF sample_queue_inv sample_queue_j1, of "''A''" 400 d'] c
    by (auto simp: sample_job_def)
qed

theorem cancel_preempts_worker_witness:
  "\<not> snd (transition_to ''j1'' PROVISIONING BOOTSTRAPPING ''A'' None (fst (force_cancel ''n1'' sample_queue)))"
  using cancel_preempts_worker [OF sample_queue_inv sample_queue_j1 _ _ refl, of BOOTSTRAPPING "''A''" None]
  by (auto simp: sample_job_def)

theorem retry_ignores_lease_witness:
  "snd (schedule_retry ''j1'' PROVISIONING ''B'' 200 1
      \<lparr>ce_class = TRANSIENT, ce_code = ''NETWORK_ERROR'', ce_message = [], ce_hint = None\<rparr> sample_queue)"
  using retry_ignores_lease [OF sample_queue_inv sample_queue_j1, of "''B''" 200 1] 
  by (simp add: sample_job_def)

end
