(* ===== verification/Tokens.thy ===== *)
theory Tokens
  imports Database
begin

text \<open>
  One-shot bootstrap tokens, the database helpers of \<^verbatim>\<open>workers/worker_controller/auth.py\<close>.  SHA-256, the random
  token and the row id are arguments; only the digest of a token reaches the table.
\<close>

definition DEFAULT_BOOTSTRAP_TTL_SECONDS :: real where
  "DEFAULT_BOOTSTRAP_TTL_SECONDS = 3600"

record bootstrap_claim =
  bc_bootstrap_id :: uuid
  bc_pool_id :: uuid
  bc_org_id :: string

definition mint_bootstrap_token ::
  "(string \<Rightarrow> string) \<Rightarrow> string \<Rightarrow> uuid \<Rightarrow> uuid \<Rightarrow> string \<Rightarrow> real \<Rightarrow> db \<Rightarrow> (db \<times> string \<times> uuid) tx" where
  "mint_bootstrap_token sha token bid pool org ttl d =
    (if sha token \<in> bt_token_hash ` set (db_tokens d) then Inl (UniqueViolation ''worker_bootstrap_tokens_token_hash_key'')
     else if pool \<notin> cp_id ` set (db_pools d) then Inl (ForeignKeyViolation ''worker_bootstrap_tokens_pool_id_fkey'')
     else Inr (d\<lparr>db_tokens := db_tokens d @ [\<lparr>bt_id = bid, bt_token_hash = sha token, bt_pool_id = pool, bt_org_id = org,
            bt_expires_at = db_now d + ttl, bt_consumed_at = None, bt_consumed_node_id = None, bt_created_at = db_now d\<rparr>]\<rparr>,
          token, bid))"

definition usable_token :: "string \<Rightarrow> time \<Rightarrow> bootstrap_token \<Rightarrow> bool" where
  "usable_token h now t \<longleftrightarrow> bt_token_hash t = h \<and> bt_consumed_at t = None \<and> bt_expires_at t > now"

text \<open>None is \<^verbatim>\<open>InvalidBootstrapToken\<close>.\<close>

definition consume_bootstrap_token :: "(string \<Rightarrow> string) \<Rightarrow> string \<Rightarrow> db \<Rightarrow> db \<times> bootstrap_claim option" where
  "consume_bootstrap_token sha token d =
    (let p = usable_token (sha token) (db_now d)
     in (d\<lparr>db_tokens := sql_update p (\<lambda>t. t\<lparr>bt_consumed_at := Some (db_now d)\<rparr>) (db_tokens d)\<rparr>,
         map_option (\<lambda>t. \<lparr>bc_bootstrap_id = bt_id t, bc_pool_id = bt_pool_id t, bc_org_id = bt_org_id t\<rparr>)
           (find p (db_tokens d))))"

section \<open>Lemmas\<close>

text \<open>The steps of the token table: minting, consuming, and time passing.\<close>

inductive token_step :: "(string \<Rightarrow> string) \<Rightarrow> db \<Rightarrow> db \<Rightarrow> bool" for sha where
  mint: "mint_bootstrap_token sha token bid pool org ttl d = Inr (d', r) \<Longrightarrow> token_step sha d d'"
| consume: "token_step sha d (fst (consume_bootstrap_token sha token d))"
| tick: "db_now d \<le> t \<Longrightarrow> token_step sha d (d\<lparr>db_now := t\<rparr>)"

definition spent :: "string \<Rightarrow> db \<Rightarrow> bool" where
  "spent h d \<longleftrightarrow> h \<in> bt_token_hash ` set (db_tokens d) \<and> (\<forall>t \<in> set (db_tokens d). \<not> usable_token h (db_now d) t)"

lemma consume_rows:
  "\<forall>t \<in> set (db_tokens (fst (consume_bootstrap_token sha token d))). \<exists>r \<in> set (db_tokens d).
     bt_token_hash t = bt_token_hash r \<and> (usable_token h (db_now d) t \<longrightarrow> usable_token h (db_now d) r \<and> h \<noteq> sha token)"
proof
  fix t assume "t \<in> set (db_tokens (fst (consume_bootstrap_token sha token d)))"
  then obtain r where r: "r \<in> set (db_tokens d)"
    "t = (if usable_token (sha token) (db_now d) r then r\<lparr>bt_consumed_at := Some (db_now d)\<rparr> else r)"
    by (auto simp: consume_bootstrap_token_def Let_def in_sql_update)
  then show "\<exists>r \<in> set (db_tokens d). bt_token_hash t = bt_token_hash r
      \<and> (usable_token h (db_now d) t \<longrightarrow> usable_token h (db_now d) r \<and> h \<noteq> sha token)"
    by (intro bexI [of _ r]) (auto simp: usable_token_def)
qed

lemma consume_hashes:
  "bt_token_hash ` set (db_tokens (fst (consume_bootstrap_token sha token d))) = bt_token_hash ` set (db_tokens d)"
  unfolding set_map [symmetric] by (rule arg_cong [where f = set])
    (simp add: consume_bootstrap_token_def Let_def sql_update_map)

lemma consume_now [simp]: "db_now (fst (consume_bootstrap_token sha token d)) = db_now d"
  by (simp add: consume_bootstrap_token_def Let_def)

lemma spent_step:
  assumes "token_step sha d d'" "spent h d"
  shows "spent h d'"
  using assms
proof (cases rule: token_step.cases)
  case (mint token bid pool org ttl r)
  then show ?thesis
    using assms(2) by (auto simp: mint_bootstrap_token_def spent_def usable_token_def split: if_splits)
next
  case (consume token)
  then show ?thesis
    using assms(2) consume_rows [of sha token d h] by (auto simp: spent_def consume_hashes)
next
  case (tick t)
  then show ?thesis using assms(2) by (auto simp: spent_def usable_token_def)
qed

lemma consumed_is_spent:
  assumes "snd (consume_bootstrap_token sha token d) \<noteq> None"
  shows "spent (sha token) (fst (consume_bootstrap_token sha token d))"
proof -
  obtain t where "find (usable_token (sha token) (db_now d)) (db_tokens d) = Some t"
    using assms by (auto simp: consume_bootstrap_token_def Let_def)
  then have "t \<in> set (db_tokens d)" "usable_token (sha token) (db_now d) t"
    by (auto dest: find_in)
  then have "sha token \<in> bt_token_hash ` set (db_tokens d)"
    unfolding usable_token_def by (metis image_eqI)
  then show ?thesis
    using consume_rows [of sha token d "sha token"] by (auto simp: spent_def consume_hashes)
qed

interpretation tok: inv_system "spent h" "token_step sha" "spent h" for sha h
  by unfold_locales (auto intro: spent_step)

section \<open>Properties\<close>

text \<open>
  a bootstrap token is accepted at most once and within its lifetime.  An accepted token belongs to
  the claimed pool and organisation and had not expired; after that, whatever tokens are minted or consumed
  and however the clock advances, presenting it again is rejected.
\<close>

theorem bootstrap_token_single_use:
  assumes "consume_bootstrap_token sha token d = (d', Some claim)" "rtranclp (token_step sha) d' d''"
  shows "(\<exists>t \<in> set (db_tokens d). bt_token_hash t = sha token \<and> bt_consumed_at t = None \<and> db_now d < bt_expires_at t
         \<and> claim = \<lparr>bc_bootstrap_id = bt_id t, bc_pool_id = bt_pool_id t, bc_org_id = bt_org_id t\<rparr>)
     \<and> snd (consume_bootstrap_token sha token d'') = None"
proof
  obtain t where "find (usable_token (sha token) (db_now d)) (db_tokens d) = Some t"
    "claim = \<lparr>bc_bootstrap_id = bt_id t, bc_pool_id = bt_pool_id t, bc_org_id = bt_org_id t\<rparr>"
    using assms(1) by (auto simp: consume_bootstrap_token_def Let_def)
  then show "\<exists>t \<in> set (db_tokens d). bt_token_hash t = sha token \<and> bt_consumed_at t = None \<and> db_now d < bt_expires_at t
         \<and> claim = \<lparr>bc_bootstrap_id = bt_id t, bc_pool_id = bt_pool_id t, bc_org_id = bt_org_id t\<rparr>"
    by (auto simp: usable_token_def dest!: find_in)
  have "spent (sha token) d'"
    using consumed_is_spent [of sha token d] assms(1) by simp
  then have "spent (sha token) d''"
    by (rule tok.run_inv [OF assms(2)])
  then show "snd (consume_bootstrap_token sha token d'') = None"
    by (auto simp: consume_bootstrap_token_def Let_def spent_def find_None_iff)
qed

definition sample_tokens :: db where
  "sample_tokens = empty_db\<lparr>db_tokens := [\<lparr>bt_id = ''b'', bt_token_hash = ''secret'', bt_pool_id = ''p'', bt_org_id = ''org'',
     bt_expires_at = 10, bt_consumed_at = None, bt_consumed_node_id = None, bt_created_at = 0\<rparr>]\<rparr>"

theorem bootstrap_token_single_use_witness:
  "snd (consume_bootstrap_token id ''secret'' sample_tokens) \<noteq> None
   \<and> snd (consume_bootstrap_token id ''secret'' (fst (consume_bootstrap_token id ''secret'' sample_tokens))) = None"
proof -
  have "snd (consume_bootstrap_token id ''secret'' sample_tokens)
      = Some \<lparr>bc_bootstrap_id = ''b'', bc_pool_id = ''p'', bc_org_id = ''org''\<rparr>"
    by (simp add: consume_bootstrap_token_def Let_def usable_token_def sample_tokens_def empty_db_def)
  then show ?thesis
    using bootstrap_token_single_use [of id "''secret''" sample_tokens, OF _ rtranclp.rtrancl_refl]
    by (metis option.distinct(1) prod.collapse)
qed

end
