(* ===== verification/InventoryViews.thy ===== *)
theory InventoryViews
  imports InventoryRepo
begin

text \<open>
  The queries of \<^verbatim>\<open>repositories/inventory_repo.py\<close>: single rows, listings for the dashboard, and the
  two listings the xDS control plane routes by.
\<close>

section \<open>Rows\<close>

definition get_resource_requirement :: "uuid \<Rightarrow> db \<Rightarrow> (int option \<times> int option \<times> int option) option" where
  "get_resource_requirement pool d = map_option (\<lambda>n. (ci_gpu_total n, ci_vcpu_total n, ci_ram_gb_total n))
     (find (\<lambda>n. ci_pool_id n = pool) (db_nodes d))"

definition get_pool_by_id :: "uuid \<Rightarrow> db \<Rightarrow> node list" where
  "get_pool_by_id pool d = filter (\<lambda>n. ci_pool_id n = pool) (db_nodes d)"

definition get_node_by_id :: "uuid \<Rightarrow> db \<Rightarrow> node option" where
  "get_node_by_id nid d = find (\<lambda>n. ci_id n = nid) (db_nodes d)"

definition get_deployments_for_node :: "uuid \<Rightarrow> db \<Rightarrow> uuid list" where
  "get_deployments_for_node nid d = map md_id (filter (bound_to nid) (db_deps d))"

definition list_nodes_by_provider :: "string \<Rightarrow> nat \<Rightarrow> nat \<Rightarrow> db \<Rightarrow> node list" where
  "list_nodes_by_provider prov limit offset d =
     take limit (drop offset (sort_key (\<lambda>n. - ci_created_at n) (filter (\<lambda>n. ci_provider n = prov) (db_nodes d))))"

definition list_workers :: "uuid \<Rightarrow> db \<Rightarrow> node list" where
  "list_workers pool d =
     sort_key ci_created_at (filter (\<lambda>n. ci_pool_id n = pool \<and> ci_agent_kind n = ''worker'') (db_nodes d))"

text \<open>The GPU count shown for a node is summed over the deployments active on it.\<close>

definition live_gpu :: "uuid \<Rightarrow> db \<Rightarrow> int" where
  "live_gpu nid d = sum_list (map (\<lambda>m. md_gpu_per_replica m * md_replicas m) (filter (active_on nid) (db_deps d)))"

definition with_live_gpu :: "db \<Rightarrow> node \<Rightarrow> node" where
  "with_live_gpu d n = n\<lparr>ci_gpu_allocated := live_gpu (ci_id n) d\<rparr>"

definition get_node :: "uuid \<Rightarrow> db \<Rightarrow> node option" where
  "get_node nid d = map_option (with_live_gpu d) (find (\<lambda>n. ci_id n = nid) (db_nodes d))"

text \<open>\<^verbatim>\<open>labels @> selector\<close> for flat objects: every pair of the selector occurs in the labels.\<close>

definition labels_contain :: "jobj \<Rightarrow> jobj \<Rightarrow> bool" where
  "labels_contain labels selector \<longleftrightarrow> list_all (\<lambda>kv. map_of labels (fst kv) = Some (snd kv)) selector"

definition list_nodes :: "string \<Rightarrow> jobj option \<Rightarrow> db \<Rightarrow> node list" where
  "list_nodes org_id selector d =
    (let owned = (\<lambda>n. list_ex (\<lambda>p. cp_id p = ci_pool_id n
                   \<and> (cp_owner_id p = Some org_id \<or> cp_org_id p = Some org_id)) (db_pools d));
         sel = (\<lambda>n. case selector of None \<Rightarrow> True | Some s \<Rightarrow> s = [] \<or> labels_contain (ci_labels n) s)
     in map (with_live_gpu d) (sort_key ci_created_at
          (filter (\<lambda>n. owned n \<and> ci_state n \<noteq> ''terminated'' \<and> sel n) (db_nodes d))))"

section \<open>Listings for xDS\<close>

record xds_entry =
  xe_id :: uuid
  xe_url :: "string option"
  xe_pool_id :: uuid
  xe_engine :: "string option"
  xe_model :: string
  xe_healthy :: bool

definition served_model :: "deployment \<Rightarrow> string" where
  "served_model m = (case coalesce (nonempty_str (md_inference_model m)) (nonempty_str (md_model_name m)) of
     Some s \<Rightarrow> s | None \<Rightarrow> ''__default__'')"

definition engine_key :: "string option \<Rightarrow> bool \<times> string" where
  "engine_key e = (case e of None \<Rightarrow> (True, []) | Some s \<Rightarrow> (False, s))"

definition node_url :: "node \<Rightarrow> string option" where
  "node_url n = or_str (ci_advertise_url n) (ci_expose_url n)"

definition xds_rows :: "db \<Rightarrow> (node \<times> string option \<times> string) list" where
  "xds_rows d = concat (map (\<lambda>n. map (\<lambda>em. (n, em))
     (remdups (map (\<lambda>m. (md_engine m, served_model m))
        (filter (\<lambda>m. bound_to (ci_id n) m \<and> md_state m \<in> set [''RUNNING'', ''DEPLOYING'', ''PENDING_NODE''])
           (db_deps d)))))
     (filter (\<lambda>n. ci_state n \<noteq> ''terminated'') (db_nodes d)))"

definition xds_emit :: "node \<times> string option \<times> string \<Rightarrow> xds_entry list" where
  "xds_emit = (\<lambda>(n, e, m). case node_url n of
     None \<Rightarrow> []
   | Some url \<Rightarrow> if url = [] then [] else
       [\<lparr>xe_id = ci_id n, xe_url = Some url, xe_pool_id = ci_pool_id n, xe_engine = e,
         xe_model = (if m = [] then ''__default__'' else m),
         xe_healthy = (ci_state n = ''ready'' \<and> 50 \<le> ci_health_score n)\<rparr>])"

definition list_xds_nodes :: "db \<Rightarrow> xds_entry list" where
  "list_xds_nodes d =
     concat (map xds_emit (sort_key (\<lambda>(n, e, m). (ci_id n, engine_key e, m)) (xds_rows d)))"

definition fresh_ready :: "time \<Rightarrow> node \<Rightarrow> bool" where
  "fresh_ready now n \<longleftrightarrow> ci_state n = ''ready''
     \<and> (ci_advertise_url n \<noteq> None \<or> ci_expose_url n \<noteq> None)
     \<and> (case ci_last_heartbeat n of None \<Rightarrow> False | Some t \<Rightarrow> now - 300 < t)"

text \<open>An entry of \<^verbatim>\<open>get_ready_nodes\<close> is an xDS entry with the raw expose url, the deployment's endpoint
  and the time of the last heartbeat.\<close>

definition ready_rows :: "db \<Rightarrow> (node \<times> string option \<times> string \<times> string option) list" where
  "ready_rows d = concat (map (\<lambda>n. map (\<lambda>em. (n, em))
     (remdups (map (\<lambda>m. (md_engine m, served_model m, md_endpoint m))
        (filter (\<lambda>m. bound_to (ci_id n) m \<and> md_state m \<in> set [''RUNNING'', ''DEPLOYING'']) (db_deps d)))))
     (filter (fresh_ready (db_now d)) (db_nodes d)))"

definition ready_entry ::
  "node \<times> string option \<times> string \<times> string option
    \<Rightarrow> xds_entry \<times> string option \<times> string option \<times> time option" where
  "ready_entry = (\<lambda>(n, e, m, ep).
     (\<lparr>xe_id = ci_id n, xe_url = node_url n, xe_pool_id = ci_pool_id n, xe_engine = e,
       xe_model = (if m = [] then ''__default__'' else m), xe_healthy = (50 \<le> ci_health_score n)\<rparr>,
      ci_expose_url n, ep, ci_last_heartbeat n))"

definition get_ready_nodes ::
  "db \<Rightarrow> (xds_entry \<times> string option \<times> string option \<times> time option) list" where
  "get_ready_nodes d =
     map ready_entry (sort_key (\<lambda>(n, e, m, ep). (ci_id n, engine_key e, m)) (ready_rows d))"

section \<open>Lemmas\<close>

lemma served_model_nonempty [simp]: "served_model m \<noteq> []"
  by (auto simp: served_model_def coalesce_def nonempty_str_def split: option.splits if_splits)

lemma in_xds_rows:
  "(n, e, k) \<in> set (xds_rows d) \<longleftrightarrow> n \<in> set (db_nodes d) \<and> ci_state n \<noteq> ''terminated''
   \<and> (\<exists>m \<in> set (db_deps d). bound_to (ci_id n) m \<and> md_state m \<in> {''RUNNING'', ''DEPLOYING'', ''PENDING_NODE''}
        \<and> e = md_engine m \<and> k = served_model m)"
  by (auto simp: xds_rows_def)

lemma xds_of_row:
  assumes "n \<in> set (db_nodes d)" "m \<in> set (db_deps d)" "ci_state n \<noteq> ''terminated''" "bound_to (ci_id n) m"
    and "md_state m \<in> {''RUNNING'', ''DEPLOYING'', ''PENDING_NODE''}" "node_url n = Some url" "url \<noteq> []"
  shows "\<lparr>xe_id = ci_id n, xe_url = Some url, xe_pool_id = ci_pool_id n, xe_engine = md_engine m,
      xe_model = served_model m, xe_healthy = (ci_state n = ''ready'' \<and> 50 \<le> ci_health_score n)\<rparr>
      \<in> set (list_xds_nodes d)"
proof -
  have "(n, md_engine m, served_model m) \<in> set (xds_rows d)"
    using assms by (auto simp: in_xds_rows)
  then show ?thesis
    unfolding list_xds_nodes_def set_concat set_map set_sort
    by (intro UN_I [of "xds_emit (n, md_engine m, served_model m)"] imageI UnionI)
      (auto simp: xds_emit_def assms)
qed

lemma in_ready_rows:
  "(n, e, k, ep) \<in> set (ready_rows d) \<longleftrightarrow> n \<in> set (db_nodes d) \<and> fresh_ready (db_now d) n
   \<and> (\<exists>m \<in> set (db_deps d). bound_to (ci_id n) m \<and> md_state m \<in> {''RUNNING'', ''DEPLOYING''}
        \<and> e = md_engine m \<and> k = served_model m \<and> ep = md_endpoint m)"
  by (auto simp: ready_rows_def)

lemma in_ready:
  assumes "(x, u, ep, hb) \<in> set (get_ready_nodes d)"
  obtains n m where "n \<in> set (db_nodes d)" "m \<in> set (db_deps d)" "fresh_ready (db_now d) n"
    "bound_to (ci_id n) m" "md_state m \<in> {''RUNNING'', ''DEPLOYING''}" "hb = ci_last_heartbeat n"
    "x = \<lparr>xe_id = ci_id n, xe_url = node_url n, xe_pool_id = ci_pool_id n, xe_engine = md_engine m,
          xe_model = served_model m, xe_healthy = (50 \<le> ci_health_score n)\<rparr>"
proof -
  obtain n e k where row: "(n, e, k, ep) \<in> set (ready_rows d)" "(x, u, ep, hb) = ready_entry (n, e, k, ep)"
    using assms unfolding get_ready_nodes_def set_map set_sort by (auto simp: ready_entry_def)
  then obtain m where "m \<in> set (db_deps d)" "bound_to (ci_id n) m" "md_state m \<in> {''RUNNING'', ''DEPLOYING''}"
    "e = md_engine m" "k = served_model m"
    unfolding in_ready_rows by blast
  with row show thesis
    by (intro that [of n m]) (auto simp: in_ready_rows ready_entry_def)
qed

section \<open>Properties\<close>

text \<open>
  the two routing listings agree.  Every entry of \<^verbatim>\<open>get_ready_nodes\<close> with a usable URL is an
  entry of \<^verbatim>\<open>list_xds_nodes\<close> with the same health; both list a node only for a model some
  deployment bound to it serves, and a node with no such deployment never takes traffic.
\<close>

theorem ready_nodes_are_xds_nodes:
  assumes "(x, u, ep, hb) \<in> set (get_ready_nodes d)" "xe_url x = Some url" "url \<noteq> []"
  shows "x \<in> set (list_xds_nodes d)
    \<and> (\<exists>m \<in> set (db_deps d). bound_to (xe_id x) m \<and> xe_model x = served_model m \<and> xe_engine x = md_engine m
         \<and> md_state m \<in> {''RUNNING'', ''DEPLOYING''})
    \<and> (\<exists>t. hb = Some t \<and> db_now d - 300 < t)"
proof -
  obtain n m where nm: "n \<in> set (db_nodes d)" "m \<in> set (db_deps d)" "fresh_ready (db_now d) n"
    "bound_to (ci_id n) m" "md_state m \<in> {''RUNNING'', ''DEPLOYING''}" "hb = ci_last_heartbeat n"
    "x = \<lparr>xe_id = ci_id n, xe_url = node_url n, xe_pool_id = ci_pool_id n, xe_engine = md_engine m,
          xe_model = served_model m, xe_healthy = (50 \<le> ci_health_score n)\<rparr>"
    using in_ready [OF assms(1)] by blast
  have "node_url n = Some url" "url \<noteq> []"
    using assms(2,3) nm(7) by auto
  moreover have "ci_state n = ''ready''"
    using nm(3) by (simp add: fresh_ready_def)
  ultimately have "x \<in> set (list_xds_nodes d)"
    using xds_of_row [OF nm(1,2) _ nm(4), of url] nm(5,7) by auto
  with nm show ?thesis
    by (auto simp: fresh_ready_def split: option.splits)
qed

section \<open>Witness\<close>

definition sample_serving :: db where
  "sample_serving = empty_db\<lparr>db_now := 1000,
     db_nodes := [(sample_node ''n1'' ''p'' ''ready'' 4 1)\<lparr>ci_expose_url := Some ''http://n1'', ci_last_heartbeat := Some 990\<rparr>],
     db_deps := [sample_dep ''m1'' ''p'' ''RUNNING'' (Some ''n1'') 1]\<rparr>"

theorem ready_nodes_are_xds_nodes_witness:
  "\<exists>x u ep hb. (x, u, ep, hb) \<in> set (get_ready_nodes sample_serving) \<and> x \<in> set (list_xds_nodes sample_serving)"
proof -
  have "\<exists>x u ep hb. (x, u, ep, hb) \<in> set (get_ready_nodes sample_serving) \<and> xe_url x = Some ''http://n1''"
    by (simp add: get_ready_nodes_def ready_rows_def ready_entry_def sample_serving_def sample_node_def
        sample_dep_def fresh_ready_def bound_to_def node_url_def or_str_def)
  with ready_nodes_are_xds_nodes show ?thesis by blast
qed

end
