(* ===== verification/PoolRepo.thy ===== *)
theory PoolRepo
  imports InventoryRepo
begin

text \<open>
  \<^verbatim>\<open>repositories/pool_repo.py\<close>, compute pools from creation to hard delete, and
  \<^verbatim>\<open>models/model_deployment/pool_placer.py\<close>, the decision where an incoming deployment goes.
\<close>

section \<open>Provider configuration\<close>

text \<open>
  \<^verbatim>\<open>decrypt\<close> is the Fernet decryption followed by \<^verbatim>\<open>json.loads\<close>; None when no key is set or it fails.
  The value of the settings row is given decoded.
\<close>

definition decrypt_value :: "(string \<Rightarrow> json option) \<Rightarrow> json option \<Rightarrow> json option" where
  "decrypt_value decrypt value = (case value of
     None \<Rightarrow> None
   | Some v \<Rightarrow> if \<not> truthy v then None
       else (case v of
         JObj kvs \<Rightarrow> (case map_of kvs ''data'' of
             Some (JStr s) \<Rightarrow> (case decrypt s of Some j \<Rightarrow> Some j | None \<Rightarrow> Some v)
           | _ \<Rightarrow> Some v)
       | _ \<Rightarrow> Some v))"

definition config_paths :: "(string \<times> string list) list" where
  "config_paths = [(''gcp'', [''cloud'', ''gcp'']), (''aws'', [''cloud'', ''aws'']),
     (''nosana'', [''depin'', ''nosana'']), (''akash'', [''depin'', ''akash''])]"

fun descend :: "json \<Rightarrow> string list \<Rightarrow> json option" where
  "descend v [] = Some v"
| "descend (JObj kvs) (k # ks) = descend (case map_of kvs k of None \<Rightarrow> JObj [] | Some v \<Rightarrow> v) ks"
| "descend _ (k # ks) = None"

definition get_provider_config :: "(string \<Rightarrow> json option) \<Rightarrow> json option \<Rightarrow> string \<Rightarrow> json" where
  "get_provider_config decrypt raw provider = (case decrypt_value decrypt raw of
     Some (JObj data) \<Rightarrow>
       if data = [] then JObj [] else
       let providers = (case map_of data ''providers'' of Some v \<Rightarrow> v | None \<Rightarrow> JObj data) in
       (case map_of config_paths provider of
          None \<Rightarrow> JObj []
        | Some path \<Rightarrow> (case descend providers path of Some v \<Rightarrow> v | None \<Rightarrow> JObj []))
   | _ \<Rightarrow> JObj [])"

text \<open>
  One entry of a key list; None is the AttributeError of \<^verbatim>\<open>.get\<close> on a value that is not a dictionary.
\<close>

definition entry_matches :: "string \<Rightarrow> json \<Rightarrow> bool option" where
  "entry_matches name entry = (case entry of
     JObj kvs \<Rightarrow> Some (jget kvs ''name'' = JStr name
                    \<and> truthy (case map_of kvs ''is_active'' of None \<Rightarrow> JBool True | Some v \<Rightarrow> v))
   | _ \<Rightarrow> None)"

fun any_entry :: "string \<Rightarrow> json list \<Rightarrow> bool option" where
  "any_entry name [] = Some False"
| "any_entry name (e # es) = (case entry_matches name e of
     None \<Rightarrow> None | Some True \<Rightarrow> Some True | Some False \<Rightarrow> any_entry name es)"

text \<open>Iterating over the value of a key list; a value that is not a list of dictionaries raises.\<close>

definition search_list :: "jobj \<Rightarrow> string \<Rightarrow> string \<Rightarrow> bool option" where
  "search_list cfg k name = (case map_of cfg k of
     None \<Rightarrow> Some False
   | Some (JArr es) \<Rightarrow> any_entry name es
   | Some (JStr s) \<Rightarrow> if s = [] then Some False else None
   | Some (JObj o') \<Rightarrow> if o' = [] then Some False else None
   | Some _ \<Rightarrow> None)"

text \<open>\<^verbatim>\<open>in_table\<close> is the answer of the fallback query, None when it raises.\<close>

definition credential_exists :: "json \<Rightarrow> string \<Rightarrow> bool option \<Rightarrow> bool option" where
  "credential_exists config name in_table =
    (let fallback = Some (case in_table of None \<Rightarrow> False | Some b \<Rightarrow> b) in
     if \<not> truthy config then fallback
     else case config of
       JObj cfg \<Rightarrow> (case search_list cfg ''api_keys'' name of
           None \<Rightarrow> None
         | Some True \<Rightarrow> Some True
         | Some False \<Rightarrow> (case search_list cfg ''wallets'' name of
             None \<Rightarrow> None
           | Some True \<Rightarrow> Some True
           | Some False \<Rightarrow> if name = ''default'' \<and> truthy (jget cfg ''api_key'') then Some True else fallback))
     | _ \<Rightarrow> None)"

section \<open>Pools\<close>

definition update_pools :: "(pool \<Rightarrow> bool) \<Rightarrow> (pool \<Rightarrow> pool) \<Rightarrow> db \<Rightarrow> db" where
  "update_pools p f d = d\<lparr>db_pools := sql_update p f (db_pools d)\<rparr>"

definition same_pool_name :: "pool \<Rightarrow> pool \<Rightarrow> bool" where
  "same_pool_name a b \<longleftrightarrow> cp_pool_name a = cp_pool_name b \<and> cp_owner_type a = cp_owner_type b
     \<and> cp_owner_id a \<noteq> None \<and> cp_owner_id a = cp_owner_id b"

definition pool_states :: "string list" where
  "pool_states = [''running'', ''terminating'', ''terminated'']"

definition insert_pool :: "pool \<Rightarrow> db \<Rightarrow> (db \<times> uuid) tx" where
  "insert_pool p d =
    (if cp_lifecycle_state p \<notin> set pool_states then Inl (InvalidEnum ''pool_lifecycle_state'')
     else if cp_id p \<in> cp_id ` set (db_pools d) then Inl (UniqueViolation ''compute_pools.id'')
     else if sql_count (same_pool_name p) (db_pools d) > 0
     then Inl (UniqueViolation ''compute_pools.pool_name_owner_type_owner_id'')
     else Inr (d\<lparr>db_pools := db_pools d @ [p]\<rparr>, cp_id p))"

definition blank_pool :: "uuid \<Rightarrow> string \<Rightarrow> string \<Rightarrow> string option \<Rightarrow> string \<Rightarrow> time \<Rightarrow> pool" where
  "blank_pool i name owner_type owner_id prov now = \<lparr>cp_id = i, cp_pool_name = name,
     cp_owner_type = owner_type, cp_owner_id = owner_id, cp_org_id = None, cp_provider = prov,
     cp_pool_type = ''job'', cp_allowed_gpu_types = [], cp_gpu_count = 1, cp_max_cost_per_hour = 0,
     cp_is_dedicated = False, cp_is_active = True, cp_lifecycle_state = ''running'',
     cp_scheduling_policy = [], cp_provider_pool_id = None, cp_provider_credential_name = None,
     cp_cluster_id = None, cp_region_constraint = None, cp_max_nodes = None,
     cp_inference_token = None, cp_metadata = None, cp_created_at = now, cp_updated_at = now\<rparr>"

record pool_data =
  pd_pool_name :: string
  pd_owner_type :: string
  pd_owner_id :: "string option"
  pd_provider :: string
  pd_pool_type :: "string option"
  pd_allowed_gpu_types :: "string list"
  pd_max_cost_per_hour :: real
  pd_is_dedicated :: bool
  pd_scheduling_policy :: jobj
  pd_provider_pool_id :: "string option"
  pd_provider_credential_name :: "string option"
  pd_cluster_id :: "string option"
  pd_region_constraint :: "string list option"
  pd_is_active :: "bool option"
  pd_lifecycle_state :: "string option"
  pd_gpu_count :: "int option"

definition dflt :: "'a \<Rightarrow> 'a option \<Rightarrow> 'a" where
  "dflt x v = (case v of None \<Rightarrow> x | Some y \<Rightarrow> y)"

definition create_pool :: "uuid \<Rightarrow> pool_data \<Rightarrow> db \<Rightarrow> (db \<times> uuid) tx" where
  "create_pool i data d = insert_pool
     ((blank_pool i (pd_pool_name data) (pd_owner_type data) (pd_owner_id data) (pd_provider data) (db_now d))
      \<lparr>cp_pool_type := dflt ''job'' (pd_pool_type data), cp_allowed_gpu_types := pd_allowed_gpu_types data,
       cp_max_cost_per_hour := pd_max_cost_per_hour data, cp_is_dedicated := pd_is_dedicated data,
       cp_scheduling_policy := pd_scheduling_policy data, cp_provider_pool_id := pd_provider_pool_id data,
       cp_provider_credential_name := pd_provider_credential_name data,
       cp_cluster_id := pd_cluster_id data, cp_region_constraint := pd_region_constraint data,
       cp_is_active := dflt True (pd_is_active data),
       cp_lifecycle_state := dflt ''running'' (pd_lifecycle_state data),
       cp_gpu_count := dflt 1 (pd_gpu_count data)\<rparr>) d"

definition update_pool :: "uuid \<Rightarrow> string list \<Rightarrow> real \<Rightarrow> bool \<Rightarrow> db \<Rightarrow> db" where
  "update_pool pid gpu_types max_cost dedicated d = update_pools (\<lambda>p. cp_id p = pid \<and> cp_is_active p)
     (\<lambda>p. p\<lparr>cp_allowed_gpu_types := gpu_types, cp_max_cost_per_hour := max_cost,
            cp_is_dedicated := dedicated, cp_updated_at := db_now d\<rparr>) d"

definition soft_delete_pool :: "uuid \<Rightarrow> db \<Rightarrow> db" where
  "soft_delete_pool pid d = update_pools (\<lambda>p. cp_id p = pid)
     (\<lambda>p. p\<lparr>cp_is_active := False, cp_updated_at := db_now d\<rparr>) d"

text \<open>The link table \<^verbatim>\<open>compute_pool_provider_resources\<close>: (pool, resource) to (priority, enabled).\<close>

type_synonym bindings = "((uuid \<times> uuid) \<times> int \<times> bool) list"

definition bind_provider_resource :: "uuid \<Rightarrow> uuid \<Rightarrow> int \<Rightarrow> bindings \<Rightarrow> bindings" where
  "bind_provider_resource pid res priority b = AList.update (pid, res) (priority, True) b"

definition unbind_provider_resource :: "uuid \<Rightarrow> uuid \<Rightarrow> bindings \<Rightarrow> bindings" where
  "unbind_provider_resource pid res b =
     map (\<lambda>(k, pr, en). if k = (pid, res) then (k, pr, False) else (k, pr, en)) b"

definition list_pool_inventory :: "uuid \<Rightarrow> db \<Rightarrow> node list" where
  "list_pool_inventory pid d = filter (\<lambda>n. ci_pool_id n = pid) (db_nodes d)"

definition get_pool :: "uuid \<Rightarrow> db \<Rightarrow> pool option" where
  "get_pool pid d = find (\<lambda>p. cp_id p = pid \<and> cp_is_active p) (db_pools d)"

definition list_pools :: "string option \<Rightarrow> nat \<Rightarrow> nat \<Rightarrow> db \<Rightarrow> pool list" where
  "list_pools owner_id limit offset d =
    (let own = (\<lambda>p. case owner_id of None \<Rightarrow> True | Some o' \<Rightarrow> o' = [] \<or> cp_owner_id p = Some o')
     in take limit (drop offset (sort_key (\<lambda>p. - cp_created_at p)
          (filter (\<lambda>p. cp_is_active p \<and> own p) (db_pools d)))))"

definition update_pool_cluster_id :: "uuid \<Rightarrow> string \<Rightarrow> db \<Rightarrow> db" where
  "update_pool_cluster_id pid cluster_id d = update_pools (\<lambda>p. cp_id p = pid)
     (\<lambda>p. p\<lparr>cp_cluster_id := Some cluster_id, cp_updated_at := db_now d\<rparr>) d"

definition get_cluster_id :: "uuid \<Rightarrow> db \<Rightarrow> string option" where
  "get_cluster_id pid d = Option.bind (find (\<lambda>p. cp_id p = pid) (db_pools d)) cp_cluster_id"

definition set_pool_active :: "uuid \<Rightarrow> bool \<Rightarrow> db \<Rightarrow> db" where
  "set_pool_active pid active d = update_pools (\<lambda>p. cp_id p = pid)
     (\<lambda>p. p\<lparr>cp_is_active := active, cp_updated_at := db_now d\<rparr>) d"

definition set_pool_lifecycle_state :: "uuid \<Rightarrow> string \<Rightarrow> db \<Rightarrow> db tx" where
  "set_pool_lifecycle_state pid st d =
    (if st \<notin> set pool_states then Inl (InvalidEnum ''pool_lifecycle_state'')
     else Inr (update_pools (\<lambda>p. cp_id p = pid \<and> cp_is_active p)
       (\<lambda>p. p\<lparr>cp_lifecycle_state := st, cp_updated_at := db_now d\<rparr>) d))"

definition occupies_slot :: "uuid \<Rightarrow> node \<Rightarrow> bool" where
  "occupies_slot pid n \<longleftrightarrow> ci_pool_id n = pid \<and> ci_state n \<in> set [''ready'', ''provisioning''] \<and> \<not> terminating n"

definition count_nodes :: "uuid \<Rightarrow> db \<Rightarrow> nat" where
  "count_nodes pid d = sql_count (occupies_slot pid) (db_nodes d)"

definition count_live_inventory :: "uuid \<Rightarrow> db \<Rightarrow> nat" where
  "count_live_inventory pid d = sql_count (\<lambda>n. ci_pool_id n = pid) (db_nodes d)"

definition get_lifecycle_state :: "uuid \<Rightarrow> db \<Rightarrow> string option" where
  "get_lifecycle_state pid d = map_option cp_lifecycle_state (find (\<lambda>p. cp_id p = pid) (db_pools d))"

definition finalize_pool_delete :: "uuid \<Rightarrow> db \<Rightarrow> (db \<times> bool) tx" where
  "finalize_pool_delete pid d =
    (let d1 = d\<lparr>db_events := sql_delete (\<lambda>e. ev_pool_id e = pid) (db_events d)\<rparr>;
         d2 = d1\<lparr>db_tokens := sql_delete (\<lambda>t. bt_pool_id t = pid) (db_tokens d1)\<rparr>;
         d3 = update_deps (\<lambda>m. md_target_pool_id m = Some pid) (\<lambda>m. m\<lparr>md_target_pool_id := None\<rparr>) d2;
         res = cmd_status ''DELETE'' (sql_count (\<lambda>p. cp_id p = pid) (db_pools d3))
     in case delete_pool_row pid d3 of
          Inl e \<Rightarrow> Inl e
        | Inr d4 \<Rightarrow> Inr (d4, last (rsplit1 CHR '' '' res) = ''1''))"

section \<open>Inference tokens and the default pool\<close>

text \<open>\<^verbatim>\<open>proposed\<close> is the fresh \<^verbatim>\<open>secrets.token_urlsafe(32)\<close>.\<close>

definition get_or_generate_inference_token :: "string \<Rightarrow> uuid \<Rightarrow> db \<Rightarrow> db \<times> string option" where
  "get_or_generate_inference_token proposed pid d =
    (case Option.bind (find (\<lambda>p. cp_id p = pid) (db_pools d)) cp_inference_token of
       Some t \<Rightarrow> if t \<noteq> [] then (d, Some t)
         else (update_pools (\<lambda>p. cp_id p = pid) (\<lambda>p. p\<lparr>cp_inference_token := coalesce (cp_inference_token p) (Some proposed),
                 cp_updated_at := db_now d\<rparr>) d, Some t)
     | None \<Rightarrow>
         let upd = (\<lambda>p. p\<lparr>cp_inference_token := coalesce (cp_inference_token p) (Some proposed),
                          cp_updated_at := db_now d\<rparr>)
         in (update_pools (\<lambda>p. cp_id p = pid) upd d,
             Option.bind (find (\<lambda>p. cp_id p = pid) (db_pools d)) (\<lambda>p. cp_inference_token (upd p))))"

definition rotate_inference_token :: "string \<Rightarrow> uuid \<Rightarrow> db \<Rightarrow> db \<times> string option" where
  "rotate_inference_token new_value pid d =
    (update_pools (\<lambda>p. cp_id p = pid)
       (\<lambda>p. p\<lparr>cp_inference_token := Some new_value, cp_updated_at := db_now d\<rparr>) d,
     map_option (\<lambda>p. new_value) (find (\<lambda>p. cp_id p = pid) (db_pools d)))"

definition is_default_pool :: "string \<Rightarrow> pool \<Rightarrow> bool" where
  "is_default_pool org p \<longleftrightarrow> cp_owner_type p = ''organization'' \<and> cp_owner_id p = Some org
     \<and> cp_pool_name p = ''__default__''"

definition insert_default_pool :: "uuid \<Rightarrow> string \<Rightarrow> db \<Rightarrow> (db \<times> uuid) tx" where
  "insert_default_pool i org d = insert_pool
     ((blank_pool i ''__default__'' ''organization'' (Some org) ''on_prem'' (db_now d))
      \<lparr>cp_allowed_gpu_types := [''any''], cp_provider_pool_id := Some (''default:'' @ org)\<rparr>) d"

definition ensure_default_pool :: "uuid \<Rightarrow> string \<Rightarrow> db \<Rightarrow> (db \<times> uuid) tx" where
  "ensure_default_pool i org d = (case find (is_default_pool org) (db_pools d) of
     Some p \<Rightarrow> Inr (d, cp_id p)
   | None \<Rightarrow> insert_default_pool i org d)"

section \<open>Placement\<close>

datatype placement = BindToReady uuid | CoWaitOnProvisioning uuid | ColdStart int string

datatype place_error = PoolAtCapacity int int | PoolNotFound uuid

text \<open>\<^verbatim>\<open>locked\<close> are the node ids locked by concurrent transactions.\<close>

definition has_slot :: "uuid list \<Rightarrow> uuid \<Rightarrow> int \<Rightarrow> node \<Rightarrow> bool" where
  "has_slot locked pid gpu_required n \<longleftrightarrow> occupies_slot pid n
     \<and> (case ci_gpu_total n of None \<Rightarrow> False | Some t \<Rightarrow> t - ci_gpu_allocated n \<ge> gpu_required)
     \<and> ci_id n \<notin> set locked"

definition free_gpus :: "node \<Rightarrow> int" where
  "free_gpus n = (case ci_gpu_total n of None \<Rightarrow> 0 | Some t \<Rightarrow> t) - ci_gpu_allocated n"

definition place_key :: "node \<Rightarrow> int \<times> int" where
  "place_key n = (if ci_state n = ''ready'' then 0 else 1, free_gpus n)"

definition place :: "uuid list \<Rightarrow> uuid \<Rightarrow> int \<Rightarrow> db \<Rightarrow> place_error + placement" where
  "place locked pid gpu_required d =
    (case sql_first_by place_key (has_slot locked pid gpu_required) (db_nodes d) of
       Some n \<Rightarrow> if ci_state n = ''ready'' then Inr (BindToReady (ci_id n)) else Inr (CoWaitOnProvisioning (ci_id n))
     | None \<Rightarrow> (case find (\<lambda>p. cp_id p = pid) (db_pools d) of
         None \<Rightarrow> Inl (PoolNotFound pid)
       | Some p \<Rightarrow>
           let current = int (count_nodes pid d) in
           (case cp_max_nodes p of
              Some mx \<Rightarrow> if current \<ge> mx then Inl (PoolAtCapacity current mx)
                         else Inr (ColdStart (cp_gpu_count p) (cp_provider p))
            | None \<Rightarrow> Inr (ColdStart (cp_gpu_count p) (cp_provider p)))))"

section \<open>Lemmas\<close>

lemma detach_target_refs:
  assumes "refs_ok d"
  shows "refs_ok (update_deps (\<lambda>m. md_target_pool_id m = Some pid) (\<lambda>m. m\<lparr>md_target_pool_id := None\<rparr>)
     (d\<lparr>db_events := es, db_tokens := sql_delete q (db_tokens d)\<rparr>))"
  using assms
  by (simp add: refs_ok_def update_deps_def list_all_iff cong: option.case_cong)
    (auto simp: in_sql_update)

lemma detached_no_target:
  "\<forall>m \<in> set (sql_update (\<lambda>m. md_target_pool_id m = Some pid) (\<lambda>m. m\<lparr>md_target_pool_id := None\<rparr>) ms).
     md_target_pool_id m \<noteq> Some pid"
  by (induction ms) auto

lemma last_status: "last (rsplit1 CHR '' '' (cmd_status cmd n)) = ''1'' \<longleftrightarrow> n = 1"
  by (simp add: dec_nat_one)

lemma finalize_Inr:
  assumes "count_live_inventory pid d = 0"
  defines "deps \<equiv> sql_update (\<lambda>m. md_target_pool_id m = Some pid) (\<lambda>m. m\<lparr>md_target_pool_id := None\<rparr>) (db_deps d)"
  shows "finalize_pool_delete pid d = Inr (
     let d3 = d\<lparr>db_events := sql_delete (\<lambda>e. ev_pool_id e = pid) (db_events d),
                db_tokens := sql_delete (\<lambda>t. bt_pool_id t = pid) (db_tokens d), db_deps := deps\<rparr>
     in (if sql_count (\<lambda>p. cp_id p = pid) (db_pools d) = 0 then d3
         else d3\<lparr>db_pools := sql_delete (\<lambda>p. cp_id p = pid) (db_pools d),
                 db_deps := sql_delete (\<lambda>m. md_pool_id m = pid) deps,
                 db_scalers := sql_delete (\<lambda>s. as_pool_id s = pid) (db_scalers d)\<rparr>),
     sql_count (\<lambda>p. cp_id p = pid) (db_pools d) = 1)"
proof -
  have nodes: "filter (\<lambda>n. ci_pool_id n = pid) (db_nodes d) = []"
    "sql_delete (\<lambda>n. ci_pool_id n = pid) (db_nodes d) = db_nodes d"
    using assms(1) by (auto simp: count_live_inventory_def sql_count_0 filter_empty_conv sql_delete_id)
  have none: "sql_count (\<lambda>m. md_target_pool_id m = Some pid) (sql_delete (\<lambda>m. md_pool_id m = pid) deps) = 0"
    using detached_no_target [of pid "db_deps d"] by (simp add: sql_count_0 deps_def)
  define d3 where "d3 = d\<lparr>db_events := sql_delete (\<lambda>e. ev_pool_id e = pid) (db_events d),
                db_tokens := sql_delete (\<lambda>t. bt_pool_id t = pid) (db_tokens d), db_deps := deps\<rparr>"
  have never: "sql_delete (\<lambda>x. False) t = t" "sql_count (\<lambda>x. False) t' = 0" for t :: "'a list" and t' :: "'b list"
    by (simp_all add: sql_delete_def sql_count_def)
  have twice: "sql_delete q (sql_delete q t) = sql_delete q t" for q and t :: "bootstrap_token list"
    by (simp add: sql_delete_def)
  have "delete_pool_row pid d3 = Inr (if sql_count (\<lambda>p. cp_id p = pid) (db_pools d) = 0 then d3
         else d3\<lparr>db_pools := sql_delete (\<lambda>p. cp_id p = pid) (db_pools d),
                 db_deps := sql_delete (\<lambda>m. md_pool_id m = pid) deps,
                 db_scalers := sql_delete (\<lambda>s. as_pool_id s = pid) (db_scalers d)\<rparr>)"
    using none nodes unfolding delete_pool_row_def Let_def d3_def by (simp add: never twice)
  then show ?thesis
    unfolding finalize_pool_delete_def update_deps_def Let_def d3_def [symmetric] deps_def
    by (simp add: last_status d3_def deps_def del: rsplit1_cmd_status)
qed

section \<open>Properties\<close>

text \<open>
  hard-deleting an empty pool always commits and leaves no residue.  For a pool without
  inventory rows the transaction meets no foreign key violation; afterwards no pool row, event,
  bootstrap token, autoscaler row or deployment refers to it, all other references are intact, the
  result says whether the row existed, and a second call reports False and changes nothing.
\<close>

theorem finalize_pool_complete:
  assumes "refs_ok d" "keys_ok d" "count_live_inventory pid d = 0"
  shows "\<exists>d'. finalize_pool_delete pid d = Inr (d', pid \<in> cp_id ` set (db_pools d))
     \<and> pid \<notin> cp_id ` set (db_pools d') \<and> pid \<notin> ev_pool_id ` set (db_events d')
     \<and> pid \<notin> bt_pool_id ` set (db_tokens d') \<and> pid \<notin> as_pool_id ` set (db_scalers d')
     \<and> pid \<notin> md_pool_id ` set (db_deps d') \<and> Some pid \<notin> md_target_pool_id ` set (db_deps d')
     \<and> refs_ok d' \<and> finalize_pool_delete pid d' = Inr (d', False)"
proof -
  have one: "sql_count (\<lambda>p. cp_id p = pid) (db_pools d) = (if pid \<in> cp_id ` set (db_pools d) then 1 else 0)"
    using sql_count_key [of cp_id "db_pools d" "\<lambda>p. cp_id p = pid" pid] assms(2)
    by (auto simp: keys_ok_def image_iff)
  obtain d' where fin: "finalize_pool_delete pid d = Inr (d', pid \<in> cp_id ` set (db_pools d))"
    using finalize_Inr [OF assms(3)] one by (simp add: Let_def)
  note eq = fin [unfolded finalize_Inr [OF assms(3)] Let_def one]
  have refs: "refs_ok d'"
    using delete_pool_row_refs [OF detach_target_refs [OF assms(1)]] fin
    unfolding finalize_pool_delete_def Let_def by (auto split: sum.splits)
  have target: "Some pid \<notin> md_target_pool_id ` set (db_deps d')"
    using eq detached_no_target [of pid "db_deps d"] by (force split: if_splits)
  have pool: "pid \<notin> cp_id ` set (db_pools d')"
    using eq by (auto split: if_splits)
  have owned: "pid \<notin> as_pool_id ` set (db_scalers d')" "pid \<notin> md_pool_id ` set (db_deps d')"
    "pid \<notin> bt_pool_id ` set (db_tokens d')" "pid \<notin> ci_pool_id ` set (db_nodes d')"
    using refs pool by (force simp: refs_ok_def list_all_iff)+
  have events: "pid \<notin> ev_pool_id ` set (db_events d')"
    using eq by (auto split: if_splits)
  have "finalize_pool_delete pid d' = Inr (d', False)"
  proof -
    have live: "count_live_inventory pid d' = 0"
      using owned(4) by (auto simp: count_live_inventory_def sql_count_0)
    have "sql_update (\<lambda>m. md_target_pool_id m = Some pid) (\<lambda>m. m\<lparr>md_target_pool_id := None\<rparr>) (db_deps d') = db_deps d'"
      by (rule sql_update_none) (use target in \<open>force simp: sql_count_0\<close>)
    moreover have "sql_delete (\<lambda>e. ev_pool_id e = pid) (db_events d') = db_events d'"
      "sql_delete (\<lambda>t. bt_pool_id t = pid) (db_tokens d') = db_tokens d'"
      by (rule sql_delete_id, use events owned(3) in force)+
    moreover have "sql_count (\<lambda>p. cp_id p = pid) (db_pools d') = 0"
      using pool by (auto simp: sql_count_0)
    ultimately show ?thesis
      unfolding finalize_Inr [OF live] by simp
  qed
  with fin pool events owned target refs show ?thesis by blast
qed

text \<open>
  placement is sound and prefers warm, tight slots.  A bind or co-wait names a node of the
  pool on which the reservation then succeeds; a warm node is taken before a booting one and the
  tightest fit before a looser one.  A cold start means no unlocked node has room and the pool
  has a slot left; the capacity error means no node has room and the pool is full.
\<close>

theorem place_sound:
  assumes "distinct (map ci_id (db_nodes d))"
  shows "case place locked pid g d of
     Inr (BindToReady nid) \<Rightarrow> snd (allocate_gpu nid g d)
       \<and> (\<exists>n. get_node_row nid d = Some n \<and> ci_pool_id n = pid \<and> ci_state n = ''ready'' \<and> nid \<notin> set locked
            \<and> (\<forall>k \<in> set (db_nodes d). has_slot locked pid g k \<and> ci_state k = ''ready'' \<longrightarrow> free_gpus n \<le> free_gpus k))
   | Inr (CoWaitOnProvisioning nid) \<Rightarrow> snd (allocate_gpu nid g d)
       \<and> (\<exists>n. get_node_row nid d = Some n \<and> ci_pool_id n = pid \<and> ci_state n = ''provisioning'' \<and> nid \<notin> set locked)
       \<and> (\<forall>k \<in> set (db_nodes d). has_slot locked pid g k \<longrightarrow> ci_state k \<noteq> ''ready'')
   | Inr (ColdStart gpus prov) \<Rightarrow> (\<forall>k \<in> set (db_nodes d). \<not> has_slot locked pid g k)
       \<and> (\<exists>p \<in> set (db_pools d). cp_id p = pid \<and> gpus = cp_gpu_count p
            \<and> (\<forall>mx. cp_max_nodes p = Some mx \<longrightarrow> int (count_nodes pid d) < mx))
   | Inl (PoolAtCapacity cur mx) \<Rightarrow> (\<forall>k \<in> set (db_nodes d). \<not> has_slot locked pid g k)
       \<and> cur = int (count_nodes pid d) \<and> mx \<le> cur
   | Inl (PoolNotFound q) \<Rightarrow> pid \<notin> cp_id ` set (db_pools d)"
proof (cases "sql_first_by place_key (has_slot locked pid g) (db_nodes d)")
  case None
  then have none: "\<forall>k \<in> set (db_nodes d). \<not> has_slot locked pid g k"
    by (simp add: sql_first_by_None)
  show ?thesis
  proof (cases "find (\<lambda>p. cp_id p = pid) (db_pools d)")
    case None
    then have "place locked pid g d = Inl (PoolNotFound pid)"
      using \<open>sql_first_by place_key (has_slot locked pid g) (db_nodes d) = None\<close> by (simp add: place_def)
    with None show ?thesis by (auto simp: find_none)
  next
    case (Some p)
    from find_in [OF Some] have p: "p \<in> set (db_pools d)" "cp_id p = pid" by simp_all
    show ?thesis
    proof (cases "cp_max_nodes p")
      case None
      then have "place locked pid g d = Inr (ColdStart (cp_gpu_count p) (cp_provider p))"
        using \<open>sql_first_by place_key (has_slot locked pid g) (db_nodes d) = None\<close> Some by (simp add: place_def)
      with none p None show ?thesis by (simp add: bexI [of _ p])
    next
      case (Some mx)
      then have "place locked pid g d = (if int (count_nodes pid d) \<ge> mx
          then Inl (PoolAtCapacity (int (count_nodes pid d)) mx) else Inr (ColdStart (cp_gpu_count p) (cp_provider p)))"
        using \<open>sql_first_by place_key (has_slot locked pid g) (db_nodes d) = None\<close>
          \<open>find (\<lambda>p. cp_id p = pid) (db_pools d) = Some p\<close> by (simp add: place_def)
      with none p Some show ?thesis by (auto intro!: bexI [of _ p])
    qed
  qed
next
  case (Some n)
  note first = sql_first_by_Some [OF Some]
  have row: "get_node_row (ci_id n) d = Some n"
    using first(1) assms by (simp add: get_node_row_def find_key_Some)
  have fits: "snd (allocate_gpu (ci_id n) g d)"
    using allocate_gpu_row(2) [OF row assms refl] first(2)
    by (auto simp: gpu_fits_def has_slot_def occupies_slot_def split: option.splits)
  have best: "place_key n \<le> place_key k" if "k \<in> set (db_nodes d)" "has_slot locked pid g k" for k
    using first(3) that by blast
  show ?thesis
  proof (cases "ci_state n = ''ready''")
    case True
    then have "place locked pid g d = Inr (BindToReady (ci_id n))"
      using Some by (simp add: place_def)
    with True row fits first(2) best show ?thesis
      by (fastforce simp: has_slot_def occupies_slot_def place_key_def less_eq_prod_def)
  next
    case False
    then have "place locked pid g d = Inr (CoWaitOnProvisioning (ci_id n))"
      using Some by (simp add: place_def)
    with False row fits first(2) best show ?thesis
      by (fastforce simp: has_slot_def occupies_slot_def place_key_def less_eq_prod_def)
  qed
qed

text \<open>
  first callers agree on the pool's inference token.  Whatever each of two callers proposes,
  both get the token of the first one, until it is rotated, and then the rotated one.
\<close>

theorem inference_token_converges:
  assumes "pid \<in> cp_id ` set (db_pools d)" "t1 \<noteq> []"
  shows "let (d1, a) = get_or_generate_inference_token t1 pid d;
             (d2, b) = get_or_generate_inference_token t2 pid d1;
             (d3, c) = rotate_inference_token t3 pid d2
         in a \<noteq> None \<and> (a \<noteq> Some [] \<longrightarrow> b = a \<and> d2 = d1) \<and> c = Some t3
            \<and> (t3 \<noteq> [] \<longrightarrow> get_or_generate_inference_token t4 pid d3 = (d3, Some t3))"
proof -
  obtain p where p: "find (\<lambda>p. cp_id p = pid) (db_pools d) = Some p"
    using assms(1) by (cases "find (\<lambda>p. cp_id p = pid) (db_pools d)") (auto simp: find_none)
  have upd: "find (\<lambda>p. cp_id p = pid) (db_pools (update_pools (\<lambda>p. cp_id p = pid) f e)) =
      map_option f (find (\<lambda>p. cp_id p = pid) (db_pools e))" if "\<And>p. cp_id (f p) = cp_id p" for f e
  proof -
    have "find (\<lambda>p. cp_id p = pid) (db_pools (update_pools (\<lambda>p. cp_id p = pid) f e)) =
        map_option (\<lambda>p. if cp_id p = pid then f p else p) (find (\<lambda>p. cp_id p = pid) (db_pools e))"
      unfolding update_pools_def using that find_sql_update [of cp_id f pid] by simp
    also have "\<dots> = map_option f (find (\<lambda>p. cp_id p = pid) (db_pools e))"
      by (cases "find (\<lambda>p. cp_id p = pid) (db_pools e)") (auto dest: find_in)
    finally show ?thesis .
  qed
  show ?thesis
    using p assms(2)
    by (cases "cp_inference_token p")
      (auto simp: get_or_generate_inference_token_def rotate_inference_token_def upd coalesce_def Let_def)
qed

section \<open>Witnesses\<close>

definition sample_empty_pool :: db where
  "sample_empty_pool = empty_db\<lparr>db_pools := [sample_pool ''p'' ''terminating'', sample_pool ''q'' ''running''],
     db_deps := [(sample_dep ''m1'' ''q'' ''STOPPED'' None 1)\<lparr>md_target_pool_id := Some ''p''\<rparr>]\<rparr>"

theorem finalize_pool_complete_witness:
  "\<exists>d'. finalize_pool_delete ''p'' sample_empty_pool = Inr (d', True) \<and> ''p'' \<notin> cp_id ` set (db_pools d')"
proof -
  have "refs_ok sample_empty_pool" "keys_ok sample_empty_pool" "count_live_inventory ''p'' sample_empty_pool = 0"
    by (simp_all add: sample_empty_pool_def refs_ok_def keys_ok_def count_live_inventory_def sample_pool_def
        sample_dep_def empty_db_def)
  from finalize_pool_complete [OF this] show ?thesis
    by (force simp: sample_empty_pool_def sample_pool_def)
qed

theorem place_sound_witness:
  "place [] ''p'' 2 sample_fleet = Inr (BindToReady ''n1'') \<and> snd (allocate_gpu ''n1'' 2 sample_fleet)"
proof -
  have "place [] ''p'' 2 sample_fleet = Inr (BindToReady ''n1'')"
    by (simp add: place_def sql_first_by_def sample_fleet_def sample_node_def has_slot_def occupies_slot_def
        terminating_def meta_field_def jfield_def jget_def place_key_def free_gpus_def less_eq_prod_def)
  with place_sound [OF sample_fleet_rows(1), of "[]" "''p''" 2] show ?thesis by simp
qed

theorem inference_token_converges_witness:
  "fst (get_or_generate_inference_token ''b'' ''p'' (fst (get_or_generate_inference_token ''a'' ''p'' sample_empty_pool)))
    = fst (get_or_generate_inference_token ''a'' ''p'' sample_empty_pool)"
proof -
  have "snd (get_or_generate_inference_token ''a'' ''p'' sample_empty_pool) = Some ''a''"
    by (simp add: sample_empty_pool_def sample_pool_def get_or_generate_inference_token_def coalesce_def)
  moreover have "''p'' \<in> cp_id ` set (db_pools sample_empty_pool)"
    by (simp add: sample_empty_pool_def sample_pool_def)
  ultimately show ?thesis
    using inference_token_converges [of "''p''" sample_empty_pool "''a''" "''b''" "''c''" "''d''"]
    by (simp add: split_def Let_def)
qed

end
