(* ===== verification/Jwt.thy ===== *)
theory Jwt
  imports Prelude "HOL-Library.Countable"
begin

text \<open>
  The JWT library the services use: \<^verbatim>\<open>jl_encode\<close> signs a payload with a key and an algorithm, \<^verbatim>\<open>jl_decode\<close> returns the
  payload of a token it accepts at the given time, or the text of the exception.
\<close>

record jwt_lib =
  jl_encode :: "jobj \<Rightarrow> string \<Rightarrow> string \<Rightarrow> string"
  jl_decode :: "int \<Rightarrow> string \<Rightarrow> string \<Rightarrow> string \<Rightarrow> string + jobj"

text \<open>
  The documented behaviour of the JWT library for symmetric keys: a token it signed decodes to its payload until it
  expires, under the same key and algorithm.
\<close>

definition jwt_laws :: "jwt_lib \<Rightarrow> bool" where
  "jwt_laws lib \<longleftrightarrow> (\<forall>p key alg now e. jget p ''exp'' = JInt e \<longrightarrow> now < e \<longrightarrow> jl_decode lib now (jl_encode lib p key alg) key alg = Inr p)"

text \<open>A library whose tokens are the number of the signed triple, in unary.\<close>

instance json :: countable
  by countable_datatype

definition unary_jwt :: jwt_lib where
  "unary_jwt = \<lparr>jl_encode = (\<lambda>p k a. replicate (Suc (to_nat (p, k, a))) (CHR ''x'')),
     jl_decode = (\<lambda>now t k a. let (p, k', a') = from_nat (length t - 1) in
        if k = k' \<and> a = a' \<and> (case jget p ''exp'' of JInt e \<Rightarrow> now < e | _ \<Rightarrow> True) then Inr p else Inl ''Signature verification failed'')\<rparr>"

lemma unary_jwt_laws: "jwt_laws unary_jwt"
  by (simp add: jwt_laws_def unary_jwt_def)

end
