(* ===== verification/WorkerApi.thy ===== *)
theory WorkerApi
  imports Workers Providers JobRepo Tokens InventoryViews PoolRepo Jwt
begin

text \<open>
  The endpoints of the workers: the JWT half of \<^verbatim>\<open>worker_controller/auth.py\<close>, registration and the control channel
  (\<^verbatim>\<open>api/workers.py\<close>), and the administration of workers (\<^verbatim>\<open>api/admin_workers.py\<close>).  The JWT library is a pair of
  functions: \<^verbatim>\<open>enc\<close> signs a payload, \<^verbatim>\<open>dec\<close> returns the payload of a token it accepts at the given time.
\<close>

section \<open>auth.py\<close>

definition MIN_SECRET_LEN :: nat where "MIN_SECRET_LEN = 32"
definition DEFAULT_BOOTSTRAP_TTL :: int where "DEFAULT_BOOTSTRAP_TTL = 24 * 3600"
definition DEFAULT_WORKER_TTL :: int where "DEFAULT_WORKER_TTL = 30 * 24 * 3600"
definition SUPPORTED_ALGORITHMS :: "string list" where "SUPPORTED_ALGORITHMS = [''HS256'', ''HS384'', ''HS512'']"

record worker_auth =
  wa_secret :: string
  wa_algorithm :: string

definition new_worker_auth :: "string \<Rightarrow> string \<Rightarrow> string + worker_auth" where
  "new_worker_auth secret algorithm =
    (if length secret < MIN_SECRET_LEN then Inl ''WorkerAuth secret too short''
     else if algorithm \<notin> set SUPPORTED_ALGORITHMS then Inl ''WorkerAuth algorithm not supported''
     else Inr \<lparr>wa_secret = secret, wa_algorithm = algorithm\<rparr>)"

definition mint_bootstrap_jwt :: "jwt_lib \<Rightarrow> worker_auth \<Rightarrow> int \<Rightarrow> string \<Rightarrow> int option \<Rightarrow> string" where
  "mint_bootstrap_jwt lib a now pool_id ttl_seconds =
    (let ttl = min (case ttl_seconds of None \<Rightarrow> DEFAULT_BOOTSTRAP_TTL | Some t \<Rightarrow> if t = 0 then DEFAULT_BOOTSTRAP_TTL else t)
                 DEFAULT_BOOTSTRAP_TTL
     in jl_encode lib [(''scope'', JStr ''worker:bootstrap''), (''pool_id'', JStr pool_id), (''iat'', JInt now), (''exp'', JInt (now + ttl))]
          (wa_secret a) (wa_algorithm a))"

definition mint_worker_token :: "jwt_lib \<Rightarrow> worker_auth \<Rightarrow> int \<Rightarrow> string \<Rightarrow> string \<Rightarrow> int option \<Rightarrow> string" where
  "mint_worker_token lib a now node_id pool_id ttl_seconds =
    (let ttl = (case ttl_seconds of None \<Rightarrow> DEFAULT_WORKER_TTL | Some t \<Rightarrow> if t = 0 then DEFAULT_WORKER_TTL else t)
     in jl_encode lib [(''sub'', JStr node_id), (''kind'', JStr ''worker''), (''pool_id'', JStr pool_id), (''iat'', JInt now),
          (''exp'', JInt (now + ttl))] (wa_secret a) (wa_algorithm a))"

record worker_claims =
  wk_sub :: string
  wk_pool_id :: string

text \<open>A claim that is present, truthy and a string.\<close>

definition claim :: "jobj \<Rightarrow> string \<Rightarrow> string option" where
  "claim p k = (case jget p k of JStr s \<Rightarrow> if s = [] then None else Some s | _ \<Rightarrow> None)"

definition verify_bootstrap_jwt :: "jwt_lib \<Rightarrow> worker_auth \<Rightarrow> int \<Rightarrow> string \<Rightarrow> string + string" where
  "verify_bootstrap_jwt lib a now token = (case jl_decode lib now token (wa_secret a) (wa_algorithm a) of
     Inl e \<Rightarrow> Inl e
   | Inr p \<Rightarrow> if jget p ''scope'' \<noteq> JStr ''worker:bootstrap'' then Inl ''not a worker:bootstrap token''
             else (case claim p ''pool_id'' of None \<Rightarrow> Inl ''missing pool_id claim'' | Some pool \<Rightarrow> Inr pool))"

definition verify_worker_token :: "jwt_lib \<Rightarrow> worker_auth \<Rightarrow> int \<Rightarrow> string \<Rightarrow> string + worker_claims" where
  "verify_worker_token lib a now token = (case jl_decode lib now token (wa_secret a) (wa_algorithm a) of
     Inl e \<Rightarrow> Inl e
   | Inr p \<Rightarrow> if jget p ''kind'' \<noteq> JStr ''worker'' then Inl ''not a worker token (kind != 'worker')''
             else (case (claim p ''sub'', claim p ''pool_id'') of
                     (Some s, Some pool) \<Rightarrow> Inr \<lparr>wk_sub = s, wk_pool_id = pool\<rparr>
                   | _ \<Rightarrow> Inl ''missing required claim (sub or pool_id)''))"

section \<open>api/workers.py: registration\<close>

definition strip_bearer :: "string \<Rightarrow> string" where
  "strip_bearer header = (case split_ws1 header of
     [w, r] \<Rightarrow> if py_lower w = ''bearer'' then py_strip r else []
   | _ \<Rightarrow> [])"

record register_request =
  rq_node_name :: string
  rq_pool_id :: uuid
  rq_advertise_url :: string
  rq_allocatable :: jobj
  rq_bootstrap_token :: "string option"
  rq_runtime_env :: "string option"
  rq_instance_id :: "string option"
  rq_region :: "string option"
  rq_availability_zone :: "string option"

record api_env =
  ae_jwt :: jwt_lib
  ae_auth :: worker_auth
  ae_sha :: "string \<Rightarrow> string"
  ae_now :: int

definition cloud_label :: "string \<Rightarrow> string option \<Rightarrow> jobj" where
  "cloud_label k v = (case v of Some (c # s) \<Rightarrow> [(k, JStr (c # s))] | _ \<Rightarrow> [])"

definition cloud_labels :: "register_request \<Rightarrow> jobj" where
  "cloud_labels b = cloud_label ''runtime_env'' (rq_runtime_env b) @ cloud_label ''instance_id'' (rq_instance_id b)
     @ cloud_label ''region'' (rq_region b) @ cloud_label ''availability_zone'' (rq_availability_zone b)"

text \<open>
  The two ways to authenticate: a stored one-shot token in the body, else a signed token in the header.  The stored
  token is consumed before its pool is compared.
\<close>

definition authenticate :: "api_env \<Rightarrow> register_request \<Rightarrow> string \<Rightarrow> db \<Rightarrow> db \<times> unit http" where
  "authenticate env b header d =
    (let (d1, claim') = (case rq_bootstrap_token b of
           None \<Rightarrow> (d, None) | Some t \<Rightarrow> consume_bootstrap_token (ae_sha env) t d)
     in (d1, case claim' of
          Some c \<Rightarrow> if bc_pool_id c \<noteq> rq_pool_id b then Inl (HTTPException 401 ''pool_scope_violation'') else Inr ()
        | None \<Rightarrow>
           let header_token = strip_bearer header in
           if header_token = [] then Inl (HTTPException 401 ''invalid_bootstrap_token'')
           else case verify_bootstrap_jwt (ae_jwt env) (ae_auth env) (ae_now env) header_token of
                  Inl e \<Rightarrow> Inl (HTTPException 401 (''invalid bootstrap token: '' @ e))
                | Inr pool \<Rightarrow> if pool \<noteq> rq_pool_id b then Inl (HTTPException 403 ''bootstrap token is for a different pool'')
                            else Inr ()))"

text \<open>
  The \<^verbatim>\<open>DuplicateNodeError\<close> this handler catches is the class of its own module, not the one that
  \<^verbatim>\<open>upsert_worker\<close> raises, so every error of the repository leaves the handler as a server error.
\<close>

definition register_worker :: "api_env \<Rightarrow> uuid \<Rightarrow> register_request \<Rightarrow> string \<Rightarrow> db \<Rightarrow> db \<times> (uuid \<times> string) http" where
  "register_worker env fresh b header d = (case authenticate env b header d of
     (d1, Inl e) \<Rightarrow> (d1, Inl e)
   | (d1, Inr _) \<Rightarrow>
      (case upsert_worker fresh (rq_pool_id b) (rq_node_name b) (Some (rq_advertise_url b)) (rq_allocatable b)
              (if cloud_labels b = [] then None else Some (cloud_labels b)) d1 of
         Inl e \<Rightarrow> (d1, Inl (HTTPException 500 ''Internal Server Error''))
       | Inr (d2, node) \<Rightarrow> (d2, Inr (ci_id node,
            mint_worker_token (ae_jwt env) (ae_auth env) (ae_now env) (ci_id node) (rq_pool_id b) None))))"

section \<open>api/workers.py: the control channel\<close>

record heartbeat_body =
  hb_used :: json
  hb_loaded_models :: json
  hb_deploy_metrics :: "jobj list"
  hb_metrics :: "json option"

record plane =
  pl_db :: db
  pl_reg :: registry

datatype channel_refusal = MissingToken | InvalidToken | NodeRevoked

text \<open>Opening: the refusals close the socket with code 1008; otherwise the node is ready and the socket attached.\<close>

definition channel_open ::
  "api_env \<Rightarrow> nat \<Rightarrow> string \<Rightarrow> plane \<Rightarrow> plane \<times> wire list \<times> (channel_refusal + worker_claims)" where
  "channel_open env ws header s =
    (let token = strip_bearer header in
     if token = [] then (s, [], Inl MissingToken)
     else case verify_worker_token (ae_jwt env) (ae_auth env) (ae_now env) token of
            Inl e \<Rightarrow> (s, [], Inl InvalidToken)
          | Inr c \<Rightarrow>
             if (case get_node_by_id (wk_sub c) (pl_db s) of None \<Rightarrow> False | Some n \<Rightarrow> ci_state n = ''terminated'')
             then (s, [], Inl NodeRevoked)
             else let (r, w) = attach (wk_sub c) \<lparr>wc_ws = ws, wc_pool_id = wk_pool_id c\<rparr> (pl_reg s)
                  in (\<lparr>pl_db = mark_ready_worker (wk_sub c) (pl_db s), pl_reg = r\<rparr>, w, Inr c))"

text \<open>
  One message of the read loop; None is an exception, which ends the connection.  \<^verbatim>\<open>hb_of\<close> is the validation of a
  heartbeat.
\<close>

definition channel_message ::
  "(json \<Rightarrow> int option) \<Rightarrow> (json \<Rightarrow> heartbeat_body option) \<Rightarrow> uuid \<Rightarrow> jobj \<Rightarrow> plane \<Rightarrow> plane option" where
  "channel_message as_int hb_of nid msg s =
    (let body = (if truthy (jget msg ''body'') then jget msg ''body'' else JObj []) in
     case jget msg ''type'' of
       JStr ty \<Rightarrow>
        if ty = ''Heartbeat'' then
          map_option (\<lambda>hb.
            let s1 = s\<lparr>pl_db := update_heartbeat_with_telemetry nid (hb_used hb) (hb_loaded_models hb) (Some (hb_deploy_metrics hb)) (pl_db s)\<rparr>
            in case hb_metrics hb of None \<Rightarrow> s1 | Some m \<Rightarrow> s1\<lparr>pl_reg := record_metrics nid m (pl_reg s1)\<rparr>) (hb_of body)
        else if ty = ''CommandResult'' then
          (case body of JObj b \<Rightarrow> map_option (\<lambda>r. s\<lparr>pl_reg := deliver_command_result r (pl_reg s)\<rparr>) (parse_command_result b) | _ \<Rightarrow> None)
        else if ty \<in> {''ShellOutput'', ''ShellExit'', ''ShellError'', ''LogsLine'', ''LogsEnd''} then
          (case body of JObj b \<Rightarrow> map_option (\<lambda>f. s\<lparr>pl_reg := deliver_stream_frame f (pl_reg s)\<rparr>) (parse_frame as_int ty b) | _ \<Rightarrow> None)
        else Some s
     | _ \<Rightarrow> Some s)"

text \<open>The loop over the messages that arrive, and the \<^verbatim>\<open>finally\<close> clause.\<close>

fun channel_loop :: "(json \<Rightarrow> int option) \<Rightarrow> (json \<Rightarrow> heartbeat_body option) \<Rightarrow> uuid \<Rightarrow> nat \<Rightarrow> jobj list \<Rightarrow> plane \<Rightarrow> plane" where
  "channel_loop as_int hb_of nid ws [] s = s\<lparr>pl_reg := detach nid ws (pl_reg s)\<rparr>"
| "channel_loop as_int hb_of nid ws (m # ms) s = (case channel_message as_int hb_of nid m s of
     None \<Rightarrow> s\<lparr>pl_reg := detach nid ws (pl_reg s)\<rparr>
   | Some s' \<Rightarrow> channel_loop as_int hb_of nid ws ms s')"

definition worker_channel ::
  "api_env \<Rightarrow> (json \<Rightarrow> int option) \<Rightarrow> (json \<Rightarrow> heartbeat_body option) \<Rightarrow> nat \<Rightarrow> string \<Rightarrow> jobj list \<Rightarrow> plane \<Rightarrow> plane" where
  "worker_channel env as_int hb_of ws header msgs s = (case channel_open env ws header s of
     (s', w, Inl e) \<Rightarrow> s'
   | (s', w, Inr c) \<Rightarrow> channel_loop as_int hb_of (wk_sub c) ws msgs s')"

section \<open>api/admin_workers.py\<close>

record mint_response =
  mr_bootstrap_token :: string
  mr_expires_at :: int
  mr_pool_id :: uuid
  mr_control_plane_url :: string
  mr_inference_token :: "string option"
  mr_env_snippet :: string

definition infer_external_url :: "(string \<times> string) list \<Rightarrow> string \<Rightarrow> string" where
  "infer_external_url headers scheme = (case nonempty_str (map_of headers ''x-forwarded-host'') of
     Some h \<Rightarrow> (case nonempty_str (map_of headers ''x-forwarded-proto'') of Some p \<Rightarrow> p | None \<Rightarrow> ''http'') @ ''://'' @ h
   | None \<Rightarrow> (case nonempty_str (map_of headers ''host'') of Some h \<Rightarrow> scheme @ ''://'' @ h | None \<Rightarrow> []))"

definition env_lines :: "string list \<Rightarrow> string" where
  "env_lines ls = concat (map (\<lambda>l. l @ [CHR 0x0A]) ls)"

definition render_env_snippet :: "string \<Rightarrow> string \<Rightarrow> string \<Rightarrow> string \<Rightarrow> string \<Rightarrow> string" where
  "render_env_snippet default_url control_plane_url bootstrap_token pool_id inference_token =
    (let cp = (if control_plane_url = [] then default_url else control_plane_url) in env_lines
      [''# Generated by InferiaLLM. Bootstrap token expires in 1h.'',
       ''# CONTROL_PLANE_URL must be reachable from THIS worker host.'',
       ''# The default works when the worker compose runs on the same'',
       ''# Docker host as InferiaLLM (the worker container resolves'',
       ''# '' @ [CHR 0x27] @ ''inferia-app'' @ [CHR 0x27] @ '' via the deploy_inferia-net network).'',
       ''CONTROL_PLANE_URL='' @ cp,
       ''BOOTSTRAP_TOKEN='' @ bootstrap_token,
       ''POOL_ID='' @ pool_id,
       ''# NODE_NAME: change to a unique name for this GPU host.'',
       ''NODE_NAME=my-gpu-node'',
       ''# WORKER_ADVERTISE_URL: URL the control plane reaches this worker'' @ [CHR 0x27] @ ''s'',
       ''# inference port at. localhost is fine for same-host smoke; use a'',
       ''# routable URL for production.'',
       ''WORKER_ADVERTISE_URL=http://localhost:8080'',
       ''INFERENCE_TOKEN='' @ inference_token])"

text \<open>\<^verbatim>\<open>proposed\<close> is a fresh inference token, \<^verbatim>\<open>url\<close> the configured external address or the one inferred from the request.\<close>

definition admin_mint :: "api_env \<Rightarrow> string \<Rightarrow> string \<Rightarrow> string \<Rightarrow> uuid \<Rightarrow> int \<Rightarrow> db \<Rightarrow> db \<times> mint_response http" where
  "admin_mint env default_url url proposed pool_id ttl_hours d = (case get_pool pool_id d of
     None \<Rightarrow> (d, Inl (HTTPException 404 ''pool not found''))
   | Some p \<Rightarrow>
      if cp_lifecycle_state p \<in> {''terminating'', ''terminated''}
      then (d, Inl (HTTPException 409 ''pool is terminating, cannot add workers''))
      else let (d1, inf_token) = get_or_generate_inference_token proposed pool_id d;
               token = mint_bootstrap_jwt (ae_jwt env) (ae_auth env) (ae_now env) pool_id (Some (ttl_hours * 3600))
           in (d1, Inr \<lparr>mr_bootstrap_token = token, mr_expires_at = ae_now env + ttl_hours * 3600, mr_pool_id = pool_id,
                  mr_control_plane_url = url, mr_inference_token = inf_token,
                  mr_env_snippet = render_env_snippet default_url url token pool_id (case inf_token of None \<Rightarrow> ''None'' | Some t \<Rightarrow> t)\<rparr>))"

record worker_view =
  wv_node_id :: uuid
  wv_node_name :: "string option"
  wv_advertise_url :: "string option"
  wv_agent_kind :: string
  wv_state :: string
  wv_connected :: bool
  wv_last_heartbeat :: "time option"
  wv_used :: jobj
  wv_loaded_models :: "json list"
  wv_allocatable :: "(string \<times> string) list"

definition or_zero :: "int option \<Rightarrow> string" where
  "or_zero i = dec_int (case i of None \<Rightarrow> 0 | Some x \<Rightarrow> x)"

definition row_to_view :: "bool \<Rightarrow> node \<Rightarrow> worker_view" where
  "row_to_view is_live n =
    (let m = (case ci_metadata n of None \<Rightarrow> [] | Some m \<Rightarrow> m)
     in \<lparr>wv_node_id = ci_id n, wv_node_name = ci_node_name n, wv_advertise_url = ci_advertise_url n,
         wv_agent_kind = (if ci_agent_kind n = [] then ''worker'' else ci_agent_kind n),
         wv_state = (if ci_state n = [] then ''unknown'' else ci_state n), wv_connected = is_live,
         wv_last_heartbeat = ci_last_heartbeat n, wv_used = sub_obj m ''used'',
         wv_loaded_models = (case jget m ''loaded_models'' of JArr xs \<Rightarrow> xs | _ \<Rightarrow> []),
         wv_allocatable = [(''gpu'', or_zero (ci_gpu_total n)), (''cpu'', or_zero (ci_vcpu_total n)),
                           (''memory_gb'', or_zero (ci_ram_gb_total n))]\<rparr>)"

definition admin_list_workers :: "uuid \<Rightarrow> plane \<Rightarrow> worker_view list" where
  "admin_list_workers pool_id s =
    (let live = connected_nodes (pl_reg s)
     in map (\<lambda>n. row_to_view (ci_id n \<in> set live) n) (list_workers pool_id (pl_db s)))"

definition node_metrics :: "uuid \<Rightarrow> plane \<Rightarrow> json option \<times> json list" where
  "node_metrics nid s = (let samples = get_metrics nid (pl_reg s)
     in (if samples = [] then None else Some (last samples), samples))"

text \<open>Closing a worker's socket: the close frame, then the detach of the connection just looked up.\<close>

definition close_worker :: "uuid \<Rightarrow> plane \<Rightarrow> plane \<times> wire list" where
  "close_worker nid s = (case get_conn nid (pl_reg s) of
     None \<Rightarrow> (s, [])
   | Some c \<Rightarrow> (s\<lparr>pl_reg := detach nid (wc_ws c) (pl_reg s)\<rparr>, [CloseSocket (wc_ws c) 1008 ''revoked by admin'']))"

definition pool_credential :: "uuid \<Rightarrow> db \<Rightarrow> string option" where
  "pool_credential pool_id d = Option.bind (get_pool pool_id d) cp_provider_credential_name"

text \<open>Stopping the external job of a direct-provision node, with the marker a failure leaves on the row.\<close>

definition stop_external :: "(string \<Rightarrow> string \<Rightarrow> string option \<Rightarrow> string option) \<Rightarrow> node \<Rightarrow> db \<Rightarrow> db" where
  "stop_external stop n d =
    (if is_direct_provision_provider (Some (ci_provider n))
     then case deprovision_direct_node stop (ci_provider n) (ci_provider_instance_id n) (pool_credential (ci_pool_id n) d) of
            (True, _) \<Rightarrow> d
          | (False, err) \<Rightarrow> mark_deprovision_failed (ci_id n) err d
     else d)"

text \<open>The status of the response with the new state: 202 while the reconciler destroys the instance, 204 when done.\<close>

definition revoke_worker ::
  "(time \<Rightarrow> string) \<Rightarrow> (string \<Rightarrow> string \<Rightarrow> string option \<Rightarrow> string option) \<Rightarrow> bool \<Rightarrow> uuid \<Rightarrow> plane \<Rightarrow> plane \<times> wire list \<times> int http" where
  "revoke_worker ts_text stop has_db nid s = (case get_node_by_id nid (pl_db s) of
     None \<Rightarrow> (s, [], Inl (HTTPException 404 ''node not found''))
   | Some n \<Rightarrow>
      let (d1, flipped) = (if ci_provider n = ''aws'' \<and> has_db then force_cancel nid (pl_db s) else (pl_db s, False))
      in if flipped
         then let (s2, w) = close_worker nid (s\<lparr>pl_db := mark_terminating_node ts_text nid d1\<rparr>) in (s2, w, Inr 202)
         else let (s2, w) = close_worker nid (s\<lparr>pl_db := mark_terminated_worker nid (stop_external stop n d1)\<rparr>) in (s2, w, Inr 204))"

section \<open>api/admin_workers.py: the log and shell proxies\<close>

text \<open>The frames of a handle, translated for the dashboard up to and including the first terminal one.\<close>

fun logs_to_dashboard :: "frame list \<Rightarrow> jobj list" where
  "logs_to_dashboard [] = []"
| "logs_to_dashboard (LogsLine sid st x # fs) = [(''type'', JStr ''log''), (''stream'', JStr st), (''data'', JStr x)] # logs_to_dashboard fs"
| "logs_to_dashboard (LogsEnd sid reason # fs) = [[(''type'', JStr ''exit''), (''reason'', JStr reason)]]"
| "logs_to_dashboard (ShellError sid m # fs) = [[(''type'', JStr ''error''), (''message'', JStr m)]]"
| "logs_to_dashboard (f # fs) = logs_to_dashboard fs"

fun shell_to_dashboard :: "frame list \<Rightarrow> jobj list" where
  "shell_to_dashboard [] = []"
| "shell_to_dashboard (ShellOutput sid x # fs) = [(''type'', JStr ''output''), (''data'', JStr x)] # shell_to_dashboard fs"
| "shell_to_dashboard (ShellExit sid c reason # fs) =
     [[(''type'', JStr ''exit''), (''exit_code'', JInt c), (''reason'', JStr reason)]]"
| "shell_to_dashboard (ShellError sid m # fs) = [[(''type'', JStr ''error''), (''message'', JStr m)]]"
| "shell_to_dashboard (f # fs) = shell_to_dashboard fs"

text \<open>One message of the dashboard; None is a failed send, which ends the pump.  \<^verbatim>\<open>to_int\<close> is Python's \<^verbatim>\<open>int\<close>.\<close>

definition shell_from_dashboard ::
  "(json \<Rightarrow> int option) \<Rightarrow> (nat \<Rightarrow> bool) \<Rightarrow> string \<Rightarrow> string \<Rightarrow> jobj \<Rightarrow> registry \<Rightarrow> wire list option" where
  "shell_from_dashboard to_int up eid sid payload r =
    (if jget payload ''type'' = JStr ''stdin'' then
       (case map_of payload ''data'' of
          None \<Rightarrow> send_shell_input up eid sid [] r
        | Some (JStr x) \<Rightarrow> send_shell_input up eid sid x r
        | _ \<Rightarrow> Some [])
     else if jget payload ''type'' = JStr ''resize'' then
       (case (to_int (or_json (jget payload ''cols'') (JInt 0)), to_int (or_json (jget payload ''rows'') (JInt 0))) of
          (Some cols, Some rows) \<Rightarrow> send_shell_resize up eid sid cols rows r
        | _ \<Rightarrow> Some [])
     else Some [])"

definition qparam_int :: "(string \<Rightarrow> int option) \<Rightarrow> (string \<times> string) list \<Rightarrow> string \<Rightarrow> int \<Rightarrow> int" where
  "qparam_int parse params key dflt' = (case nonempty_str (map_of params key) of
     None \<Rightarrow> dflt' | Some raw \<Rightarrow> (case parse raw of None \<Rightarrow> dflt' | Some i \<Rightarrow> i))"

text \<open>What the shell proxy does before it opens a stream: nodes of direct-provision providers have no worker.\<close>

definition shell_refused :: "uuid \<Rightarrow> db \<Rightarrow> bool" where
  "shell_refused nid d = (case get_node_by_id nid d of None \<Rightarrow> False | Some n \<Rightarrow> is_direct_provision_provider (Some (ci_provider n)))"

definition query :: "(string \<times> string) list \<Rightarrow> string \<Rightarrow> string \<Rightarrow> string" where
  "query params key dflt' = (case map_of params key of None \<Rightarrow> dflt' | Some v \<Rightarrow> v)"

definition proxy_worker_logs ::
  "(nat \<Rightarrow> bool) \<Rightarrow> string \<Rightarrow> string \<Rightarrow> uuid \<Rightarrow> (string \<times> string) list \<Rightarrow> registry \<Rightarrow> registry \<times> wire list \<times> (open_error + nat)" where
  "proxy_worker_logs up eid sid nid params r = open_logs_stream up eid nid sid (query params ''deployment'' []) (query params ''container'' []) r"

definition proxy_worker_shell ::
  "(string \<Rightarrow> int option) \<Rightarrow> (nat \<Rightarrow> bool) \<Rightarrow> string \<Rightarrow> string \<Rightarrow> uuid \<Rightarrow> (string \<times> string) list \<Rightarrow> plane
     \<Rightarrow> plane \<times> wire list \<times> (open_error + nat) option" where
  "proxy_worker_shell parse up eid sid nid params s =
    (if shell_refused nid (pl_db s) then (s, [], None)
     else let (r, w, h) = open_shell_stream up eid nid sid (query params ''shell'' ''/bin/sh'') (query params ''user'' [])
                (query params ''deployment'' []) (query params ''container'' []) (qparam_int parse params ''cols'' 0)
                (qparam_int parse params ''rows'' 0) (pl_reg s)
          in (s\<lparr>pl_reg := r\<rparr>, w, Some h))"

section \<open>Properties\<close>

lemma worker_token_verifies:
  assumes "jwt_laws lib" "nid \<noteq> []" "pool \<noteq> []" "now \<le> now'" "now' < now + DEFAULT_WORKER_TTL"
  shows "verify_worker_token lib a now' (mint_worker_token lib a now nid pool None) = Inr \<lparr>wk_sub = nid, wk_pool_id = pool\<rparr>"
proof -
  let ?p = "[(''sub'', JStr nid), (''kind'', JStr ''worker''), (''pool_id'', JStr pool), (''iat'', JInt now),
      (''exp'', JInt (now + DEFAULT_WORKER_TTL))]"
  have "jl_decode lib now' (jl_encode lib ?p (wa_secret a) (wa_algorithm a)) (wa_secret a) (wa_algorithm a) = Inr ?p"
    using assms(1,5) unfolding jwt_laws_def by (simp add: jget_def)
  then show ?thesis using assms(2,3)
    by (simp add: verify_worker_token_def mint_worker_token_def jget_def claim_def split: list.splits)
qed


lemma authenticate_entitled:
  assumes "authenticate env b header d = (d1, Inr u)"
  shows "(\<exists>tok c. rq_bootstrap_token b = Some tok \<and> snd (consume_bootstrap_token (ae_sha env) tok d) = Some c \<and> bc_pool_id c = rq_pool_id b)
     \<or> verify_bootstrap_jwt (ae_jwt env) (ae_auth env) (ae_now env) (strip_bearer header) = Inr (rq_pool_id b)"
  using assms unfolding authenticate_def Let_def split_def
  by (auto split: option.splits if_splits sum.splits)

lemma authenticate_nodes:
  assumes "authenticate env b header d = (d1, u)"
  shows "db_nodes d1 = db_nodes d" "db_now d1 = db_now d" "db_pools d1 = db_pools d"
  using assms by (auto simp: authenticate_def Let_def split_def consume_bootstrap_token_def split: option.splits)

lemma upsert_worker_row:
  assumes "upsert_worker i pool name url alloc labels d = Inr (d', n)"
  shows "ci_pool_id n = pool \<and> ci_node_name n = Some name \<and> ci_agent_kind n = ''worker'' \<and> n \<in> set (db_nodes d')"
proof -
  define lab where "lab = (case labels of None \<Rightarrow> [] | Some l \<Rightarrow> l)"
  obtain gpu cpu mem where ints: "int_field alloc ''gpu'' = Some gpu" "int_field alloc ''cpu'' = Some cpu"
      "int_field alloc ''memory_gb'' = Some mem"
    using assms unfolding upsert_worker_def Let_def by (auto split: if_splits option.splits)
  define new where "new = (blank_node i pool ''on_prem'' (''worker-'' @ pool @ ''-'' @ name) ''provisioning'' (db_now d))
                     \<lparr>ci_node_name := Some name, ci_agent_kind := ''worker'', ci_advertise_url := url, ci_gpu_total := Some gpu,
                      ci_vcpu_total := Some cpu, ci_ram_gb_total := Some mem, ci_metadata := Some alloc, ci_labels := lab\<rparr>"
  define upd :: "node \<Rightarrow> node" where "upd = (\<lambda>n. n\<lparr>ci_advertise_url := coalesce url (ci_advertise_url n),
                      ci_metadata := Some alloc, ci_labels := jmerge (ci_labels n) lab,
                      ci_gpu_total := (if gpu > 0 then Some gpu else ci_gpu_total n),
                      ci_vcpu_total := (if cpu > 0 then Some cpu else ci_vcpu_total n),
                      ci_ram_gb_total := (if mem > 0 then Some mem else ci_ram_gb_total n),
                      ci_updated_at := db_now d\<rparr>)"
  have new: "ci_pool_id new = pool" "ci_node_name new = Some name" "ci_agent_kind new = ''worker''"
    by (simp_all add: new_def blank_node_def)
  have out: "(case find (same_worker_name new) (db_nodes d) of
               Some m \<Rightarrow> Inr (update_nodes (same_worker_name new) upd d, upd m)
             | None \<Rightarrow> (case insert_node new d of Inl e \<Rightarrow> Inl (SqlError e) | Inr (d', _) \<Rightarrow> Inr (d', new))) = Inr (d', n)"
    using assms unfolding upsert_worker_def Let_def ints option.case prod.case lab_def [symmetric] new_def [symmetric]
    by (simp add: upd_def split: if_splits cong: option.case_cong)
  show ?thesis
  proof (cases "find (same_worker_name new) (db_nodes d)")
    case None
    with out new show ?thesis by (auto simp: insert_node_def split: option.splits)
  next
    case (Some m)
    then have m: "m \<in> set (db_nodes d)" "same_worker_name new m" by (auto simp: find_Some_iff)
    from out Some have "n = upd m" "d' = update_nodes (same_worker_name new) upd d" by simp_all
    with m new show ?thesis
      by (auto simp: same_worker_name_def upd_def update_nodes_def in_sql_update intro!: bexI [of _ m])
  qed
qed

text \<open>
  C28: Registration keeps workers within their pool.  A successful registration comes from a caller entitled to the pool it
  names, by a stored token that this call consumed or by a signed one; it leaves a worker row of that pool
  and name; and the token it returns opens the control channel as exactly that node and pool.
\<close>

theorem register_worker_scoped:
  assumes "register_worker env fresh b header d = (d', Inr (nid, jwt))" "jwt_laws (ae_jwt env)"
    and "fresh \<noteq> []" "rq_pool_id b \<noteq> []" "\<forall>n \<in> set (db_nodes d). ci_id n \<noteq> []" "ae_now env \<le> t" "t < ae_now env + DEFAULT_WORKER_TTL"
  shows "((\<exists>tok c. rq_bootstrap_token b = Some tok \<and> snd (consume_bootstrap_token (ae_sha env) tok d) = Some c \<and> bc_pool_id c = rq_pool_id b)
      \<or> verify_bootstrap_jwt (ae_jwt env) (ae_auth env) (ae_now env) (strip_bearer header) = Inr (rq_pool_id b))
    \<and> (\<exists>n \<in> set (db_nodes d'). ci_id n = nid \<and> ci_pool_id n = rq_pool_id b \<and> ci_node_name n = Some (rq_node_name b)
         \<and> ci_agent_kind n = ''worker'')
    \<and> verify_worker_token (ae_jwt env) (ae_auth env) t jwt = Inr \<lparr>wk_sub = nid, wk_pool_id = rq_pool_id b\<rparr>"
proof -
  let ?lab = "if cloud_labels b = [] then None else Some (cloud_labels b)"
  obtain d1 u where auth: "authenticate env b header d = (d1, Inr u)"
    using assms(1) by (auto simp: register_worker_def split: prod.splits sum.splits)
  then obtain n where up: "upsert_worker fresh (rq_pool_id b) (rq_node_name b) (Some (rq_advertise_url b)) (rq_allocatable b) ?lab d1 = Inr (d', n)"
    and n: "nid = ci_id n" "jwt = mint_worker_token (ae_jwt env) (ae_auth env) (ae_now env) nid (rq_pool_id b) None"
    using assms(1) by (auto simp: register_worker_def split: sum.splits)
  note row = upsert_worker_row [OF up]
  have "set (db_nodes d') \<subseteq> {x. ci_id x = fresh \<or> ci_id x \<in> ci_id ` set (db_nodes d1)}"
    using up unfolding upsert_worker_def Let_def
    by (auto simp: insert_node_def update_nodes_def in_sql_update blank_node_def split: if_splits option.splits sum.splits)
  then have "nid \<noteq> []" using row assms(3,5) authenticate_nodes(1) [OF auth] n(1) by auto
  with n(2) worker_token_verifies [OF assms(2) this assms(4,6,7)] authenticate_entitled [OF auth] row n(1)
  show ?thesis by blast
qed

lemma get_terminated:
  assumes "get_node_by_id nid d \<noteq> None"
  shows "\<exists>n. get_node_by_id nid (mark_terminated_worker nid d) = Some n \<and> ci_state n = ''terminated''"
proof -
  have "\<exists>n. find (\<lambda>n. ci_id n = nid) (sql_update (\<lambda>n. ci_id n = nid)
      (\<lambda>n. n\<lparr>ci_state := ''terminated'', ci_gpu_allocated := 0, ci_vcpu_allocated := 0, ci_ram_gb_allocated := 0, ci_updated_at := t\<rparr>) ns) = Some n
      \<and> ci_state n = ''terminated''" if "find (\<lambda>n. ci_id n = nid) ns \<noteq> None" for ns t
    using that by (induction ns) (auto split: if_splits)
  then show ?thesis using assms by (simp add: get_node_by_id_def mark_terminated_worker_def update_nodes_def)
qed

lemma mark_deprovision_keeps: "get_node_by_id nid (mark_deprovision_failed i r d) = None \<longleftrightarrow> get_node_by_id nid d = None"
proof -
  have none: "find (\<lambda>n. ci_id n = nid) ns = None \<longleftrightarrow> nid \<notin> set (map ci_id ns)" for ns
    by (auto simp: find_None_iff)
  show ?thesis
    unfolding get_node_by_id_def none mark_deprovision_failed_def update_nodes_def
    by (simp add: sql_update_map del: set_map)
qed

text \<open>
  A revoked worker stays out.  Once \<^verbatim>\<open>DELETE /v1/admin/workers/{node_id}\<close> has answered 204 the worker has no live
  connection, and its token, although still valid, no longer opens a channel: neither the inventory nor the registry changes.
\<close>

theorem revoked_worker_stays_out:
  assumes "revoke_worker ts_text stop has_db nid s = (s', w, Inr 204)" "registry_inv (pl_reg s, R)"
    and "verify_worker_token (ae_jwt env) (ae_auth env) (ae_now env) (strip_bearer header) = Inr c" "wk_sub c = nid" "strip_bearer header \<noteq> []"
  shows "get_conn nid (pl_reg s') = None \<and> channel_open env ws header s' = (s', [], Inl NodeRevoked)"
proof -
  obtain n where n: "get_node_by_id nid (pl_db s) = Some n"
    using assms(1) by (auto simp: revoke_worker_def split: option.splits)
  define d1 where "d1 = fst (if ci_provider n = ''aws'' \<and> has_db then force_cancel nid (pl_db s) else (pl_db s, False))"
  define s2 where "s2 = s\<lparr>pl_db := mark_terminated_worker nid (stop_external stop n d1)\<rparr>"
  have s': "s' = fst (close_worker nid s2)"
    using assms(1) n by (auto simp: revoke_worker_def Let_def split_def d1_def s2_def split: if_splits)
  have "get_node_by_id nid d1 \<noteq> None"
    using n by (simp add: d1_def get_node_by_id_def force_cancel_def update_jobs_def split_def Let_def)
  then have "get_node_by_id nid (stop_external stop n d1) \<noteq> None"
    by (simp add: stop_external_def mark_deprovision_keeps del: not_None_eq split: prod.splits bool.splits)
  from get_terminated [OF this] obtain m where m: "get_node_by_id nid (pl_db s2) = Some m" "ci_state m = ''terminated''"
    by (auto simp: s2_def)
  have db: "pl_db s' = pl_db s2" by (simp add: s' close_worker_def split: option.splits)
  have "get_conn nid (pl_reg s') = None"
  proof (cases "get_conn nid (pl_reg s)")
    case None
    then show ?thesis by (simp add: s' s2_def close_worker_def)
  next
    case (Some c)
    then have "pl_reg s' = drop_node nid (pl_reg s)" by (simp add: s' s2_def close_worker_def detach_def)
    then show ?thesis by (simp add: get_conn_def drop_node_handles(4) [OF assms(2)] AList.delete_conv')
  qed
  moreover have "channel_open env ws header s' = (s', [], Inl NodeRevoked)"
    unfolding channel_open_def Let_def using assms(3-5) m db by simp
  ultimately show ?thesis ..
qed

text \<open>A name that a row of another kind holds is answered as a server error, not as the conflict the handler intends.\<close>

lemma duplicate_name_is_server_error:
  assumes "authenticate env b header d = (d1, Inr u)"
    and "upsert_worker fresh (rq_pool_id b) (rq_node_name b) (Some (rq_advertise_url b)) (rq_allocatable b)
          (if cloud_labels b = [] then None else Some (cloud_labels b)) d1 = Inl (DuplicateNodeError m)"
  shows "snd (register_worker env fresh b header d) = Inl (HTTPException 500 ''Internal Server Error'')"
  using assms by (simp add: register_worker_def)

text \<open>A stored token presented for the wrong pool is spent all the same.\<close>

lemma wrong_pool_spends_token:
  assumes "consume_bootstrap_token (ae_sha env) tok d = (d1, Some c)" "rq_bootstrap_token b = Some tok" "bc_pool_id c \<noteq> rq_pool_id b"
  shows "authenticate env b header d = (d1, Inl (HTTPException 401 ''pool_scope_violation''))"
  using assms by (simp add: authenticate_def)

section \<open>Witnesses\<close>

definition sample_auth :: worker_auth where
  "sample_auth = \<lparr>wa_secret = replicate 32 (CHR ''s''), wa_algorithm = ''HS256''\<rparr>"


definition sample_api :: api_env where
  "sample_api = \<lparr>ae_jwt = unary_jwt, ae_auth = sample_auth, ae_sha = id, ae_now = 0\<rparr>"

definition sample_register :: register_request where
  "sample_register = \<lparr>rq_node_name = ''gpu-1'', rq_pool_id = ''p'', rq_advertise_url = ''http://w:8080'',
     rq_allocatable = [], rq_bootstrap_token = Some ''one-shot-token'',
     rq_runtime_env = None, rq_instance_id = None, rq_region = Some ''us-east-1'', rq_availability_zone = None\<rparr>"

definition sample_tokens :: db where
  "sample_tokens = empty_db\<lparr>db_pools := [sample_pool ''p'' ''running''], db_tokens := [\<lparr>bt_id = ''b'', bt_token_hash = ''one-shot-token'',
     bt_pool_id = ''p'', bt_org_id = ''org'', bt_expires_at = 10, bt_consumed_at = None, bt_consumed_node_id = None, bt_created_at = 0\<rparr>]\<rparr>"

lemma sample_upserts:
  assumes "db_nodes d = []" "db_pools d = [sample_pool ''p'' ''running'']"
  shows "\<exists>d' n. upsert_worker ''n9'' ''p'' ''gpu-1'' url [] labels d = Inr (d', n) \<and> ci_id n = ''n9''"
  using assms by (simp add: upsert_worker_def int_field_def jfield_def jget_def Let_def insert_node_def node_insert_error_def blank_node_def
      node_states_def sample_pool_def)

lemma sample_registers: "\<exists>d' jwt. register_worker sample_api ''n9'' sample_register [] sample_tokens = (d', Inr (''n9'', jwt))"
proof -
  have "\<exists>d1. authenticate sample_api sample_register [] sample_tokens = (d1, Inr ()) \<and> db_nodes d1 = [] \<and> db_pools d1 = [sample_pool ''p'' ''running'']"
    by (simp add: authenticate_def sample_register_def sample_tokens_def sample_api_def consume_bootstrap_token_def usable_token_def empty_db_def)
  then obtain d1 where a: "authenticate sample_api sample_register [] sample_tokens = (d1, Inr ())" "db_nodes d1 = []"
    "db_pools d1 = [sample_pool ''p'' ''running'']" by blast
  from sample_upserts [OF a(2,3)] obtain d' n where
    "upsert_worker ''n9'' ''p'' ''gpu-1'' (Some ''http://w:8080'') [] (Some (cloud_labels sample_register)) d1 = Inr (d', n)" "ci_id n = ''n9''"
    by blast
  then show ?thesis unfolding register_worker_def a(1) by (simp add: sample_register_def cloud_labels_def cloud_label_def)
qed

theorem register_worker_scoped_witness:
  "\<exists>d' jwt n. register_worker sample_api ''n9'' sample_register [] sample_tokens = (d', Inr (''n9'', jwt)) \<and> n \<in> set (db_nodes d')
     \<and> ci_pool_id n = ''p'' \<and> verify_worker_token unary_jwt sample_auth 5 jwt = Inr \<lparr>wk_sub = ''n9'', wk_pool_id = ''p''\<rparr>"
proof -
  obtain d' jwt where r: "register_worker sample_api ''n9'' sample_register [] sample_tokens = (d', Inr (''n9'', jwt))"
    using sample_registers by blast
  have "jwt_laws (ae_jwt sample_api)" "rq_pool_id sample_register \<noteq> []" "\<forall>n \<in> set (db_nodes sample_tokens). ci_id n \<noteq> []"
    "ae_now sample_api \<le> 5" "5 < ae_now sample_api + DEFAULT_WORKER_TTL"
    by (simp_all add: sample_api_def unary_jwt_laws sample_register_def sample_tokens_def empty_db_def DEFAULT_WORKER_TTL_def)
  from register_worker_scoped [OF r this(1) _ this(2-5)] r show ?thesis
    by (auto simp: sample_register_def sample_api_def)
qed

lemma not_space_x: "\<not> is_space (CHR ''x'')"
  by (simp add: is_space_def)

lemma strip_bearer_word:
  assumes "t \<noteq> []" "list_all (\<lambda>c. \<not> is_space c) t"
  shows "strip_bearer (''Bearer '' @ t) = t"
proof -
  have d: "dropWhile is_space t = t" "dropWhile is_space (rev t) = rev t"
    using assms by (auto simp: dropWhile_eq_self_iff list_all_iff last_in_set hd_rev)
  have sp: "split_ws1 (''Bearer '' @ t) = [''Bearer'', t]"
    using assms(1) by (simp add: split_ws1_def is_space_def [of "CHR ''B''"] is_space_def [of "CHR ''e''"] is_space_def [of "CHR ''a''"]
        is_space_def [of "CHR ''r''"] is_space_def [of "CHR '' ''"] d)
  have "py_lower ''Bearer'' = ''bearer''" by code_simp
  then show ?thesis unfolding strip_bearer_def sp by (simp add: py_strip_def d)
qed

theorem revoked_worker_stays_out_witness:
  "\<exists>s' w. revoke_worker (\<lambda>t. []) (\<lambda>p i c. None) True ''n1'' \<lparr>pl_db = sample_fleet\<lparr>db_jobs := []\<rparr>, pl_reg = one_worker\<rparr> = (s', w, Inr 204)
     \<and> channel_open sample_api 7 (''Bearer '' @ mint_worker_token unary_jwt sample_auth 0 ''n1'' ''p'' None) s' = (s', [], Inl NodeRevoked)"
proof -
  let ?s = "\<lparr>pl_db = sample_fleet\<lparr>db_jobs := []\<rparr>, pl_reg = one_worker\<rparr>"
  let ?t = "mint_worker_token unary_jwt sample_auth 0 ''n1'' ''p'' None"
  have "\<exists>s' w. revoke_worker (\<lambda>t. []) (\<lambda>p i c. None) True ''n1'' ?s = (s', w, Inr 204)"
    by (simp add: revoke_worker_def get_node_by_id_def sample_fleet_def sample_node_def force_cancel_def update_jobs_def split_def Let_def)
  then obtain s' w where r: "revoke_worker (\<lambda>t. []) (\<lambda>p i c. None) True ''n1'' ?s = (s', w, Inr 204)" by blast
  have x: "?t = replicate (length ?t) (CHR ''x'')" "?t \<noteq> []"
    by (simp_all add: mint_worker_token_def unary_jwt_def Let_def)
  have b: "strip_bearer (''Bearer '' @ ?t) = ?t"
  proof (rule strip_bearer_word [OF x(2)])
    show "list_all (\<lambda>c. \<not> is_space c) ?t"
      by (subst x(1)) (simp add: list_all_iff not_space_x)
  qed
  have v: "verify_worker_token unary_jwt sample_auth 0 ?t = Inr \<lparr>wk_sub = ''n1'', wk_pool_id = ''p''\<rparr>"
    by (rule worker_token_verifies [OF unary_jwt_laws]) (simp_all add: DEFAULT_WORKER_TTL_def)
  from revoked_worker_stays_out [OF r, of "{}" sample_api "''Bearer '' @ ?t"] r b v x(2) show ?thesis
    by (auto simp: one_worker_inv sample_api_def)
qed

end
