(* ===== verification/EventLog.thy ===== *)
theory EventLog
  imports Database
begin

text \<open>
  The provisioning event log: the writer \<^verbatim>\<open>state_machine/events.py\<close> and the reader
  \<^verbatim>\<open>repositories/node_provisioning_repo.py\<close>.  Ids come from a BIGSERIAL sequence, the field
  \<^verbatim>\<open>db_event_seq\<close> of the database.
\<close>

section \<open>Operations\<close>

primrec event_status_text :: "event_status \<Rightarrow> string" where
  "event_status_text EvRunning = ''running''"
| "event_status_text EvSucceeded = ''succeeded''"
| "event_status_text EvFailed = ''failed''"
| "event_status_text EvLog = ''log''"

definition insert_event ::
  "uuid \<Rightarrow> uuid option \<Rightarrow> string \<Rightarrow> string \<Rightarrow> string option \<Rightarrow> jobj \<Rightarrow> db \<Rightarrow> db" where
  "insert_event pool_id node_id ph st message extra d =
     d\<lparr>db_events := db_events d @ [\<lparr>ev_id = db_event_seq d, ev_pool_id = pool_id, ev_node_id = node_id,
          ev_phase = ph, ev_status = st, ev_message = message, ev_extra = extra,
          ev_created_at = db_now d\<rparr>],
       db_event_seq := Suc (db_event_seq d)\<rparr>"

definition emit_event ::
  "uuid \<Rightarrow> uuid option \<Rightarrow> phase \<Rightarrow> event_status \<Rightarrow> string \<Rightarrow> jobj option \<Rightarrow> db \<Rightarrow> db" where
  "emit_event pool_id node_id ph st message extra d =
     insert_event pool_id node_id (phase_value ph) (event_status_text st) (Some message)
       (case extra of None \<Rightarrow> [] | Some x \<Rightarrow> x) d"

definition PHASES :: "string list" where
  "PHASES = [''prepare'', ''ami_lookup'', ''pulumi_init'', ''pulumi_up'', ''ec2_running'', ''cloud_init'',
     ''worker_bootstrap'', ''ready'']"

definition append_event ::
  "uuid \<Rightarrow> string \<Rightarrow> string \<Rightarrow> string option \<Rightarrow> uuid option \<Rightarrow> db \<Rightarrow> db \<times> nat" where
  "append_event pool_id ph st message node_id d =
     (insert_event pool_id node_id ph st message [] d, db_event_seq d)"

definition events_after :: "uuid \<Rightarrow> nat \<Rightarrow> db \<Rightarrow> prov_event list" where
  "events_after pool_id after_id d =
     sort_key ev_id (filter (\<lambda>e. ev_pool_id e = pool_id \<and> after_id < ev_id e) (db_events d))"

definition list_events_after :: "uuid \<Rightarrow> nat \<Rightarrow> nat \<Rightarrow> db \<Rightarrow> prov_event list" where
  "list_events_after pool_id after_id limit d = take limit (events_after pool_id after_id d)"

record phase_summary =
  ps_phase :: string
  ps_status :: string
  ps_last_message :: "string option"
  ps_ended_at :: "time option"
  ps_started_at :: "time option"

text \<open>\<^verbatim>\<open>DISTINCT ON (phase) ... ORDER BY phase, id DESC\<close>: per phase the row with the largest id.\<close>

definition in_scope :: "uuid \<Rightarrow> uuid option \<Rightarrow> prov_event \<Rightarrow> bool" where
  "in_scope pool_id node_id e \<longleftrightarrow> ev_pool_id e = pool_id
     \<and> (case node_id of None \<Rightarrow> True | Some n \<Rightarrow> ev_node_id e = Some n)"

definition summary_row :: "prov_event list \<Rightarrow> prov_event \<Rightarrow> phase_summary" where
  "summary_row scope e = \<lparr>ps_phase = ev_phase e, ps_status = ev_status e, ps_last_message = ev_message e,
     ps_ended_at = (if ev_status e \<in> set [''succeeded'', ''failed''] then Some (ev_created_at e) else None),
     ps_started_at = map_option ev_created_at
       (sql_first_by ev_created_at (\<lambda>x. ev_phase x = ev_phase e) scope)\<rparr>"

definition latest_of :: "prov_event list \<Rightarrow> string \<Rightarrow> prov_event option" where
  "latest_of scope ph = sql_first_by (\<lambda>e. - int (ev_id e))
     (\<lambda>e. ev_phase e = ph \<and> ev_status e \<noteq> ''log'') scope"

definition summarize_phases :: "uuid \<Rightarrow> uuid option \<Rightarrow> db \<Rightarrow> phase_summary list" where
  "summarize_phases pool_id node_id d =
    (let scope = filter (in_scope pool_id node_id) (db_events d);
         phases = remdups (sort (map ev_phase (filter (\<lambda>e. ev_status e \<noteq> ''log'') scope)))
     in concat (map (\<lambda>ph. case latest_of scope ph of None \<Rightarrow> [] | Some e \<Rightarrow> [summary_row scope e]) phases))"

definition current_phase :: "uuid \<Rightarrow> uuid option \<Rightarrow> db \<Rightarrow> string option" where
  "current_phase pool_id node_id d =
     map_option ps_phase (find (\<lambda>r. ps_status r = ''running'') (summarize_phases pool_id node_id d))"

section \<open>The log invariant\<close>

definition log_inv :: "db \<Rightarrow> bool" where
  "log_inv d \<longleftrightarrow> sorted_wrt (<) (map ev_id (db_events d)) \<and> (\<forall>e \<in> set (db_events d). ev_id e < db_event_seq d)"

lemma insert_event_inv: "log_inv d \<Longrightarrow> log_inv (insert_event p n ph st m x d)"
  by (auto simp: log_inv_def insert_event_def sorted_wrt_append)

lemma delete_events_inv:
  "log_inv d \<Longrightarrow> log_inv (d\<lparr>db_events := sql_delete q (db_events d)\<rparr>)"
  by (auto simp: log_inv_def sql_delete_def sorted_wrt_filter sorted_wrt_map)

lemma events_after_filter:
  assumes "log_inv d"
  shows "events_after p a d = filter (\<lambda>e. ev_pool_id e = p \<and> a < ev_id e) (db_events d)"
proof -
  have "sorted_wrt (<) (map ev_id (filter (\<lambda>e. ev_pool_id e = p \<and> a < ev_id e) (db_events d)))"
    using assms by (simp add: log_inv_def sorted_wrt_map sorted_wrt_filter)
  then have "sorted (map ev_id (filter (\<lambda>e. ev_pool_id e = p \<and> a < ev_id e) (db_events d)))"
    by (rule strict_sorted_imp_sorted)
  then show ?thesis
    by (simp add: events_after_def sort_key_id_if_sorted)
qed

lemma events_after_insert:
  "log_inv d \<Longrightarrow> events_after p a (insert_event q n ph st m x d) =
   events_after p a d @ (if q = p \<and> a < db_event_seq d
     then [\<lparr>ev_id = db_event_seq d, ev_pool_id = q, ev_node_id = n, ev_phase = ph, ev_status = st,
            ev_message = m, ev_extra = x, ev_created_at = db_now d\<rparr>] else [])"
  by (simp add: events_after_filter insert_event_inv) (simp add: insert_event_def)

lemma filter_after_prefix:
  fixes f :: "'a \<Rightarrow> nat"
  assumes "sorted_wrt (<) (map f (xs @ y # ys))" 
  shows "filter (\<lambda>e. f y < f e) (xs @ y # ys) = ys"
proof -
  have "filter (\<lambda>e. f y < f e) xs = []"
    using assms by (fastforce simp: sorted_wrt_append sorted_wrt_map filter_empty_conv)
  moreover have "filter (\<lambda>e. f y < f e) ys = ys"
    using assms by (auto simp: sorted_wrt_append sorted_wrt_map filter_id_conv)
  ultimately show ?thesis by simp
qed

text \<open>The events behind a cursor placed on an event of the page are those after the page.\<close>

lemma events_after_last:
  assumes "log_inv d" "events_after p a d = xs @ y # ys"
  shows "events_after p (ev_id y) d = ys"
proof -
  let ?all = "filter (\<lambda>e. ev_pool_id e = p \<and> a < ev_id e) (db_events d)"
  have all: "?all = xs @ y # ys"
    using assms events_after_filter by simp
  have sorted: "sorted_wrt (<) (map ev_id ?all)"
    using assms(1) by (simp add: log_inv_def sorted_wrt_map sorted_wrt_filter)
  have y: "a < ev_id y"
  proof -
    have "y \<in> set ?all" using all by simp
    then show ?thesis by simp
  qed
  have "filter (\<lambda>e. ev_id y < ev_id e) ?all = filter (\<lambda>e. ev_pool_id e = p \<and> ev_id y < ev_id e) (db_events d)"
    using y by (auto intro!: filter_cong)
  then show ?thesis
    using filter_after_prefix [of ev_id xs y ys] sorted all events_after_filter [OF assms(1)] by simp
qed

text \<open>Appending never reorders or removes: what a cursor saw is a prefix of what it would see later.\<close>

inductive appended :: "db \<Rightarrow> db \<Rightarrow> bool" where
  appended_refl: "appended d d"
| appended_insert: "appended d d' \<Longrightarrow> appended d (insert_event p n ph st m x d')"
| appended_tick: "appended d d' \<Longrightarrow> appended d (d'\<lparr>db_now := db_now d' + t\<rparr>)"

lemma appended_events:
  assumes "appended d d'" "log_inv d"
  shows "log_inv d' \<and> (\<exists>new. events_after p a d' = events_after p a d @ new)"
  using assms
proof (induction rule: appended.induct)
  case (appended_insert d d' q n ph st m x)
  then show ?case
    using insert_event_inv events_after_insert [of d' p a] by auto
next
  case (appended_tick d d' t)
  then show ?case
    by (simp add: log_inv_def events_after_def)
qed auto

section \<open>Properties\<close>


text \<open>
  the summary of one node shows, per phase, the status of that node's newest non-log event of
  the phase: every row comes from an event of that pool and node, no later non-log event of the
  same phase and node exists, and phases appear once.
\<close>

theorem summary_is_latest:
  "distinct (map ps_phase (summarize_phases p (Some n) d))
   \<and> (\<forall>r \<in> set (summarize_phases p (Some n) d). \<exists>e \<in> set (db_events d).
        ev_pool_id e = p \<and> ev_node_id e = Some n \<and> ev_phase e = ps_phase r \<and> ev_status e = ps_status r
      \<and> ev_status e \<noteq> ''log''
      \<and> (\<forall>e' \<in> set (db_events d). ev_pool_id e' = p \<and> ev_node_id e' = Some n
            \<and> ev_phase e' = ps_phase r \<and> ev_status e' \<noteq> ''log'' \<longrightarrow> ev_id e' \<le> ev_id e))"
proof -
  define scope where "scope = filter (in_scope p (Some n)) (db_events d)"
  define phases where "phases = remdups (sort (map ev_phase (filter (\<lambda>e. ev_status e \<noteq> ''log'') scope)))"
  define row where "row ph = (case latest_of scope ph of None \<Rightarrow> [] | Some e \<Rightarrow> [summary_row scope e])" for ph
  have sum: "summarize_phases p (Some n) d = concat (map row phases)"
    unfolding summarize_phases_def Let_def scope_def [symmetric] phases_def [symmetric] row_def ..
  have row: "map ps_phase (row ph) = (if latest_of scope ph = None then [] else [ph])" for ph
    by (auto simp: row_def summary_row_def latest_of_def dest: sql_first_by_Some(2) split: option.splits)
  have "map ps_phase (concat (map row phs)) = filter (\<lambda>ph. latest_of scope ph \<noteq> None) phs" for phs
    by (induction phs) (simp_all add: row)
  then have "distinct (map ps_phase (summarize_phases p (Some n) d))"
    by (simp add: sum phases_def)
  moreover have "\<exists>e \<in> set (db_events d). ev_pool_id e = p \<and> ev_node_id e = Some n \<and> ev_phase e = ps_phase r
      \<and> ev_status e = ps_status r \<and> ev_status e \<noteq> ''log''
      \<and> (\<forall>e' \<in> set (db_events d). ev_pool_id e' = p \<and> ev_node_id e' = Some n
            \<and> ev_phase e' = ps_phase r \<and> ev_status e' \<noteq> ''log'' \<longrightarrow> ev_id e' \<le> ev_id e)"
    if r: "r \<in> set (summarize_phases p (Some n) d)" for r
  proof -
    obtain ph e where e: "latest_of scope ph = Some e" "r = summary_row scope e"
    proof -
      from r obtain ph where "r \<in> set (row ph)" by (auto simp: sum)
      then show thesis
        using that by (cases "latest_of scope ph") (auto simp: row_def)
    qed
    note first = sql_first_by_Some [OF e(1) [unfolded latest_of_def]]
    have "\<forall>e' \<in> set (db_events d). ev_pool_id e' = p \<and> ev_node_id e' = Some n
            \<and> ev_phase e' = ph \<and> ev_status e' \<noteq> ''log'' \<longrightarrow> ev_id e' \<le> ev_id e"
      using first(3) by (force simp: scope_def in_scope_def)
    with first(1,2) e(2) show ?thesis
      by (intro bexI [of _ e]) (auto simp: scope_def in_scope_def summary_row_def)
  qed
  ultimately show ?thesis by blast
qed

section \<open>Witnesses\<close>

definition sample_log :: db where
  "sample_log = emit_event ''p'' (Some ''n'') PROVISIONING EvSucceeded ''up'' None
     (emit_event ''p'' (Some ''n'') PREFLIGHT EvSucceeded ''ok'' None empty_db)"

lemma sample_log_inv: "log_inv sample_log"
  by (simp add: sample_log_def emit_event_def insert_event_inv log_inv_def insert_event_def empty_db_def)

lemma sample_page: "map ev_id (list_events_after ''p'' 0 1 sample_log) = [1]"
  by (simp add: list_events_after_def events_after_def sample_log_def emit_event_def insert_event_def
      empty_db_def)


theorem summary_is_latest_witness:
  "distinct (map ps_phase (summarize_phases ''p'' (Some ''n'') sample_log))"
  using summary_is_latest [of "''p''" "''n''" sample_log] by simp

end
