(* ===== verification/Classifier.thy ===== *)
theory Classifier
  imports ProvJob
begin

text \<open>
  The retry policy: the exception hierarchy of \<^verbatim>\<open>state_machine/errors.py\<close>, the classifier of
  \<^verbatim>\<open>retry/classifier.py\<close> and the backoff of \<^verbatim>\<open>retry/backoff.py\<close>.

  An exception value carries what the classifier reads of it: its kind, the name of its class,
  the result of \<^verbatim>\<open>str\<close> (None when \<^verbatim>\<open>__str__\<close> raises) and its \<^verbatim>\<open>repr\<close>.  A boto3
  \<^verbatim>\<open>ClientError\<close> carries the two dictionaries of its response.
\<close>

section \<open>The exception hierarchy\<close>

datatype perr =
    ProvisioningError
  | TransientError
  | AWSThrottledError
  | AWSServerError
  | PulumiTransientError
  | NetworkError
  | CapacityUnavailableError
  | PermanentError
  | PulumiCliMissingError
  | InvalidCredentialsError
  | InvalidSpecError
  | InvalidInstanceTypeError
  | AMINotFoundError
  | SubnetNotFoundError
  | SecurityGroupNotFoundError
  | InfrastructureError
  | QuotaExceededError
  | SubnetExhaustedError

fun base_class :: "perr \<Rightarrow> perr option" where
  "base_class ProvisioningError = None"
| "base_class TransientError = Some ProvisioningError"
| "base_class PermanentError = Some ProvisioningError"
| "base_class InfrastructureError = Some ProvisioningError"
| "base_class AWSThrottledError = Some TransientError"
| "base_class AWSServerError = Some TransientError"
| "base_class PulumiTransientError = Some TransientError"
| "base_class NetworkError = Some TransientError"
| "base_class CapacityUnavailableError = Some TransientError"
| "base_class QuotaExceededError = Some InfrastructureError"
| "base_class SubnetExhaustedError = Some InfrastructureError"
| "base_class c = Some PermanentError"

text \<open>The class attribute \<^verbatim>\<open>code\<close>; the three intermediate classes inherit it from the root.\<close>

fun class_code :: "perr \<Rightarrow> string" where
  "class_code AWSThrottledError = ''AWS_THROTTLED''"
| "class_code AWSServerError = ''AWS_5XX''"
| "class_code PulumiTransientError = ''PULUMI_TRANSIENT''"
| "class_code NetworkError = ''NETWORK_ERROR''"
| "class_code CapacityUnavailableError = ''INSUFFICIENT_CAPACITY''"
| "class_code PulumiCliMissingError = ''PULUMI_CLI_MISSING''"
| "class_code InvalidCredentialsError = ''INVALID_CREDENTIALS''"
| "class_code InvalidSpecError = ''INVALID_SPEC''"
| "class_code InvalidInstanceTypeError = ''INVALID_INSTANCE_TYPE''"
| "class_code AMINotFoundError = ''AMI_NOT_FOUND''"
| "class_code SubnetNotFoundError = ''SUBNET_NOT_FOUND''"
| "class_code SecurityGroupNotFoundError = ''SG_NOT_FOUND''"
| "class_code QuotaExceededError = ''QUOTA_EXCEEDED''"
| "class_code SubnetExhaustedError = ''SUBNET_EXHAUSTED''"
| "class_code c = ''UNCLASSIFIED''"

fun class_depth :: "perr \<Rightarrow> nat" where
  "class_depth ProvisioningError = 0"
| "class_depth TransientError = 1"
| "class_depth PermanentError = 1"
| "class_depth InfrastructureError = 1"
| "class_depth c = 2"

lemma base_class_depth: "base_class c = Some b \<Longrightarrow> class_depth b < class_depth c"
  by (cases c) auto

function issubclass :: "perr \<Rightarrow> perr \<Rightarrow> bool" where
  "issubclass c d = (c = d \<or> (case base_class c of None \<Rightarrow> False | Some b \<Rightarrow> issubclass b d))"
  by pat_completeness auto
termination
  by (relation "measure (\<lambda>(c, d). class_depth c)") (auto dest: base_class_depth)

declare issubclass.simps [simp del]

text \<open>The constructor of a typed error: a given code or hint overrides the class attribute.\<close>

record typed_error =
  te_class :: perr
  te_message :: string
  te_code :: string
  te_hint :: "string option"

definition new_error :: "perr \<Rightarrow> string \<Rightarrow> string option \<Rightarrow> string option \<Rightarrow> typed_error" where
  "new_error c message code hint = \<lparr>te_class = c, te_message = message,
     te_code = (case code of None \<Rightarrow> class_code c | Some k \<Rightarrow> k), te_hint = hint\<rparr>"

datatype exn_kind =
    KCancelled
  | KKeyboardInterrupt
  | KTyped typed_error
  | KClientError jobj jobj
  | KNetwork
  | KOther

record exn =
  ex_kind :: exn_kind
  ex_type :: string
  ex_str :: "string option"
  ex_repr :: string

section \<open>classifier.py\<close>

definition safe_str :: "exn \<Rightarrow> string" where
  "safe_str e = (case ex_str e of Some s \<Rightarrow> s
     | None \<Rightarrow> ''<'' @ ex_type e @ '': __str__ raised>'')"

definition DEFAULT_HINTS :: "(string \<times> string) list" where
  "DEFAULT_HINTS = [
     (''PULUMI_CLI_MISSING'', ''Install in the inferia-app container: '' @
        ''curl -fsSL https://get.pulumi.com | sh''),
     (''INVALID_SPEC'', ''The provisioning spec is missing required '' @
        ''fields or has invalid values. Review the '' @
        ''pool configuration in the New Pool wizard.''),
     (''INVALID_CREDENTIALS'', ''Open Settings -> Providers -> AWS and re-enter '' @
        ''your access key.''),
     (''AMI_NOT_FOUND'', ''The AMI is not available in the chosen region. '' @
        ''Try us-east-1 or pick a different AMI.''),
     (''SUBNET_NOT_FOUND'', ''The configured subnet does not exist in this region. '' @
        ''Update Settings -> Providers -> AWS.''),
     (''SG_NOT_FOUND'', ''The configured security group does not exist. '' @
        ''Update Settings -> Providers -> AWS.''),
     (''INVALID_INSTANCE_TYPE'', ''The selected instance type is unknown or '' @
        ''unavailable in the region.''),
     (''QUOTA_EXCEEDED'', ''Request a quota increase from AWS Support for '' @
        ''the relevant instance family in the region.''),
     (''INSUFFICIENT_CAPACITY'', ''AWS has no spare capacity for this instance '' @
        ''type/AZ. Retrying automatically with backoff; '' @
        ''if it persists, try a different AZ or instance '' @
        ''type. Spot is especially prone to this.''),
     (''SUBNET_EXHAUSTED'', ''The subnet has no free IPs. Use a different '' @
        ''subnet or expand the CIDR.''),
     (''AWS_THROTTLED'', ''AWS rate limited the request. The reconciler '' @
        ''will back off and retry automatically.''),
     (''AWS_5XX'', ''AWS returned a server error. The reconciler '' @
        ''will back off and retry automatically.''),
     (''PULUMI_TRANSIENT'', ''Pulumi reported a transient error. Retrying '' @
        ''automatically.''),
     (''NETWORK_ERROR'', ''Network connectivity issue. Retrying automatically.''),
     (''UNCLASSIFIED'', ''This was not a known error. The full stack '' @
        ''trace is in the Logs tab. Please file a bug.'')]"

definition AWS_CODE_MAP :: "(string \<times> perr) list" where
  "AWS_CODE_MAP = [
     (''RequestLimitExceeded'', AWSThrottledError),
     (''Throttling'', AWSThrottledError),
     (''ThrottlingException'', AWSThrottledError),
     (''AuthFailure'', InvalidCredentialsError),
     (''UnauthorizedOperation'', InvalidCredentialsError),
     (''InvalidClientTokenId'', InvalidCredentialsError),
     (''SignatureDoesNotMatch'', InvalidCredentialsError),
     (''InvalidAMIID.NotFound'', AMINotFoundError),
     (''InvalidSubnetID.NotFound'', SubnetNotFoundError),
     (''InvalidGroup.NotFound'', SecurityGroupNotFoundError),
     (''VcpuLimitExceeded'', QuotaExceededError),
     (''InstanceLimitExceeded'', QuotaExceededError),
     (''InsufficientInstanceCapacity'', CapacityUnavailableError),
     (''InsufficientSpotInstanceCapacity'', CapacityUnavailableError),
     (''InvalidParameterValue'', InvalidInstanceTypeError)]"

definition build_classified ::
  "string \<Rightarrow> error_class \<Rightarrow> string \<Rightarrow> string option \<Rightarrow> classified_error" where
  "build_classified code cls message hint = \<lparr>ce_class = cls, ce_code = code, ce_message = message,
     ce_hint = (case hint of None \<Rightarrow> map_of DEFAULT_HINTS code | Some h \<Rightarrow> Some h)\<rparr>"

definition class_to_error_class :: "perr \<Rightarrow> error_class" where
  "class_to_error_class c =
     (if issubclass c TransientError then TRANSIENT
      else if issubclass c InfrastructureError then INFRASTRUCTURE
      else PERMANENT)"

definition err_class :: "typed_error \<Rightarrow> error_class" where
  "err_class e =
     (if issubclass (te_class e) TransientError then TRANSIENT
      else if issubclass (te_class e) InfrastructureError then INFRASTRUCTURE
      else if issubclass (te_class e) PermanentError then PERMANENT
      else PERMANENT)"

definition classify_aws_client_error :: "jobj \<Rightarrow> jobj \<Rightarrow> string \<Rightarrow> classified_error" where
  "classify_aws_client_error err meta msg =
    (let code = (case map_of err ''Code'' of None \<Rightarrow> JStr [] | Some v \<Rightarrow> v);
         status = jget meta ''HTTPStatusCode'';
         unknown = build_classified ''UNCLASSIFIED'' PERMANENT
           (''AWS ClientError code='' @ py_str code @ '' status='' @ py_str status @ '': '' @ msg) None
     in case (case code of JStr s \<Rightarrow> map_of AWS_CODE_MAP s | _ \<Rightarrow> None) of
          Some c \<Rightarrow> build_classified (class_code c) (class_to_error_class c) msg None
        | None \<Rightarrow> (case status of
            JInt n \<Rightarrow> if 500 \<le> n \<and> n < 600 then build_classified ''AWS_5XX'' TRANSIENT msg None
                      else unknown
          | _ \<Rightarrow> unknown))"

definition classify_aws_error_string :: "string \<Rightarrow> classified_error option" where
  "classify_aws_error_string msg =
    (if msg = [] then None
     else (case find (\<lambda>(code, c). py_in code msg) AWS_CODE_MAP of
       None \<Rightarrow> None
     | Some (code, c) \<Rightarrow>
         let head = (if py_strip msg \<noteq> [] then take 300 (first_line (py_strip msg)) else take 300 msg)
         in Some (build_classified (class_code c) (class_to_error_class c)
                    (''AWS '' @ code @ '': '' @ head) None)))"

definition classify_error :: "exn \<Rightarrow> exn + classified_error" where
  "classify_error e = (case ex_kind e of
     KCancelled \<Rightarrow> Inl e
   | KKeyboardInterrupt \<Rightarrow> Inl e
   | KTyped t \<Rightarrow> Inr (build_classified (te_code t) (err_class t) (safe_str e) (te_hint t))
   | KClientError err meta \<Rightarrow> Inr (classify_aws_client_error err meta (safe_str e))
   | KNetwork \<Rightarrow> Inr (build_classified ''NETWORK_ERROR'' TRANSIENT
                    (if safe_str e \<noteq> [] then safe_str e else ex_repr e) None)
   | KOther \<Rightarrow> (case classify_aws_error_string (safe_str e) of
       Some ce \<Rightarrow> Inr ce
     | None \<Rightarrow> Inr (build_classified ''UNCLASSIFIED'' PERMANENT (ex_type e @ '': '' @ safe_str e) None)))"

section \<open>backoff.py\<close>

definition TRANSIENT_MAX_ATTEMPTS :: int where
  "TRANSIENT_MAX_ATTEMPTS = 5"

text \<open>
  \<^verbatim>\<open>uniform a b\<close> is \<^verbatim>\<open>random.uniform\<close>; the code relies on \<open>a \<le> uniform a b \<le> b\<close>.
  The attempt is a positive integer.
\<close>

definition backoff_base :: "int \<Rightarrow> real" where
  "backoff_base attempt = min 60 (2 ^ nat attempt)"

definition next_attempt_after :: "(real \<Rightarrow> real \<Rightarrow> real) \<Rightarrow> int \<Rightarrow> time \<Rightarrow> time" where
  "next_attempt_after uniform attempt now =
     (let base = backoff_base attempt; delay = base / 2 + uniform 0 base in now + delay)"

section \<open>Lemmas\<close>

lemma transient_classes:
  "class_to_error_class c = TRANSIENT \<longleftrightarrow>
   c \<in> {TransientError, AWSThrottledError, AWSServerError, PulumiTransientError, NetworkError,
         CapacityUnavailableError}"
  by (cases c) (simp_all add: class_to_error_class_def issubclass.simps)

lemma infrastructure_classes:
  "class_to_error_class c = INFRASTRUCTURE \<longleftrightarrow>
   c \<in> {InfrastructureError, QuotaExceededError, SubnetExhaustedError}"
  by (cases c) (simp_all add: class_to_error_class_def issubclass.simps)

lemma err_class_eq: "err_class t = class_to_error_class (te_class t)"
  by (simp add: err_class_def class_to_error_class_def)

lemma aws_code_map_range:
  "(k, c) \<in> set AWS_CODE_MAP \<Longrightarrow>
   c \<in> {AWSThrottledError, InvalidCredentialsError, AMINotFoundError, SubnetNotFoundError,
         SecurityGroupNotFoundError, QuotaExceededError, CapacityUnavailableError,
         InvalidInstanceTypeError}"
  by (auto simp: AWS_CODE_MAP_def)

lemma hint_known:
  "code \<in> fst ` set DEFAULT_HINTS \<Longrightarrow> ce_hint (build_classified code cls m h) \<noteq> None"
  by (auto simp: build_classified_def weak_map_of_SomeI split: option.splits)

lemma build_classified_simps [simp]:
  "ce_class (build_classified code cls m h) = cls"
  "ce_code (build_classified code cls m h) = code"
  "ce_message (build_classified code cls m h) = m"
  by (simp_all add: build_classified_def)

text \<open>The classification of an untyped exception: retryable codes, the one quota code, a hint.\<close>

definition sound_class :: "classified_error \<Rightarrow> bool" where
  "sound_class ce \<longleftrightarrow>
     (ce_class ce = TRANSIENT \<longleftrightarrow>
        ce_code ce \<in> {''AWS_THROTTLED'', ''AWS_5XX'', ''NETWORK_ERROR'', ''INSUFFICIENT_CAPACITY''}) \<and>
     (ce_class ce = INFRASTRUCTURE \<longleftrightarrow> ce_code ce = ''QUOTA_EXCEEDED'') \<and>
     ce_hint ce \<noteq> None"

lemma sound_class_mapped:
  assumes "(k, c) \<in> set AWS_CODE_MAP"
  shows "sound_class (build_classified (class_code c) (class_to_error_class c) m None)"
  using aws_code_map_range [OF assms]
  by (auto simp: sound_class_def transient_classes infrastructure_classes build_classified_def
      DEFAULT_HINTS_def)

lemma sound_class_fixed:
  "sound_class (build_classified ''UNCLASSIFIED'' PERMANENT m None)"
  "sound_class (build_classified ''AWS_5XX'' TRANSIENT m None)"
  "sound_class (build_classified ''NETWORK_ERROR'' TRANSIENT m None)"
  by (simp_all add: sound_class_def build_classified_def DEFAULT_HINTS_def)

lemma sound_class_client: "sound_class (classify_aws_client_error err meta msg)"
  by (auto simp: classify_aws_client_error_def Let_def sound_class_fixed
      intro: sound_class_mapped dest: map_of_SomeD split: option.splits json.splits)

lemma sound_class_string: "classify_aws_error_string msg = Some ce \<Longrightarrow> sound_class ce"
  by (auto simp: classify_aws_error_string_def Let_def
      intro: sound_class_mapped dest: find_in split: if_splits option.splits)

section \<open>Properties\<close>

text \<open>
  an exception that is not a typed provisioning error is classified TRANSIENT exactly for the
  four retryable codes (throttling, AWS 5xx, network, capacity) and INFRASTRUCTURE exactly for an
  exceeded quota; everything else is PERMANENT, and the operator always gets a hint.
\<close>

theorem classify_untyped_sound:
  assumes "classify_error e = Inr ce" and "\<And>t. ex_kind e \<noteq> KTyped t"
  shows "(ce_class ce = TRANSIENT \<longleftrightarrow>
            ce_code ce \<in> {''AWS_THROTTLED'', ''AWS_5XX'', ''NETWORK_ERROR'', ''INSUFFICIENT_CAPACITY''})
         \<and> (ce_class ce = INFRASTRUCTURE \<longleftrightarrow> ce_code ce = ''QUOTA_EXCEEDED'')
         \<and> ce_hint ce \<noteq> None"
proof -
  have "sound_class ce"
    using assms
    by (auto simp: classify_error_def sound_class_fixed sound_class_client
        split: exn_kind.splits option.splits dest: sound_class_string)
  then show ?thesis
    by (simp add: sound_class_def)
qed

text \<open>
  the two surfaces of one AWS error agree.  When every known AWS code that occurs in a message
  names the class of one code, the scan of the message (the Pulumi path) and the lookup of that
  code in a boto3 ClientError give the same error code, retry class and hint.
\<close>

theorem aws_string_agrees_with_client_error:
  assumes "map_of AWS_CODE_MAP code = Some c" and "py_in code msg"
    and "\<And>k d. (k, d) \<in> set AWS_CODE_MAP \<Longrightarrow> py_in k msg \<Longrightarrow> d = c"
  shows "\<exists>ce. classify_aws_error_string msg = Some ce \<and>
           (let ce' = classify_aws_client_error [(''Code'', JStr code)] meta msg' in
            ce_code ce = ce_code ce' \<and> ce_class ce = ce_class ce' \<and> ce_hint ce = ce_hint ce')"
proof -
  have mem: "(code, c) \<in> set AWS_CODE_MAP"
    using assms(1) by (rule map_of_SomeD)
  then have "code \<noteq> []"
    by (auto simp: AWS_CODE_MAP_def)
  with assms(2) have msg: "msg \<noteq> []"
    by auto
  obtain k d where kd: "find (\<lambda>(k, d). py_in k msg) AWS_CODE_MAP = Some (k, d)"
    using mem assms(2) by (cases "find (\<lambda>(k, d). py_in k msg) AWS_CODE_MAP") (auto simp: find_none)
  then have "d = c"
    using assms(3) by (auto dest: find_in)
  with kd msg assms(1) show ?thesis
    by (simp add: classify_aws_error_string_def classify_aws_client_error_def Let_def
        build_classified_def)
qed

text \<open>
  the delay before retry number n lies between half and one and a half of the base
  min(60, 2^n), so it is never negative and never above 90 seconds, and the base doubles from one
  attempt to the next until the cap.
\<close>

theorem backoff_bounds:
  assumes "\<And>a b. a \<le> b \<Longrightarrow> a \<le> uniform a b \<and> uniform a b \<le> b" and "1 \<le> n"
  shows "now + backoff_base n / 2 \<le> next_attempt_after uniform n now
         \<and> next_attempt_after uniform n now \<le> now + 3 / 2 * backoff_base n
         \<and> 2 \<le> backoff_base n \<and> backoff_base n \<le> 60
         \<and> backoff_base (n + 1) = min 60 (2 * backoff_base n)"
proof -
  have "(2::real) ^ 1 \<le> 2 ^ nat n"
    using assms(2) by (intro power_increasing) auto
  then have base: "2 \<le> backoff_base n"
    by (simp add: backoff_base_def)
  have "backoff_base (n + 1) = min 60 (2 * backoff_base n)"
    using assms(2) by (auto simp: backoff_base_def nat_add_distrib min_def)
  with base assms(1) [of 0 "backoff_base n"] show ?thesis
    by (auto simp: next_attempt_after_def Let_def backoff_base_def)
qed

section \<open>Witnesses\<close>

definition sample_command_error :: exn where
  "sample_command_error = \<lparr>ex_kind = KOther, ex_type = ''CommandError'',
     ex_str = Some ''api error VcpuLimitExceeded: limit'', ex_repr = ''CommandError()''\<rparr>"

theorem classify_untyped_sound_witness:
  "\<exists>ce. classify_error sample_command_error = Inr ce \<and> ce_code ce = ''QUOTA_EXCEEDED''
        \<and> ce_class ce = INFRASTRUCTURE \<and> ce_hint ce \<noteq> None"
proof -
  have "\<exists>ce. classify_error sample_command_error = Inr ce \<and> ce_code ce = ''QUOTA_EXCEEDED''"
    by (simp add: classify_error_def sample_command_error_def safe_str_def
        classify_aws_error_string_def AWS_CODE_MAP_def Let_def build_classified_def)
  moreover have "\<And>t. ex_kind sample_command_error \<noteq> KTyped t"
    by (simp add: sample_command_error_def)
  ultimately show ?thesis
    using classify_untyped_sound [of sample_command_error] by blast
qed

theorem aws_string_agrees_with_client_error_witness:
  "\<exists>ce. classify_aws_error_string ''api error VcpuLimitExceeded: limit'' = Some ce \<and>
        ce_code ce = ce_code (classify_aws_client_error [(''Code'', JStr ''VcpuLimitExceeded'')] [] [])"
proof -
  have "map_of AWS_CODE_MAP ''VcpuLimitExceeded'' = Some QuotaExceededError"
    by (simp add: AWS_CODE_MAP_def)
  moreover have "py_in ''VcpuLimitExceeded'' ''api error VcpuLimitExceeded: limit''"
    by simp
  moreover have "d = QuotaExceededError"
    if "(k, d) \<in> set AWS_CODE_MAP" "py_in k ''api error VcpuLimitExceeded: limit''" for k d
    using that by (auto simp: AWS_CODE_MAP_def)
  ultimately show ?thesis
    using aws_string_agrees_with_client_error
      [of "''VcpuLimitExceeded''" QuotaExceededError "''api error VcpuLimitExceeded: limit''" "[]" "[]"]
    by (auto simp: Let_def)
qed

theorem backoff_bounds_witness:
  "next_attempt_after (\<lambda>a b. (a + b) / 2) 3 100 \<le> 100 + 3 / 2 * backoff_base 3"
  using backoff_bounds [of "\<lambda>a b. (a + b) / 2" 3 100] by simp

end
