(* ===== verification/Phases.thy ===== *)
theory Phases
  imports EventLog Classifier InventoryViews PoolRepo DeploymentRepo Tokens
begin

text \<open>
  The phase handlers of the provisioning state machine (\<^verbatim>\<open>state_machine/phases\<close>) with the instance catalogue
  they consult (\<^verbatim>\<open>providers/aws/instance_catalog.py\<close>) and the STS probe (\<^verbatim>\<open>verify_credentials\<close>).  A handler maps a job
  and the tables to the tables it leaves and either an exception or a \<^verbatim>\<open>PhaseResult\<close>.  What AWS, Pulumi and the
  settings answer is the handler's environment record.
\<close>

section \<open>Instance catalogue\<close>

record instance_type =
  it_name :: string
  it_cls :: string
  it_vcpu :: int
  it_ram_gb :: int
  it_gpu_count :: int
  it_gpu_model :: "string option"
  it_gpu_ram_gb :: int
  it_usd_per_hour :: real

definition inst :: "string \<Rightarrow> string \<Rightarrow> int \<Rightarrow> int \<Rightarrow> int \<Rightarrow> string option \<Rightarrow> int \<Rightarrow> real \<Rightarrow> instance_type" where
  "inst n c v r g m gr p = \<lparr>it_name = n, it_cls = c, it_vcpu = v, it_ram_gb = r, it_gpu_count = g, it_gpu_model = m,
     it_gpu_ram_gb = gr, it_usd_per_hour = p\<rparr>"

definition INSTANCE_CATALOG :: "instance_type list" where
  "INSTANCE_CATALOG = [
     inst ''g5.xlarge'' ''normal_gpu'' 4 16 1 (Some ''NVIDIA A10G'') 24 1.006,
     inst ''g5.2xlarge'' ''normal_gpu'' 8 32 1 (Some ''NVIDIA A10G'') 24 1.212,
     inst ''g5.4xlarge'' ''normal_gpu'' 16 64 1 (Some ''NVIDIA A10G'') 24 1.624,
     inst ''g6.xlarge'' ''normal_gpu'' 4 16 1 (Some ''NVIDIA L4'') 24 0.805,
     inst ''g6.2xlarge'' ''normal_gpu'' 8 32 1 (Some ''NVIDIA L4'') 24 0.978,
     inst ''g6.4xlarge'' ''normal_gpu'' 16 64 1 (Some ''NVIDIA L4'') 24 1.323,
     inst ''g5.12xlarge'' ''heavy_gpu'' 48 192 4 (Some ''NVIDIA A10G'') 96 5.672,
     inst ''g5.48xlarge'' ''heavy_gpu'' 192 768 8 (Some ''NVIDIA A10G'') 192 16.288,
     inst ''g6.12xlarge'' ''heavy_gpu'' 48 192 4 (Some ''NVIDIA L4'') 96 4.602,
     inst ''p4d.24xlarge'' ''heavy_gpu'' 96 1152 8 (Some ''NVIDIA A100'') 320 32.770,
     inst ''p4de.24xlarge'' ''heavy_gpu'' 96 1152 8 (Some ''NVIDIA A100'') 640 40.965,
     inst ''p5.48xlarge'' ''heavy_gpu'' 192 2048 8 (Some ''NVIDIA H100'') 640 98.320,
     inst ''c6i.xlarge'' ''cpu'' 4 8 0 None 0 0.170,
     inst ''c6i.2xlarge'' ''cpu'' 8 16 0 None 0 0.340,
     inst ''c6i.4xlarge'' ''cpu'' 16 32 0 None 0 0.680,
     inst ''m6i.xlarge'' ''cpu'' 4 16 0 None 0 0.192,
     inst ''m6i.2xlarge'' ''cpu'' 8 32 0 None 0 0.384,
     inst ''m6i.4xlarge'' ''cpu'' 16 64 0 None 0 0.768]"

text \<open>The dictionary \<^verbatim>\<open>_BY_NAME\<close> keeps the last entry of a name.\<close>

definition lookup :: "string \<Rightarrow> instance_type option" where
  "lookup n = find (\<lambda>it. it_name it = n) (rev INSTANCE_CATALOG)"

definition by_class :: "string \<Rightarrow> instance_type list" where
  "by_class c = filter (\<lambda>it. it_cls it = c) INSTANCE_CATALOG"

section \<open>Exceptions and events\<close>

type_synonym outcome = "exn + phase_result"
type_synonym handler = "prov_job \<Rightarrow> db \<Rightarrow> db \<times> outcome"

primrec perr_name :: "perr \<Rightarrow> string" where
  "perr_name ProvisioningError = ''ProvisioningError''"
| "perr_name TransientError = ''TransientError''"
| "perr_name AWSThrottledError = ''AWSThrottledError''"
| "perr_name AWSServerError = ''AWSServerError''"
| "perr_name PulumiTransientError = ''PulumiTransientError''"
| "perr_name NetworkError = ''NetworkError''"
| "perr_name CapacityUnavailableError = ''CapacityUnavailableError''"
| "perr_name PermanentError = ''PermanentError''"
| "perr_name PulumiCliMissingError = ''PulumiCliMissingError''"
| "perr_name InvalidCredentialsError = ''InvalidCredentialsError''"
| "perr_name InvalidSpecError = ''InvalidSpecError''"
| "perr_name InvalidInstanceTypeError = ''InvalidInstanceTypeError''"
| "perr_name AMINotFoundError = ''AMINotFoundError''"
| "perr_name SubnetNotFoundError = ''SubnetNotFoundError''"
| "perr_name SecurityGroupNotFoundError = ''SecurityGroupNotFoundError''"
| "perr_name InfrastructureError = ''InfrastructureError''"
| "perr_name QuotaExceededError = ''QuotaExceededError''"
| "perr_name SubnetExhaustedError = ''SubnetExhaustedError''"

definition raise_error :: "perr \<Rightarrow> string \<Rightarrow> string option \<Rightarrow> string option \<Rightarrow> exn" where
  "raise_error c message code hint = \<lparr>ex_kind = KTyped (new_error c message code hint), ex_type = perr_name c,
     ex_str = Some message, ex_repr = perr_name c @ ''('' @ py_repr_str message @ '')''\<rparr>"

definition builtin_error :: "string \<Rightarrow> string \<Rightarrow> exn" where
  "builtin_error cls message = \<lparr>ex_kind = KOther, ex_type = cls, ex_str = Some message,
     ex_repr = cls @ ''('' @ py_repr_str message @ '')''\<rparr>"

text \<open>\<^verbatim>\<open>except Exception\<close> lets \<^verbatim>\<open>CancelledError\<close> and \<^verbatim>\<open>KeyboardInterrupt\<close> through.\<close>

definition caught :: "exn \<Rightarrow> bool" where
  "caught e \<longleftrightarrow> ex_kind e \<noteq> KCancelled \<and> ex_kind e \<noteq> KKeyboardInterrupt"

definition job_event :: "prov_job \<Rightarrow> phase \<Rightarrow> event_status \<Rightarrow> string \<Rightarrow> jobj option \<Rightarrow> db \<Rightarrow> db" where
  "job_event job ph st message extra d = emit_event (pj_pool_id job) (Some (pj_node_id job)) ph st message extra d"

definition stack_name_for_job :: "prov_job \<Rightarrow> string" where
  "stack_name_for_job job = ''inferia-'' @ pj_node_id job"

section \<open>Preflight\<close>

record preflight_env =
  pe_pulumi_on_path :: bool
  pe_has_creds :: bool
  pe_sts :: "exn + jobj"
  pe_describe_subnet :: "json \<Rightarrow> json \<Rightarrow> exn option"
  pe_describe_sg :: "json \<Rightarrow> json \<Rightarrow> exn option"
  pe_resolve_ami :: "json \<Rightarrow> json \<Rightarrow> exn + json"
  pe_ami_root :: "json \<Rightarrow> json \<Rightarrow> int option"

text \<open>\<^verbatim>\<open>(e.response.get("Error") or {}).get("Code", "")\<close> of a ClientError.\<close>

definition client_code :: "exn \<Rightarrow> string option" where
  "client_code e = (case ex_kind e of KClientError err meta \<Rightarrow>
     Some (case map_of err ''Code'' of Some (JStr c) \<Rightarrow> c | _ \<Rightarrow> []) | _ \<Rightarrow> None)"

definition str_of :: "exn \<Rightarrow> string" where
  "str_of e = (case ex_str e of None \<Rightarrow> [] | Some s \<Rightarrow> s)"

definition verify_credentials :: "exn + jobj \<Rightarrow> exn + jobj" where
  "verify_credentials reply = (case reply of
     Inr identity \<Rightarrow> Inr identity
   | Inl e \<Rightarrow>
       if ex_kind e = KNetwork \<and> ex_type e = ''EndpointConnectionError''
       then Inl (raise_error NetworkError (str_of e) None None)
       else case client_code e of
         None \<Rightarrow> Inl e
       | Some code \<Rightarrow>
           if code \<in> set [''AuthFailure'', ''InvalidClientTokenId'', ''SignatureDoesNotMatch'', ''UnauthorizedOperation'']
           then Inl (raise_error InvalidCredentialsError (str_of e) None None) else Inl e)"

definition verify_exists :: "perr \<Rightarrow> string \<Rightarrow> string \<Rightarrow> json \<Rightarrow> json \<Rightarrow> exn option \<Rightarrow> exn option" where
  "verify_exists cls missing_code what region i reply = (case reply of
     None \<Rightarrow> None
   | Some e \<Rightarrow> if client_code e = Some missing_code
       then Some (raise_error cls (what @ '' '' @ py_repr i @ '' not found in '' @ py_str region) None None)
       else Some e)"

definition verify_subnet_exists :: "json \<Rightarrow> json \<Rightarrow> exn option \<Rightarrow> exn option" where
  "verify_subnet_exists = verify_exists SubnetNotFoundError ''InvalidSubnetID.NotFound'' ''subnet''"

definition verify_security_group_exists :: "json \<Rightarrow> json \<Rightarrow> exn option \<Rightarrow> exn option" where
  "verify_security_group_exists = verify_exists SecurityGroupNotFoundError ''InvalidGroup.NotFound'' ''security group''"

text \<open>Steps 2 to 4: the required fields, the catalogue and the class of the instance type.\<close>

fun require_fields :: "jobj \<Rightarrow> string list \<Rightarrow> exn option" where
  "require_fields spec [] = None"
| "require_fields spec (f # fs) =
    (if truthy (jget spec f) then require_fields spec fs
     else Some (raise_error InvalidSpecError (''spec is missing required field: '' @ f) None None))"

fun lookup_json :: "json \<Rightarrow> exn + instance_type option" where
  "lookup_json (JStr n) = Inr (lookup n)"
| "lookup_json (JArr xs) = Inl (builtin_error ''TypeError'' (''unhashable type: '' @ py_repr_str ''list''))"
| "lookup_json (JObj kvs) = Inl (builtin_error ''TypeError'' (''unhashable type: '' @ py_repr_str ''dict''))"
| "lookup_json _ = Inr None"

definition check_spec :: "jobj \<Rightarrow> exn option" where
  "check_spec spec = (case require_fields spec [''instance_class'', ''instance_type'', ''region''] of
     Some e \<Rightarrow> Some e
   | None \<Rightarrow> (let ty = jget spec ''instance_type''; cls = jget spec ''instance_class'' in
       case lookup_json ty of
         Inl e \<Rightarrow> Some e
       | Inr None \<Rightarrow> Some (raise_error InvalidInstanceTypeError (''unknown instance type: '' @ py_repr ty) None None)
       | Inr (Some it) \<Rightarrow>
           if JStr (it_cls it) \<noteq> cls
           then Some (raise_error InvalidInstanceTypeError (''instance type '' @ py_repr ty @ '' belongs to class ''
                  @ py_repr_str (it_cls it) @ '', not '' @ py_repr cls) None None)
           else None))"

definition py_int_or :: "json \<Rightarrow> int \<Rightarrow> int option" where
  "py_int_or v k = (if truthy v then py_int v else Some k)"

definition bad_int :: "json \<Rightarrow> exn" where
  "bad_int v = (case v of
     JStr s \<Rightarrow> builtin_error ''ValueError'' (''invalid literal for int() with base 10: '' @ py_repr_str s)
   | _ \<Rightarrow> builtin_error ''TypeError'' ''int() argument must be a string, a bytes-like object or a real number'')"

text \<open>Step 8: the AMI the specification names, or the resolved one.\<close>

definition preflight_ami :: "preflight_env \<Rightarrow> jobj \<Rightarrow> exn + json" where
  "preflight_ami env spec =
    (let explicit = jget spec ''ami_id''; region = jget spec ''region''; cls = jget spec ''instance_class'' in
     if truthy explicit then Inr explicit
     else case pe_resolve_ami env region cls of
       Inr ami \<Rightarrow> Inr ami
     | Inl e \<Rightarrow> if caught e
         then Inl (raise_error AMINotFoundError (''no AMI available for '' @ py_str cls @ '' in '' @ py_str region @ '': ''
                    @ str_of e) None None)
         else Inl e)"

text \<open>Step 9: the outputs and the events that close the phase.\<close>

definition preflight_finish :: "preflight_env \<Rightarrow> prov_job \<Rightarrow> json \<Rightarrow> db \<Rightarrow> db \<times> outcome" where
  "preflight_finish env job ami d =
    (let spec = pj_spec job; region = jget spec ''region'';
         base = [(''ami_id'', ami), (''region'', region), (''instance_class'', jget spec ''instance_class''),
                 (''instance_type'', jget spec ''instance_type'')]
     in case py_int_or (jget spec ''root_volume_gb'') 0 of
          None \<Rightarrow> (d, Inl (bad_int (jget spec ''root_volume_gb'')))
        | Some requested \<Rightarrow>
            let ami_root = pe_ami_root env region ami;
                root = (case ami_root of None \<Rightarrow> 0 | Some r \<Rightarrow> r);
                effective = max requested root;
                outputs = (if effective > 0 then base @ [(''root_volume_gb'', JInt effective)] else base);
                d1 = (if effective > 0 \<and> root \<noteq> 0 \<and> effective \<noteq> requested
                      then job_event job PREFLIGHT EvLog (''Root volume raised to '' @ dec_int effective
                        @ ''GB to fit the AMI snapshot ('' @ dec_int root @ ''GB)'') None d else d);
                d2 = job_event job PREFLIGHT EvSucceeded ''Preflight checks passed'' None d1
            in (d2, Inr \<lparr>pr_next_phase = Some PROVISIONING, pr_outputs = Some outputs, pr_event = None\<rparr>))"

definition preflight_run :: "preflight_env \<Rightarrow> handler" where
  "preflight_run env job d =
    (let spec = pj_spec job; region = jget spec ''region'';
         d1 = job_event job PREFLIGHT EvRunning ''Validating spec, credentials and AMI'' None d
     in if \<not> pe_pulumi_on_path env
        then (d1, Inl (raise_error PulumiCliMissingError ''pulumi binary not found on PATH inside inferia-app'' None None))
        else case check_spec spec of
          Some e \<Rightarrow> (d1, Inl e)
        | None \<Rightarrow>
          if \<not> pe_has_creds env
          then (d1, Inl (raise_error InvalidCredentialsError
                 (''AWS credentials are not configured for this organisation; '' @
                  ''set them under Settings -> Providers -> AWS before deploying to an AWS pool'') None None))
          else case verify_credentials (pe_sts env) of
            Inl e \<Rightarrow> (d1, Inl e)
          | Inr identity \<Rightarrow>
            let d2 = job_event job PREFLIGHT EvLog (''AWS credentials verified (Account ''
                   @ (case map_of identity ''Account'' of None \<Rightarrow> ''?'' | Some a \<Rightarrow> py_str a) @ '')'') None d1;
                subnet = jget spec ''subnet_id''; sg = jget spec ''security_group_id''
            in (case (if truthy subnet then verify_subnet_exists region subnet (pe_describe_subnet env region subnet) else None) of
                 Some e \<Rightarrow> (d2, Inl e)
               | None \<Rightarrow>
               (case (if truthy sg then verify_security_group_exists region sg (pe_describe_sg env region sg) else None) of
                  Some e \<Rightarrow> (d2, Inl e)
                | None \<Rightarrow> (case preflight_ami env spec of
                    Inl e \<Rightarrow> (d2, Inl e)
                  | Inr ami \<Rightarrow> preflight_finish env job ami
                      (job_event job PREFLIGHT EvLog (''AMI resolved: '' @ py_str ami) None d2)))))"

section \<open>Provisioning\<close>

record stack_outputs =
  so_instance_id :: string
  so_public_dns :: "string option"
  so_private_ip :: "string option"
  so_region :: "string option"
  so_ami_id :: "string option"

text \<open>
  The environment of the provisioning handler: the hash, the random values, the settings, the
  user-data template, the Pulumi program builder and \<^verbatim>\<open>run_pulumi_up_sync\<close>.
\<close>

record up_env =
  ue_sha :: "string \<Rightarrow> string"
  ue_token :: string
  ue_bootstrap_id :: uuid
  ue_inference_proposal :: string
  ue_user_data :: "string \<Rightarrow> string \<Rightarrow> string option \<Rightarrow> string \<Rightarrow> string \<Rightarrow> int \<Rightarrow> string"
  ue_image_tag :: string
  ue_state_dir :: string
  ue_passphrase :: string
  ue_pulumi_env :: "(string \<times> string) list"
  ue_program :: "jobj \<Rightarrow> jobj \<Rightarrow> exn + jobj"
  ue_up :: "string \<Rightarrow> jobj \<Rightarrow> (string \<times> json) list \<Rightarrow> exn + stack_outputs"

definition bootstrap_node_name :: "prov_job \<Rightarrow> db \<Rightarrow> string" where
  "bootstrap_node_name job d = (case Option.bind (get_node_row (pj_node_id job) d) ci_node_name of
     None \<Rightarrow> ''node-'' @ pj_node_id job
   | Some n \<Rightarrow> if n = [] then ''node-'' @ pj_node_id job else n)"

definition sql_exn :: "sql_error \<Rightarrow> exn" where
  "sql_exn e = (case e of
     ForeignKeyViolation s \<Rightarrow> builtin_error ''ForeignKeyViolationError'' s
   | UniqueViolation s \<Rightarrow> builtin_error ''UniqueViolationError'' s
   | InvalidEnum s \<Rightarrow> builtin_error ''InvalidTextRepresentationError'' s
   | NotNullViolation s \<Rightarrow> builtin_error ''NotNullViolationError'' s
   | DataError s \<Rightarrow> builtin_error ''DataError'' s)"

definition inject_aws_bootstrap :: "up_env \<Rightarrow> prov_job \<Rightarrow> jobj \<Rightarrow> db \<Rightarrow> db \<times> (exn + jobj)" where
  "inject_aws_bootstrap env job spec d =
    (let node_name = bootstrap_node_name job d;
         (d1, inference_token) = get_or_generate_inference_token (ue_inference_proposal env) (pj_pool_id job) d
     in case mint_bootstrap_token (ue_sha env) (ue_token env) (ue_bootstrap_id env) (pj_pool_id job) (pj_org_id job)
               DEFAULT_BOOTSTRAP_TTL_SECONDS d1 of
          Inl e \<Rightarrow> (d1, Inl (sql_exn e))
        | Inr (d2, token, bid) \<Rightarrow>
            let tag = jget spec ''worker_image_tag''; cls = jget spec ''instance_class''; gpus = jget spec ''gpu_count''
            in case py_int_or gpus 1 of
                 None \<Rightarrow> (d2, Inl (bad_int gpus))
               | Some gpu_count \<Rightarrow> (d2, Inr (jmerge spec
                   [(''user_data'', JStr (ue_user_data env token node_name inference_token
                        (if truthy tag then py_str tag else ue_image_tag env)
                        (if truthy cls then py_str cls else ''normal_gpu'') gpu_count)),
                    (''bootstrap_id'', JStr bid)])))"

definition setdefault :: "jobj \<Rightarrow> string \<Rightarrow> json \<Rightarrow> jobj" where
  "setdefault o' k v = (case map_of o' k of None \<Rightarrow> o' @ [(k, v)] | Some _ \<Rightarrow> o')"

text \<open>\<^verbatim>\<open>(spec.get("provider") or job.provider or "aws").lower()\<close>; a provider that is no string has no \<^verbatim>\<open>lower\<close>.\<close>

definition job_provider :: "prov_job \<Rightarrow> exn + string" where
  "job_provider job =
    (let p = jget (pj_spec job) ''provider''
     in case (if truthy p then p else JStr (if pj_provider job = [] then ''aws'' else pj_provider job)) of
          JStr s \<Rightarrow> Inr (py_lower s)
        | _ \<Rightarrow> Inl (builtin_error ''AttributeError'' ''object has no attribute lower''))"

definition pulumi_env_of :: "up_env \<Rightarrow> jobj \<Rightarrow> jobj" where
  "pulumi_env_of env spec =
    (let e0 = map (\<lambda>(k, v). (k, JStr v)) (ue_pulumi_env env);
         e1 = setdefault e0 ''PULUMI_BACKEND_URL'' (JStr (''file://'' @ ue_state_dir env));
         e2 = setdefault e1 ''PULUMI_CONFIG_PASSPHRASE'' (JStr (ue_passphrase env))
     in if truthy (jget spec ''region'') then jmerge e2 [(''AWS_DEFAULT_REGION'', jget spec ''region'')] else e2)"

definition opt_field :: "string \<Rightarrow> string option \<Rightarrow> jobj" where
  "opt_field k v = (case v of None \<Rightarrow> [] | Some s \<Rightarrow> if s = [] then [] else [(k, JStr s)])"

definition launch :: "up_env \<Rightarrow> prov_job \<Rightarrow> jobj \<Rightarrow> db \<Rightarrow> db \<times> outcome" where
  "launch env job spec0 d =
    (let spec = setdefault spec0 ''node_id'' (JStr (pj_node_id job)) in
     case ue_program env spec (case pj_outputs job of None \<Rightarrow> [] | Some o' \<Rightarrow> o') of
       Inl e \<Rightarrow> (d, Inl e)
     | Inr prog \<Rightarrow>
         let d1 = job_event job PROVISIONING EvRunning (''Starting pulumi up on stack '' @ stack_name_for_job job) None d
         in case ue_up env (stack_name_for_job job) prog (pulumi_env_of env spec) of
              Inl e \<Rightarrow> (d1, Inl e)
            | Inr outs \<Rightarrow>
                (job_event job PROVISIONING EvSucceeded (''EC2 instance '' @ so_instance_id outs @ '' created in ''
                   @ opt_str (so_region outs))
                   (Some [(''instance_id'', JStr (so_instance_id outs)), (''public_dns'', opt_json (so_public_dns outs))]) d1,
                 Inr \<lparr>pr_next_phase = Some BOOTSTRAPPING,
                   pr_outputs = Some ([(''instance_id'', JStr (so_instance_id outs)), (''public_dns'', opt_json (so_public_dns outs)),
                      (''private_ip'', opt_json (so_private_ip outs))]
                      @ opt_field ''region'' (so_region outs) @ opt_field ''ami_id'' (so_ami_id outs)),
                   pr_event = None\<rparr>))"

definition pulumi_up_run :: "up_env \<Rightarrow> handler" where
  "pulumi_up_run env job d = (case job_provider job of
     Inl e \<Rightarrow> (d, Inl e)
   | Inr provider \<Rightarrow>
       if provider = ''aws'' \<and> \<not> truthy (jget (pj_spec job) ''user_data'')
       then (case inject_aws_bootstrap env job (pj_spec job) d of
           (d1, Inl e) \<Rightarrow> (d1, Inl e)
         | (d1, Inr spec) \<Rightarrow> launch env job spec d1)
       else launch env job (pj_spec job) d)"

section \<open>Bootstrapping\<close>

text \<open>
  The poll loop reads the node's row once per turn.  The environment supplies, per turn, the clock and the
  tables as other processes have left them by then; a list that ends stands for the deadline.
\<close>

definition bootstrap_timeout_error :: "real \<Rightarrow> (real \<Rightarrow> string) \<Rightarrow> exn" where
  "bootstrap_timeout_error timeout show_s = raise_error TransientError
     (''Worker did not register within '' @ show_s timeout @ ''s'') (Some ''BOOTSTRAP_TIMEOUT'') None"

definition bootstrap_failed_error :: exn where
  "bootstrap_failed_error = raise_error PermanentError ''Worker bootstrap failed (inventory.state=failed)''
     (Some ''BOOTSTRAP_FAILED'') (Some (''Check the cloud-init logs on the EC2 instance for '' @
       ''the underlying error (Logs sub-tab).''))"

datatype poll = PollReady | PollFailed | PollAgain

definition poll_node :: "uuid \<Rightarrow> db \<Rightarrow> poll" where
  "poll_node nid d = (case get_node nid d of
     None \<Rightarrow> PollAgain
   | Some n \<Rightarrow> if ci_state n = ''ready'' then PollReady else if ci_state n = ''failed'' then PollFailed else PollAgain)"

text \<open>\<^verbatim>\<open>turns\<close> are the clock readings of the loop test; \<^verbatim>\<open>world\<close> is what others do to the tables while the handler sleeps.\<close>

fun poll_loop :: "uuid \<Rightarrow> time \<Rightarrow> time list \<Rightarrow> (time \<Rightarrow> db \<Rightarrow> db) \<Rightarrow> db \<Rightarrow> db \<times> poll" where
  "poll_loop nid deadline [] world d = (d, PollAgain)"
| "poll_loop nid deadline (t # ts) world d =
    (if t < deadline then
       (case poll_node nid (world t d) of
          PollAgain \<Rightarrow> poll_loop nid deadline ts world (world t d)
        | r \<Rightarrow> (world t d, r))
     else (d, PollAgain))"

definition bootstrap_run :: "real \<Rightarrow> (real \<Rightarrow> string) \<Rightarrow> time \<Rightarrow> time list \<Rightarrow> (time \<Rightarrow> db \<Rightarrow> db) \<Rightarrow> handler" where
  "bootstrap_run timeout show_s start turns world job d =
    (let d1 = job_event job BOOTSTRAPPING EvRunning ''Waiting for worker on EC2 instance to register'' None d
     in case poll_loop (pj_node_id job) (start + timeout) turns world d1 of
          (d2, PollReady) \<Rightarrow>
            (job_event job READY EvSucceeded ''Node ready'' None
              (job_event job BOOTSTRAPPING EvSucceeded ''Worker registered as ready'' None d2),
             Inr \<lparr>pr_next_phase = Some READY, pr_outputs = None, pr_event = None\<rparr>)
        | (d2, PollFailed) \<Rightarrow> (d2, Inl bootstrap_failed_error)
        | (d2, PollAgain) \<Rightarrow> (d2, Inl (bootstrap_timeout_error timeout show_s)))"

section \<open>Cancelling\<close>

record cancel_env =
  ca_env_base :: up_env
  ca_destroy :: "string \<Rightarrow> jobj \<Rightarrow> (string \<times> json) list \<Rightarrow> exn option"

definition cancel_run :: "cancel_env \<Rightarrow> handler" where
  "cancel_run env job d =
    (let name = stack_name_for_job job in
     case ue_program (ca_env_base env) (pj_spec job) (case pj_outputs job of None \<Rightarrow> [] | Some o' \<Rightarrow> o') of
       Inl e \<Rightarrow> (d, Inl e)
     | Inr prog \<Rightarrow>
         let d1 = job_event job CANCELLING EvRunning (''Destroying stack '' @ name) None d
         in case ca_destroy env name prog (pulumi_env_of (ca_env_base env) []) of
              Some e \<Rightarrow>
                if caught e then
                  let reason = ex_type e @ '': '' @ str_of e;
                      d2 = mark_destroy_failed (pj_node_id job) reason d1
                  in (job_event job CANCELLING EvLog (take 500 (''Stack destroy failed; will retry: '' @ reason))
                        (Some [(''destroy_failed'', JBool True)]) d2, Inl e)
                else (d1, Inl e)
            | None \<Rightarrow> (job_event job CANCELLING EvSucceeded ''Stack destroyed'' None d1,
                Inr \<lparr>pr_next_phase = Some TERMINATED, pr_outputs = None, pr_event = None\<rparr>))"

section \<open>The handler contract\<close>

text \<open>
  What the reconciler relies on: a handler leaves the job queue alone (the reconciler records the outcome),
  returns only the successor of its phase, and never asks to stay.
\<close>

locale phase_handler =
  fixes ph :: phase and run :: handler
  assumes keeps_jobs: "db_jobs (fst (run job d)) = db_jobs d"
    and next_edge: "snd (run job d) = Inr r \<Longrightarrow> \<exists>q. pr_next_phase r = Some q \<and> phase_edge ph q \<and> q \<noteq> FAILED \<and> q \<noteq> CANCELLING"
begin

text \<open>A handler advances a job, so a phase without a successor has no handler that returns.\<close>

lemma advances:
  assumes "snd (run job d) = Inr r" "\<not> is_terminal ph"
  shows "\<exists>q. pr_next_phase r = Some q \<and> (ph, q) \<in> {(PENDING, PREFLIGHT), (PREFLIGHT, PROVISIONING),
     (PROVISIONING, BOOTSTRAPPING), (BOOTSTRAPPING, READY), (CANCELLING, TERMINATED)}"
proof -
  obtain q where "pr_next_phase r = Some q" "phase_edge ph q" "q \<noteq> FAILED" "q \<noteq> CANCELLING"
    using next_edge [OF assms(1)] by blast
  then show ?thesis using assms(2) by (cases ph) auto
qed

end

lemma job_event_tables [simp]:
  "db_jobs (job_event j p s m x d) = db_jobs d" "db_nodes (job_event j p s m x d) = db_nodes d"
  "db_pools (job_event j p s m x d) = db_pools d" "db_deps (job_event j p s m x d) = db_deps d"
  "db_tokens (job_event j p s m x d) = db_tokens d" "db_now (job_event j p s m x d) = db_now d"
  by (simp_all add: job_event_def emit_event_def insert_event_def)

lemma preflight_finish_jobs: "db_jobs (fst (preflight_finish env job ami d)) = db_jobs d"
  by (simp add: preflight_finish_def Let_def split: option.splits)

lemma preflight_finish_next: "snd (preflight_finish env job ami d) = Inr r \<Longrightarrow> pr_next_phase r = Some PROVISIONING"
  by (auto simp: preflight_finish_def Let_def split: option.splits)

lemma preflight_jobs: "db_jobs (fst (preflight_run env job d)) = db_jobs d"
  by (simp add: preflight_run_def Let_def preflight_finish_jobs split: option.splits sum.splits)

lemma preflight_next: "snd (preflight_run env job d) = Inr r \<Longrightarrow> pr_next_phase r = Some PROVISIONING"
  by (auto simp: preflight_run_def Let_def dest: preflight_finish_next split: option.splits sum.splits if_splits)

lemma inject_jobs: "db_jobs (fst (inject_aws_bootstrap env job spec d)) = db_jobs d"
  by (auto simp: inject_aws_bootstrap_def Let_def mint_bootstrap_token_def get_or_generate_inference_token_def
      update_pools_def split: option.splits sum.splits if_splits)

lemma launch_jobs: "db_jobs (fst (launch env job spec d)) = db_jobs d"
  by (simp add: launch_def Let_def split: sum.splits)

lemma launch_next: "snd (launch env job spec d) = Inr r \<Longrightarrow> pr_next_phase r = Some BOOTSTRAPPING"
  by (auto simp: launch_def Let_def split: sum.splits)

lemma up_jobs: "db_jobs (fst (pulumi_up_run env job d)) = db_jobs d"
  using inject_jobs [of env job "pj_spec job" d]
  by (auto simp: pulumi_up_run_def launch_jobs split: sum.splits prod.splits)

lemma up_next: "snd (pulumi_up_run env job d) = Inr r \<Longrightarrow> pr_next_phase r = Some BOOTSTRAPPING"
  by (auto simp: pulumi_up_run_def dest: launch_next split: sum.splits prod.splits if_splits)

lemma poll_loop_jobs:
  "(\<And>t d. db_jobs (world t d) = db_jobs d) \<Longrightarrow> db_jobs (fst (poll_loop nid deadline ts world d)) = db_jobs d"
  by (induction ts arbitrary: d) (auto split: poll.splits)

lemma bootstrap_jobs:
  "(\<And>t d. db_jobs (world t d) = db_jobs d) \<Longrightarrow> db_jobs (fst (bootstrap_run timeout sh start turns world job d)) = db_jobs d"
  using poll_loop_jobs [of world "pj_node_id job" "start + timeout" turns] 
  by (simp add: bootstrap_run_def Let_def split: prod.splits poll.splits) (metis fst_conv job_event_tables(1))

lemma bootstrap_next: "snd (bootstrap_run timeout sh start turns world job d) = Inr r \<Longrightarrow> pr_next_phase r = Some READY"
  by (auto simp: bootstrap_run_def Let_def split: prod.splits poll.splits)

lemma cancel_jobs: "db_jobs (fst (cancel_run env job d)) = db_jobs d"
  by (simp add: cancel_run_def Let_def mark_destroy_failed_def split: sum.splits option.splits)

lemma cancel_next: "snd (cancel_run env job d) = Inr r \<Longrightarrow> pr_next_phase r = Some TERMINATED"
  by (auto simp: cancel_run_def Let_def split: sum.splits option.splits if_splits)

interpretation preflight: phase_handler PREFLIGHT "preflight_run env" for env
  by unfold_locales (auto simp: preflight_jobs dest: preflight_next)

interpretation pulumi_up: phase_handler PROVISIONING "pulumi_up_run env" for env
  by unfold_locales (auto simp: up_jobs dest: up_next)

interpretation cancel: phase_handler CANCELLING "cancel_run env" for env
  by unfold_locales (auto simp: cancel_jobs dest: cancel_next)

text \<open>The bootstrap handler keeps the contract when it waits alone.\<close>

interpretation bootstrap: phase_handler BOOTSTRAPPING "bootstrap_run timeout sh start turns (\<lambda>t d. d)" for timeout sh start turns
  by unfold_locales (auto simp: bootstrap_jobs dest: bootstrap_next)

end
