(* ===== verification/Reconciler.thy ===== *)
theory Reconciler
  imports JobRepo Phases
begin

text \<open>
  \<^verbatim>\<open>state_machine/reconciler/loop.py\<close> (with \<^verbatim>\<open>lease.py\<close>): one iteration claims a job, runs the handler of its phase
  under lease renewal and records the outcome.  The tables at the end of the handler are whatever the
  handler and everybody else made of them: the handler of the environment is an arbitrary function on the tables.
  Calls that leave the process (EC2 sweeps, closing worker connections) are listed as effects.
\<close>

section \<open>Environment\<close>

datatype effect = SweepNode uuid string | SweepPool uuid string | Detach uuid

record rec_env =
  re_holder :: string
  re_lease_seconds :: real
  re_uniform :: "real \<Rightarrow> real \<Rightarrow> real"
  re_handlers :: "phase \<Rightarrow> handler option"
  re_context :: "prov_job \<Rightarrow> exn option"
  re_renewer_raises :: "prov_job \<Rightarrow> bool"
  re_inventory :: bool
  re_pool_repo :: bool
  re_registry :: bool

section \<open>Lease renewal\<close>

text \<open>
  The renewal loop: per turn, True is an elapsed interval and False the stop event.  The result says whether
  the loop ended because of the stop event.
\<close>

fun renew_loop :: "uuid \<Rightarrow> string \<Rightarrow> real \<Rightarrow> bool list \<Rightarrow> (db \<Rightarrow> db) \<Rightarrow> db \<Rightarrow> db \<times> bool" where
  "renew_loop jid holder secs [] world d = (d, True)"
| "renew_loop jid holder secs (elapsed # turns) world d =
    (if \<not> elapsed then (d, True)
     else let (d1, ok) = renew_lease jid holder secs (world d)
          in if ok then renew_loop jid holder secs turns world d1 else (d1, False))"

section \<open>Recording an outcome\<close>

definition region_for_job :: "prov_job \<Rightarrow> string option" where
  "region_for_job job =
    (let r = jget (pj_spec job) ''region''; o' = jget (case pj_outputs job of None \<Rightarrow> [] | Some x \<Rightarrow> x) ''region''
     in if truthy r then Some (py_str r) else if truthy o' then Some (py_str o') else None)"

definition inventory_set_state :: "rec_env \<Rightarrow> uuid \<Rightarrow> string \<Rightarrow> db \<Rightarrow> db" where
  "inventory_set_state env nid st d =
    (if \<not> re_inventory env then d else case set_state nid st d of Inl e \<Rightarrow> d | Inr d' \<Rightarrow> d')"

definition fail_reason :: "classified_error \<Rightarrow> string" where
  "fail_reason ce = (case ce_hint ce of
     Some h \<Rightarrow> if h \<noteq> [] then h else if ce_message ce \<noteq> [] then ce_message ce else ce_code ce
   | None \<Rightarrow> if ce_message ce \<noteq> [] then ce_message ce else ce_code ce)"

definition fail_dependent_deployments :: "uuid \<Rightarrow> classified_error \<Rightarrow> db \<Rightarrow> db" where
  "fail_dependent_deployments nid ce d =
    (let message = take 500 (''node provisioning failed ('' @ ce_code ce @ ''): '' @ fail_reason ce)
     in fst (fail_deployments_for_node nid message d))"

definition error_extra :: "classified_error \<Rightarrow> jobj option" where
  "error_extra ce = Some [(''code'', JStr (ce_code ce)), (''class'', JStr (error_class_value (ce_class ce)))]"

definition fail_loud :: "rec_env \<Rightarrow> prov_job \<Rightarrow> classified_error \<Rightarrow> db \<Rightarrow> db" where
  "fail_loud env job ce d =
    (let (d1, ok) = fail_job (pj_id job) (pj_phase job) (re_holder env) ce d
     in if \<not> ok then d1
        else let d2 = inventory_set_state env (pj_node_id job) ''failed'' d1;
                 d3 = fail_dependent_deployments (pj_node_id job) ce d2;
                 d4 = job_event job (pj_phase job) EvFailed (ce_message ce) (error_extra ce) d3
             in case ce_hint ce of
                  None \<Rightarrow> d4
                | Some h \<Rightarrow> if h = [] then d4 else job_event job (pj_phase job) EvLog h (Some [(''hint'', JBool True)]) d4)"

text \<open>A transient failure is measured from the claim, whose time the claimed row carries as \<^verbatim>\<open>updated_at\<close>.\<close>

definition handle_error :: "rec_env \<Rightarrow> prov_job \<Rightarrow> exn \<Rightarrow> db \<Rightarrow> db \<times> exn option" where
  "handle_error env job e d = (case classify_error e of
     Inl e' \<Rightarrow> (d, Some e')
   | Inr ce \<Rightarrow>
       if ce_class ce = TRANSIENT then
         let new_attempt = pj_attempt_count job + 1 in
         if new_attempt \<ge> TRANSIENT_MAX_ATTEMPTS then
           (fail_loud env job \<lparr>ce_class = PERMANENT, ce_code = ''RETRIES_EXHAUSTED'',
              ce_message = ''gave up after '' @ dec_int TRANSIENT_MAX_ATTEMPTS @ '' transient failures: '' @ ce_message ce,
              ce_hint = ce_hint ce\<rparr> d, None)
         else let (d1, ok) = schedule_retry (pj_id job) (pj_phase job) (re_holder env)
                    (next_attempt_after (re_uniform env) new_attempt (pj_updated_at job)) new_attempt ce d
              in (if ok then job_event job (pj_phase job) EvLog
                     (''transient failure ('' @ ce_code ce @ ''); retrying (attempt '' @ dec_int new_attempt @ '')'')
                     (error_extra ce) d1
                  else d1, None)
       else (fail_loud env job ce d, None))"

section \<open>Teardown\<close>

definition finalize_pool_if_empty :: "rec_env \<Rightarrow> prov_job \<Rightarrow> db \<Rightarrow> db \<times> effect list" where
  "finalize_pool_if_empty env job d =
    (let pid = pj_pool_id job in
     if \<not> re_pool_repo env then (d, [])
     else if get_lifecycle_state pid d \<noteq> Some ''terminating'' then (d, [])
     else if count_live_inventory pid d > 0 then (d, [])
     else case finalize_pool_delete pid d of
       Inl e \<Rightarrow> (d, [])
     | Inr (d1, deleted) \<Rightarrow> (d1, case region_for_job job of None \<Rightarrow> [] | Some r \<Rightarrow> [SweepPool pid r]))"

definition teardown_node :: "rec_env \<Rightarrow> prov_job \<Rightarrow> db \<Rightarrow> db \<times> effect list" where
  "teardown_node env job d =
    (let nid = pj_node_id job;
         sweep = (case region_for_job job of None \<Rightarrow> [] | Some r \<Rightarrow> [SweepNode nid r]);
         d1 = (if re_inventory env then case purge_node nid d of Inl e \<Rightarrow> d | Inr d' \<Rightarrow> d' else d);
         (d2, pool) = finalize_pool_if_empty env job d1
     in (d2, sweep @ pool @ (if re_registry env then [Detach nid] else [])))"

section \<open>One iteration\<close>

definition emit_result_event :: "prov_job \<Rightarrow> phase_result \<Rightarrow> db \<Rightarrow> db" where
  "emit_result_event job r d = (case pr_event r of
     None \<Rightarrow> d
   | Some l \<Rightarrow> job_event job (el_phase l) (el_status l) (el_message l) (el_extra l) d)"

definition record_result :: "rec_env \<Rightarrow> prov_job \<Rightarrow> phase_result \<Rightarrow> db \<Rightarrow> db \<times> effect list" where
  "record_result env job r d = (case pr_next_phase r of
     None \<Rightarrow>
       let new_attempt = pj_attempt_count job + 1 in
       if new_attempt \<ge> TRANSIENT_MAX_ATTEMPTS then
         (fail_loud env job \<lparr>ce_class = PERMANENT, ce_code = ''RETRIES_EXHAUSTED'',
            ce_message = ''gave up after '' @ dec_int TRANSIENT_MAX_ATTEMPTS @ '' retry-requests'', ce_hint = None\<rparr> d, [])
       else let (d1, ok) = schedule_retry (pj_id job) (pj_phase job) (re_holder env)
                  (next_attempt_after (re_uniform env) new_attempt (db_now d)) new_attempt
                  \<lparr>ce_class = TRANSIENT, ce_code = ''HANDLER_RETRY_REQUESTED'',
                   ce_message = phase_value (pj_phase job) @ '' handler returned next_phase=None'', ce_hint = None\<rparr> d
            in (if ok then emit_result_event job r d1 else d1, [])
   | Some q \<Rightarrow>
       let (d1, ok) = transition_to (pj_id job) (pj_phase job) q (re_holder env) (pr_outputs r) d
       in if \<not> ok then (d1, [])
          else let d2 = (if q = READY then inventory_set_state env (pj_node_id job) ''ready'' d1 else d1);
                   d3 = emit_result_event job r d2
               in if q = TERMINATED then teardown_node env job d3 else (d3, []))"

definition finish_job :: "rec_env \<Rightarrow> prov_job \<Rightarrow> outcome \<Rightarrow> db \<Rightarrow> db \<times> effect list \<times> exn option" where
  "finish_job env job out d = (case out of
     Inl e \<Rightarrow> if \<not> caught e then (d, [], Some e) else (let (d1, raised) = handle_error env job e d in (d1, [], raised))
   | Inr r \<Rightarrow> (let (d1, effs) = record_result env job r d in (d1, effs, None)))"

definition no_handler :: "prov_job \<Rightarrow> classified_error" where
  "no_handler job = \<lparr>ce_class = PERMANENT, ce_code = ''UNCLASSIFIED'',
     ce_message = ''no handler for phase '' @ phase_value (pj_phase job),
     ce_hint = Some ''server misconfiguration - file a bug''\<rparr>"

definition run_claimed :: "rec_env \<Rightarrow> prov_job \<Rightarrow> db \<Rightarrow> db \<times> effect list \<times> exn option" where
  "run_claimed env job d = (case re_handlers env (pj_phase job) of
     None \<Rightarrow> (fail_loud env job (no_handler job) d, [], None)
   | Some run \<Rightarrow> (case re_context env job of
       Some e \<Rightarrow> (d, [], Some e)
     | None \<Rightarrow>
         let (d1, out) = run job d
         in if re_renewer_raises env job then (release_lease (pj_id job) (re_holder env) d1, [], None)
            else finish_job env job out d1))"

definition one_iteration :: "rec_env \<Rightarrow> uuid list \<Rightarrow> db \<Rightarrow> db \<times> effect list \<times> exn option" where
  "one_iteration env locked d = (case claim_next_job locked (re_holder env) (re_lease_seconds env) d of
     (d1, None) \<Rightarrow> (d1, [], None)
   | (d1, Some job) \<Rightarrow> run_claimed env job d1)"

section \<open>What a guarded statement does\<close>

lemma guard_fails:
  assumes "jobs_inv d" "get_job i d = Some j" "\<not> q j"
  shows "update_jobs (\<lambda>r. pj_id r = i \<and> q r) f d = (d, cmd_status ''UPDATE'' 0)"
proof -
  have none: "sql_count (\<lambda>r. pj_id r = i \<and> q r) (db_jobs d) = 0"
    using count_job [OF assms(1)] assms(2,3) by simp
  then show ?thesis
    unfolding update_jobs_def by (simp add: sql_update_none [OF none])
qed

lemma guard_holds:
  assumes "jobs_inv d" "get_job i d = Some j" "q j" "\<And>r. pj_id (f r) = pj_id r"
  shows "snd (update_jobs (\<lambda>r. pj_id r = i \<and> q r) f d) = cmd_status ''UPDATE'' 1"
    and "get_job i (fst (update_jobs (\<lambda>r. pj_id r = i \<and> q r) f d)) = Some (f j)"
  using count_job [OF assms(1), of i q] get_job_in [OF assms(2)] assms(2-4)
  by (simp_all add: get_job_update)

lemma update_jobs_tables [simp]:
  "db_nodes (fst (update_jobs p f d)) = db_nodes d" "db_deps (fst (update_jobs p f d)) = db_deps d"
  "db_pools (fst (update_jobs p f d)) = db_pools d" "db_events (fst (update_jobs p f d)) = db_events d"
  by (simp_all add: update_jobs_def)

lemma get_job_cong: "db_jobs d' = db_jobs d \<Longrightarrow> get_job i d' = get_job i d" "db_jobs d' = db_jobs d \<Longrightarrow> jobs_inv d' = jobs_inv d"
  by (simp_all add: get_job_def jobs_inv_def)

lemma inventory_set_state_tables [simp]:
  "db_jobs (inventory_set_state env nid st d) = db_jobs d" "db_deps (inventory_set_state env nid st d) = db_deps d"
  by (simp_all add: inventory_set_state_def set_state_def split: sum.splits)

lemma fail_dependent_tables [simp]:
  "db_jobs (fail_dependent_deployments nid ce d) = db_jobs d" "db_nodes (fail_dependent_deployments nid ce d) = db_nodes d"
  by (simp_all add: fail_dependent_deployments_def fail_deployments_for_node_def Let_def)

text \<open>A reconciler whose guard no longer holds records nothing.\<close>

lemma fenced_ops:
  assumes "jobs_inv d" "get_job i d = Some j" "pj_phase j \<noteq> cur"
  shows "transition_to i cur q h out d = (d, False)" "fail_job i cur h ce d = (d, False)"
    "schedule_retry i cur h a n ce d = (d, False)"
  using guard_fails [OF assms(1,2), where q = "\<lambda>r. pj_phase r = cur \<and> pj_lease_holder r = Some h"]
    guard_fails [OF assms(1,2), where q = "\<lambda>r. pj_phase r = cur"] assms(3)
  by (simp_all add: guarded_ops)

text \<open>The holder's own statements on a row that is as it claimed it.\<close>

definition held :: "rec_env \<Rightarrow> prov_job \<Rightarrow> db \<Rightarrow> bool" where
  "held env job d \<longleftrightarrow> jobs_inv d \<and> (\<exists>j. get_job (pj_id job) d = Some j \<and> pj_phase j = pj_phase job
     \<and> pj_lease_holder j = Some (re_holder env) \<and> pj_attempt_count j = pj_attempt_count job \<and> pj_node_id j = pj_node_id job)"

lemma held_transition:
  assumes "held env job d"
  shows "snd (transition_to (pj_id job) (pj_phase job) q (re_holder env) out d)"
    and "\<exists>j'. get_job (pj_id job) (fst (transition_to (pj_id job) (pj_phase job) q (re_holder env) out d)) = Some j'
       \<and> pj_phase j' = q \<and> pj_attempt_count j' = pj_attempt_count job \<and> pj_lease_holder j' = None \<and> pj_node_id j' = pj_node_id job"
proof -
  obtain j where j: "jobs_inv d" "get_job (pj_id job) d = Some j" "pj_phase j = pj_phase job \<and> pj_lease_holder j = Some (re_holder env)"
    "pj_attempt_count j = pj_attempt_count job" "pj_node_id j = pj_node_id job"
    using assms by (auto simp: held_def)
  note g = guard_holds [where q = "\<lambda>r. pj_phase r = pj_phase job \<and> pj_lease_holder r = Some (re_holder env)", OF j(1-3)]
  show "snd (transition_to (pj_id job) (pj_phase job) q (re_holder env) out d)"
    unfolding transition_to_def Let_def split_def snd_conv by (subst g(1)) simp_all
  show "\<exists>j'. get_job (pj_id job) (fst (transition_to (pj_id job) (pj_phase job) q (re_holder env) out d)) = Some j'
       \<and> pj_phase j' = q \<and> pj_attempt_count j' = pj_attempt_count job \<and> pj_lease_holder j' = None \<and> pj_node_id j' = pj_node_id job"
    unfolding transition_to_def Let_def split_def fst_conv by (subst g(2)) (simp_all add: j)
qed

lemma held_fail:
  assumes "held env job d"
  shows "snd (fail_job (pj_id job) (pj_phase job) (re_holder env) ce d)"
    and "\<exists>j'. get_job (pj_id job) (fst (fail_job (pj_id job) (pj_phase job) (re_holder env) ce d)) = Some j'
       \<and> pj_phase j' = FAILED \<and> pj_last_error_code j' = Some (ce_code ce) \<and> pj_lease_holder j' = None"
proof -
  obtain j where j: "jobs_inv d" "get_job (pj_id job) d = Some j" "pj_phase j = pj_phase job \<and> pj_lease_holder j = Some (re_holder env)"
    using assms by (auto simp: held_def)
  note g = guard_holds [where q = "\<lambda>r. pj_phase r = pj_phase job \<and> pj_lease_holder r = Some (re_holder env)", OF j]
  show "snd (fail_job (pj_id job) (pj_phase job) (re_holder env) ce d)"
    unfolding fail_job_def Let_def split_def snd_conv by (subst g(1)) (simp_all add: record_error_def)
  show "\<exists>j'. get_job (pj_id job) (fst (fail_job (pj_id job) (pj_phase job) (re_holder env) ce d)) = Some j'
       \<and> pj_phase j' = FAILED \<and> pj_last_error_code j' = Some (ce_code ce) \<and> pj_lease_holder j' = None"
    unfolding fail_job_def Let_def split_def fst_conv by (subst g(2)) (simp_all add: record_error_def)
qed

lemma held_retry:
  assumes "held env job d"
  shows "\<exists>j'. get_job (pj_id job) (fst (schedule_retry (pj_id job) (pj_phase job) (re_holder env) a n ce d)) = Some j'
       \<and> pj_phase j' = pj_phase job \<and> pj_attempt_count j' = n \<and> pj_next_attempt_after j' = Some a \<and> pj_lease_holder j' = None"
proof -
  obtain j where j: "jobs_inv d" "get_job (pj_id job) d = Some j" "pj_phase j = pj_phase job"
    using assms by (auto simp: held_def)
  note g = guard_holds [where q = "\<lambda>r. pj_phase r = pj_phase job", OF j]
  show ?thesis
    unfolding schedule_retry_def Let_def split_def fst_conv by (subst g(2)) (simp_all add: record_error_def j)
qed

section \<open>Progress\<close>

text \<open>How many more iterations a job can take: the stages ahead of it and the transient failures it is still allowed.\<close>

primrec stages :: "phase \<Rightarrow> nat" where
  "stages PENDING = 4" | "stages PREFLIGHT = 3" | "stages PROVISIONING = 2" | "stages BOOTSTRAPPING = 1"
| "stages CANCELLING = 1" | "stages READY = 0" | "stages FAILED = 0" | "stages TERMINATED = 0"

definition work :: "prov_job \<Rightarrow> nat" where
  "work j = (if is_terminal (pj_phase j) then 0 else stages (pj_phase j) + nat (TRANSIENT_MAX_ATTEMPTS - 1 - pj_attempt_count j))"

lemma work_advance:
  assumes "(ph, q) \<in> {(PENDING, PREFLIGHT), (PREFLIGHT, PROVISIONING), (PROVISIONING, BOOTSTRAPPING), (BOOTSTRAPPING, READY),
      (CANCELLING, TERMINATED)}" "pj_phase j = ph" "pj_phase j' = q" "pj_attempt_count j' = pj_attempt_count j"
  shows "work j' < work j"
  using assms by (auto simp: work_def)

lemma work_terminal: "is_terminal (pj_phase j') \<Longrightarrow> \<not> is_terminal (pj_phase j) \<Longrightarrow> work j' < work j"
  by (cases "pj_phase j") (simp_all add: work_def)

lemma work_retry:
  "\<lbrakk>pj_phase j' = pj_phase j; pj_attempt_count j' = pj_attempt_count j + 1; pj_attempt_count j + 1 < TRANSIENT_MAX_ATTEMPTS;
    \<not> is_terminal (pj_phase j)\<rbrakk> \<Longrightarrow> work j' < work j"
  by (simp add: work_def)

lemma fail_loud_jobs:
  "db_jobs (fail_loud env job ce d) = db_jobs (fst (fail_job (pj_id job) (pj_phase job) (re_holder env) ce d))"
  by (simp add: fail_loud_def Let_def split_def split: option.splits)

lemma handle_error_jobs:
  assumes "classify_error e = Inr ce"
  shows "db_jobs (fst (handle_error env job e d)) =
    (if ce_class ce = TRANSIENT \<and> pj_attempt_count job + 1 < TRANSIENT_MAX_ATTEMPTS
     then db_jobs (fst (schedule_retry (pj_id job) (pj_phase job) (re_holder env)
            (next_attempt_after (re_uniform env) (pj_attempt_count job + 1) (pj_updated_at job)) (pj_attempt_count job + 1) ce d))
     else db_jobs (fst (fail_job (pj_id job) (pj_phase job) (re_holder env)
            (if ce_class ce = TRANSIENT then \<lparr>ce_class = PERMANENT, ce_code = ''RETRIES_EXHAUSTED'',
              ce_message = ''gave up after '' @ dec_int TRANSIENT_MAX_ATTEMPTS @ '' transient failures: '' @ ce_message ce,
              ce_hint = ce_hint ce\<rparr> else ce) d)))"
  using assms by (simp add: handle_error_def Let_def split_def fail_loud_jobs)

lemma teardown_jobs: "set (db_jobs (fst (teardown_node env job d))) \<subseteq> set (db_jobs d)"
proof -
  define d1 where "d1 = (if re_inventory env then case purge_node (pj_node_id job) d of Inl e \<Rightarrow> d | Inr d' \<Rightarrow> d' else d)"
  have "set (db_jobs d1) \<subseteq> set (db_jobs d)"
    unfolding d1_def purge_node_eq by (auto simp: Let_def)
  moreover have "db_jobs (fst (finalize_pool_if_empty env job d1)) = db_jobs d1"
    unfolding finalize_pool_if_empty_def Let_def by (simp add: finalize_Inr Let_def)
  ultimately show ?thesis
    by (simp add: teardown_node_def Let_def split_def d1_def [symmetric])
qed

lemma emit_result_event_tables [simp]:
  "db_jobs (emit_result_event job r d) = db_jobs d" "db_nodes (emit_result_event job r d) = db_nodes d"
  "db_deps (emit_result_event job r d) = db_deps d" "db_pools (emit_result_event job r d) = db_pools d"
  "db_tokens (emit_result_event job r d) = db_tokens d"
  by (simp_all add: emit_result_event_def split: option.splits)

lemma record_result_jobs:
  assumes "pr_next_phase r = Some q"
  shows "set (db_jobs (fst (record_result env job r d)))
    \<subseteq> set (db_jobs (fst (transition_to (pj_id job) (pj_phase job) q (re_holder env) (pr_outputs r) d)))"
  using assms
  by (auto simp: record_result_def Let_def split_def dest!: subsetD [OF teardown_jobs] split: if_splits)

lemma caught_classified: "caught e \<Longrightarrow> \<exists>ce. classify_error e = Inr ce"
  by (cases "ex_kind e") (auto simp: caught_def classify_error_def split: option.splits)

lemma jobs_inv_subset:
  assumes "jobs_inv d" "set (db_jobs d') \<subseteq> set (db_jobs d)" "distinct (map pj_id (db_jobs d'))"
  shows "jobs_inv d'" "get_job i d' = Some j \<Longrightarrow> get_job i d = Some j"
  using assms get_job_in [of i d' j] get_job_mem [OF assms(1), of j] by (auto simp: jobs_inv_def)

lemma teardown_distinct: "distinct (map pj_id (db_jobs d)) \<Longrightarrow> distinct (map pj_id (db_jobs (fst (teardown_node env job d))))"
proof -
  assume dist: "distinct (map pj_id (db_jobs d))"
  define d1 where "d1 = (if re_inventory env then case purge_node (pj_node_id job) d of Inl e \<Rightarrow> d | Inr d' \<Rightarrow> d' else d)"
  have "distinct (map pj_id (db_jobs d1))"
    unfolding d1_def purge_node_eq using dist by (simp add: Let_def sql_delete_def distinct_map_filter)
  moreover have "db_jobs (fst (finalize_pool_if_empty env job d1)) = db_jobs d1"
    unfolding finalize_pool_if_empty_def Let_def by (simp add: finalize_Inr Let_def)
  ultimately show ?thesis
    by (simp add: teardown_node_def Let_def split_def d1_def [symmetric])
qed

lemma record_result_distinct:
  assumes "pr_next_phase r = Some q"
    and "distinct (map pj_id (db_jobs (fst (transition_to (pj_id job) (pj_phase job) q (re_holder env) (pr_outputs r) d))))"
  shows "distinct (map pj_id (db_jobs (fst (record_result env job r d))))"
  using assms by (auto simp: record_result_def Let_def split_def intro!: teardown_distinct)

text \<open>Recording the outcome of a job that is still held keeps the queue well formed and brings the job closer to its end.\<close>

lemma error_progress:
  assumes "held env job d" "\<not> is_terminal (pj_phase job)" "caught e"
  shows "jobs_inv (fst (finish_job env job (Inl e) d))
    \<and> (\<forall>j'. get_job (pj_id job) (fst (finish_job env job (Inl e) d)) = Some j' \<longrightarrow> work j' < work job)"
proof -
  obtain ce where ce: "classify_error e = Inr ce"
    using caught_classified assms(3) by blast
  have fin: "db_jobs (fst (finish_job env job (Inl e) d)) = db_jobs (fst (handle_error env job e d))"
    using assms(3) by (simp add: finish_job_def split_def Let_def)
  have inv: "jobs_inv d" "0 \<le> pj_attempt_count job"
    using assms(1) job_ok_get [of d "pj_id job"] by (auto simp: held_def job_ok_def)
  show ?thesis
  proof (cases "ce_class ce = TRANSIENT \<and> pj_attempt_count job + 1 < TRANSIENT_MAX_ATTEMPTS")
    case True
    define d' where "d' = fst (schedule_retry (pj_id job) (pj_phase job) (re_holder env)
            (next_attempt_after (re_uniform env) (pj_attempt_count job + 1) (pj_updated_at job)) (pj_attempt_count job + 1) ce d)"
    have eq: "db_jobs (fst (finish_job env job (Inl e) d)) = db_jobs d'"
      unfolding fin handle_error_jobs [OF ce] d'_def using True by simp
    have "repo_step d d'"
      unfolding d'_def using assms(2) inv(2) by (intro step_retry [OF _ _ prod.collapse [symmetric]]) auto
    then have "jobs_inv d'" using repo_step_inv inv(1) by blast
    moreover obtain j' where "get_job (pj_id job) d' = Some j'" "pj_phase j' = pj_phase job"
      "pj_attempt_count j' = pj_attempt_count job + 1"
      using held_retry [OF assms(1)] unfolding d'_def by blast
    ultimately show ?thesis
      using get_job_cong [OF eq] work_retry [of j' job] True assms(2) by auto
  next
    case False
    define ce' where "ce' = (if ce_class ce = TRANSIENT then \<lparr>ce_class = PERMANENT, ce_code = ''RETRIES_EXHAUSTED'',
              ce_message = ''gave up after '' @ dec_int TRANSIENT_MAX_ATTEMPTS @ '' transient failures: '' @ ce_message ce,
              ce_hint = ce_hint ce\<rparr> else ce)"
    define d' where "d' = fst (fail_job (pj_id job) (pj_phase job) (re_holder env) ce' d)"
    have eq: "db_jobs (fst (finish_job env job (Inl e) d)) = db_jobs d'"
      unfolding fin handle_error_jobs [OF ce] d'_def ce'_def if_not_P [OF False] ..
    have "repo_step d d'"
      unfolding d'_def by (intro step_fail [OF prod.collapse [symmetric]])
    then have "jobs_inv d'" using repo_step_inv inv(1) by blast
    moreover obtain j' where "get_job (pj_id job) d' = Some j'" "pj_phase j' = FAILED"
      using held_fail(2) [OF assms(1)] unfolding d'_def by blast
    ultimately show ?thesis
      using get_job_cong [OF eq] work_terminal [of j' job] assms(2) by auto
  qed
qed

lemma result_progress:
  assumes "held env job d" and q: "pr_next_phase r = Some q" and adv: "(pj_phase job, q) \<in> {(PENDING, PREFLIGHT), (PREFLIGHT, PROVISIONING),
      (PROVISIONING, BOOTSTRAPPING), (BOOTSTRAPPING, READY), (CANCELLING, TERMINATED)}"
  shows "jobs_inv (fst (finish_job env job (Inr r) d))
    \<and> (\<forall>j'. get_job (pj_id job) (fst (finish_job env job (Inr r) d)) = Some j' \<longrightarrow> work j' < work job)"
proof -
  define d' where "d' = fst (transition_to (pj_id job) (pj_phase job) q (re_holder env) (pr_outputs r) d)"
  have fin: "fst (finish_job env job (Inr r) d) = fst (record_result env job r d)"
    by (simp add: finish_job_def split_def Let_def)
  have "repo_step d d'"
    unfolding d'_def using adv by (intro step_transition [OF _ prod.collapse [symmetric]]) auto
  then have d': "jobs_inv d'"
    using repo_step_inv assms(1) by (auto simp: held_def)
  then have dist: "distinct (map pj_id (db_jobs (fst (record_result env job r d))))"
    by (intro record_result_distinct [OF q]) (simp add: jobs_inv_def d'_def)
  note sub = jobs_inv_subset [OF d' record_result_jobs [OF q, of env job d, folded d'_def] dist]
  obtain j' where "get_job (pj_id job) d' = Some j'" "pj_phase j' = q" "pj_attempt_count j' = pj_attempt_count job"
    using held_transition(2) [OF assms(1)] unfolding d'_def by blast
  then show ?thesis
    using sub work_advance [OF adv refl, of j'] unfolding fin by auto
qed

lemma finish_progress:
  assumes "held env job d" "\<not> is_terminal (pj_phase job)"
    and "\<And>e. out = Inl e \<Longrightarrow> caught e"
    and "\<And>r. out = Inr r \<Longrightarrow> \<exists>q. pr_next_phase r = Some q \<and> (pj_phase job, q) \<in> {(PENDING, PREFLIGHT), (PREFLIGHT, PROVISIONING),
      (PROVISIONING, BOOTSTRAPPING), (BOOTSTRAPPING, READY), (CANCELLING, TERMINATED)}"
  shows "jobs_inv (fst (finish_job env job out d))
    \<and> (\<forall>j'. get_job (pj_id job) (fst (finish_job env job out d)) = Some j' \<longrightarrow> work j' < work job)"
proof (cases out)
  case (Inl e)
  then show ?thesis using error_progress [OF assms(1,2) assms(3)] by simp
next
  case (Inr r)
  then show ?thesis using assms(4) result_progress [OF assms(1)] by blast
qed

lemma claimed_held:
  assumes "claim_next_job locked (re_holder env) secs d = (d1, Some job)" "jobs_inv d"
  shows "held env job d1" "\<not> is_terminal (pj_phase job)" "get_job (pj_id job) d1 = Some job"
    "\<exists>j. get_job (pj_id job) d = Some j \<and> work j = work job"
proof -
  have "jobs_inv d1"
    using repo_step_inv [OF assms(2)] step_claim [OF assms(1)] by blast
  obtain j where first: "sql_first_by claim_key (claimable locked (db_now d)) (db_jobs d) = Some j"
    and d1: "d1 = fst (update_jobs (\<lambda>r. pj_id r = pj_id j) (\<lambda>r. r\<lparr>pj_lease_holder := Some (re_holder env),
              pj_lease_expires_at := Some (db_now d + secs), pj_updated_at := db_now d\<rparr>) d)"
    and job: "job = j\<lparr>pj_lease_holder := Some (re_holder env), pj_lease_expires_at := Some (db_now d + secs),
              pj_updated_at := db_now d\<rparr>"
    using assms(1) by (cases rule: claim_cases) auto
  have j: "j \<in> set (db_jobs d)" "claimable locked (db_now d) j"
    using sql_first_by_Some [OF first] by auto
  have row: "get_job (pj_id j) d = Some j"
    using get_job_mem [OF assms(2) j(1)] .
  show row1: "get_job (pj_id job) d1 = Some job"
    unfolding d1 using row by (simp add: get_job_update job)
  show "held env job d1"
    using \<open>jobs_inv d1\<close> row1 by (simp add: held_def) (simp add: job)
  show "\<not> is_terminal (pj_phase job)"
    using j(2) by (simp add: claimable_def claimable_iff job)
  show "\<exists>j. get_job (pj_id job) d = Some j \<and> work j = work job"
    using row by (simp add: job work_def)
qed

text \<open>
  One turn of a job: an iteration claims it and its handler, which keeps the contract, runs to an outcome;
  afterwards anything may happen that does not touch the queue.
\<close>

inductive served :: "rec_env \<Rightarrow> uuid \<Rightarrow> db \<Rightarrow> db \<Rightarrow> bool" for env i where
  served: "\<lbrakk>claim_next_job locked (re_holder env) (re_lease_seconds env) d = (d1, Some job); pj_id job = i;
    re_handlers env (pj_phase job) = Some run; phase_handler (pj_phase job) run; re_context env job = None;
    \<not> re_renewer_raises env job; \<And>e. snd (run job d1) = Inl e \<Longrightarrow> caught e;
    db_jobs d' = db_jobs (fst (one_iteration env locked d))\<rbrakk> \<Longrightarrow> served env i d d'"

lemma served_progress:
  assumes "served env i d d'" "jobs_inv d"
  shows "jobs_inv d' \<and> (\<exists>j. get_job i d = Some j \<and> (\<forall>j'. get_job i d' = Some j' \<longrightarrow> work j' < work j))"
  using assms(1)
proof cases
  case (served locked d1 job run)
  note held = claimed_held [OF served(1) assms(2)]
  obtain d2 out where run: "run job d1 = (d2, out)"
    by (cases "run job d1")
  have jobs: "db_jobs d2 = db_jobs d1"
    using phase_handler.keeps_jobs [OF served(4), of job d1] run by simp
  have "held env job d2"
    using held(1) get_job_cong [OF jobs] by (simp add: held_def)
  note fin = finish_progress [OF this held(2), of out]
  have out: "\<exists>q. pr_next_phase r = Some q \<and> (pj_phase job, q) \<in> {(PENDING, PREFLIGHT), (PREFLIGHT, PROVISIONING),
      (PROVISIONING, BOOTSTRAPPING), (BOOTSTRAPPING, READY), (CANCELLING, TERMINATED)}" if "out = Inr r" for r
    using phase_handler.advances [OF served(4) _ held(2), of job d1 r] run that by simp
  have "one_iteration env locked d = finish_job env job out d2"
    using served run by (simp add: one_iteration_def run_claimed_def)
  then have eq: "db_jobs d' = db_jobs (fst (finish_job env job out d2))"
    using served(8) by simp
  have "jobs_inv d' \<and> (\<forall>j'. get_job (pj_id job) d' = Some j' \<longrightarrow> work j' < work job)"
    using fin served(7) run out by (simp add: get_job_cong [OF eq])
  then show ?thesis
    using held(4) served(2) by auto
qed

lemma served_bounded:
  assumes "(served env i ^^ n) d d'" "jobs_inv d" "get_job i d = Some j"
  shows "n \<le> work j"
  using assms
proof (induction n arbitrary: d j)
  case (Suc n)
  then obtain d1 where d1: "served env i d d1" "(served env i ^^ n) d1 d'"
    by (metis relpowp_Suc_D2)
  note step = served_progress [OF d1(1) Suc.prems(2)]
  show ?case
  proof (cases n)
    case 0
    have "0 < work j"
      using d1(1) Suc.prems(2,3)
    proof (cases rule: served.cases)
      case (served locked d2 job run)
      then show ?thesis
        using claimed_held(2,4) [OF served(1) Suc.prems(2)] Suc.prems(3) by (cases "pj_phase job") (auto simp: work_def)
    qed
    then show ?thesis using 0 by simp
  next
    case (Suc m)
    then obtain d2 where "served env i d1 d2"
      using d1(2) by (metis relpowp_Suc_D2)
    then obtain j1 where j1: "get_job i d1 = Some j1"
      using served_progress step by blast
    then show ?thesis
      using Suc.IH [OF d1(2) _ j1] step Suc.prems(3) by auto
  qed
qed simp

lemma none_waits:
  assumes "m \<in> set (db_deps (fst (fail_deployments_for_node nid msg d)))" "md_target_node_id m = Some nid"
  shows "md_state m \<notin> {''PENDING_NODE'', ''PENDING'', ''DEPLOYING'', ''CREATED''}"
proof -
  let ?p = "\<lambda>m. md_target_node_id m = Some nid \<and> md_state m \<in> set [''PENDING_NODE'', ''PENDING'', ''DEPLOYING'', ''CREATED'']"
  obtain r where r: "m = (if ?p r then r\<lparr>md_state := ''FAILED'', md_error_message := Some msg, md_updated_at := db_now d\<rparr> else r)"
    using assms(1) unfolding fail_deployments_for_node_def Let_def by (auto simp: in_sql_update)
  show ?thesis
  proof (cases "?p r")
    case True
    then show ?thesis using r by simp
  next
    case False
    then have "m = r" using r by argo
    with False assms(2) show ?thesis by auto
  qed
qed

section \<open>Properties\<close>


text \<open>
  a late outcome is fenced off.  When the job has left the phase in which it was claimed (an operator
  cancelled it, another reconciler advanced it) or its row is gone, recording whatever the handler returned
  changes nothing, emits nothing and tears nothing down.
\<close>

theorem stale_outcome_fenced:
  assumes "jobs_inv d" "case get_job (pj_id job) d of None \<Rightarrow> True | Some j \<Rightarrow> pj_phase j \<noteq> pj_phase job"
  shows "\<exists>raised. finish_job env job out d = (d, [], raised)"
proof -
  have none: "sql_count (\<lambda>r. pj_id r = pj_id job \<and> pj_phase r = pj_phase job \<and> q r) (db_jobs d) = 0" for q
    using count_job [OF assms(1), of "pj_id job" "\<lambda>r. pj_phase r = pj_phase job \<and> q r"] assms(2)
    by (auto split: option.splits)
  have upd: "update_jobs (\<lambda>r. pj_id r = pj_id job \<and> pj_phase r = pj_phase job \<and> q r) f d = (d, cmd_status ''UPDATE'' 0)" for q f
    unfolding update_jobs_def by (simp add: sql_update_none [OF none] none)
  have ops: "transition_to (pj_id job) (pj_phase job) q h o' d = (d, False)" "fail_job (pj_id job) (pj_phase job) h ce d = (d, False)"
    "schedule_retry (pj_id job) (pj_phase job) h a n ce d = (d, False)" for q h o' ce a n
    using upd [of "\<lambda>_. True"] by (simp_all add: guarded_ops upd)
  have fail: "fail_loud env job ce d = d" for ce
    by (simp add: fail_loud_def ops)
  show ?thesis
  proof (cases out)
    case (Inl e)
    have "\<exists>raised. handle_error env job e d = (d, raised)"
      by (simp add: handle_error_def fail ops Let_def split: sum.splits)
    then show ?thesis using Inl by (auto simp: finish_job_def)
  next
    case (Inr r)
    have "record_result env job r d = (d, [])"
      by (simp add: record_result_def fail ops Let_def split: option.splits)
    then show ?thesis using Inr by (simp add: finish_job_def)
  qed
qed

text \<open>
  a terminal failure is visible everywhere.  When a job fails for good, its row is FAILED with the error
  code, the node's row says failed, no deployment stays waiting for the node, and the event log
  carries the failure.
\<close>

theorem failure_is_visible:
  assumes "held env job d" "re_inventory env" "fail_loud env job ce d = d'"
  shows "(\<exists>j'. get_job (pj_id job) d' = Some j' \<and> pj_phase j' = FAILED \<and> pj_last_error_code j' = Some (ce_code ce))
     \<and> (\<forall>n \<in> set (db_nodes d'). ci_id n = pj_node_id job \<longrightarrow> ci_state n = ''failed'')
     \<and> (\<forall>m \<in> set (db_deps d'). md_target_node_id m = Some (pj_node_id job) \<longrightarrow>
          md_state m \<notin> {''PENDING_NODE'', ''PENDING'', ''DEPLOYING'', ''CREATED''})
     \<and> (\<exists>e \<in> set (db_events d'). ev_node_id e = Some (pj_node_id job) \<and> ev_status e = ''failed'' \<and> ev_message e = Some (ce_message ce))"
proof -
  define d1 where "d1 = fst (fail_job (pj_id job) (pj_phase job) (re_holder env) ce d)"
  define d2 where "d2 = inventory_set_state env (pj_node_id job) ''failed'' d1"
  define d3 where "d3 = fail_dependent_deployments (pj_node_id job) ce d2"
  define d4 where "d4 = job_event job (pj_phase job) EvFailed (ce_message ce) (error_extra ce) d3"
  have d': "d' = (case ce_hint ce of None \<Rightarrow> d4
      | Some h \<Rightarrow> if h = [] then d4 else job_event job (pj_phase job) EvLog h (Some [(''hint'', JBool True)]) d4)"
    unfolding assms(3) [symmetric] fail_loud_def Let_def split_def d4_def d3_def d2_def d1_def
    using held_fail(1) [OF assms(1), of ce] by simp
  have same: "db_jobs d' = db_jobs d1" "db_nodes d' = db_nodes d2" "db_deps d' = db_deps d3" "set (db_events d4) \<subseteq> set (db_events d')"
    unfolding d' d4_def d3_def d2_def
    by (auto simp: job_event_def emit_event_def insert_event_def split: option.splits)
  have "\<forall>n \<in> set (db_nodes d2). ci_id n = pj_node_id job \<longrightarrow> ci_state n = ''failed''"
    using assms(2) by (auto simp: d2_def inventory_set_state_def set_state_def node_states_def in_sql_update)
  moreover have "\<forall>m \<in> set (db_deps d3). md_target_node_id m = Some (pj_node_id job) \<longrightarrow>
          md_state m \<notin> {''PENDING_NODE'', ''PENDING'', ''DEPLOYING'', ''CREATED''}"
    unfolding d3_def fail_dependent_deployments_def Let_def using none_waits by blast
  moreover have "\<exists>e \<in> set (db_events d4). ev_node_id e = Some (pj_node_id job) \<and> ev_status e = ''failed'' \<and> ev_message e = Some (ce_message ce)"
    by (simp add: d4_def job_event_def emit_event_def insert_event_def)
  ultimately show ?thesis
    using held_fail(2) [OF assms(1), of ce] same get_job_cong(1) [OF same(1)] unfolding d1_def by auto
qed

text \<open>
  C34: a completed teardown leaves nothing behind.  When a cancelling job's stack is destroyed, the node's
  row, its jobs, events, allocations and every deployment target on it are gone, orphaned instances of the node are swept
  where the region is known, and when the pool was being deleted and this was its last node the
  pool row goes too.
\<close>

theorem teardown_leaves_nothing:
  assumes "held env job d" "re_inventory env" "re_pool_repo env" "refs_ok d"
    and "finish_job env job (Inr \<lparr>pr_next_phase = Some TERMINATED, pr_outputs = out, pr_event = None\<rparr>) d = (d', effs, raised)"
  defines "nid \<equiv> pj_node_id job" and "pid \<equiv> pj_pool_id job"
  shows "nid \<notin> ci_id ` set (db_nodes d') \<and> nid \<notin> pj_node_id ` set (db_jobs d')
     \<and> Some nid \<notin> ev_node_id ` set (db_events d') \<and> nid \<notin> al_node_id ` set (db_allocs d')
     \<and> Some nid \<notin> md_target_node_id ` set (db_deps d')
     \<and> (\<forall>r. region_for_job job = Some r \<longrightarrow> SweepNode nid r \<in> set effs)
     \<and> (get_lifecycle_state pid d = Some ''terminating'' \<and> (\<forall>n \<in> set (db_nodes d). ci_pool_id n = pid \<longrightarrow> ci_id n = nid)
        \<longrightarrow> pid \<notin> cp_id ` set (db_pools d'))"
proof -
  define d1 where "d1 = fst (transition_to (pj_id job) (pj_phase job) TERMINATED (re_holder env) out d)"
  have tabs: "db_nodes d1 = db_nodes d" "db_pools d1 = db_pools d" "db_allocs d1 = db_allocs d"
    by (simp_all add: d1_def transition_to_def Let_def split_def update_jobs_def)
  obtain d2 where purge: "purge_node nid d1 = Inr d2"
    using purge_node_eq by blast
  note eq = purge [unfolded purge_node_eq Let_def]
  have allocs: "nid \<notin> ci_id ` set (db_nodes d1) \<Longrightarrow> nid \<notin> al_node_id ` set (db_allocs d1)"
    using assms(4) by (auto simp: refs_ok_def list_all_iff tabs)
  have gone: "nid \<notin> ci_id ` set (db_nodes d2)" "nid \<notin> pj_node_id ` set (db_jobs d2)"
     "Some nid \<notin> ev_node_id ` set (db_events d2)" "nid \<notin> al_node_id ` set (db_allocs d2)"
    using eq allocs by (auto split: if_splits)
  have deps: "Some nid \<notin> md_target_node_id ` set (db_deps d2)"
    using eq purge_dep_target [of nid] by (auto split: if_splits) (metis image_eqI)+
  have pools: "db_pools d2 = db_pools d" "set (db_nodes d2) \<subseteq> {n \<in> set (db_nodes d). ci_id n \<noteq> nid}"
    using eq tabs by (auto split: if_splits)
  define d3 where "d3 = fst (finalize_pool_if_empty env job d2)"
  have d': "d' = d3" "effs = (case region_for_job job of None \<Rightarrow> [] | Some r \<Rightarrow> [SweepNode nid r])
      @ snd (finalize_pool_if_empty env job d2) @ (if re_registry env then [Detach nid] else [])"
    unfolding nid_def
    using assms(2,5) held_transition(1) [OF assms(1), of TERMINATED out] purge [unfolded nid_def]
    by (auto simp: finish_job_def record_result_def Let_def split_def emit_result_event_def teardown_node_def
        d1_def [symmetric] d3_def)
  have fin: "d3 = d2 \<or> (count_live_inventory pid d2 = 0 \<and> (\<exists>b. finalize_pool_delete pid d2 = Inr (d3, b)))"
    unfolding d3_def finalize_pool_if_empty_def Let_def pid_def by (auto split: sum.splits)
  have sub: "set (db_nodes d3) \<subseteq> set (db_nodes d2)" "db_jobs d3 = db_jobs d2" "set (db_events d3) \<subseteq> set (db_events d2)"
    "set (db_allocs d3) \<subseteq> set (db_allocs d2)" "md_target_node_id ` set (db_deps d3) \<subseteq> md_target_node_id ` set (db_deps d2)"
    using fin by (auto simp: finalize_Inr Let_def in_sql_update split: if_splits)
  have pool: "pid \<notin> cp_id ` set (db_pools d3)"
    if "get_lifecycle_state pid d = Some ''terminating''" "\<forall>n \<in> set (db_nodes d). ci_pool_id n = pid \<longrightarrow> ci_id n = nid"
  proof -
    have "count_live_inventory pid d2 = 0"
      using pools(2) that(2) by (auto simp: count_live_inventory_def sql_count_0)
    moreover have "get_lifecycle_state pid d2 = Some ''terminating''"
      using that(1) by (simp add: get_lifecycle_state_def pools(1))
    ultimately show ?thesis
      using assms(3) unfolding d3_def finalize_pool_if_empty_def Let_def pid_def [symmetric]
      by (simp add: finalize_Inr Let_def) (auto simp: sql_count_0 get_lifecycle_state_def)
  qed
  show ?thesis
    unfolding d'(1) using gone deps sub pool by (auto simp: d'(2))
qed

section \<open>Witnesses\<close>

definition sample_up_env :: up_env where
  "sample_up_env = \<lparr>ue_sha = id, ue_token = ''t'', ue_bootstrap_id = ''b'', ue_inference_proposal = ''inf'',
     ue_user_data = (\<lambda>t n i tag c g. t), ue_image_tag = ''latest'', ue_state_dir = ''/state'', ue_passphrase = [],
     ue_pulumi_env = [], ue_program = (\<lambda>spec outs. Inr []), ue_up = (\<lambda>n p e. Inl (builtin_error ''RuntimeError'' ''down''))\<rparr>"

definition sample_rec :: rec_env where
  "sample_rec = \<lparr>re_holder = ''A'', re_lease_seconds = 300, re_uniform = (\<lambda>a b. a),
     re_handlers = (\<lambda>p. if p = CANCELLING
        then Some (cancel_run \<lparr>ca_env_base = sample_up_env, ca_destroy = (\<lambda>n p e. None)\<rparr>) else None),
     re_context = (\<lambda>j. None), re_renewer_raises = (\<lambda>j. False), re_inventory = True, re_pool_repo = True, re_registry = True\<rparr>"

definition sample_teardown :: db where
  "sample_teardown = empty_db\<lparr>db_nodes := [sample_node ''n1'' ''p'' ''draining'' 4 0],
     db_pools := [sample_pool ''p'' ''terminating''], db_jobs := [sample_job ''j1'' ''n1'' CANCELLING None 0],
     db_deps := [sample_dep ''m1'' ''p'' ''DEPLOYING'' (Some ''n1'') 1]\<rparr>"

definition held_teardown :: db where
  "held_teardown = sample_teardown\<lparr>db_jobs := [sample_job ''j1'' ''n1'' CANCELLING (Some (''A'', 300)) 0]\<rparr>"

lemma sample_teardown_inv: "jobs_inv sample_teardown" "jobs_inv held_teardown"
  by (simp_all add: sample_teardown_def held_teardown_def jobs_inv_def job_ok_def sample_job_def)

lemma sample_teardown_job:
  "get_job ''j1'' sample_teardown = Some (sample_job ''j1'' ''n1'' CANCELLING None 0)"
  "get_job ''j1'' held_teardown = Some (sample_job ''j1'' ''n1'' CANCELLING (Some (''A'', 300)) 0)"
  by (simp_all add: sample_teardown_def held_teardown_def get_job_def sample_job_def)

lemma sample_teardown_claim:
  "\<exists>d1 job. claim_next_job [] ''A'' 300 sample_teardown = (d1, Some job) \<and> pj_id job = ''j1'' \<and> pj_phase job = CANCELLING"
  by (simp add: claim_next_job_def sql_first_by_def sample_teardown_def claimable_def CLAIMABLE_PHASES_def sample_job_def)

lemma sample_held: "held sample_rec (sample_job ''j1'' ''n1'' CANCELLING (Some (''A'', 300)) 0) held_teardown"
proof -
  have "held sample_rec j held_teardown" if "get_job (pj_id j) held_teardown = Some j" "pj_lease_holder j = Some ''A''" for j
    using that sample_teardown_inv by (simp add: held_def sample_rec_def)
  moreover have "get_job (pj_id (sample_job ''j1'' ''n1'' CANCELLING (Some (''A'', 300)) 0)) held_teardown
      = Some (sample_job ''j1'' ''n1'' CANCELLING (Some (''A'', 300)) 0)"
    using sample_teardown_job(2) by (simp add: sample_job_def)
  moreover have "pj_lease_holder (sample_job ''j1'' ''n1'' CANCELLING (Some (''A'', 300)) 0) = Some ''A''"
    by (simp add: sample_job_def)
  ultimately show ?thesis by blast
qed


theorem stale_outcome_fenced_witness:
  "\<exists>raised. finish_job sample_rec (sample_job ''j1'' ''n1'' BOOTSTRAPPING None 0)
     (Inr \<lparr>pr_next_phase = Some READY, pr_outputs = None, pr_event = None\<rparr>) sample_teardown = (sample_teardown, [], raised)"
proof -
  have "case get_job (pj_id (sample_job ''j1'' ''n1'' BOOTSTRAPPING None 0)) sample_teardown of None \<Rightarrow> True
      | Some j \<Rightarrow> pj_phase j \<noteq> pj_phase (sample_job ''j1'' ''n1'' BOOTSTRAPPING None 0)"
    by (simp add: sample_job_def sample_teardown_def get_job_def)
  then show ?thesis
    by (rule stale_outcome_fenced [OF sample_teardown_inv(1)])
qed

theorem failure_is_visible_witness:
  "\<exists>j'. get_job ''j1'' (fail_loud sample_rec (sample_job ''j1'' ''n1'' CANCELLING (Some (''A'', 300)) 0)
      (no_handler (sample_job ''j1'' ''n1'' CANCELLING (Some (''A'', 300)) 0)) held_teardown) = Some j' \<and> pj_phase j' = FAILED"
proof -
  have "re_inventory sample_rec" "pj_id (sample_job ''j1'' ''n1'' CANCELLING (Some (''A'', 300)) 0) = ''j1''"
    by (simp_all add: sample_rec_def sample_job_def)
  then show ?thesis
    using failure_is_visible [OF sample_held _ refl, THEN conjunct1] by auto
qed

theorem teardown_leaves_nothing_witness:
  "''p'' \<notin> cp_id ` set (db_pools (fst (finish_job sample_rec (sample_job ''j1'' ''n1'' CANCELLING (Some (''A'', 300)) 0)
     (Inr \<lparr>pr_next_phase = Some TERMINATED, pr_outputs = None, pr_event = None\<rparr>) held_teardown)))"
proof -
  define job where "job = sample_job ''j1'' ''n1'' CANCELLING (Some (''A'', 300)) 0"
  have job: "pj_node_id job = ''n1''" "pj_pool_id job = ''p''" "re_inventory sample_rec" "re_pool_repo sample_rec"
    by (simp_all add: job_def sample_job_def sample_rec_def)
  have "refs_ok held_teardown"
    by (simp add: refs_ok_def held_teardown_def sample_teardown_def sample_node_def sample_pool_def sample_job_def
      sample_dep_def empty_db_def)
  moreover have "get_lifecycle_state ''p'' held_teardown = Some ''terminating''"
    "\<forall>n \<in> set (db_nodes held_teardown). ci_pool_id n = ''p'' \<longrightarrow> ci_id n = ''n1''"
    by (simp_all add: held_teardown_def sample_teardown_def get_lifecycle_state_def sample_pool_def sample_node_def)
  ultimately show ?thesis
    using teardown_leaves_nothing [OF sample_held [folded job_def], of None] job unfolding job_def [symmetric]
    by (metis prod.collapse)
qed

end
