(* ===== verification/Reaper.thy ===== *)
theory Reaper
  imports Reconciler
begin

text \<open>
  \<^verbatim>\<open>state_machine/reconciler/reaper.py\<close>: the periodic backstop that re-arms node teardowns nobody drives and
  finalises empty pools whose deletion was missed.  \<^verbatim>\<open>ts_of\<close> reads the timestamp text of a node's metadata; a text
  that is no timestamp aborts the whole query.
\<close>

section \<open>Finding stuck nodes\<close>

definition DESTROY_IN_FLIGHT_PHASES :: "phase list" where
  "DESTROY_IN_FLIGHT_PHASES = [CANCELLING]"

record reaper_env =
  rp_inventory :: bool
  rp_pools :: bool
  rp_jobs :: bool
  rp_grace_s :: real
  rp_ts_of :: "string \<Rightarrow> time option"
  rp_creds_ok :: bool

record stuck_row =
  sr_node_id :: uuid
  sr_provider :: string
  sr_region :: "string option"
  sr_job_phase :: "phase option"

definition latest_job :: "uuid \<Rightarrow> db \<Rightarrow> prov_job option" where
  "latest_job nid d = sql_first_by (\<lambda>r. - pj_created_at r) (\<lambda>r. pj_node_id r = nid) (db_jobs d)"

text \<open>\<^verbatim>\<open>COALESCE((metadata->>'terminating_at')::timestamptz, updated_at)\<close>; None is a failing cast.\<close>

definition terminating_since :: "reaper_env \<Rightarrow> node \<Rightarrow> time option" where
  "terminating_since env n = (case meta_field n ''terminating_at'' of
     None \<Rightarrow> Some (ci_updated_at n)
   | Some s \<Rightarrow> rp_ts_of env s)"

definition first_region :: "pool \<Rightarrow> string option" where
  "first_region p = (case cp_region_constraint p of Some (r # rs) \<Rightarrow> Some r | _ \<Rightarrow> None)"

definition stuck_region :: "node \<Rightarrow> db \<Rightarrow> string option" where
  "stuck_region n d =
    (let job = latest_job (ci_id n) d in
     coalesce (Option.bind job (\<lambda>j. jfield (pj_spec j) ''region''))
      (coalesce (Option.bind job (\<lambda>j. Option.bind (pj_outputs j) (\<lambda>x. jfield x ''region'')))
       (coalesce (meta_field n ''region'')
         (Option.bind (find (\<lambda>p. cp_id p = ci_pool_id n) (db_pools d)) first_region))))"

definition destroy_in_flight :: "uuid \<Rightarrow> db \<Rightarrow> bool" where
  "destroy_in_flight nid d = list_ex (\<lambda>j. pj_node_id j = nid \<and> pj_phase j \<in> set DESTROY_IN_FLIGHT_PHASES) (db_jobs d)"

definition is_stuck :: "reaper_env \<Rightarrow> db \<Rightarrow> node \<Rightarrow> bool" where
  "is_stuck env d n \<longleftrightarrow> terminating n \<and> \<not> destroy_in_flight (ci_id n) d
     \<and> (case terminating_since env n of None \<Rightarrow> False | Some t \<Rightarrow> t \<le> db_now d - rp_grace_s env)"

definition find_stuck_nodes :: "reaper_env \<Rightarrow> db \<Rightarrow> stuck_row list option" where
  "find_stuck_nodes env d =
    (if list_ex (\<lambda>n. terminating n \<and> terminating_since env n = None) (db_nodes d) then None
     else Some (map (\<lambda>n. \<lparr>sr_node_id = ci_id n, sr_provider = ci_provider n, sr_region = stuck_region n d,
                        sr_job_phase = map_option pj_phase (latest_job (ci_id n) d)\<rparr>)
                 (filter (is_stuck env d) (db_nodes d))))"

section \<open>Reaping\<close>

definition reap_one_node :: "reaper_env \<Rightarrow> stuck_row \<Rightarrow> db \<Rightarrow> db \<times> effect list" where
  "reap_one_node env row d =
    (let nid = sr_node_id row; provider = py_lower (sr_provider row);
         (d1, flipped) = (if rp_jobs env \<and> provider \<noteq> [] then force_cancel nid d else (d, False))
     in if flipped then (d1, [])
        else let sweep = (case sr_region row of
                   None \<Rightarrow> []
                 | Some r \<Rightarrow> if provider = ''aws'' \<and> r \<noteq> [] \<and> rp_creds_ok env then [SweepNode nid r] else [])
             in (if rp_inventory env then case purge_node nid d1 of Inl e \<Rightarrow> d1 | Inr d2 \<Rightarrow> d2 else d1, sweep))"

fun reap_rows :: "reaper_env \<Rightarrow> stuck_row list \<Rightarrow> db \<Rightarrow> db \<times> effect list" where
  "reap_rows env [] d = (d, [])"
| "reap_rows env (row # rows) d =
    (let (d1, e1) = reap_one_node env row d; (d2, e2) = reap_rows env rows d1 in (d2, e1 @ e2))"

definition reap_stuck_nodes :: "reaper_env \<Rightarrow> db \<Rightarrow> db \<times> effect list" where
  "reap_stuck_nodes env d = (case find_stuck_nodes env d of None \<Rightarrow> (d, []) | Some rows \<Rightarrow> reap_rows env rows d)"

definition find_stuck_pools :: "db \<Rightarrow> uuid list" where
  "find_stuck_pools d = map cp_id (filter (\<lambda>p. cp_lifecycle_state p = ''terminating''
     \<and> \<not> list_ex (\<lambda>n. ci_pool_id n = cp_id p) (db_nodes d)) (db_pools d))"

definition finalize_one :: "uuid \<Rightarrow> db \<Rightarrow> db" where
  "finalize_one pid d = (case finalize_pool_delete pid d of Inl e \<Rightarrow> d | Inr (d', deleted) \<Rightarrow> d')"

definition reap_stuck_pools :: "reaper_env \<Rightarrow> db \<Rightarrow> db" where
  "reap_stuck_pools env d = (if rp_pools env then fold finalize_one (find_stuck_pools d) d else d)"

definition aws_regions_in_use :: "db \<Rightarrow> string list" where
  "aws_regions_in_use d = remdups (filter (\<lambda>r. r \<noteq> [])
     (List.map_filter first_region (filter (\<lambda>p. cp_provider p = ''aws'') (db_pools d))
      @ List.map_filter (\<lambda>n. meta_field n ''region'') (filter (\<lambda>n. ci_provider n = ''aws'') (db_nodes d))))"

text \<open>The regions whose stale image builders are swept.\<close>

definition reap_stale_builders :: "reaper_env \<Rightarrow> db \<Rightarrow> string list" where
  "reap_stale_builders env d = (if rp_creds_ok env then aws_regions_in_use d else [])"

definition reaper_tick :: "reaper_env \<Rightarrow> db \<Rightarrow> db \<times> effect list \<times> string list" where
  "reaper_tick env d =
    (let (d1, effs) = reap_stuck_nodes env d; d2 = reap_stuck_pools env d1
     in (d2, effs, reap_stale_builders env d2))"

section \<open>What one reaped row changes\<close>

lemma update_jobs_other:
  assumes "\<And>r. p r \<Longrightarrow> pj_node_id r = nid" "\<And>r. pj_node_id (f r) = pj_node_id r"
  shows "filter (\<lambda>j. pj_node_id j \<noteq> nid) (db_jobs (fst (update_jobs p f d))) = filter (\<lambda>j. pj_node_id j \<noteq> nid) (db_jobs d)"
proof -
  have "filter (\<lambda>j. pj_node_id j \<noteq> nid) (sql_update p f js) = filter (\<lambda>j. pj_node_id j \<noteq> nid) js" for js
    by (induction js) (auto simp: assms dest: assms(1))
  then show ?thesis by (simp add: update_jobs_def)
qed

lemma cancel_row_fields [simp]:
  "pj_node_id (cancel_row t r) = pj_node_id r" "pj_phase (cancel_row t r) = CANCELLING"
  by (simp_all add: cancel_row_def)

lemma force_cancel_frame [simp]:
  "db_nodes (fst (force_cancel nid d)) = db_nodes d" "db_pools (fst (force_cancel nid d)) = db_pools d"
  "db_now (fst (force_cancel nid d)) = db_now d" "db_deps (fst (force_cancel nid d)) = db_deps d"
  by (simp_all add: force_cancel_def update_jobs_def split_def Let_def)

lemma force_cancel_other:
  "filter (\<lambda>j. pj_node_id j \<noteq> nid) (db_jobs (fst (force_cancel nid d))) = filter (\<lambda>j. pj_node_id j \<noteq> nid) (db_jobs d)"
  unfolding force_cancel_def split_def Let_def fst_conv by (rule update_jobs_other) auto

lemma force_cancel_flips:
  assumes "snd (force_cancel nid d)"
  shows "destroy_in_flight nid (fst (force_cancel nid d))"
proof -
  let ?p = "\<lambda>r. pj_node_id r = nid \<and> pj_phase r \<notin> set [CANCELLING, TERMINATED]"
  have "sql_count ?p (db_jobs d) = 1"
    using assms by (simp add: force_cancel_def update_jobs_def split_def Let_def affected_one_status)
  then have "\<exists>r \<in> set (db_jobs d). ?p r"
    using sql_count_0 [of ?p "db_jobs d"] by fastforce
  then obtain r where r: "r \<in> set (db_jobs d)" "?p r" by blast
  then have "cancel_row (db_now d) r \<in> set (db_jobs (fst (force_cancel nid d)))"
    unfolding force_cancel_def update_jobs_def split_def Let_def by (auto simp: in_sql_update)
  with r show ?thesis
    unfolding destroy_in_flight_def list_ex_iff DESTROY_IN_FLIGHT_PHASES_def
    by (intro bexI [of _ "cancel_row (db_now d) r"]) simp_all
qed

text \<open>The jobs of the other nodes, on which nothing but the other nodes' teardown depends.\<close>

definition jobs_but :: "uuid \<Rightarrow> db \<Rightarrow> prov_job list" where
  "jobs_but nid d = filter (\<lambda>j. pj_node_id j \<noteq> nid) (db_jobs d)"

lemma in_flight_other:
  assumes "jobs_but nid d = jobs_but nid d'" "m \<noteq> nid"
  shows "destroy_in_flight m d = destroy_in_flight m d'"
proof -
  have "destroy_in_flight m d \<longleftrightarrow> list_ex (\<lambda>j. pj_node_id j = m \<and> pj_phase j \<in> set DESTROY_IN_FLIGHT_PHASES) (jobs_but nid d)" for d
    using assms(2) by (auto simp: destroy_in_flight_def jobs_but_def list_ex_iff)
  with assms(1) show ?thesis by simp
qed

lemma reap_one_effect:
  fixes row :: stuck_row and d :: db
  assumes "rp_inventory env"
  defines "nid \<equiv> sr_node_id row" and "d' \<equiv> fst (reap_one_node env row d)"
  shows "db_now d' = db_now d" and "db_pools d' = db_pools d" and "jobs_but nid d' = jobs_but nid d"
    and "db_nodes d' = db_nodes d \<and> destroy_in_flight nid d'
         \<or> db_nodes d' = filter (\<lambda>n. ci_id n \<noteq> nid) (db_nodes d) \<and> nid \<notin> pj_node_id ` set (db_jobs d')"
proof -
  define f where "f = (if rp_jobs env \<and> py_lower (sr_provider row) \<noteq> [] then force_cancel nid d else (d, False))"
  have frame: "db_now (fst f) = db_now d" "db_pools (fst f) = db_pools d" "db_nodes (fst f) = db_nodes d"
     "jobs_but nid (fst f) = jobs_but nid d" "snd f \<Longrightarrow> destroy_in_flight nid (fst f)"
    unfolding f_def jobs_but_def using force_cancel_flips by (auto simp: force_cancel_other)
  have d': "d' = (if snd f then fst f else case purge_node nid (fst f) of Inl e \<Rightarrow> fst f | Inr d2 \<Rightarrow> d2)"
    unfolding d'_def reap_one_node_def f_def nid_def using assms(1) by (simp add: split_def Let_def)
  obtain d2 where p: "purge_node nid (fst f) = Inr d2" using purge_node_eq by blast
  have q: "db_now d2 = db_now (fst f)" "db_pools d2 = db_pools (fst f)"
    "db_jobs d2 = jobs_but nid (fst f)" "db_nodes d2 = filter (\<lambda>n. ci_id n \<noteq> nid) (db_nodes (fst f))"
    using p unfolding purge_node_eq Let_def jobs_but_def
    by (auto simp: sql_delete_def split: if_splits intro!: filter_True [symmetric])
  show "db_now d' = db_now d" "db_pools d' = db_pools d"
    using d' p q frame by (auto split: if_splits)
  show "jobs_but nid d' = jobs_but nid d"
    using d' p q frame by (auto simp: jobs_but_def split: if_splits)
  show "db_nodes d' = db_nodes d \<and> destroy_in_flight nid d'
         \<or> db_nodes d' = filter (\<lambda>n. ci_id n \<noteq> nid) (db_nodes d) \<and> nid \<notin> pj_node_id ` set (db_jobs d')"
    using d' p q frame by (auto simp: jobs_but_def split: if_splits)
qed

lemma terminating_since_rows:
  assumes "find_stuck_nodes env d = Some rows" "set (db_nodes d') \<subseteq> set (db_nodes d)"
  shows "\<exists>rows'. find_stuck_nodes env d' = Some rows'"
  using assms unfolding find_stuck_nodes_def by (auto simp: list_ex_iff split: if_splits)

text \<open>
  Reaping the listed rows leaves, of the stuck nodes, those that are not listed, and never makes another node
  stuck.
\<close>

lemma reap_rows_stuck:
  assumes "rp_inventory env"
  shows "db_pools (fst (reap_rows env rows d)) = db_pools d
    \<and> set (db_nodes (fst (reap_rows env rows d))) \<subseteq> set (db_nodes d)
    \<and> (\<forall>n \<in> set (db_nodes d). ci_id n \<notin> sr_node_id ` set rows \<longrightarrow> n \<in> set (db_nodes (fst (reap_rows env rows d))))
    \<and> (\<forall>n \<in> set (db_nodes (fst (reap_rows env rows d))).
         is_stuck env (fst (reap_rows env rows d)) n = (is_stuck env d n \<and> ci_id n \<notin> sr_node_id ` set rows))"
proof (induction rows arbitrary: d)
  case (Cons row rows)
  define d1 where "d1 = fst (reap_one_node env row d)"
  define d2 where "d2 = fst (reap_rows env rows d1)"
  have d2: "fst (reap_rows env (row # rows) d) = d2"
    by (simp add: split_def Let_def d1_def d2_def)
  note eff = reap_one_effect [OF assms, of row d, folded d1_def]
  have sub: "set (db_nodes d1) \<subseteq> set (db_nodes d)"
    and keep: "\<forall>n \<in> set (db_nodes d). ci_id n \<noteq> sr_node_id row \<longrightarrow> n \<in> set (db_nodes d1)"
    using eff(4) by auto
  have stuck: "is_stuck env d1 n = (is_stuck env d n \<and> ci_id n \<noteq> sr_node_id row)" if "n \<in> set (db_nodes d1)" for n
  proof (cases "ci_id n = sr_node_id row")
    case True
    then show ?thesis using eff(4) that by (auto simp: is_stuck_def)
  next
    case False
    then show ?thesis using in_flight_other [OF eff(3) False] by (simp add: is_stuck_def eff(1) cong: option.case_cong)
  qed
  note IH = Cons.IH [of d1, folded d2_def]
  show ?case
    unfolding d2 using IH sub keep stuck eff(2) by (auto 0 3)
qed simp

lemmas reap_rows_pools = reap_rows_stuck [THEN conjunct1]
lemmas reap_rows_sub = reap_rows_stuck [THEN conjunct2, THEN conjunct1]
lemmas reap_rows_keep = reap_rows_stuck [THEN conjunct2, THEN conjunct2, THEN conjunct1, rule_format]
lemmas reap_rows_is_stuck = reap_rows_stuck [THEN conjunct2, THEN conjunct2, THEN conjunct2, rule_format]

lemma stuck_ids:
  assumes "find_stuck_nodes env d = Some rows"
  shows "sr_node_id ` set rows = ci_id ` {n \<in> set (db_nodes d). is_stuck env d n}"
proof -
  have "map sr_node_id rows = map ci_id (filter (is_stuck env d) (db_nodes d))"
    using assms by (auto simp: find_stuck_nodes_def split: if_splits)
  then have "set (map sr_node_id rows) = set (map ci_id (filter (is_stuck env d) (db_nodes d)))"
    by simp
  then show ?thesis unfolding set_map set_filter .
qed

lemma reap_stuck_nodes_converge:
  assumes "rp_inventory env" "find_stuck_nodes env d = Some rows"
  shows "find_stuck_nodes env (fst (reap_stuck_nodes env d)) = Some []"
proof -
  define d' where "d' = fst (reap_rows env rows d)"
  obtain rows' where rows': "find_stuck_nodes env d' = Some rows'"
    using terminating_since_rows [OF assms(2) reap_rows_sub [OF assms(1), of rows d]] unfolding d'_def by (rule exE)
  have "\<not> is_stuck env d' n" if "n \<in> set (db_nodes d')" for n
  proof
    assume "is_stuck env d' n"
    then have "is_stuck env d n" "ci_id n \<notin> sr_node_id ` set rows"
      using reap_rows_is_stuck [OF assms(1) that [unfolded d'_def]] by (simp_all add: d'_def)
    moreover have "n \<in> set (db_nodes d)"
      using that reap_rows_sub [OF assms(1), of rows d] by (auto simp: d'_def)
    ultimately show False unfolding stuck_ids [OF assms(2)] by simp
  qed
  then have "rows' = []"
    using rows' by (auto simp: find_stuck_nodes_def filter_empty_conv split: if_splits)
  then show ?thesis using rows' assms(2) by (simp add: reap_stuck_nodes_def d'_def)
qed

lemma finalize_one_effect:
  assumes "\<forall>n \<in> set (db_nodes d). ci_pool_id n \<noteq> pid"
  shows "db_nodes (finalize_one pid d) = db_nodes d" "db_jobs (finalize_one pid d) = db_jobs d"
    "db_now (finalize_one pid d) = db_now d"
    "db_pools (finalize_one pid d) = filter (\<lambda>p. cp_id p \<noteq> pid) (db_pools d)"
proof -
  have "count_live_inventory pid d = 0"
    using assms by (simp add: count_live_inventory_def sql_count_0)
  note fin = finalize_Inr [OF this]
  show "db_nodes (finalize_one pid d) = db_nodes d" "db_jobs (finalize_one pid d) = db_jobs d"
    "db_now (finalize_one pid d) = db_now d"
    "db_pools (finalize_one pid d) = filter (\<lambda>p. cp_id p \<noteq> pid) (db_pools d)"
    unfolding finalize_one_def fin Let_def
    by (auto simp: sql_delete_def sql_count_0 intro!: filter_True [symmetric])
qed

lemma finalize_pools:
  assumes "\<forall>pid \<in> set pids. \<forall>n \<in> set (db_nodes d). ci_pool_id n \<noteq> pid"
  shows "db_nodes (fold finalize_one pids d) = db_nodes d \<and> db_jobs (fold finalize_one pids d) = db_jobs d
    \<and> db_now (fold finalize_one pids d) = db_now d
    \<and> db_pools (fold finalize_one pids d) = filter (\<lambda>p. cp_id p \<notin> set pids) (db_pools d)"
  using assms
proof (induction pids arbitrary: d)
  case (Cons pid pids)
  have none: "\<forall>n \<in> set (db_nodes d). ci_pool_id n \<noteq> pid" using Cons.prems by simp
  note one = finalize_one_effect [OF none]
  have "\<forall>pid' \<in> set pids. \<forall>n \<in> set (db_nodes (finalize_one pid d)). ci_pool_id n \<noteq> pid'"
    using Cons.prems by (simp add: one)
  from Cons.IH [OF this] show ?case by (auto simp: one intro: filter_cong)
qed simp

lemma reap_pools_effect:
  "db_nodes (reap_stuck_pools env d) = db_nodes d \<and> db_jobs (reap_stuck_pools env d) = db_jobs d
    \<and> db_now (reap_stuck_pools env d) = db_now d
    \<and> (rp_pools env \<longrightarrow> db_pools (reap_stuck_pools env d) = filter (\<lambda>p. cp_id p \<notin> set (find_stuck_pools d)) (db_pools d))"
proof -
  have "\<forall>pid \<in> set (find_stuck_pools d). \<forall>n \<in> set (db_nodes d). ci_pool_id n \<noteq> pid"
    by (auto simp: find_stuck_pools_def list_ex_iff)
  from finalize_pools [OF this] show ?thesis by (simp add: reap_stuck_pools_def)
qed

lemma find_stuck_nodes_cong:
  assumes "db_nodes d = db_nodes d'" "db_jobs d = db_jobs d'" "db_now d = db_now d'"
  shows "find_stuck_nodes env d = Some [] \<longleftrightarrow> find_stuck_nodes env d' = Some []"
proof -
  have "is_stuck env d = is_stuck env d'"
    by (rule ext) (simp add: is_stuck_def destroy_in_flight_def assms cong: option.case_cong)
  then show ?thesis by (simp add: find_stuck_nodes_def assms)
qed

section \<open>Properties\<close>

text \<open>
  C8: One tick of the reaper clears the backlog.  When the stuck-node query runs (every \<^verbatim>\<open>terminating_at\<close> in the
  inventory is a timestamp), the tick leaves no terminating node without a running destroy beyond the grace period
  and no empty pool in \<^verbatim>\<open>terminating\<close>.  A node that was not stuck keeps its row, and a pool that was not
  terminating keeps its own.
\<close>

theorem reaper_tick_converges:
  assumes "rp_inventory env" "rp_pools env" "find_stuck_nodes env d = Some rows" "distinct (map ci_id (db_nodes d))"
    and "distinct (map cp_id (db_pools d))"
  shows "let d' = fst (reaper_tick env d) in
    find_stuck_nodes env d' = Some [] \<and> find_stuck_pools d' = []
    \<and> (\<forall>n \<in> set (db_nodes d). \<not> is_stuck env d n \<longrightarrow> n \<in> set (db_nodes d'))
    \<and> (\<forall>p \<in> set (db_pools d). cp_lifecycle_state p \<noteq> ''terminating'' \<longrightarrow> p \<in> set (db_pools d'))"
proof -
  define d' where "d' = fst (reaper_tick env d)"
  define d1 where "d1 = fst (reap_stuck_nodes env d)"
  have d': "d' = reap_stuck_pools env d1"
    by (simp add: d'_def reaper_tick_def d1_def split_def Let_def)
  have d1: "d1 = fst (reap_rows env rows d)"
    using assms(3) by (simp add: d1_def reap_stuck_nodes_def)
  note R = reap_rows_pools [OF assms(1), of rows d, folded d1] and P = reap_pools_effect [of env d1, folded d']
  have pools: "db_pools d' = filter (\<lambda>p. cp_id p \<notin> set (find_stuck_pools d1)) (db_pools d)"
    using P R assms(2) by simp
  have ids: "sr_node_id ` set rows = ci_id ` {n \<in> set (db_nodes d). is_stuck env d n}"
    by (rule stuck_ids [OF assms(3)])
  have "find_stuck_nodes env d' = Some []"
    using reap_stuck_nodes_converge [OF assms(1,3), folded d1_def] find_stuck_nodes_cong [of d' d1 env] P by simp
  moreover have "find_stuck_pools d' = []"
    using P assms(2) by (auto simp: find_stuck_pools_def filter_empty_conv)
  moreover have "\<forall>n \<in> set (db_nodes d). \<not> is_stuck env d n \<longrightarrow> n \<in> set (db_nodes d')"
  proof (intro ballI impI)
    fix n assume n: "n \<in> set (db_nodes d)" "\<not> is_stuck env d n"
    then have "ci_id n \<notin> sr_node_id ` set rows"
      unfolding ids using assms(4) by (auto simp: distinct_map inj_on_def)
    then show "n \<in> set (db_nodes d')" using reap_rows_keep [OF assms(1) n(1)] P d1 by simp
  qed
  moreover have "\<forall>p \<in> set (db_pools d). cp_lifecycle_state p \<noteq> ''terminating'' \<longrightarrow> p \<in> set (db_pools d')"
    unfolding pools using R assms(5) by (auto simp: find_stuck_pools_def distinct_map inj_on_def)
  ultimately show ?thesis unfolding d'_def [symmetric] Let_def by blast
qed

text \<open>
  A node with two cancellable jobs: both are flipped to \<^verbatim>\<open>cancelling\<close>, the status \<^verbatim>\<open>UPDATE 2\<close> reads as nothing flipped, and
  the node and both jobs are purged before the destroy runs.
\<close>

lemma reaper_drops_rearmed_jobs:
  assumes "sql_count (\<lambda>r. pj_node_id r = sr_node_id row \<and> pj_phase r \<notin> {CANCELLING, TERMINATED}) (db_jobs d) \<ge> 2"
    "rp_jobs env" "rp_inventory env"
  shows "sr_node_id row \<notin> pj_node_id ` set (db_jobs (fst (reap_one_node env row d)))"
proof -
  have "\<not> snd (force_cancel (sr_node_id row) d)"
    using assms(1) by (simp add: force_cancel_def update_jobs_def split_def Let_def)
  then show ?thesis
    unfolding reap_one_node_def purge_node_eq using assms(2,3)
    by (auto simp: split_def Let_def sql_delete_def split: if_splits)
qed

section \<open>Witnesses\<close>

definition sample_reaper :: reaper_env where
  "sample_reaper = \<lparr>rp_inventory = True, rp_pools = True, rp_jobs = True, rp_grace_s = 300,
     rp_ts_of = (\<lambda>s. if s = ''t0'' then Some 0 else None), rp_creds_ok = True\<rparr>"

definition sample_backlog :: db where
  "sample_backlog = empty_db\<lparr>db_now := 1000,
     db_nodes := [(sample_node ''n1'' ''p'' ''draining'' 4 0)\<lparr>ci_metadata :=
                     Some [(''terminating'', JBool True), (''terminating_at'', JStr ''t0'')]\<rparr>,
                  sample_node ''n2'' ''q'' ''ready'' 4 0],
     db_pools := [sample_pool ''p'' ''terminating'', sample_pool ''q'' ''running'']\<rparr>"

theorem reaper_tick_converges_witness:
  "find_stuck_pools (fst (reaper_tick sample_reaper sample_backlog)) = []
   \<and> sample_pool ''q'' ''running'' \<in> set (db_pools (fst (reaper_tick sample_reaper sample_backlog)))"
proof -
  have "\<exists>rows. find_stuck_nodes sample_reaper sample_backlog = Some rows"
    by (simp add: find_stuck_nodes_def sample_reaper_def sample_backlog_def sample_node_def terminating_def
        terminating_since_def meta_field_def jfield_def jget_def)
  then obtain rows where rows: "find_stuck_nodes sample_reaper sample_backlog = Some rows" ..
  show ?thesis
    using reaper_tick_converges [OF _ _ rows]
    by (simp add: Let_def sample_reaper_def sample_backlog_def sample_node_def sample_pool_def)
qed

end
