(* ===== verification/NodesApi.thy ===== *)
theory NodesApi
  imports WorkerApi Reaper
begin

text \<open>
  \<^verbatim>\<open>orchestration/api/nodes.py\<close>: the node endpoints of the dashboard.  The permission check in front of each of
  them, the adapters' live information and the parsing of nested JSON texts are fields of \<^verbatim>\<open>nodes_env\<close>.
  An exception that no handler catches is the framework's status 500.
\<close>

record nodes_env =
  ne_jobs :: bool
  ne_events :: bool
  ne_db :: bool
  ne_ts_text :: "time \<Rightarrow> string"
  ne_loads :: "string \<Rightarrow> json option"
  ne_float :: "string \<Rightarrow> real option"
  ne_stop :: "string \<Rightarrow> string \<Rightarrow> string option \<Rightarrow> string option"
  ne_stream_info :: "string \<Rightarrow> string \<Rightarrow> string option \<Rightarrow> string option \<Rightarrow> string + jobj"
  ne_details :: "string \<Rightarrow> string \<Rightarrow> string option \<Rightarrow> jobj option"
  ne_get_logs :: "(string \<Rightarrow> json \<Rightarrow> string list) option"

definition server_error :: http_error where
  "server_error = HTTPException 500 ''Internal Server Error''"

section \<open>Selectors and labels\<close>

fun selector_pairs :: "string list \<Rightarrow> jobj \<Rightarrow> jobj http" where
  "selector_pairs [] out = Inr out"
| "selector_pairs (chunk # rest) out = (case split_first (CHR ''='') chunk of
     None \<Rightarrow> Inl (HTTPException 422 ''selector expected key=value pairs'')
   | Some (k, v) \<Rightarrow>
       if py_strip k = [] then Inl (HTTPException 422 ''selector key must be non-empty'')
       else selector_pairs rest (AList.update (py_strip k) (JStr (py_strip v)) out))"

definition parse_selector :: "string option \<Rightarrow> jobj option http" where
  "parse_selector raw = (case nonempty_str raw of
     None \<Rightarrow> Inr None
   | Some s \<Rightarrow> map_sum id Some (selector_pairs (split_on (CHR '','') s) []))"

fun label_error :: "(string \<times> string) list \<Rightarrow> string option" where
  "label_error [] = None"
| "label_error ((k, v) # rest) =
    (if k = [] \<or> length k > MAX_KEY_LEN
     then Some (''label key length must be 1..'' @ dec_nat MAX_KEY_LEN @ '': '' @ py_repr_str k)
     else if length v > MAX_VAL_LEN
     then Some (''label value length must be 0..'' @ dec_nat MAX_VAL_LEN @ '': '' @ py_repr_str v)
     else if has_control k \<or> has_control v then Some ''label keys/values must not contain control characters''
     else label_error rest)"

definition validate_label_map :: "(string \<times> string) list \<Rightarrow> string option" where
  "validate_label_map value =
    (if length value > MAX_LABELS then Some (''labels payload exceeds '' @ dec_nat MAX_LABELS @ '' entries'')
     else label_error value)"

section \<open>Views\<close>

record node_view =
  nv_id :: uuid
  nv_pool_id :: "uuid option"
  nv_node_name :: "string option"
  nv_agent_kind :: string
  nv_provider :: string
  nv_state :: string
  nv_terminating :: bool
  nv_labels :: jobj
  nv_advertise_url :: "string option"
  nv_expose_url :: "string option"
  nv_gpu_total :: "int option"
  nv_gpu_allocated :: int
  nv_vcpu_total :: "int option"
  nv_vcpu_allocated :: int
  nv_ram_gb_total :: "int option"
  nv_ram_gb_allocated :: int
  nv_cpu_usage_pct :: "real option"
  nv_mem_usage_gb :: "real option"
  nv_health_score :: int
  nv_last_heartbeat :: "string option"
  nv_provider_instance_id :: string

fun to_float :: "(string \<Rightarrow> real option) \<Rightarrow> json \<Rightarrow> real option" where
  "to_float fl (JInt i) = Some (of_int i)"
| "to_float fl (JDec m e) = Some (of_int m / 10 ^ e)"
| "to_float fl (JBool b) = Some (if b then 1 else 0)"
| "to_float fl (JStr s) = fl s"
| "to_float fl _ = None"

text \<open>\<^verbatim>\<open>float(used.get(k, 0)) if used.get(k) else None\<close>; the outer None is the exception of \<^verbatim>\<open>float\<close>.\<close>

definition usage_of :: "(string \<Rightarrow> real option) \<Rightarrow> jobj \<Rightarrow> string \<Rightarrow> real option option" where
  "usage_of fl used k = (if truthy (jget used k) then map_option Some (to_float fl (jget used k)) else Some None)"

definition used_of :: "nodes_env \<Rightarrow> jobj \<Rightarrow> jobj option" where
  "used_of env metadata = (let u = jget metadata ''used'' in
     if \<not> truthy u then Some []
     else case u of
       JObj o' \<Rightarrow> Some o'
     | JStr s \<Rightarrow> (case ne_loads env s of None \<Rightarrow> Some [] | Some (JObj o') \<Rightarrow> Some o' | Some _ \<Rightarrow> None)
     | _ \<Rightarrow> None)"

definition view_state :: "bool \<Rightarrow> string \<Rightarrow> string" where
  "view_state term st = (let st = (if st = [] then ''unknown'' else st)
     in if term \<and> st \<noteq> ''terminated'' then ''terminating'' else st)"

definition to_view :: "nodes_env \<Rightarrow> node \<Rightarrow> node_view http" where
  "to_view env n =
    (let metadata = (case ci_metadata n of None \<Rightarrow> [] | Some m \<Rightarrow> m);
         term = (py_lower (py_str (case map_of metadata ''terminating'' of None \<Rightarrow> JStr [] | Some v \<Rightarrow> v)) = ''true'')
     in case used_of env metadata of
          None \<Rightarrow> Inl server_error
        | Some used \<Rightarrow>
            (case (usage_of (ne_float env) used ''cpu_pct'', usage_of (ne_float env) used ''mem_used'') of
               (Some cpu, Some mem) \<Rightarrow> Inr \<lparr>
                 nv_id = ci_id n, nv_pool_id = nonempty_str (Some (ci_pool_id n)),
                 nv_node_name = or_str (ci_node_name n) (ci_hostname n),
                 nv_agent_kind = ci_agent_kind n, nv_provider = ci_provider n,
                 nv_state = view_state term (ci_state n), nv_terminating = term, nv_labels = ci_labels n,
                 nv_advertise_url = ci_advertise_url n, nv_expose_url = ci_expose_url n,
                 nv_gpu_total = ci_gpu_total n, nv_gpu_allocated = ci_gpu_allocated n,
                 nv_vcpu_total = ci_vcpu_total n, nv_vcpu_allocated = ci_vcpu_allocated n,
                 nv_ram_gb_total = ci_ram_gb_total n, nv_ram_gb_allocated = ci_ram_gb_allocated n,
                 nv_cpu_usage_pct = cpu, nv_mem_usage_gb = map_option (\<lambda>x. x / 1024 ^ 3) mem,
                 nv_health_score = ci_health_score n,
                 nv_last_heartbeat = map_option (ne_ts_text env) (ci_last_heartbeat n),
                 nv_provider_instance_id = ci_provider_instance_id n\<rparr>
             | _ \<Rightarrow> Inl server_error))"

fun all_views :: "nodes_env \<Rightarrow> node list \<Rightarrow> node_view list http" where
  "all_views env [] = Inr []"
| "all_views env (n # ns) = (case to_view env n of
     Inl e \<Rightarrow> Inl e
   | Inr v \<Rightarrow> map_sum id (Cons v) (all_views env ns))"

definition list_nodes_route :: "nodes_env \<Rightarrow> string option \<Rightarrow> string option \<Rightarrow> db \<Rightarrow> node_view list http" where
  "list_nodes_route env labels x_organization_id d = (case nonempty_str x_organization_id of
     None \<Rightarrow> Inl (HTTPException 401 ''missing X-Organization-ID header'')
   | Some org_id \<Rightarrow> (case parse_selector labels of
       Inl e \<Rightarrow> Inl e
     | Inr selector \<Rightarrow> all_views env (list_nodes org_id selector d)))"

definition node_not_found :: http_error where
  "node_not_found = HTTPException 404 ''node not found''"

definition get_node_route :: "nodes_env \<Rightarrow> uuid \<Rightarrow> db \<Rightarrow> node_view http" where
  "get_node_route env nid d = (case get_node nid d of None \<Rightarrow> Inl node_not_found | Some n \<Rightarrow> to_view env n)"

definition deploy_metrics_route :: "uuid \<Rightarrow> string \<Rightarrow> db \<Rightarrow> json http" where
  "deploy_metrics_route nid did d = (case get_deploy_metrics nid did d of
     None \<Rightarrow> Inl (HTTPException 404 ''no metrics found for this deployment on this node'')
   | Some v \<Rightarrow> if truthy v then Inr v else Inl (HTTPException 404 ''no metrics found for this deployment on this node''))"

definition patch_labels :: "nodes_env \<Rightarrow> (string \<times> string) list \<Rightarrow> string list \<Rightarrow> uuid \<Rightarrow> db \<Rightarrow> db \<times> node_view http" where
  "patch_labels env add remove nid d = (case validate_label_map add of
     Some e \<Rightarrow> (d, Inl (HTTPException 422 e))
   | None \<Rightarrow>
      (let overlap = filter (\<lambda>k. k \<in> set remove) (map fst add)
       in if overlap \<noteq> []
          then (d, Inl (HTTPException 422 (''keys in both add and remove: '' @ py_repr (JArr (map JStr (sort overlap))))))
          else case set_labels nid (map (map_prod id JStr) add) remove d of
            Inr (d', n) \<Rightarrow> (d', to_view env n)
          | Inl (NodeNotFoundError e) \<Rightarrow> (d, Inl node_not_found)
          | Inl (NodeTerminatedError e) \<Rightarrow> (d, Inl (HTTPException 409 ''node is terminated''))
          | Inl (LabelConflictError e) \<Rightarrow> (d, Inl (HTTPException 422 e))
          | Inl (ValueError e) \<Rightarrow> (d, Inl (HTTPException 422 e))
          | Inl _ \<Rightarrow> (d, Inl server_error)))"

section \<open>Live logs\<close>

text \<open>Only the Nosana adapter takes the base url the gateway forwards.\<close>

definition log_stream_route :: "nodes_env \<Rightarrow> uuid \<Rightarrow> (string \<times> string) list \<Rightarrow> string \<Rightarrow> db \<Rightarrow> jobj http" where
  "log_stream_route env nid headers base_url d = (case get_node nid d of
     None \<Rightarrow> Inl node_not_found
   | Some row \<Rightarrow>
      let provider = ci_provider row; pii = ci_provider_instance_id row
      in if \<not> is_direct_provision_provider (Some provider)
         then Inr [(''ws_url'', JStr (''/v1/admin/workers/'' @ nid @ ''/logs'')),
                   (''subscription'', JObj [(''type'', JStr ''subscribe_logs''), (''provider'', JStr ''worker''), (''node_id'', JStr nid)])]
         else if no_external_job pii then Inr [(''error'', JStr ''Node has no provider job assigned yet.'')]
         else case get_adapter provider of
           Inl e \<Rightarrow> Inr [(''error'', JStr (''Live logs not available: '' @ e))]
         | Inr a \<Rightarrow>
             let via_gateway = (py_lower (opt_str (map_of headers ''x-gateway-request'')) = ''true'');
                 base = (if provider = ''nosana'' \<and> via_gateway then Some base_url else None)
             in (case ne_stream_info env provider pii base (nonempty_str (pool_credential (ci_pool_id row) d)) of
                   Inl e \<Rightarrow> Inr [(''error'', JStr e)]
                 | Inr info \<Rightarrow> Inr info))"

section \<open>Deleting and retrying\<close>

definition delete_node :: "nodes_env \<Rightarrow> uuid \<Rightarrow> db \<Rightarrow> db \<times> (int \<times> jobj) http" where
  "delete_node env nid d = (case get_node nid d of
     None \<Rightarrow> (d, Inl node_not_found)
   | Some existing \<Rightarrow>
      (case (if ne_jobs env then get_by_node nid d else None) of
         Some job \<Rightarrow>
           if pj_phase job = TERMINATED
           then (case purge_node nid d of Inl e \<Rightarrow> (d, Inl server_error) | Inr d' \<Rightarrow> (d', Inr (204, [])))
           else (mark_terminating_node (ne_ts_text env) nid (fst (force_cancel nid d)),
                 Inr (202, [(''node_id'', JStr nid), (''state'', JStr ''terminating'')]))
       | None \<Rightarrow> (soft_delete_node nid (stop_external (ne_stop env) existing d), Inr (204, []))))"

definition retry_provisioning :: "nodes_env \<Rightarrow> uuid \<Rightarrow> db \<Rightarrow> db \<times> jobj http" where
  "retry_provisioning env nid d = (case get_node nid d of
     None \<Rightarrow> (d, Inl node_not_found)
   | Some row \<Rightarrow>
      if \<not> ne_jobs env then (d, Inl (HTTPException 503 ''provisioning queue not configured''))
      else case reset_for_retry nid d of
        (d1, None) \<Rightarrow> (d1, Inl (HTTPException 409 ''no failed job to retry''))
      | (d1, Some job) \<Rightarrow>
          (case set_state nid ''provisioning'' d1 of
             Inl e \<Rightarrow> (d1, Inl server_error)
           | Inr d2 \<Rightarrow> (d2, Inr [(''job_id'', JStr (pj_id job)), (''phase'', JStr (phase_value (pj_phase job)))])))"

section \<open>The provisioning timeline\<close>

record provisioning_phase =
  pp_phase :: string
  pp_status :: string
  pp_started_at :: "string option"
  pp_ended_at :: "string option"
  pp_last_message :: "string option"

record provisioning_summary =
  sm_current_phase :: "string option"
  sm_terminal :: bool
  sm_phases :: "provisioning_phase list"
  sm_attempt_count :: int
  sm_error :: "jobj option"
  sm_aws_metadata :: "jobj option"
  sm_job_id :: "uuid option"

definition lookup_deployment_for_node :: "nodes_env \<Rightarrow> uuid \<Rightarrow> db \<Rightarrow> string option \<times> string option" where
  "lookup_deployment_for_node env nid d =
    (if \<not> ne_db env then (None, None)
     else case sql_first_by (\<lambda>m. - md_created_at m) (bound_to nid) (db_deps d) of
       None \<Rightarrow> (None, None)
     | Some m \<Rightarrow> (Some (md_state m), md_error_message m))"

text \<open>The UTF-8 bytes of the ellipsis character of the messages.\<close>

definition ellipsis :: string where
  "ellipsis = [CHR 0xE2, CHR 0x80, CHR 0xA6]"

definition timeline_phase :: "string \<Rightarrow> string \<Rightarrow> string \<Rightarrow> provisioning_phase" where
  "timeline_phase ph st msg = \<lparr>pp_phase = ph, pp_status = st, pp_started_at = None, pp_ended_at = None, pp_last_message = Some msg\<rparr>"

definition loading_message :: "string \<Rightarrow> string" where
  "loading_message st = (if st = ''succeeded'' then ''Model server is ready''
     else if st = ''failed'' then ''Container exited during model load''
     else if st = ''running'' then ''Pulling image & loading the model'' @ ellipsis
     else ''Waiting for the node to be scheduled'')"

definition serving_message :: "string \<Rightarrow> string" where
  "serving_message st = (if st = ''succeeded'' then ''Endpoint is serving''
     else if st = ''failed'' then ''Deployment failed''
     else ''Waiting for the endpoint to serve'' @ ellipsis)"

definition nosana_scheduled :: "string \<Rightarrow> string \<Rightarrow> string option \<Rightarrow> bool" where
  "nosana_scheduled node_state ds expose_url \<longleftrightarrow> node_state \<in> set [''ready'', ''terminated'']
     \<or> ds \<in> set [''DEPLOYING'', ''RUNNING'', ''FAILED''] \<or> nonempty_str expose_url \<noteq> None"

definition nosana_statuses :: "string \<Rightarrow> bool \<Rightarrow> string \<times> string" where
  "nosana_statuses ds scheduled =
    (if ds = ''RUNNING'' then (''succeeded'', ''succeeded'')
     else if ds = ''FAILED'' then (''failed'', ''failed'')
     else if ds = ''DEPLOYING'' \<or> scheduled then (''running'', ''pending'')
     else (''pending'', ''pending''))"

definition nosana_phases :: "bool \<Rightarrow> string \<times> string \<Rightarrow> provisioning_phase list" where
  "nosana_phases scheduled sts =
     [timeline_phase ''scheduling'' (if scheduled then ''succeeded'' else ''running'')
        (if scheduled then ''Scheduled on a Nosana node'' else ''Scheduling the job on a Nosana node'' @ ellipsis),
      timeline_phase ''loading'' (fst sts) (loading_message (fst sts)),
      timeline_phase ''serving'' (snd sts) (serving_message (snd sts))]"

definition nosana_provisioning_summary :: "nodes_env \<Rightarrow> node \<Rightarrow> uuid \<Rightarrow> db \<Rightarrow> provisioning_summary" where
  "nosana_provisioning_summary env row nid d =
    (let node_state = py_lower (ci_state row); dep = lookup_deployment_for_node env nid d;
         ds = py_upper (opt_str (fst dep)); scheduled = nosana_scheduled node_state ds (ci_expose_url row);
         phases = nosana_phases scheduled (nosana_statuses ds scheduled)
     in \<lparr>sm_current_phase = Some (case find (\<lambda>p. pp_status p \<noteq> ''succeeded'') phases of Some p \<Rightarrow> pp_phase p | None \<Rightarrow> ''serving''),
         sm_terminal = (ds \<in> set [''RUNNING'', ''FAILED''] \<or> node_state = ''terminated''),
         sm_phases = phases, sm_attempt_count = 0,
         sm_error = (if ds = ''FAILED'' then Some [(''code'', JStr ''DEPLOY_FAILED''),
             (''message'', JStr (case nonempty_str (snd dep) of Some e \<Rightarrow> e | None \<Rightarrow> ''the deployment failed'')),
             (''hint'', JNull), (''class'', JStr ''PERMANENT'')] else None),
         sm_aws_metadata = None, sm_job_id = None\<rparr>)"

definition job_error_block :: "prov_job option \<Rightarrow> jobj option" where
  "job_error_block job = (case job of
     None \<Rightarrow> None
   | Some j \<Rightarrow> (case nonempty_str (pj_last_error_code j) of
       None \<Rightarrow> None
     | Some code \<Rightarrow> Some [(''code'', JStr code), (''message'', jopt (pj_last_error_message j)), (''hint'', jopt (pj_last_error_hint j)),
         (''class'', JStr (case pj_error_class j of Some ec \<Rightarrow> error_class_value ec | None \<Rightarrow> ''PERMANENT''))]))"

definition aws_metadata_grid :: "node \<Rightarrow> prov_job option \<Rightarrow> jobj" where
  "aws_metadata_grid row job =
    (let outs = (case job of None \<Rightarrow> [] | Some j \<Rightarrow> (case pj_outputs j of None \<Rightarrow> [] | Some o' \<Rightarrow> o'));
         spec = (case job of None \<Rightarrow> [] | Some j \<Rightarrow> pj_spec j)
     in [(''instance_class'', json_or (jopt (ci_instance_class row)) (jget spec ''instance_class'')),
         (''instance_type'', json_or (jopt (ci_instance_type row)) (jget spec ''instance_type'')),
         (''region'', json_or (jget outs ''region'') (jget spec ''region'')),
         (''ami_id'', json_or (jget outs ''ami_id'') (jget spec ''ami_id'')),
         (''instance_id'', jget outs ''instance_id''),
         (''public_dns'', jget outs ''public_dns'')])"

definition phase_view :: "nodes_env \<Rightarrow> phase_summary \<Rightarrow> provisioning_phase" where
  "phase_view env p = \<lparr>pp_phase = ps_phase p, pp_status = ps_status p,
     pp_started_at = map_option (ne_ts_text env) (ps_started_at p),
     pp_ended_at = map_option (ne_ts_text env) (ps_ended_at p), pp_last_message = ps_last_message p\<rparr>"

definition get_provisioning :: "nodes_env \<Rightarrow> uuid \<Rightarrow> db \<Rightarrow> provisioning_summary http" where
  "get_provisioning env nid d = (case get_node nid d of
     None \<Rightarrow> Inl node_not_found
   | Some row \<Rightarrow>
      let job = (if ne_jobs env then get_by_node nid d else None);
          pool_id = ci_pool_id row; has_log = (ne_events env \<and> pool_id \<noteq> []);
          phases = (if has_log then map (phase_view env) (summarize_phases pool_id (Some nid) d) else []);
          cur = (case job of
              Some j \<Rightarrow> (Some (phase_value (pj_phase j)), is_terminal (pj_phase j))
            | None \<Rightarrow> if has_log
                then let c = current_phase pool_id (Some nid) d in (c, c = None \<or> ci_state row \<in> set [''ready'', ''terminated''])
                else (None, True))
      in if ci_provider row = ''nosana'' then Inr (nosana_provisioning_summary env row nid d)
         else Inr \<lparr>sm_current_phase = fst cur, sm_terminal = snd cur, sm_phases = phases,
           sm_attempt_count = (case job of Some j \<Rightarrow> pj_attempt_count j | None \<Rightarrow> 0), sm_error = job_error_block job,
           sm_aws_metadata = (if ci_provider row = ''aws'' then Some (aws_metadata_grid row job) else None),
           sm_job_id = map_option pj_id job\<rparr>)"

section \<open>Event pages\<close>

record log_event =
  le_id :: nat
  le_phase :: string
  le_status :: string
  le_message :: "string option"
  le_created_at :: string

definition event_view :: "nodes_env \<Rightarrow> prov_event \<Rightarrow> log_event" where
  "event_view env e = \<lparr>le_id = ev_id e, le_phase = ev_phase e, le_status = ev_status e, le_message = ev_message e,
     le_created_at = ne_ts_text env (ev_created_at e)\<rparr>"

text \<open>The bounds on the query parameters are checked by the framework.\<close>

definition provisioning_logs :: "nodes_env \<Rightarrow> uuid \<Rightarrow> int \<Rightarrow> int \<Rightarrow> db \<Rightarrow> (log_event list \<times> nat option) http" where
  "provisioning_logs env nid after limit d =
    (if after < 0 \<or> limit < 1 \<or> 2000 < limit then Inl (HTTPException 422 ''query parameter out of range'')
     else case get_node nid d of
       None \<Rightarrow> Inl node_not_found
     | Some row \<Rightarrow>
        if \<not> ne_events env \<or> ci_pool_id row = [] then Inr ([], None)
        else let es = list_events_after (ci_pool_id row) (nat after) (nat limit) d
             in Inr (map (event_view env) es, if es = [] then None else Some (ev_id (last es))))"

section \<open>Provider details and the EC2 console\<close>

record depin_details =
  dd_provider :: string
  dd_job_address :: json
  dd_node_address :: json
  dd_deployment_address :: json
  dd_run_address :: json
  dd_market :: json
  dd_service_url :: json
  dd_image :: json
  dd_mode :: json
  dd_tx :: json
  dd_provider_credential_name :: json
  dd_gpu_total :: "int option"
  dd_price :: "string option"
  dd_job_state :: json
  dd_created_at :: string

text \<open>Of the direct-provision adapters only Nosana's answers \<^verbatim>\<open>get_node_details\<close>; whatever it raises leaves no live fields.\<close>

definition live_details :: "nodes_env \<Rightarrow> node \<Rightarrow> db \<Rightarrow> jobj" where
  "live_details env row d =
    (if no_external_job (ci_provider_instance_id row) then []
     else case get_adapter (ci_provider row) of
       Inl e \<Rightarrow> []
     | Inr a \<Rightarrow> if ci_provider row \<noteq> ''nosana'' then []
         else (case ne_details env (ci_provider row) (ci_provider_instance_id row) (pool_credential (ci_pool_id row) d) of
                 None \<Rightarrow> [] | Some live \<Rightarrow> live))"

definition get_depin_details :: "nodes_env \<Rightarrow> uuid \<Rightarrow> db \<Rightarrow> depin_details http" where
  "get_depin_details env nid d = (case get_node nid d of
     None \<Rightarrow> Inl node_not_found
   | Some row \<Rightarrow>
      if \<not> is_direct_provision_provider (Some (ci_provider row)) then Inl (HTTPException 400 ''node is not a DePIN instance'')
      else let meta = (case ci_metadata row of None \<Rightarrow> [] | Some m \<Rightarrow> m); live = live_details env row d;
               pii = ci_provider_instance_id row
           in Inr \<lparr>dd_provider = ci_provider row,
                dd_job_address = (if no_external_job pii then jget meta ''job_address'' else JStr pii),
                dd_node_address = jget live ''node_address'', dd_deployment_address = jget live ''deployment_address'',
                dd_run_address = jget live ''run_address'', dd_market = jget live ''market'',
                dd_service_url = json_or (jget live ''service_url'') (jopt (ci_expose_url row)),
                dd_image = jget meta ''image'', dd_mode = jget meta ''mode'', dd_tx = jget meta ''tx'',
                dd_provider_credential_name = jget meta ''provider_credential_name'',
                dd_gpu_total = ci_gpu_total row,
                dd_price = (if jget live ''price'' = JNull then None else Some (py_str (jget live ''price''))),
                dd_job_state = jget live ''job_state'', dd_created_at = ne_ts_text env (ci_created_at row)\<rparr>)"

definition console_region :: "nodes_env \<Rightarrow> node \<Rightarrow> db \<Rightarrow> json" where
  "console_region env row d =
    (let from_job = (case (if ne_jobs env then get_by_node (ci_id row) d else None) of
             None \<Rightarrow> JNull
           | Some j \<Rightarrow> json_or (jget (pj_spec j) ''region'') (case pj_outputs j of None \<Rightarrow> JNull | Some o' \<Rightarrow> jget o' ''region''));
         from_meta = (case ci_metadata row of None \<Rightarrow> JNull | Some m \<Rightarrow> jget m ''region'');
         from_pool = (case get_pool (ci_pool_id row) d of
             None \<Rightarrow> JNull
           | Some p \<Rightarrow> (case cp_region_constraint p of Some (r # _) \<Rightarrow> JStr r | _ \<Rightarrow> JNull))
     in if truthy from_job then from_job else if truthy from_meta then from_meta else from_pool)"

definition get_ec2_console :: "nodes_env \<Rightarrow> uuid \<Rightarrow> db \<Rightarrow> (string list \<times> string) http" where
  "get_ec2_console env nid d = (case get_node nid d of
     None \<Rightarrow> Inl node_not_found
   | Some row \<Rightarrow>
      if ci_provider row \<noteq> ''aws'' then Inl (HTTPException 404 ''ec2 console only available for aws provider'')
      else case ne_get_logs env of
        None \<Rightarrow> Inl (HTTPException 503 ''aws adapter not configured'')
      | Some get_logs \<Rightarrow>
          Inr (if no_external_job (ci_provider_instance_id row) then []
               else get_logs (ci_provider_instance_id row) (console_region env row d),
               ne_ts_text env (db_now d)))"

section \<open>Selectors are printed and parsed without loss\<close>

definition print_selector :: "(string \<times> string) list \<Rightarrow> string" where
  "print_selector kvs = join_with '','' (map (\<lambda>(k, v). k @ ''='' @ v) kvs)"

definition selector_pair_ok :: "string \<times> string \<Rightarrow> bool" where
  "selector_pair_ok kv \<longleftrightarrow> fst kv \<noteq> [] \<and> CHR ''='' \<notin> set (fst kv) \<and> CHR '','' \<notin> set (fst kv) \<union> set (snd kv)
     \<and> py_strip (fst kv) = fst kv \<and> py_strip (snd kv) = snd kv"

lemma split_on_prefix: "c \<notin> set w \<Longrightarrow> split_on c (w @ c # s) = w # split_on c s"
  by (induction w) auto

lemma split_on_word: "c \<notin> set w \<Longrightarrow> split_on c w = [w]"
  by (induction w) auto

lemma split_on_join:
  assumes "ws \<noteq> []" "\<forall>w \<in> set ws. c \<notin> set w"
  shows "split_on c (join_with [c] ws) = ws"
  using assms
proof (induction ws)
  case (Cons w ws)
  show ?case
  proof (cases ws)
    case Nil
    with Cons.prems show ?thesis by (simp add: join_with_def split_on_word)
  next
    case (Cons v vs)
    with Cons.prems Cons.IH show ?thesis by (simp add: join_with_def split_on_prefix)
  qed
qed simp

lemma split_first_pair: "c \<notin> set k \<Longrightarrow> split_first c (k @ c # v) = Some (k, v)"
  by (simp add: split_first_def takeWhile_append dropWhile_append)

lemma update_new_key: "k \<notin> fst ` set out \<Longrightarrow> AList.update k v out = out @ [(k, v)]"
  by (induction out) auto

lemma selector_pairs_printed:
  assumes "\<forall>kv \<in> set kvs. selector_pair_ok kv" "distinct (map fst out @ map fst kvs)"
  shows "selector_pairs (map (\<lambda>(k, v). k @ ''='' @ v) kvs) out = Inr (out @ map (map_prod id JStr) kvs)"
  using assms
proof (induction kvs arbitrary: out)
  case (Cons kv kvs)
  obtain k v where kv: "kv = (k, v)" by (cases kv)
  with Cons.prems have ok: "CHR ''='' \<notin> set k" "py_strip k = k" "py_strip v = v" "k \<noteq> []" and "k \<notin> fst ` set out"
    by (auto simp: selector_pair_ok_def)
  with Cons show ?case by (simp add: kv split_first_pair update_new_key)
qed simp


section \<open>Deleting a node\<close>

lemma get_node_row: "get_node nid d = map_option (with_live_gpu d) (get_node_row nid d)"
  by (simp add: get_node_def get_node_row_def)

lemma force_cancel_jobs:
  "db_jobs (fst (force_cancel nid d)) = sql_update (\<lambda>r. pj_node_id r = nid \<and> pj_phase r \<notin> set [CANCELLING, TERMINATED])
     (cancel_row (db_now d)) (db_jobs d)"
  by (simp add: force_cancel_def split_def)

lemma update_nodes_other:
  assumes "\<And>m. ci_id (f m) = ci_id m"
  shows "filter (\<lambda>m. ci_id m \<noteq> i) (db_nodes (update_nodes (\<lambda>m. ci_id m = i) f d)) = filter (\<lambda>m. ci_id m \<noteq> i) (db_nodes d)"
proof -
  have "filter (\<lambda>m. ci_id m \<noteq> i) (sql_update (\<lambda>m. ci_id m = i) f ns) = filter (\<lambda>m. ci_id m \<noteq> i) ns" for ns
    using assms by (induction ns) (auto simp: sql_update_def)
  then show ?thesis by simp
qed

lemma force_cancel_row [simp]: "get_node_row i (fst (force_cancel nid d)) = get_node_row i d"
  by (simp add: get_node_row_def)

lemma force_cancel_settled:
  assumes "j \<in> set (db_jobs (fst (force_cancel nid d)))" "pj_node_id j = nid"
  shows "pj_phase j = CANCELLING \<or> pj_phase j = TERMINATED"
proof -
  obtain r where "j = (if pj_node_id r = nid \<and> pj_phase r \<notin> set [CANCELLING, TERMINATED] then cancel_row (db_now d) r else r)"
    using assms(1) unfolding force_cancel_jobs in_sql_update by blast
  then show ?thesis using assms(2) by (cases "pj_node_id r = nid"; cases "pj_phase r") (simp_all add: cancel_row_def)
qed

lemma stop_external_frame [simp]:
  "db_jobs (stop_external stop n d) = db_jobs d"
  "filter (\<lambda>m. ci_id m \<noteq> ci_id n) (db_nodes (stop_external stop n d)) = filter (\<lambda>m. ci_id m \<noteq> ci_id n) (db_nodes d)"
proof -
  note other = update_nodes_other [of "\<lambda>m. m\<lparr>ci_metadata := g m, ci_updated_at := t\<rparr>" for g t, simplified]
  show "filter (\<lambda>m. ci_id m \<noteq> ci_id n) (db_nodes (stop_external stop n d)) = filter (\<lambda>m. ci_id m \<noteq> ci_id n) (db_nodes d)"
    by (auto simp: stop_external_def mark_deprovision_failed_def other split: prod.splits bool.splits)
  show "db_jobs (stop_external stop n d) = db_jobs d"
    by (auto simp: stop_external_def mark_deprovision_failed_def split: prod.splits bool.splits)
qed

lemma stop_external_row:
  "get_node_row (ci_id n) (stop_external stop n d) = map_option (\<lambda>m.
     if is_direct_provision_provider (Some (ci_provider n))
     then case deprovision_direct_node stop (ci_provider n) (ci_provider_instance_id n) (pool_credential (ci_pool_id n) d) of
            (True, _) \<Rightarrow> m
          | (False, err) \<Rightarrow> m\<lparr>ci_metadata := meta_merge [(''deprovision_failed'', JBool True), (''deprovision_error'', jopt err)] m,
                             ci_updated_at := db_now d\<rparr>
     else m) (get_node_row (ci_id n) d)"
  by (cases "get_node_row (ci_id n) d")
    (auto simp: stop_external_def mark_deprovision_failed_def get_node_update jopt_def dest: get_node_in split: prod.splits bool.splits)

lemma delete_jobless:
  fixes d defines "d1 s n \<equiv> stop_external s (with_live_gpu d n) d"
  assumes n0: "get_node_row nid d = Some n0" and d': "d' = soft_delete_node nid (d1 (ne_stop env) n0)"
  shows "\<exists>n'. get_node_row nid d' = Some n' \<and> ci_state n' = ''terminated''" and "db_jobs d' = db_jobs d"
    and "filter (\<lambda>n. ci_id n \<noteq> nid) (db_nodes d') = filter (\<lambda>n. ci_id n \<noteq> nid) (db_nodes d)"
    and "is_direct_provision_provider (Some (ci_provider n0)) \<Longrightarrow>
      deprovision_direct_node (ne_stop env) (ci_provider n0) (ci_provider_instance_id n0) (pool_credential (ci_pool_id n0) d) = (False, err) \<Longrightarrow>
      \<exists>n'. get_node_row nid d' = Some n' \<and> meta_field n' ''deprovision_failed'' = Some ''true''"
proof -
  let ?d1 = "stop_external (ne_stop env) (with_live_gpu d n0) d"
  have id0: "ci_id n0 = nid" "ci_id (with_live_gpu d n0) = nid" using get_node_in [OF n0] by (simp_all add: with_live_gpu_def)
  have row: "get_node_row nid d' = map_option (\<lambda>m. if ci_id m = nid then m\<lparr>ci_state := ''terminated'', ci_updated_at := db_now ?d1\<rparr> else m)
      (get_node_row nid ?d1)"
    unfolding d' d1_def soft_delete_node_def by (rule get_node_update) simp
  obtain y where y: "get_node_row nid ?d1 = Some y"
    using stop_external_row [of "with_live_gpu d n0" "ne_stop env" d] n0 id0 by auto
  then show "\<exists>n'. get_node_row nid d' = Some n' \<and> ci_state n' = ''terminated''"
    using get_node_in [OF y] by (simp add: row)
  show "db_jobs d' = db_jobs d" by (simp add: d' d1_def soft_delete_node_def)
  show "filter (\<lambda>n. ci_id n \<noteq> nid) (db_nodes d') = filter (\<lambda>n. ci_id n \<noteq> nid) (db_nodes d)"
    using stop_external_frame(2) [of "with_live_gpu d n0" "ne_stop env" d] id0
    by (simp add: d' d1_def soft_delete_node_def update_nodes_other [simplified])
  assume "is_direct_provision_provider (Some (ci_provider n0))"
    "deprovision_direct_node (ne_stop env) (ci_provider n0) (ci_provider_instance_id n0) (pool_credential (ci_pool_id n0) d) = (False, err)"
  then show "\<exists>n'. get_node_row nid d' = Some n' \<and> meta_field n' ''deprovision_failed'' = Some ''true''"
    using stop_external_row [of "with_live_gpu d n0" "ne_stop env" d] n0 id0
    by (simp add: row with_live_gpu_def meta_field_def jfield_def meta_merge_def jget_update)
qed

lemma purge_removes:
  assumes "purge_node nid d = Inr d'" "get_node_row nid d = Some n"
  shows "get_node_row nid d' = None" "db_jobs d' = sql_delete (\<lambda>j. pj_node_id j = nid) (db_jobs d)"
    "db_nodes d' = sql_delete (\<lambda>n. ci_id n = nid) (db_nodes d)"
  using assms(1) get_node_in [OF assms(2)] unfolding purge_node_eq
  by (auto simp: Let_def get_node_row_def find_None_iff set_sql_delete split: if_splits)

lemma delete_cancels:
  assumes n0: "get_node_row nid d = Some n0" and job: "get_by_node nid d = Some j" "pj_phase j \<noteq> TERMINATED"
    and d': "d' = mark_terminating_node ts nid (fst (force_cancel nid d))"
  shows "db_jobs d' = db_jobs (fst (force_cancel nid d))" and "\<exists>j \<in> set (db_jobs d'). pj_node_id j = nid \<and> pj_phase j = CANCELLING"
    and "\<exists>n. get_node_row nid d' = Some n \<and> terminating n"
    and "filter (\<lambda>n. ci_id n \<noteq> nid) (db_nodes d') = filter (\<lambda>n. ci_id n \<noteq> nid) (db_nodes d)"
proof -
  show jobs: "db_jobs d' = db_jobs (fst (force_cancel nid d))" by (simp add: d' mark_terminating_node_def)
  from job(1) have j: "j \<in> set (db_jobs d)" "pj_node_id j = nid"
    unfolding get_by_node_def by (auto dest: sql_first_by_Some)
  have "\<exists>j' \<in> set (db_jobs d'). j' = (if pj_phase j = CANCELLING then j else cancel_row (db_now d) j)"
    using j job(2) unfolding jobs force_cancel_jobs by (auto simp: in_sql_update intro!: bexI [of _ j])
  then obtain j' where "j' \<in> set (db_jobs d')" "j' = (if pj_phase j = CANCELLING then j else cancel_row (db_now d) j)" by blast
  then have "j' \<in> set (db_jobs d')" "pj_node_id j' = nid" "pj_phase j' = CANCELLING" using j(2) by (simp_all add: cancel_row_def)
  then show "\<exists>j \<in> set (db_jobs d'). pj_node_id j = nid \<and> pj_phase j = CANCELLING"
    by (intro bexI [of _ j'] conjI)
  show "\<exists>n. get_node_row nid d' = Some n \<and> terminating n"
    using n0 get_node_in [OF n0] by (simp add: d' mark_terminating_node_def get_node_update terminating_def meta_field_def jfield_def meta_merge_def jget_update)
  show "filter (\<lambda>n. ci_id n \<noteq> nid) (db_nodes d') = filter (\<lambda>n. ci_id n \<noteq> nid) (db_nodes d)"
    by (simp add: d' mark_terminating_node_def update_nodes_other [simplified])
qed

text \<open>
  C7: An accepted deletion leaves no job of the node that could still create an instance: all are cancelling or already
  terminated, and a 202 comes with one the reconciler will serve.  The node is gone, terminated or marked terminating; a
  direct-provision job that could not be stopped is marked on the row.  Other nodes and their jobs are untouched.
\<close>

theorem delete_node_settles:
  assumes "ne_jobs env" "delete_node env nid d = (d', Inr (st, body))"
  shows "(\<forall>j \<in> set (db_jobs d'). pj_node_id j = nid \<longrightarrow> pj_phase j = CANCELLING \<or> pj_phase j = TERMINATED)
    \<and> (case get_node_row nid d' of None \<Rightarrow> st = 204
        | Some n \<Rightarrow> if st = 204 then ci_state n = ''terminated''
                    else st = 202 \<and> terminating n \<and> (\<exists>j \<in> set (db_jobs d'). pj_node_id j = nid \<and> pj_phase j = CANCELLING))
    \<and> (\<forall>n err. get_node_row nid d = Some n \<and> get_by_node nid d = None \<and> is_direct_provision_provider (Some (ci_provider n))
         \<and> deprovision_direct_node (ne_stop env) (ci_provider n) (ci_provider_instance_id n) (pool_credential (ci_pool_id n) d) = (False, err)
         \<longrightarrow> (\<exists>n'. get_node_row nid d' = Some n' \<and> meta_field n' ''deprovision_failed'' = Some ''true''))
    \<and> filter (\<lambda>n. ci_id n \<noteq> nid) (db_nodes d') = filter (\<lambda>n. ci_id n \<noteq> nid) (db_nodes d)
    \<and> filter (\<lambda>j. pj_node_id j \<noteq> nid) (db_jobs d') = filter (\<lambda>j. pj_node_id j \<noteq> nid) (db_jobs d)"
proof -
  obtain n0 where n0: "get_node_row nid d = Some n0"
    using assms(2) by (auto simp: delete_node_def get_node_row split: option.splits)
  consider (none) "get_by_node nid d = None" | (gone) j where "get_by_node nid d = Some j" "pj_phase j = TERMINATED"
    | (live) j where "get_by_node nid d = Some j" "pj_phase j \<noteq> TERMINATED" by (cases "get_by_node nid d") auto
  then show ?thesis
  proof cases
    case none
    then have nojob: "\<forall>j \<in> set (db_jobs d). pj_node_id j \<noteq> nid" by (auto simp: get_by_node_def sql_first_by_None)
    have d': "d' = soft_delete_node nid (stop_external (ne_stop env) (with_live_gpu d n0) d)" "st = 204"
      using assms n0 none by (simp_all add: delete_node_def get_node_row)
    note left = delete_jobless [OF n0 d'(1)]
    obtain n' where "get_node_row nid d' = Some n'" "ci_state n' = ''terminated''" using left(1) by blast
    then show ?thesis using nojob left(2-4) n0 d'(2) by simp
  next
    case gone
    then have d': "purge_node nid d = Inr d'" "st = 204"
      using assms n0 by (auto simp: delete_node_def get_node_row split: sum.splits)
    then show ?thesis using gone(1) by (simp add: purge_removes [OF d'(1) n0] sql_delete_def)
  next
    case live
    then have d': "d' = mark_terminating_node (ne_ts_text env) nid (fst (force_cancel nid d))" "st = 202"
      using assms n0 by (simp_all add: delete_node_def get_node_row)
    note marked = delete_cancels [OF n0 live d'(1)]
    have "\<forall>j \<in> set (db_jobs d'). pj_node_id j = nid \<longrightarrow> pj_phase j = CANCELLING \<or> pj_phase j = TERMINATED"
      unfolding marked(1) using force_cancel_settled by blast
    then show ?thesis using marked(2-4) d'(2) live(1) force_cancel_other [of nid d] by (auto simp: marked(1))
  qed
qed

section \<open>A retried node and the reaper\<close>

definition settled :: "uuid \<Rightarrow> db \<Rightarrow> bool" where
  "settled nid d \<longleftrightarrow> (\<forall>j \<in> set (db_jobs d). pj_node_id j = nid \<longrightarrow> pj_phase j = CANCELLING \<or> pj_phase j = TERMINATED)"

lemma settled_other:
  assumes "jobs_but m d' = jobs_but m d" "nid \<noteq> m"
  shows "settled nid d' = settled nid d"
proof -
  have "settled nid x \<longleftrightarrow> (\<forall>j \<in> set (jobs_but m x). pj_node_id j = nid \<longrightarrow> pj_phase j = CANCELLING \<or> pj_phase j = TERMINATED)" for x
    using assms(2) by (auto simp: settled_def jobs_but_def)
  then show ?thesis using assms(1) by simp
qed

lemma reap_one_settled:
  assumes "rp_inventory env"
  shows "settled (sr_node_id row) (fst (reap_one_node env row d))"
proof -
  let ?nid = "sr_node_id row"
  define f where "f = (if rp_jobs env \<and> py_lower (sr_provider row) \<noteq> [] then force_cancel ?nid d else (d, False))"
  have r: "fst (reap_one_node env row d) = (if snd f then fst f else case purge_node ?nid (fst f) of Inl e \<Rightarrow> fst f | Inr d2 \<Rightarrow> d2)"
    unfolding reap_one_node_def f_def using assms by (simp add: split_def Let_def)
  show ?thesis
  proof (cases "snd f")
    case True
    then show ?thesis using force_cancel_settled [of _ ?nid d] by (auto simp: r f_def settled_def split: if_splits)
  next
    case False
    obtain d2 where p: "purge_node ?nid (fst f) = Inr d2" using purge_node_eq by blast
    then have "\<forall>j \<in> set (db_jobs d2). pj_node_id j \<noteq> ?nid"
      unfolding purge_node_eq Let_def by (auto simp: set_sql_delete split: if_splits)
    then show ?thesis using False p by (auto simp: r settled_def)
  qed
qed

lemma reap_rows_settled:
  assumes "rp_inventory env" "nid \<in> sr_node_id ` set rows \<or> settled nid d"
  shows "settled nid (fst (reap_rows env rows d))"
  using assms(2)
proof (induction rows arbitrary: d)
  case (Cons row rows)
  have "nid \<in> sr_node_id ` set rows \<or> settled nid (fst (reap_one_node env row d))"
    using Cons.prems reap_one_settled [OF assms(1), of row d] reap_one_effect(3) [OF assms(1), of row d]
      settled_other [of "sr_node_id row" "fst (reap_one_node env row d)" d nid] by (cases "nid = sr_node_id row") auto
  from Cons.IH [OF this] show ?case by (simp add: split_def Let_def)
qed simp

lemma retry_effect:
  assumes "retry_provisioning env nid d = (d1, Inr body)"
  shows "d1 = update_nodes (\<lambda>n. ci_id n = nid) (\<lambda>n. n\<lparr>ci_state := ''provisioning'', ci_updated_at := db_now d\<rparr>)
      (d\<lparr>db_jobs := sql_update (\<lambda>r. pj_node_id r = nid \<and> pj_phase r = FAILED) (reset_row (db_now d)) (db_jobs d)\<rparr>)"
    and "\<exists>r \<in> set (db_jobs d). pj_node_id r = nid \<and> pj_phase r = FAILED"
proof -
  obtain r where r: "find (\<lambda>r. pj_node_id r = nid \<and> pj_phase r = FAILED) (db_jobs d) = Some r"
    using assms by (auto simp: retry_provisioning_def reset_for_retry_def Let_def split: option.splits if_splits)
  then show "\<exists>r \<in> set (db_jobs d). pj_node_id r = nid \<and> pj_phase r = FAILED" using find_in [OF r] by blast
  show "d1 = update_nodes (\<lambda>n. ci_id n = nid) (\<lambda>n. n\<lparr>ci_state := ''provisioning'', ci_updated_at := db_now d\<rparr>)
      (d\<lparr>db_jobs := sql_update (\<lambda>r. pj_node_id r = nid \<and> pj_phase r = FAILED) (reset_row (db_now d)) (db_jobs d)\<rparr>)"
    using assms r by (auto simp: retry_provisioning_def reset_for_retry_def Let_def set_state_def node_states_def update_jobs_def
        split: option.splits if_splits)
qed

text \<open>
  Retrying the failed job of a node whose deletion has been requested longer ago than the reaper's grace re-arms the job at
  preflight, but the node keeps its terminating mark, so the reaper's next tick cancels or removes the job again: none of
  the node's jobs is left that would provision it.
\<close>

theorem retry_is_undone_by_reaper:
  assumes "retry_provisioning env nid d = (d1, Inr body)" "rp_inventory renv"
    and "n \<in> set (db_nodes d)" "ci_id n = nid" "terminating n" "meta_field n ''terminating_at'' = Some s"
    and "rp_ts_of renv s = Some t" "t \<le> db_now d - rp_grace_s renv" "\<not> destroy_in_flight nid d"
    and "find_stuck_nodes renv d1 = Some rows"
  shows "(\<exists>j \<in> set (db_jobs d1). pj_node_id j = nid \<and> pj_phase j = PREFLIGHT)
    \<and> (\<forall>j \<in> set (db_jobs (fst (reaper_tick renv d1))). pj_node_id j = nid \<longrightarrow> pj_phase j = CANCELLING \<or> pj_phase j = TERMINATED)"
proof -
  note d1 = retry_effect(1) [OF assms(1)]
  obtain r where r: "r \<in> set (db_jobs d)" "pj_node_id r = nid" "pj_phase r = FAILED"
    using retry_effect(2) [OF assms(1)] by blast
  let ?n = "n\<lparr>ci_state := ''provisioning'', ci_updated_at := db_now d\<rparr>"
  have n1: "?n \<in> set (db_nodes d1)" using assms(3,4) by (auto simp: d1 in_sql_update intro!: bexI [of _ n])
  have "\<not> destroy_in_flight nid d1"
  proof
    assume "destroy_in_flight nid d1"
    then obtain j where j: "j \<in> set (db_jobs d1)" "pj_node_id j = nid" "pj_phase j = CANCELLING"
      by (auto simp: destroy_in_flight_def list_ex_iff DESTROY_IN_FLIGHT_PHASES_def)
    then obtain q where q: "q \<in> set (db_jobs d)" "j = (if pj_node_id q = nid \<and> pj_phase q = FAILED then reset_row (db_now d) q else q)"
      unfolding d1 update_nodes_simps by (auto simp: in_sql_update)
    with j(3) have "j = q" by (simp add: reset_row_def split: if_splits)
    with j q(1) assms(9) show False by (auto simp: destroy_in_flight_def list_ex_iff DESTROY_IN_FLIGHT_PHASES_def)
  qed
  then have "is_stuck renv d1 ?n"
    using assms(4-8) by (simp add: is_stuck_def terminating_def terminating_since_def meta_field_def d1 cong: option.case_cong)
  then have "nid \<in> sr_node_id ` set rows"
    using n1 assms(4) unfolding stuck_ids [OF assms(10)] by (auto intro!: image_eqI [of _ _ ?n])
  from reap_rows_settled [OF assms(2) disjI1 [OF this]] have "settled nid (fst (reap_stuck_nodes renv d1))"
    by (simp add: reap_stuck_nodes_def assms(10))
  then have "settled nid (fst (reaper_tick renv d1))"
    using reap_pools_effect [of renv "fst (reap_stuck_nodes renv d1)"] by (simp add: reaper_tick_def settled_def split_def Let_def)
  moreover have "reset_row (db_now d) r \<in> set (db_jobs d1)"
    using r by (auto simp: d1 in_sql_update intro!: bexI [of _ r])
  then have "\<exists>j \<in> set (db_jobs d1). pj_node_id j = nid \<and> pj_phase j = PREFLIGHT"
    using r(2) by (intro bexI [of _ "reset_row (db_now d) r"]) (simp_all add: reset_row_def)
  ultimately show ?thesis by (simp add: settled_def)
qed

section \<open>The synthesised timeline\<close>

text \<open>
  A step of the timeline runs or has succeeded only when every step before it has succeeded; the step reported as current
  is the first that has not; an error is reported exactly when a step has failed.
\<close>

theorem nosana_timeline_ordered:
  fixes env row nid d
  defines "s \<equiv> nosana_provisioning_summary env row nid d"
  shows "map pp_phase (sm_phases s) = [''scheduling'', ''loading'', ''serving'']
    \<and> sorted_wrt (\<lambda>p q. pp_status q = ''running'' \<or> pp_status q = ''succeeded'' \<longrightarrow> pp_status p = ''succeeded'') (sm_phases s)
    \<and> (sm_error s \<noteq> None \<longleftrightarrow> ''failed'' \<in> pp_status ` set (sm_phases s))
    \<and> sm_current_phase s = Some (pp_phase (hd (dropWhile (\<lambda>p. pp_status p = ''succeeded'') (sm_phases s) @ [last (sm_phases s)])))"
proof -
  define ds where "ds = py_upper (opt_str (fst (lookup_deployment_for_node env nid d)))"
  define sch where "sch = nosana_scheduled (py_lower (ci_state row)) ds (ci_expose_url row)"
  have impl: "ds = ''RUNNING'' \<Longrightarrow> sch" "ds = ''FAILED'' \<Longrightarrow> sch" "ds = ''DEPLOYING'' \<Longrightarrow> sch"
    by (simp_all add: sch_def nosana_scheduled_def)
  have ph: "sm_phases s = nosana_phases sch (nosana_statuses ds sch)"
    by (simp add: s_def nosana_provisioning_summary_def Let_def ds_def sch_def)
  have cur: "sm_current_phase s = Some (case find (\<lambda>p. pp_status p \<noteq> ''succeeded'') (sm_phases s) of Some p \<Rightarrow> pp_phase p | None \<Rightarrow> ''serving'')"
    by (simp add: s_def nosana_provisioning_summary_def Let_def)
  have err: "sm_error s \<noteq> None \<longleftrightarrow> ds = ''FAILED''"
    by (simp add: s_def nosana_provisioning_summary_def Let_def ds_def)
  note eval = ph nosana_phases_def timeline_phase_def nosana_statuses_def
  show ?thesis
  proof (cases sch)
    case True
    then show ?thesis unfolding cur err by (cases "ds = ''RUNNING''"; cases "ds = ''FAILED''") (simp_all add: eval)
  next
    case False
    with impl have "ds \<noteq> ''RUNNING''" "ds \<noteq> ''FAILED''" "ds \<noteq> ''DEPLOYING''" by blast+
    with False show ?thesis unfolding cur err by (simp add: eval)
  qed
qed

section \<open>Findings\<close>

text \<open>The page of a node's provisioning log contains the events of the other nodes of its pool.\<close>

lemma logs_are_pool_wide:
  assumes "get_node nid d = Some n" "ne_events env" "ci_pool_id n \<noteq> []" "e \<in> set (db_events d)" "ev_pool_id e = ci_pool_id n"
    "0 < ev_id e" "length (db_events d) \<le> 2000"
  shows "\<exists>es nx. provisioning_logs env nid 0 2000 d = Inr (es, nx) \<and> event_view env e \<in> set es"
proof -
  have "length (events_after (ci_pool_id n) 0 d) \<le> 2000"
    using assms(7) by (auto simp: events_after_def intro: order_trans [OF length_filter_le])
  moreover have "e \<in> set (events_after (ci_pool_id n) 0 d)"
    using assms(4-6) by (simp add: events_after_def)
  ultimately show ?thesis
    using assms(1-3) by (simp add: provisioning_logs_def list_events_after_def Let_def)
qed

section \<open>Witnesses\<close>


definition sample_nodes_env :: nodes_env where
  "sample_nodes_env = \<lparr>ne_jobs = True, ne_events = True, ne_db = True, ne_ts_text = (\<lambda>t. []), ne_loads = (\<lambda>s. None),
     ne_float = (\<lambda>s. None), ne_stop = (\<lambda>p i c. Some ''sidecar unreachable''), ne_stream_info = (\<lambda>p i b c. Inl ''offline''),
     ne_details = (\<lambda>p i c. None), ne_get_logs = None\<rparr>"

definition sample_depin :: db where
  "sample_depin = empty_db\<lparr>db_pools := [sample_pool ''p'' ''running''],
     db_nodes := [(sample_node ''n1'' ''p'' ''ready'' 1 0)\<lparr>ci_provider := ''nosana'', ci_provider_instance_id := ''7Yk''\<rparr>]\<rparr>"

theorem delete_node_settles_witness:
  "\<exists>d' n. delete_node sample_nodes_env ''n1'' sample_depin = (d', Inr (204, [])) \<and> get_node_row ''n1'' d' = Some n
     \<and> ci_state n = ''terminated'' \<and> meta_field n ''deprovision_failed'' = Some ''true''"
proof -
  let ?n = "(sample_node ''n1'' ''p'' ''ready'' 1 0)\<lparr>ci_provider := ''nosana'', ci_provider_instance_id := ''7Yk''\<rparr>"
  have row: "get_node_row ''n1'' sample_depin = Some ?n" by (simp add: get_node_row_def sample_depin_def sample_node_def)
  have job: "get_by_node ''n1'' sample_depin = None" by (simp add: get_by_node_def sample_depin_def empty_db_def sql_first_by_def)
  have dep: "is_direct_provision_provider (Some (ci_provider ?n))"
    "deprovision_direct_node (ne_stop sample_nodes_env) (ci_provider ?n) (ci_provider_instance_id ?n)
       (pool_credential (ci_pool_id ?n) sample_depin) = (False, Some ''sidecar unreachable'')"
    using direct_providers by (simp_all add: deprovision_direct_node_def no_external_job_def starts_with_def sample_nodes_env_def get_adapter_def
        ADAPTER_REGISTRY_def ADAPTER_ALIASES_def)
  obtain d' where d: "delete_node sample_nodes_env ''n1'' sample_depin = (d', Inr (204, []))"
    by (simp add: delete_node_def get_node_row row job)
  from delete_node_settles [OF _ d] row job dep d show ?thesis
    by (auto simp: sample_nodes_env_def split: option.splits)
qed

definition sample_failed_destroy :: db where
  "sample_failed_destroy = sample_backlog\<lparr>db_jobs := [sample_job ''j1'' ''n1'' FAILED None 0]\<rparr>"

theorem retry_is_undone_by_reaper_witness:
  "\<exists>d1 body. retry_provisioning sample_nodes_env ''n1'' sample_failed_destroy = (d1, Inr body)
     \<and> (\<exists>j \<in> set (db_jobs d1). pj_node_id j = ''n1'' \<and> pj_phase j = PREFLIGHT)
     \<and> list_all (\<lambda>j. pj_phase j = CANCELLING \<or> pj_phase j = TERMINATED)
          (filter (\<lambda>j. pj_node_id j = ''n1'') (db_jobs (fst (reaper_tick sample_reaper d1))))"
proof -
  let ?d = sample_failed_destroy
  let ?n = "(sample_node ''n1'' ''p'' ''draining'' 4 0)\<lparr>ci_metadata := Some [(''terminating'', JBool True), (''terminating_at'', JStr ''t0'')]\<rparr>"
  have n: "?n \<in> set (db_nodes ?d)" "ci_id ?n = ''n1''" "terminating ?n" "meta_field ?n ''terminating_at'' = Some ''t0''"
    by (simp_all add: sample_failed_destroy_def sample_backlog_def sample_node_def terminating_def meta_field_def jfield_def jget_def)
  have e: "rp_inventory sample_reaper" "rp_ts_of sample_reaper ''t0'' = Some 0" "0 \<le> db_now ?d - rp_grace_s sample_reaper"
    "\<not> destroy_in_flight ''n1'' ?d"
    by (simp_all add: sample_reaper_def sample_failed_destroy_def sample_backlog_def destroy_in_flight_def sample_job_def DESTROY_IN_FLIGHT_PHASES_def)
  obtain d1 body where r: "retry_provisioning sample_nodes_env ''n1'' ?d = (d1, Inr body)"
    by (simp add: retry_provisioning_def get_node_def sample_failed_destroy_def sample_backlog_def sample_node_def sample_nodes_env_def
        reset_for_retry_def sample_job_def set_state_def node_states_def Let_def)
  have "\<exists>rows. find_stuck_nodes sample_reaper d1 = Some rows"
    unfolding retry_effect(1) [OF r] find_stuck_nodes_def
    by (simp add: sample_failed_destroy_def sample_backlog_def sample_node_def terminating_since_def meta_field_def jfield_def jget_def sample_reaper_def)
  then obtain rows where rows: "find_stuck_nodes sample_reaper d1 = Some rows" by blast
  from retry_is_undone_by_reaper [OF r e(1) n e(2-4) rows] r show ?thesis by (auto simp: list_all_iff)
qed

end
