(* ===== verification/Permissions.thy ===== *)
theory Permissions
  imports Prelude
begin

text \<open>
  The permission vocabulary of the gateway: \<^verbatim>\<open>PermissionEnum\<close>, the deprecated names and the bridge from the catalogue of the
  identity provider (\<^verbatim>\<open>rbac/permissions.py\<close>), the declared catalogue and its roles (\<^verbatim>\<open>rbac/catalog.py\<close>), and the checks
  of \<^verbatim>\<open>rbac/authorization.py\<close>.
\<close>

section \<open>The enumeration\<close>

datatype permission =
    API_KEY_CREATE | API_KEY_LIST | API_KEY_REVOKE
  | DEPLOYMENT_CREATE | DEPLOYMENT_LIST | DEPLOYMENT_UPDATE | DEPLOYMENT_DELETE
  | MODEL_ACCESS | MODEL_LIST | MODEL_ADD | MODEL_DELETE
  | MEMBER_INVITE | MEMBER_DELETE | MEMBER_LIST
  | ROLE_CREATE | ROLE_LIST | ROLE_UPDATE | ROLE_DELETE
  | AUDIT_LOG_LIST | ORG_VIEW | ORG_UPDATE

fun permission_value :: "permission \<Rightarrow> string" where
  "permission_value API_KEY_CREATE = ''api_key:create''"
| "permission_value API_KEY_LIST = ''api_key:list''"
| "permission_value API_KEY_REVOKE = ''api_key:revoke''"
| "permission_value DEPLOYMENT_CREATE = ''deployment:create''"
| "permission_value DEPLOYMENT_LIST = ''deployment:list''"
| "permission_value DEPLOYMENT_UPDATE = ''deployment:update''"
| "permission_value DEPLOYMENT_DELETE = ''deployment:delete''"
| "permission_value MODEL_ACCESS = ''model:access''"
| "permission_value MODEL_LIST = ''model:list''"
| "permission_value MODEL_ADD = ''model:add''"
| "permission_value MODEL_DELETE = ''model:delete''"
| "permission_value MEMBER_INVITE = ''member:invite''"
| "permission_value MEMBER_DELETE = ''member:delete''"
| "permission_value MEMBER_LIST = ''member:list''"
| "permission_value ROLE_CREATE = ''role:create''"
| "permission_value ROLE_LIST = ''role:list''"
| "permission_value ROLE_UPDATE = ''role:update''"
| "permission_value ROLE_DELETE = ''role:delete''"
| "permission_value AUDIT_LOG_LIST = ''audit_log:list''"
| "permission_value ORG_VIEW = ''organization:view''"
| "permission_value ORG_UPDATE = ''organization:update''"

definition all_permissions :: "permission list" where
  "all_permissions = [API_KEY_CREATE, API_KEY_LIST, API_KEY_REVOKE, DEPLOYMENT_CREATE, DEPLOYMENT_LIST, DEPLOYMENT_UPDATE,
     DEPLOYMENT_DELETE, MODEL_ACCESS, MODEL_LIST, MODEL_ADD, MODEL_DELETE, MEMBER_INVITE, MEMBER_DELETE, MEMBER_LIST,
     ROLE_CREATE, ROLE_LIST, ROLE_UPDATE, ROLE_DELETE, AUDIT_LOG_LIST, ORG_VIEW, ORG_UPDATE]"

section \<open>permissions.py\<close>

definition DEPRECATED_PERMISSION_MAP :: "(string \<times> string) list" where
  "DEPRECATED_PERMISSION_MAP = [(''user:list'', permission_value MEMBER_LIST), (''user:view'', permission_value MEMBER_LIST),
     (''user:update'', permission_value ROLE_UPDATE), (''user:delete'', permission_value MEMBER_DELETE)]"

definition DEPRECATED_SUPER_PERMISSION :: string where
  "DEPRECATED_SUPER_PERMISSION = ''admin:all''"

text \<open>\<^verbatim>\<open>sorted(set(xs))\<close>.\<close>

definition sorted_set :: "string list \<Rightarrow> string list" where
  "sorted_set xs = sort (remdups xs)"

definition canonical_permissions :: "string list" where
  "canonical_permissions = sorted_set (map permission_value all_permissions)"

definition CATALOG_PERMISSION_MAP :: "(string \<times> string list) list" where
  "CATALOG_PERMISSION_MAP = map (map_prod id (map permission_value))
    [(''inferiallm:deployment:read'', [DEPLOYMENT_LIST]),
     (''inferiallm:deployment:write'', [DEPLOYMENT_CREATE, DEPLOYMENT_UPDATE]),
     (''inferiallm:deployment:delete'', [DEPLOYMENT_DELETE]),
     (''inferiallm:model:read'', [MODEL_LIST, MODEL_ACCESS]),
     (''inferiallm:model:write'', [MODEL_ADD, MODEL_DELETE]),
     (''inferiallm:apikey:read'', [API_KEY_LIST]),
     (''inferiallm:apikey:write'', [API_KEY_CREATE, API_KEY_REVOKE]),
     (''inferiallm:user:read'', [MEMBER_LIST, ROLE_LIST]),
     (''inferiallm:user:write'', [MEMBER_INVITE, MEMBER_DELETE, ROLE_CREATE, ROLE_UPDATE, ROLE_DELETE]),
     (''inferiallm:org:read'', [ORG_VIEW]),
     (''inferiallm:org:write'', [ORG_UPDATE]),
     (''inferiallm:audit:read'', [AUDIT_LOG_LIST])]"

definition expand_one :: "string \<Rightarrow> string list" where
  "expand_one permission = (let perm = py_strip permission in
     if perm = [] then [] else perm # (case map_of CATALOG_PERMISSION_MAP perm of None \<Rightarrow> [] | Some ps \<Rightarrow> ps))"

definition expand_catalog_permissions :: "string list \<Rightarrow> string list" where
  "expand_catalog_permissions permissions = sorted_set (concat (map expand_one permissions))"

text \<open>The three lists one entry adds to: normalised, mapped from a deprecated name, unknown.\<close>

definition normalize_one :: "string \<Rightarrow> string list \<times> string list \<times> string list" where
  "normalize_one permission = (let perm = py_strip permission in
     if perm = [] then ([], [], [])
     else if perm \<in> set canonical_permissions then ([perm], [], [])
     else if perm = DEPRECATED_SUPER_PERMISSION then (canonical_permissions, [perm], [])
     else case map_of DEPRECATED_PERMISSION_MAP perm of
       Some mapped \<Rightarrow> ([mapped], [perm], [])
     | None \<Rightarrow> ([], [], [perm]))"

definition normalize_permissions :: "string list \<Rightarrow> string list \<times> string list \<times> string list" where
  "normalize_permissions permissions = (let xs = map normalize_one permissions in
     (sorted_set (concat (map fst xs)), sorted_set (concat (map (fst \<circ> snd) xs)), sorted_set (concat (map (snd \<circ> snd) xs))))"

section \<open>catalog.py\<close>

record catalog_permission =
  ct_key :: string
  ct_display_name :: string
  ct_description :: string

record catalog_role =
  cr_name :: string
  cr_permissions :: "string list"

record catalog =
  ca_permissions :: "catalog_permission list"
  ca_roles :: "catalog_role list"

definition PERMISSIONS :: "catalog_permission list" where
  "PERMISSIONS = map (\<lambda>(k, n, t). \<lparr>ct_key = k, ct_display_name = n, ct_description = t\<rparr>)
    [(''inferiallm:deployment:read'', ''View deployments'', ''View model deployments and their status''),
     (''inferiallm:deployment:write'', ''Manage deployments'', ''Create, update, and scale model deployments''),
     (''inferiallm:deployment:delete'', ''Delete deployments'', ''Tear down model deployments''),
     (''inferiallm:provider:read'', ''View providers'', ''View compute and model providers''),
     (''inferiallm:provider:write'', ''Manage providers'', ''Configure compute and model providers''),
     (''inferiallm:user:read'', ''View users'', ''View users in the organization''),
     (''inferiallm:user:write'', ''Manage users'', ''Invite, edit, and remove users''),
     (''inferiallm:org:read'', ''View organization'', ''View organization settings''),
     (''inferiallm:org:write'', ''Manage organization'', ''Edit organization settings''),
     (''inferiallm:audit:read'', ''View audit log'', ''View the administrative audit log''),
     (''inferiallm:apikey:read'', ''View API keys'', ''View API key metadata''),
     (''inferiallm:apikey:write'', ''Manage API keys'', ''Create and revoke API keys''),
     (''inferiallm:model:read'', ''View models'', ''View the model catalog''),
     (''inferiallm:model:write'', ''Manage models'', ''Add and configure models'')]"

definition ROLES :: "catalog_role list" where
  "ROLES = [\<lparr>cr_name = ''admin'', cr_permissions = map ct_key PERMISSIONS\<rparr>,
     \<lparr>cr_name = ''member'', cr_permissions = [''inferiallm:deployment:read'', ''inferiallm:provider:read'', ''inferiallm:user:read'',
        ''inferiallm:org:read'', ''inferiallm:model:read'', ''inferiallm:apikey:read'']\<rparr>,
     \<lparr>cr_name = ''viewer'', cr_permissions = [''inferiallm:deployment:read'', ''inferiallm:provider:read'', ''inferiallm:model:read'']\<rparr>]"

definition CATALOG :: catalog where
  "CATALOG = \<lparr>ca_permissions = PERMISSIONS, ca_roles = ROLES\<rparr>"

text \<open>The check at module load: the first role entry that is not declared, with its role.\<close>

definition catalog_integrity :: "catalog \<Rightarrow> (string \<times> string) option" where
  "catalog_integrity c = (let declared = map ct_key (ca_permissions c) in
     find (\<lambda>(r, k). k \<notin> set declared) (concat (map (\<lambda>r. map (Pair (cr_name r)) (cr_permissions r)) (ca_roles c))))"

definition to_declare_request :: "catalog \<Rightarrow> jobj" where
  "to_declare_request c =
    [(''permissions'', JArr (map (\<lambda>p. JObj [(''key'', JStr (ct_key p)), (''display_name'', JStr (ct_display_name p)),
        (''description'', JStr (ct_description p))]) (ca_permissions c))),
     (''roles'', JArr (map (\<lambda>r. JObj [(''name'', JStr (cr_name r)), (''permissions'', JArr (map JStr (cr_permissions r)))]) (ca_roles c)))]"

definition catalog_role_permissions :: "string \<Rightarrow> string list" where
  "catalog_role_permissions role = (case find (\<lambda>r. cr_name r = role) (ca_roles CATALOG) of Some r \<Rightarrow> cr_permissions r | None \<Rightarrow> [])"

section \<open>authorization.py\<close>

record user_context =
  uc_user_id :: string
  uc_username :: string
  uc_email :: string
  uc_roles :: "string list"
  uc_permissions :: "string list"
  uc_org_id :: "string option"
  uc_quota_limit :: int
  uc_quota_used :: int
  uc_is_active :: bool

definition ROLE_PERMISSIONS :: "(string \<times> string list) list" where
  "ROLE_PERMISSIONS = []"

definition get_user_permissions :: "user_context \<Rightarrow> string list" where
  "get_user_permissions user = (if uc_permissions user \<noteq> [] then uc_permissions user
     else remdups (concat (map (\<lambda>r. case map_of ROLE_PERMISSIONS r of None \<Rightarrow> [] | Some ps \<Rightarrow> ps) (uc_roles user))))"

definition has_permission :: "user_context \<Rightarrow> permission \<Rightarrow> bool" where
  "has_permission user p \<longleftrightarrow> permission_value p \<in> set (get_user_permissions user)"

definition require_permission :: "user_context \<Rightarrow> permission \<Rightarrow> unit http" where
  "require_permission user p = (if has_permission user p then Inr ()
     else Inl (HTTPException 403 (''Permission denied: '' @ permission_value p @ '' required'')))"

definition can_access_model :: "user_context \<Rightarrow> string \<Rightarrow> bool" where
  "can_access_model user model_id = has_permission user MODEL_ACCESS"

definition require_model_access :: "user_context \<Rightarrow> string \<Rightarrow> unit http" where
  "require_model_access user model_id = (if can_access_model user model_id then Inr ()
     else Inl (HTTPException 403 (''Access denied: You don't have permission to use model '' @ [CHR 0x27] @ model_id @ [CHR 0x27])))"

definition get_allowed_models :: "user_context \<Rightarrow> string list" where
  "get_allowed_models user = (if has_permission user MODEL_ACCESS
     then [''gpt-4'', ''gpt-4-turbo'', ''gpt-3.5-turbo'', ''claude-3-opus'', ''claude-3-sonnet'', ''llama-3-70b'', ''llama-3-8b'',
           ''mistral-7b'', ''mistral-medium''] else [])"

definition require_role_disabled :: "user_context \<Rightarrow> string \<Rightarrow> unit http" where
  "require_role_disabled user role = Inl (HTTPException 500
     ''Role-based authorization is disabled. Use require_permission with PermissionEnum.'')"

section \<open>Properties\<close>

lemma set_sorted_set [simp]: "set (sorted_set xs) = set xs"
  by (simp add: sorted_set_def)

lemma sorted_set_fixed: "sorted xs \<Longrightarrow> distinct xs \<Longrightarrow> sorted_set xs = xs"
  by (simp add: sorted_set_def sorted_sort_id distinct_remdups_id)

lemma sorted_set_props [simp]: "sorted (sorted_set xs)" "distinct (sorted_set xs)"
  by (simp_all add: sorted_set_def)

lemma permission_in_all [simp]: "p \<in> set all_permissions"
  by (cases p) (simp_all add: all_permissions_def)

lemma set_canonical: "set canonical_permissions = range permission_value"
  by (auto simp: canonical_permissions_def)

lemma permission_value_inj: "permission_value p = permission_value q \<Longrightarrow> p = q"
  by (cases p; cases q) simp_all

lemma strip_canonical: "p \<in> set canonical_permissions \<Longrightarrow> py_strip p = p \<and> p \<noteq> []"
proof -
  have "list_all (\<lambda>q. py_strip (permission_value q) = permission_value q) all_permissions" by code_simp
  then have "py_strip (permission_value q) = permission_value q" for q by (simp add: list_all_iff)
  moreover have "permission_value q \<noteq> []" for q by (cases q) simp_all
  moreover assume "p \<in> set canonical_permissions"
  ultimately show ?thesis unfolding set_canonical by auto
qed

lemma deprecated_range: "map_of DEPRECATED_PERMISSION_MAP p = Some q \<Longrightarrow> q \<in> set canonical_permissions"
  by (auto simp: DEPRECATED_PERMISSION_MAP_def set_canonical simp del: permission_value.simps split: if_splits)

lemma normalize_one_canonical: "set (fst (normalize_one p)) \<subseteq> set canonical_permissions"
  by (auto simp: normalize_one_def Let_def dest: deprecated_range split: if_splits option.splits)

lemma normalize_one_fixed: "p \<in> set canonical_permissions \<Longrightarrow> normalize_one p = ([p], [], [])"
  using strip_canonical [of p] by (simp add: normalize_one_def)

text \<open>
  C35: Normalisation yields canonical permissions only, without repetition and in order, and normalising its result again changes
  nothing and reports nothing: a role written back by the API reads back the same.
\<close>

theorem normalize_idempotent:
  fixes ps
  defines "n \<equiv> fst (normalize_permissions ps)"
  shows "set n \<subseteq> set canonical_permissions \<and> sorted n \<and> distinct n \<and> normalize_permissions n = (n, [], [])"
proof -
  have sub: "set n \<subseteq> set canonical_permissions"
    using normalize_one_canonical by (fastforce simp: n_def normalize_permissions_def Let_def)
  have fix1: "map normalize_one n = map (\<lambda>p. ([p], [], [])) n"
    using sub normalize_one_fixed by auto
  have e: "concat (map (\<lambda>p. [p]) xs) = xs" "concat (map (\<lambda>p. []) xs) = ([] :: string list)" for xs :: "string list"
    by (induction xs) simp_all
  have "normalize_permissions n = (sorted_set n, [], [])"
    unfolding normalize_permissions_def Let_def fix1 by (simp add: comp_def e sorted_set_def)
  moreover have "sorted n" "distinct n" by (simp_all add: n_def normalize_permissions_def Let_def)
  ultimately show ?thesis using sub sorted_set_fixed by simp
qed

lemma set_expand: "set (expand_catalog_permissions ps) = (\<Union>p \<in> set ps. set (expand_one p))"
  by (simp add: expand_catalog_permissions_def)

lemma expand_mono: "set ps \<subseteq> set qs \<Longrightarrow> set (expand_catalog_permissions ps) \<subseteq> set (expand_catalog_permissions qs)"
  by (auto simp: set_expand)

lemma role_permissions:
  "catalog_role_permissions ''admin'' = map ct_key PERMISSIONS"
  "catalog_role_permissions ''member'' = [''inferiallm:deployment:read'', ''inferiallm:provider:read'', ''inferiallm:user:read'',
        ''inferiallm:org:read'', ''inferiallm:model:read'', ''inferiallm:apikey:read'']"
  "catalog_role_permissions ''viewer'' = [''inferiallm:deployment:read'', ''inferiallm:provider:read'', ''inferiallm:model:read'']"
  by (simp_all add: catalog_role_permissions_def CATALOG_def ROLES_def)

definition granted :: "string \<Rightarrow> permission list" where
  "granted role = filter (\<lambda>p. permission_value p \<in> set (expand_catalog_permissions (catalog_role_permissions role))) all_permissions"

lemma granted_eval:
  "granted ''admin'' = all_permissions"
  "granted ''member'' = [API_KEY_LIST, DEPLOYMENT_LIST, MODEL_ACCESS, MODEL_LIST, MEMBER_LIST, ROLE_LIST, ORG_VIEW]"
  "granted ''viewer'' = [DEPLOYMENT_LIST, MODEL_ACCESS, MODEL_LIST]"
  unfolding granted_def set_expand role_permissions by code_simp+

text \<open>
  The catalogue is consistent and its roles are nested: the roles that grant a local permission are exactly admin, member and
  viewer; a viewer's permissions are strictly fewer than a member's, a member's strictly fewer than the administrator's, who
  holds every permission of the enumeration.
\<close>

theorem catalog_roles_nested:
  "catalog_integrity CATALOG = None \<and> {r. granted r \<noteq> []} = {''admin'', ''member'', ''viewer''}
   \<and> set (granted ''viewer'') \<subset> set (granted ''member'') \<and> set (granted ''member'') \<subset> set (granted ''admin'')
   \<and> set (granted ''admin'') = UNIV"
proof -
  have "granted r = []" if "r \<notin> {''admin'', ''member'', ''viewer''}" for r
    using that by (auto simp: granted_def catalog_role_permissions_def CATALOG_def ROLES_def expand_catalog_permissions_def sorted_set_def)
  moreover have "granted ''admin'' \<noteq> []" "granted ''member'' \<noteq> []" "granted ''viewer'' \<noteq> []"
    by (simp_all add: granted_eval all_permissions_def)
  ultimately have "{r. granted r \<noteq> []} = {''admin'', ''member'', ''viewer''}" by blast
  moreover have "catalog_integrity CATALOG = None" by code_simp
  moreover have "set (granted ''admin'') = UNIV" by (auto simp: granted_eval)
  moreover have "set (granted ''viewer'') \<subset> set (granted ''member'')" by (rule psubsetI) (auto simp: granted_eval)
  moreover have "ORG_UPDATE \<notin> set (granted ''member'')" by (simp add: granted_eval)
  ultimately show ?thesis by blast
qed

end
