(* ===== verification/RateLimit.thy ===== *)
theory RateLimit
  imports Prelude
begin

text \<open>
  The rate limiters: the fixed-window limiter of the login endpoints (\<^verbatim>\<open>common/rate_limit.py\<close>), the token buckets and the
  sliding windows of the gateway and of the inference service (\<^verbatim>\<open>api_gateway/gateway/rate_limiter.py\<close>,
  \<^verbatim>\<open>inference/core/rate_limiter.py\<close>).  Floats are real numbers and \<^verbatim>\<open>now\<close> is the reading of \<^verbatim>\<open>time.time()\<close>.  The
  buckets live in a third-party expiring cache: \<^verbatim>\<open>live\<close> says which entries it still holds.  The sorted sets live in
  Redis, whose four commands are the record \<^verbatim>\<open>zset_ops\<close>.
\<close>

section \<open>The fixed window of the authentication endpoints\<close>

record auth_limiter =
  rl_max_requests :: int
  rl_window_seconds :: int
  rl_block_duration_seconds :: int

record auth_entry =
  ae_count :: int
  ae_first_request :: real
  ae_blocked_until :: "real option"

type_synonym auth_store = "string \<rightharpoonup> auth_entry"

definition get_key :: "string \<Rightarrow> string \<Rightarrow> string" where
  "get_key identifier ip_address = identifier @ '':'' @ ip_address"

text \<open>\<^verbatim>\<open>entry["blocked_until"] and ...\<close>: None and 0.0 are falsy.\<close>

definition blocked_at :: "real \<Rightarrow> auth_entry \<Rightarrow> bool" where
  "blocked_at now e = (case ae_blocked_until e of None \<Rightarrow> False | Some u \<Rightarrow> u \<noteq> 0 \<and> now < u)"

definition auth_is_allowed :: "auth_limiter \<Rightarrow> string \<Rightarrow> string \<Rightarrow> real \<Rightarrow> auth_store \<Rightarrow> auth_store \<times> bool \<times> int option" where
  "auth_is_allowed l identifier ip_address now store =
    (let key = get_key identifier ip_address;
         entry = (case store key of Some e \<Rightarrow> e
                  | None \<Rightarrow> \<lparr>ae_count = 0, ae_first_request = now, ae_blocked_until = None\<rparr>)
     in if blocked_at now entry then (store, False, Some \<lfloor>the (ae_blocked_until entry) - now\<rfloor>)
        else if now - ae_first_request entry > rl_window_seconds l
        then (store(key \<mapsto> \<lparr>ae_count = 1, ae_first_request = now, ae_blocked_until = None\<rparr>), True, None)
        else if ae_count entry \<ge> rl_max_requests l
        then (store(key \<mapsto> entry\<lparr>ae_blocked_until := Some (now + rl_block_duration_seconds l)\<rparr>), False,
              Some (rl_block_duration_seconds l))
        else (store(key \<mapsto> entry\<lparr>ae_count := ae_count entry + 1\<rparr>), True, None))"

definition auth_expired :: "auth_limiter \<Rightarrow> real \<Rightarrow> auth_entry \<Rightarrow> bool" where
  "auth_expired l now e \<longleftrightarrow> (case ae_blocked_until e of None \<Rightarrow> False | Some u \<Rightarrow> u \<noteq> 0 \<and> now > u)
     \<or> now - ae_first_request e > rl_window_seconds l * 2"

definition auth_cleanup :: "auth_limiter \<Rightarrow> real \<Rightarrow> auth_store \<Rightarrow> auth_store" where
  "auth_cleanup l now store k = (case store k of None \<Rightarrow> None
     | Some e \<Rightarrow> if auth_expired l now e then None else Some e)"

definition login_rate_limiter :: auth_limiter where
  "login_rate_limiter = \<lparr>rl_max_requests = 5, rl_window_seconds = 60, rl_block_duration_seconds = 300\<rparr>"

definition register_rate_limiter :: auth_limiter where
  "register_rate_limiter = \<lparr>rl_max_requests = 3, rl_window_seconds = 3600, rl_block_duration_seconds = 3600\<rparr>"

definition too_many :: "int option \<Rightarrow> string" where
  "too_many retry_after = ''Too many requests. Try again in '' @
     (case retry_after of None \<Rightarrow> ''None'' | Some n \<Rightarrow> dec_int n) @ '' seconds.''"

text \<open>
  The decorator.  \<^verbatim>\<open>request\<close> is the client of the request found among the arguments: None when there is no
  request, \<^verbatim>\<open>Some None\<close> when the request has no client.
\<close>

definition rate_limit_auth ::
  "auth_limiter \<Rightarrow> string option option \<Rightarrow> string \<Rightarrow> real \<Rightarrow> auth_store \<Rightarrow> auth_store \<times> (http_error + unit)" where
  "rate_limit_auth l request identifier now store = (case request of
     None \<Rightarrow> (store, Inl (HTTPException 500 ''Rate limiting requires Request parameter''))
   | Some client \<Rightarrow>
      let client_ip = (case client of Some h \<Rightarrow> h | None \<Rightarrow> ''unknown'');
          (store', allowed, retry_after) =
            auth_is_allowed l (if identifier = [] then ''anonymous'' else identifier) client_ip now store
      in (store', if allowed then Inr () else Inl (HTTPException 429 (too_many retry_after))))"

section \<open>The token bucket of the gateway\<close>

record token_bucket =
  tb_capacity :: int
  tb_tokens :: real
  tb_refill_rate :: real
  tb_last_refill :: real

definition new_bucket :: "int \<Rightarrow> real \<Rightarrow> real \<Rightarrow> token_bucket" where
  "new_bucket capacity refill_rate now = \<lparr>tb_capacity = capacity, tb_tokens = of_int capacity,
     tb_refill_rate = refill_rate, tb_last_refill = now\<rparr>"

definition tb_refill :: "real \<Rightarrow> token_bucket \<Rightarrow> token_bucket" where
  "tb_refill now b = b\<lparr>tb_tokens := min (of_int (tb_capacity b)) (tb_tokens b + (now - tb_last_refill b) * tb_refill_rate b),
     tb_last_refill := now\<rparr>"

definition consume :: "real \<Rightarrow> int \<Rightarrow> token_bucket \<Rightarrow> token_bucket \<times> bool" where
  "consume now tokens b =
    (let b1 = tb_refill now b
     in if tb_tokens b1 \<ge> tokens then (b1\<lparr>tb_tokens := tb_tokens b1 - tokens\<rparr>, True) else (b1, False))"

record rate_settings =
  rs_requests_per_minute :: int
  rs_burst_size :: int
  rs_enabled :: bool

record limit_meta =
  lm_limit :: int
  lm_remaining :: int
  lm_reset :: int

definition get_bucket :: "rate_settings \<Rightarrow> string \<Rightarrow> real \<Rightarrow> (string \<rightharpoonup> token_bucket) \<Rightarrow> token_bucket" where
  "get_bucket s key now buckets = (case buckets key of Some b \<Rightarrow> b
     | None \<Rightarrow> new_bucket (rs_burst_size s) (rs_requests_per_minute s / 60) now)"

text \<open>\<^verbatim>\<open>int(x)\<close> rounds towards zero.\<close>

definition py_trunc :: "real \<Rightarrow> int" where
  "py_trunc x = (if x < 0 then - \<lfloor>- x\<rfloor> else \<lfloor>x\<rfloor>)"

definition expire :: "(string \<Rightarrow> bool) \<Rightarrow> (string \<rightharpoonup> 'b) \<Rightarrow> string \<rightharpoonup> 'b" where
  "expire live buckets k = (if live k then buckets k else None)"

definition memory_is_allowed ::
  "rate_settings \<Rightarrow> (string \<Rightarrow> bool) \<Rightarrow> string \<Rightarrow> real \<Rightarrow> (string \<rightharpoonup> token_bucket) \<Rightarrow> (string \<rightharpoonup> token_bucket) \<times> bool \<times> limit_meta" where
  "memory_is_allowed s live key now buckets =
    (let held = expire live buckets; (b, allowed) = consume now 1 (get_bucket s key now held)
     in (held(key \<mapsto> b), allowed,
         \<lparr>lm_limit = rs_requests_per_minute s, lm_remaining = py_trunc (tb_tokens b), lm_reset = py_trunc (now + 60)\<rparr>))"

definition limit_key :: "string option \<Rightarrow> string option \<Rightarrow> string" where
  "limit_key user_id client = (case user_id of
     Some (c # u) \<Rightarrow> ''user:'' @ c # u
   | _ \<Rightarrow> ''ip:'' @ (case client of Some h \<Rightarrow> h | None \<Rightarrow> ''test-client''))"

text \<open>The limiter behind \<^verbatim>\<open>check_rate_limit\<close> is an argument, as the constructor chooses it; \<^verbatim>\<open>iso_time\<close> prints the reset time.\<close>

definition check_rate_limit ::
  "rate_settings \<Rightarrow> (string \<Rightarrow> 'st \<Rightarrow> 'st \<times> bool \<times> limit_meta) \<Rightarrow> (int \<Rightarrow> string) \<Rightarrow> string option \<Rightarrow> string option \<Rightarrow> 'st
     \<Rightarrow> 'st \<times> (http_error + limit_meta option)" where
  "check_rate_limit s is_allowed iso_time user_id client st =
    (if \<not> rs_enabled s then (st, Inr None)
     else let (st', allowed, m) = is_allowed (limit_key user_id client) st
          in (st', if allowed then Inr (Some m)
                   else Inl (HTTPException 429 (''Rate limit exceeded. Limit: '' @ dec_int (lm_limit m)
                          @ '' requests per minute. Try again at '' @ iso_time (lm_reset m)))))"

section \<open>The token bucket of the inference service\<close>

type_synonym inference_buckets = "string \<rightharpoonup> real \<times> real"

definition check_limit ::
  "(string \<Rightarrow> bool) \<Rightarrow> string \<Rightarrow> int \<Rightarrow> int \<Rightarrow> real \<Rightarrow> inference_buckets \<Rightarrow> inference_buckets \<times> bool \<times> real" where
  "check_limit live key rpm cost now buckets0 =
    (if rpm \<le> 0 then (buckets0, True, 0)
     else let buckets = expire live buckets0; max_tokens = of_int rpm; refill_rate = of_int rpm / 60
          in case buckets key of
               None \<Rightarrow> (buckets(key \<mapsto> (max_tokens - of_int cost, now)), True, 0)
             | Some (tokens0, last_refill) \<Rightarrow>
                let tokens = min max_tokens (tokens0 + (now - last_refill) * refill_rate)
                in if tokens \<ge> of_int cost then (buckets(key \<mapsto> (tokens - of_int cost, now)), True, 0)
                   else (buckets, False, if refill_rate > 0 then (of_int cost - tokens) / refill_rate else 60))"

section \<open>The sliding windows in Redis\<close>

text \<open>\<^verbatim>\<open>'r\<close> is the state of the server; \<^verbatim>\<open>stamp\<close> is \<^verbatim>\<open>str(now)\<close>.\<close>

record 'r zset_ops =
  zremrangebyscore :: "string \<Rightarrow> real \<Rightarrow> real \<Rightarrow> 'r \<Rightarrow> 'r"
  zadd :: "string \<Rightarrow> string \<Rightarrow> real \<Rightarrow> 'r \<Rightarrow> 'r"
  zcard :: "string \<Rightarrow> 'r \<Rightarrow> int"
  zexpire :: "string \<Rightarrow> int \<Rightarrow> 'r \<Rightarrow> 'r"
  zrem :: "string \<Rightarrow> string \<Rightarrow> 'r \<Rightarrow> 'r"

definition window_pipeline :: "'r zset_ops \<Rightarrow> (real \<Rightarrow> string) \<Rightarrow> string \<Rightarrow> real \<Rightarrow> 'r \<Rightarrow> 'r \<times> int" where
  "window_pipeline ops stamp redis_key now r =
    (let r1 = zremrangebyscore ops redis_key 0 (now - 60) r;
         r2 = zadd ops redis_key (stamp now) now r1
     in (zexpire ops redis_key 120 r2, zcard ops redis_key r2))"

definition redis_is_allowed ::
  "'r zset_ops \<Rightarrow> (real \<Rightarrow> string) \<Rightarrow> rate_settings \<Rightarrow> string \<Rightarrow> real \<Rightarrow> 'r \<Rightarrow> 'r \<times> bool \<times> limit_meta" where
  "redis_is_allowed ops stamp s key now r =
    (let redis_key = ''rate_limit:'' @ key;
         (r1, current_count) = window_pipeline ops stamp redis_key now r;
         allowed = (current_count \<le> rs_requests_per_minute s)
     in (if allowed then r1 else zrem ops redis_key (stamp now) r1, allowed,
         \<lparr>lm_limit = rs_requests_per_minute s, lm_remaining = max 0 (rs_requests_per_minute s - current_count),
          lm_reset = py_trunc (now + 60)\<rparr>))"

definition redis_check_limit ::
  "'r zset_ops \<Rightarrow> (real \<Rightarrow> string) \<Rightarrow> string \<Rightarrow> int \<Rightarrow> real \<Rightarrow> 'r \<Rightarrow> 'r \<times> bool \<times> real" where
  "redis_check_limit ops stamp key rpm now r =
    (if rpm \<le> 0 then (r, True, 0)
     else let redis_key = ''inference_rl:'' @ key; (r1, current_count) = window_pipeline ops stamp redis_key now r
          in if current_count \<le> rpm then (r1, True, 0)
             else (zrem ops redis_key (stamp now) r1, False, if rpm > 0 then 60 / of_int rpm else 60))"

section \<open>Runs of requests\<close>

text \<open>
  Requests are pairs of time and cost, served one after another by \<^verbatim>\<open>tk\<close>, which tells whether it granted.
\<close>

fun verdicts :: "(real \<Rightarrow> int \<Rightarrow> 's \<Rightarrow> 's \<times> bool) \<Rightarrow> (real \<times> int) list \<Rightarrow> 's \<Rightarrow> bool list" where
  "verdicts tk [] s = []"
| "verdicts tk ((t, c) # rs) s = snd (tk t c s) # verdicts tk rs (fst (tk t c s))"

fun granted :: "(real \<Rightarrow> int \<Rightarrow> 's \<Rightarrow> 's \<times> bool) \<Rightarrow> (real \<times> int) list \<Rightarrow> 's \<Rightarrow> real" where
  "granted tk [] s = 0"
| "granted tk ((t, c) # rs) s = (if snd (tk t c s) then of_int c else 0) + granted tk rs (fst (tk t c s))"

fun timed :: "real \<Rightarrow> (real \<times> int) list \<Rightarrow> bool" where
  "timed t [] = True"
| "timed t ((t', c) # rs) = (t \<le> t' \<and> 0 \<le> c \<and> timed t' rs)"

fun finish :: "real \<Rightarrow> (real \<times> int) list \<Rightarrow> real" where
  "finish t [] = t"
| "finish t ((t', c) # rs) = finish t' rs"

text \<open>The verdicts of a bucket, from its credit alone.\<close>

fun spec_verdicts :: "real \<Rightarrow> real \<Rightarrow> real \<Rightarrow> real \<Rightarrow> (real \<times> int) list \<Rightarrow> bool list" where
  "spec_verdicts cap rate x t [] = []"
| "spec_verdicts cap rate x t ((t', c) # rs) =
    (let y = min cap (x + (t' - t) * rate); g = (of_int c \<le> y)
     in g # spec_verdicts cap rate (if g then y - of_int c else y) t' rs)"

section \<open>The contract of a token bucket\<close>

text \<open>
  \<^verbatim>\<open>credit s t\<close> is what the bucket can spend at time \<^verbatim>\<open>t\<close>.  A request is granted exactly when its cost is within
  the credit, which it then loses; a refused request costs nothing; in between the credit grows at \<^verbatim>\<open>rate\<close> up to
  \<^verbatim>\<open>cap\<close>.
\<close>

locale credit_bucket =
  fixes cap rate :: real and ok :: "real \<Rightarrow> 's \<Rightarrow> bool" and credit :: "'s \<Rightarrow> real \<Rightarrow> real"
    and take_tokens :: "real \<Rightarrow> int \<Rightarrow> 's \<Rightarrow> 's \<times> bool"
  assumes rate_pos: "0 \<le> rate"
    and ok_take: "ok t s \<Longrightarrow> 0 \<le> c \<Longrightarrow> ok t (fst (take_tokens t c s))"
    and ok_later: "ok t s \<Longrightarrow> t \<le> t' \<Longrightarrow> ok t' s"
    and grows: "ok t s \<Longrightarrow> t \<le> t' \<Longrightarrow> credit s t' = min cap (credit s t + (t' - t) * rate)"
    and grant: "ok t s \<Longrightarrow> snd (take_tokens t c s) = (of_int c \<le> credit s t)"
    and spend: "ok t s \<Longrightarrow> 0 \<le> c \<Longrightarrow> credit (fst (take_tokens t c s)) t = credit s t - (if snd (take_tokens t c s) then of_int c else 0)"
begin

lemma grows_le: "ok t s \<Longrightarrow> t \<le> t' \<Longrightarrow> credit s t' \<le> credit s t + (t' - t) * rate"
  using grows [of t s t'] by simp

lemma granted_bound:
  assumes "ok t s" "timed t rs"
  shows "granted take_tokens rs s \<le> max 0 (credit s t) + (finish t rs - t) * rate"
  using assms
proof (induction rs arbitrary: s t)
  case (Cons r rs)
  obtain t' c where r: "r = (t', c)" by (cases r)
  have le: "t \<le> t'" and timed: "timed t' rs" and c: "0 \<le> c" using Cons.prems r by auto
  define s' where "s' = fst (take_tokens t' c s)"
  have ok': "ok t' s" using ok_later Cons.prems(1) le by blast
  have "granted take_tokens rs s' \<le> max 0 (credit s' t') + (finish t' rs - t') * rate"
    using Cons.IH [of t' s'] Cons.prems timed ok_take [OF ok' c] r by (auto simp: s'_def)
  moreover have "(if snd (take_tokens t' c s) then of_int c else 0) + max 0 (credit s' t') \<le> max 0 (credit s t')"
    using spend [OF ok' c] grant [OF ok', of c] c by (auto simp: s'_def max_def)
  moreover have "max 0 (credit s t') \<le> max 0 (credit s t) + (t' - t) * rate"
    using grows_le [OF Cons.prems(1) le] mult_nonneg_nonneg [of "t' - t" rate] le rate_pos by (simp add: max_def)
  ultimately show ?case
    by (simp add: r s'_def [symmetric] algebra_simps)
qed simp

lemma capped_bound:
  assumes "ok t s" "timed t rs" "0 \<le> cap" "credit s t \<le> cap"
  shows "granted take_tokens rs s \<le> cap + (finish t rs - t) * rate"
  using granted_bound [OF assms(1,2)] assms(3,4) by (simp add: max_def split: if_splits)

lemma verdicts_spec:
  assumes "ok t s" "timed t rs"
  shows "verdicts take_tokens rs s = spec_verdicts cap rate (credit s t) t rs"
  using assms
proof (induction rs arbitrary: s t)
  case (Cons r rs)
  obtain t' c where r: "r = (t', c)" by (cases r)
  have le: "t \<le> t'" and timed: "timed t' rs" and c: "0 \<le> c"
    using Cons.prems r by auto
  have ok': "ok t' s" using ok_later Cons.prems(1) le by blast
  have y: "credit s t' = min cap (credit s t + (t' - t) * rate)" using grows Cons.prems(1) le by blast
  show ?case
    unfolding r verdicts.simps spec_verdicts.simps y [symmetric] Let_def Cons.IH [OF ok_take [OF ok' c] timed]
    using grant [OF ok', of c] spend [OF ok' c] by simp
qed simp

end

section \<open>Both buckets keep it\<close>

definition tb_credit :: "token_bucket \<Rightarrow> real \<Rightarrow> real" where
  "tb_credit b t = min (of_int (tb_capacity b)) (tb_tokens b + (t - tb_last_refill b) * tb_refill_rate b)"

definition tb_ok :: "int \<Rightarrow> real \<Rightarrow> real \<Rightarrow> token_bucket \<Rightarrow> bool" where
  "tb_ok capacity rate t b \<longleftrightarrow> tb_capacity b = capacity \<and> tb_refill_rate b = rate \<and> tb_last_refill b \<le> t
     \<and> tb_tokens b \<le> capacity"

lemma min_grows:
  fixes cap a b rate :: real
  assumes "0 \<le> rate" "t0 \<le> t" "t \<le> t'" "x \<le> cap"
  shows "min cap (x + (t' - t0) * rate) = min cap (min cap (x + (t - t0) * rate) + (t' - t) * rate)"
proof -
  have "x + (t' - t0) * rate = x + (t - t0) * rate + (t' - t) * rate" by (simp add: algebra_simps)
  moreover have "0 \<le> (t' - t) * rate" using assms by simp
  ultimately show ?thesis by (auto simp: min_def)
qed

interpretation gw: credit_bucket "of_int burst" "of_nat rpm / 60" "tb_ok burst (of_nat rpm / 60)" tb_credit consume
  for burst :: int and rpm :: nat
proof (unfold_locales, goal_cases)
  case (2 t s c)
  then show ?case by (auto simp: tb_ok_def consume_def tb_refill_def Let_def min_def)
next
  case (4 t s t')
  then have "0 \<le> real rpm / 60" "tb_refill_rate s = real rpm / 60" "tb_capacity s = burst" "tb_last_refill s \<le> t" "t \<le> t'"
    "tb_tokens s \<le> of_int burst"
    unfolding tb_ok_def by simp_all
  then show ?case unfolding tb_credit_def using min_grows [of "real rpm / 60"] by metis
qed (auto simp: tb_ok_def tb_credit_def consume_def tb_refill_def Let_def)

text \<open>The inference limiter for one key, while the cache keeps the entry.\<close>

definition take_key :: "string \<Rightarrow> int \<Rightarrow> real \<Rightarrow> int \<Rightarrow> inference_buckets \<Rightarrow> inference_buckets \<times> bool" where
  "take_key key rpm now cost bs = (case check_limit (\<lambda>k. True) key rpm cost now bs of (bs', allowed, wait) \<Rightarrow> (bs', allowed))"

definition key_credit :: "string \<Rightarrow> int \<Rightarrow> inference_buckets \<Rightarrow> real \<Rightarrow> real" where
  "key_credit key rpm bs t = (case bs key of None \<Rightarrow> of_int rpm
     | Some (tokens, u) \<Rightarrow> min (of_int rpm) (tokens + (t - u) * (of_int rpm / 60)))"

definition key_ok :: "string \<Rightarrow> int \<Rightarrow> real \<Rightarrow> inference_buckets \<Rightarrow> bool" where
  "key_ok key rpm t bs = (case bs key of None \<Rightarrow> False | Some (tokens, u) \<Rightarrow> u \<le> t \<and> tokens \<le> of_int rpm)"

lemma take_key_eq:
  assumes "0 < rpm" "key_ok key rpm t bs"
  shows "take_key key rpm now cost bs = (let tokens = key_credit key rpm bs now in
    if tokens \<ge> of_int cost then (bs(key \<mapsto> (tokens - of_int cost, now)), True) else (bs, False))"
  using assms
  by (auto simp: take_key_def check_limit_def expire_def key_credit_def key_ok_def Let_def split_def fun_eq_iff split: option.splits)

interpretation inf: credit_bucket "of_nat (Suc n)" "of_nat (Suc n) / 60" "key_ok key (int (Suc n))" "key_credit key (int (Suc n))"
  "take_key key (int (Suc n))" for n key
proof (unfold_locales, goal_cases)
  case (2 t s c)
  then show ?case by (auto simp: take_key_eq [where t = t] key_ok_def Let_def key_credit_def split: option.splits)
next
  case (4 t s t')
  then obtain x u where b: "s key = Some (x, u)" and "u \<le> t" "t \<le> t'" "x \<le> real (Suc n)"
    by (auto simp: key_ok_def split: option.splits)
  from min_grows [OF _ this(2-4), of "real (Suc n) / 60"] b show ?case
    unfolding key_credit_def of_int_of_nat_eq by simp
qed (auto simp: take_key_eq key_ok_def key_credit_def Let_def split: option.splits)

section \<open>The fixed window of one client\<close>

text \<open>The verdicts for one client's requests at the given times.\<close>

fun auth_verdicts :: "auth_limiter \<Rightarrow> string \<Rightarrow> string \<Rightarrow> real list \<Rightarrow> auth_store \<Rightarrow> bool list" where
  "auth_verdicts l i ip [] store = []"
| "auth_verdicts l i ip (t # ts) store =
    (let (store', allowed, retry) = auth_is_allowed l i ip t store in allowed # auth_verdicts l i ip ts store')"

lemma auth_spent_run:
  assumes "store (get_key i ip) = Some e" "rl_max_requests l \<le> ae_count e"
    and "\<forall>t \<in> set ts. t - ae_first_request e \<le> rl_window_seconds l"
  shows "auth_verdicts l i ip ts store = replicate (length ts) False"
  using assms
proof (induction ts arbitrary: store e)
  case (Cons t ts)
  then obtain e' where "fst (auth_is_allowed l i ip t store) (get_key i ip) = Some e'" "rl_max_requests l \<le> ae_count e'"
    "ae_first_request e' = ae_first_request e" "\<not> fst (snd (auth_is_allowed l i ip t store))"
    by (cases "blocked_at t e") (auto simp: auth_is_allowed_def Let_def)
  moreover from this Cons.prems(3)
  have "auth_verdicts l i ip ts (fst (auth_is_allowed l i ip t store)) = replicate (length ts) False"
    by (intro Cons.IH [of _ e']) simp_all
  ultimately show ?case by (simp add: split_def Let_def)
qed simp

lemma auth_window_run:
  assumes "store (get_key i ip) = Some e" "ae_blocked_until e = None" "ae_count e + int n = rl_max_requests l"
    and "\<forall>t \<in> set ts. t - ae_first_request e \<le> rl_window_seconds l"
  shows "auth_verdicts l i ip ts store = map (\<lambda>k. k < n) [0..<length ts]"
  using assms
proof (induction ts arbitrary: store e n)
  case (Cons t ts)
  have upt: "map f [0..<Suc m] = f 0 # map (\<lambda>k. f (Suc k)) [0..<m]" for f :: "nat \<Rightarrow> bool" and m
    by (simp add: upt_conv_Cons map_Suc_upt [symmetric] del: upt_Suc)
  show ?case
  proof (cases n)
    case 0
    then have "auth_verdicts l i ip (t # ts) store = replicate (length (t # ts)) False"
      using Cons.prems by (intro auth_spent_run) auto
    then show ?thesis unfolding 0 by (simp add: map_replicate_const del: auth_verdicts.simps upt_Suc)
  next
    case (Suc m)
    let ?e = "e\<lparr>ae_count := ae_count e + 1\<rparr>"
    have "auth_is_allowed l i ip t store = (store(get_key i ip \<mapsto> ?e), True, None)"
      using Cons.prems Suc by (simp add: auth_is_allowed_def blocked_at_def Let_def)
    moreover have "auth_verdicts l i ip ts (store(get_key i ip \<mapsto> ?e)) = map (\<lambda>k. k < m) [0..<length ts]"
      using Cons.prems Suc by (intro Cons.IH [of _ ?e]) auto
    ultimately show ?thesis by (simp add: upt Suc del: upt_Suc)
  qed
qed simp

section \<open>Properties\<close>

text \<open>
  C14: Both token buckets keep the rate they promise.  Over any requests with rising times and non-negative costs, what
  an existing inference bucket of \<^verbatim>\<open>rpm\<close> grants from time \<^verbatim>\<open>t\<close> on is at most \<^verbatim>\<open>rpm\<close> plus \<^verbatim>\<open>rpm/60\<close> for every
  second that passes, and what the gateway's bucket grants is at most its burst size plus the same rate.
\<close>

theorem token_buckets_bound:
  assumes "timed t rs" "key_ok key (int (Suc n)) t bs" "tb_ok burst (real (Suc n) / 60) t b" "0 \<le> burst"
  shows "granted (take_key key (int (Suc n))) rs bs \<le> real (Suc n) + (finish t rs - t) * (real (Suc n) / 60)
     \<and> granted consume rs b \<le> of_int burst + (finish t rs - t) * (real (Suc n) / 60)"
proof
  show "granted (take_key key (int (Suc n))) rs bs \<le> real (Suc n) + (finish t rs - t) * (real (Suc n) / 60)"
    using inf.capped_bound [OF assms(2,1)] by (auto simp: key_credit_def split: option.splits)
  show "granted consume rs b \<le> of_int burst + (finish t rs - t) * (real (Suc n) / 60)"
    using gw.capped_bound [OF assms(3,1)] assms(3,4) by (simp add: tb_credit_def tb_ok_def)
qed

text \<open>
  The two implementations are the same limiter: the gateway's bucket with a burst of \<^verbatim>\<open>rpm\<close> and the inference
  bucket of \<^verbatim>\<open>rpm\<close>, starting with the same credit, give the same verdict to every request of a sequence with rising times.
\<close>

theorem token_buckets_agree:
  assumes "timed t rs" "key_ok key (int (Suc n)) t bs" "tb_ok (int (Suc n)) (real (Suc n) / 60) t b"
    and "key_credit key (int (Suc n)) bs t = tb_credit b t"
  shows "verdicts (take_key key (int (Suc n))) rs bs = verdicts consume rs b"
  unfolding inf.verdicts_spec [OF assms(2,1)] gw.verdicts_spec [OF assms(3,1)] assms(4) by simp

text \<open>
  A refused inference request is told how long to wait, and the wait is right: repeated after exactly that time,
  with no other request of the key in between, it is granted, and at any earlier moment it is refused again, provided that
  its cost is within the bucket at all.
\<close>

theorem wait_time_exact:
  assumes "check_limit (\<lambda>k. True) key rpm cost now bs = (bs', False, wait)" "cost \<le> rpm" "key_ok key rpm now bs"
  shows "0 < wait \<and> bs' = bs
     \<and> (\<forall>dt \<ge> 0. fst (snd (check_limit (\<lambda>k. True) key rpm cost (now + dt) bs)) = (wait \<le> dt))"
proof -
  obtain x u where b: "bs key = Some (x, u)" and u: "u \<le> now" and x: "x \<le> of_int rpm"
    using assms(3) by (auto simp: key_ok_def split: option.splits)
  have rpm: "0 < rpm" using assms(1) by (auto simp: check_limit_def split: if_splits)
  define rate where "rate = of_int rpm / (60::real)"
  define y where "y = min (of_int rpm) (x + (now - u) * rate)"
  have pos: "0 < rate" using rpm by (simp add: rate_def)
  have low: "y < of_int cost" and w: "wait = (of_int cost - y) / rate" "bs' = bs"
    using assms(1) b rpm pos by (auto simp: check_limit_def expire_def Let_def y_def rate_def fun_eq_iff split: if_splits)
  have y: "y = x + (now - u) * rate" using low assms(2) by (auto simp: y_def min_def split: if_splits)
  have "fst (snd (check_limit (\<lambda>k. True) key rpm cost (now + dt) bs)) = (wait \<le> dt)" if "0 \<le> dt" for dt
  proof -
    have "fst (snd (check_limit (\<lambda>k. True) key rpm cost (now + dt) bs)) \<longleftrightarrow> of_int cost \<le> min (of_int rpm) (x + (now + dt - u) * rate)"
      using b rpm by (simp add: check_limit_def expire_def Let_def rate_def)
    also have "\<dots> \<longleftrightarrow> of_int cost \<le> y + dt * rate"
      using assms(2) by (simp add: y algebra_simps)
    also have "\<dots> \<longleftrightarrow> wait \<le> dt"
      unfolding w(1) using pos by (simp add: pos_divide_le_eq) linarith
    finally show ?thesis .
  qed
  moreover have "0 < wait" using low pos by (simp add: w(1))
  ultimately show ?thesis using w(2) by blast
qed

text \<open>
  Of the requests one client makes within \<^verbatim>\<open>window_seconds\<close> of the first one, the authentication limiter lets exactly
  the first \<^verbatim>\<open>max_requests\<close> through and refuses every later one, whether or not a block expires in between.
\<close>

theorem auth_window_exact:
  fixes first :: real and ts :: "real list"
  assumes "store (get_key i ip) = None" "rl_max_requests l = int n"
    and "\<forall>t \<in> set ts. t - first \<le> rl_window_seconds l" "0 \<le> rl_window_seconds l"
  shows "auth_verdicts l i ip (first # ts) store = map (\<lambda>k. k < n) [0..<Suc (length ts)]"
proof -
  let ?e = "\<lparr>ae_count = 0, ae_first_request = first, ae_blocked_until = None\<rparr>"
  have "auth_is_allowed l i ip first store = auth_is_allowed l i ip first (store(get_key i ip \<mapsto> ?e))"
    using assms(1) by (simp add: auth_is_allowed_def Let_def blocked_at_def)
  then have "auth_verdicts l i ip (first # ts) store = auth_verdicts l i ip (first # ts) (store(get_key i ip \<mapsto> ?e))"
    by simp
  also have "\<dots> = map (\<lambda>k. k < n) [0..<length (first # ts)]"
    using assms by (intro auth_window_run [of _ i ip ?e]) auto
  finally show ?thesis by (simp del: upt_Suc auth_verdicts.simps)
qed


text \<open>The first request of a key is granted at any cost, and leaves the bucket in debt.\<close>

lemma first_request_unlimited:
  assumes "0 < rpm" "bs key = None"
  shows "fst (snd (check_limit live key rpm cost now bs))"
    and "fst (check_limit live key rpm cost now bs) key = Some (of_int rpm - of_int cost, now)"
  using assms by (simp_all add: check_limit_def expire_def Let_def)

text \<open>
  \<^verbatim>\<open>cleanup\<close> lifts a block early: a client blocked by the login limiter is let in again as soon as twice the window has
  passed, with most of the five minutes still to go.
\<close>

definition blocked_client :: auth_entry where
  "blocked_client = \<lparr>ae_count = 5, ae_first_request = 1000, ae_blocked_until = Some 1310\<rparr>"

lemma cleanup_lifts_block:
  "\<not> fst (snd (auth_is_allowed login_rate_limiter ''ada'' ''10.0.0.1'' 1130 [get_key ''ada'' ''10.0.0.1'' \<mapsto> blocked_client]))
   \<and> fst (snd (auth_is_allowed login_rate_limiter ''ada'' ''10.0.0.1'' 1130
        (auth_cleanup login_rate_limiter 1130 [get_key ''ada'' ''10.0.0.1'' \<mapsto> blocked_client])))"
  by (simp add: auth_is_allowed_def auth_cleanup_def blocked_at_def auth_expired_def blocked_client_def login_rate_limiter_def Let_def)

text \<open>Two requests of the same clock reading are one member of the sorted set: the second is not counted.\<close>

definition zset_laws :: "'r zset_ops \<Rightarrow> (string \<Rightarrow> 'r \<Rightarrow> string \<rightharpoonup> real) \<Rightarrow> bool" where
  "zset_laws ops view \<longleftrightarrow>
     (\<forall>k lo hi r. view k (zremrangebyscore ops k lo hi r) = (\<lambda>m. case view k r m of None \<Rightarrow> None
        | Some sc \<Rightarrow> if lo \<le> sc \<and> sc \<le> hi then None else Some sc))
   \<and> (\<forall>k m sc r. view k (zadd ops k m sc r) = (view k r)(m \<mapsto> sc))
   \<and> (\<forall>k m r. view k (zrem ops k m r) = (view k r)(m := None))
   \<and> (\<forall>k n r. view k (zexpire ops k n r) = view k r)
   \<and> (\<forall>k r. finite (dom (view k r)) \<and> zcard ops k r = int (card (dom (view k r))))"

definition in_window :: "real \<Rightarrow> (string \<rightharpoonup> real) \<Rightarrow> string set" where
  "in_window now z = {m. \<exists>sc. z m = Some sc \<and> \<not> (0 \<le> sc \<and> sc \<le> now - 60)}"

lemma window_pipeline_view:
  assumes "zset_laws ops view"
  shows "dom (view k (fst (window_pipeline ops stamp k now r))) = insert (stamp now) (in_window now (view k r))"
    and "snd (window_pipeline ops stamp k now r) = int (card (insert (stamp now) (in_window now (view k r))))"
proof -
  let ?r1 = "zremrangebyscore ops k 0 (now - 60) r"
  have d1: "dom (view k ?r1) = in_window now (view k r)"
    using assms unfolding zset_laws_def by (auto simp: in_window_def dom_def split: option.splits if_splits)
  then have d2: "dom (view k (zadd ops k (stamp now) now ?r1)) = insert (stamp now) (in_window now (view k r))"
    using assms unfolding zset_laws_def by auto
  with assms show "dom (view k (fst (window_pipeline ops stamp k now r))) = insert (stamp now) (in_window now (view k r))"
    "snd (window_pipeline ops stamp k now r) = int (card (insert (stamp now) (in_window now (view k r))))"
    unfolding window_pipeline_def Let_def zset_laws_def by auto
qed

text \<open>
  The sliding window of the gateway admits a request exactly when the members of the last minute, with this one,
  are at most the limit; a refused request leaves no member behind.  Two requests that read the same clock value
  share a member, so the second one is not counted.
\<close>

theorem redis_window_exact:
  assumes "zset_laws ops view" "stamp now \<notin> in_window now (view (''rate_limit:'' @ key) r)"
  shows "let w = in_window now (view (''rate_limit:'' @ key) r);
             (r', allowed, m) = redis_is_allowed ops stamp s key now r
         in allowed = (int (card w) < rs_requests_per_minute s)
          \<and> dom (view (''rate_limit:'' @ key) r') = (if allowed then insert (stamp now) w else w)
          \<and> 0 \<le> lm_remaining m"
proof -
  define k where "k = ''rate_limit:'' @ key"
  note p = window_pipeline_view [OF assms(1), where k = k and stamp = stamp and now = now and r = r]
  have fin: "finite (in_window now (view k r))"
  proof (rule finite_subset)
    show "in_window now (view k r) \<subseteq> dom (view k r)" by (auto simp: in_window_def)
    show "finite (dom (view k r))" using assms(1) unfolding zset_laws_def by blast
  qed
  have zrem: "\<And>r. dom (view k (zrem ops k (stamp now) r)) = dom (view k r) - {stamp now}"
    using assms(1) unfolding zset_laws_def by auto
  have fresh: "stamp now \<notin> in_window now (view k r)" using assms(2) unfolding k_def .
  show ?thesis
    using p fin fresh unfolding redis_is_allowed_def Let_def split_def k_def [symmetric]
    by (simp add: zrem)
qed

section \<open>Witnesses\<close>

theorem token_buckets_bound_witness:
  "granted consume [(1, 2), (31, 3)] (new_bucket 2 (1 / 60) 0) \<le> 2 + 31 * (1 / 60)"
  using token_buckets_bound [of 0 "[(1, 2), (31, 3)]" "''k''" 0 "[''k'' \<mapsto> (1, 0)]" 2 "new_bucket 2 (1 / 60) 0"]
  by (simp add: key_ok_def tb_ok_def new_bucket_def)

theorem token_buckets_agree_witness:
  "verdicts (take_key ''k'' 2) [(1, 2), (31, 1)] [''k'' \<mapsto> (2, 0)] = verdicts consume [(1, 2), (31, 1)] (new_bucket 2 (2 / 60) 0)"
  using token_buckets_agree [of 0 "[(1, 2), (31, 1)]" "''k''" 1 "[''k'' \<mapsto> (2, 0)]" "new_bucket 2 (2 / 60) 0"]
  by (simp add: key_ok_def tb_ok_def new_bucket_def key_credit_def tb_credit_def)

theorem wait_time_exact_witness:
  "fst (snd (check_limit (\<lambda>k. True) ''k'' 60 3 12 [''k'' \<mapsto> (1, 10)])) = True
   \<and> fst (snd (check_limit (\<lambda>k. True) ''k'' 60 3 11 [''k'' \<mapsto> (1, 10)])) = False"
proof -
  have "check_limit (\<lambda>k. True) ''k'' 60 3 10 [''k'' \<mapsto> (1, 10)] = (expire (\<lambda>k. True) [''k'' \<mapsto> (1, 10)], False, 2)"
    by (simp add: check_limit_def expire_def)
  from wait_time_exact [OF this] have
    "\<forall>dt \<ge> 0. fst (snd (check_limit (\<lambda>k. True) ''k'' 60 3 (10 + dt) [''k'' \<mapsto> (1, 10)])) = (2 \<le> dt)"
    by (simp add: key_ok_def)
  from this [rule_format, of 2] this [rule_format, of 1] show ?thesis by simp
qed

theorem auth_window_exact_witness:
  "auth_verdicts register_rate_limiter ''ada'' ''10.0.0.1'' [0, 10, 20, 30, 3000] (\<lambda>k. None) = [True, True, True, False, False]"
  using auth_window_exact [of "\<lambda>k. None" "''ada''" "''10.0.0.1''" register_rate_limiter 3 "[10, 20, 30, 3000]" 0]
  by (simp add: register_rate_limiter_def del: auth_verdicts.simps)

text \<open>A server that keeps an association list per key.\<close>

definition list_server :: "(string \<Rightarrow> (string \<times> real) list) zset_ops" where
  "list_server = \<lparr>zremrangebyscore = (\<lambda>k lo hi r. r(k := filter (\<lambda>x. case map_of (r k) (fst x) of None \<Rightarrow> True
        | Some sc \<Rightarrow> \<not> (lo \<le> sc \<and> sc \<le> hi)) (r k))),
     zadd = (\<lambda>k m sc r. r(k := (m, sc) # r k)), zcard = (\<lambda>k r. int (card (dom (map_of (r k))))),
     zexpire = (\<lambda>k n r. r), zrem = (\<lambda>k m r. r(k := filter (\<lambda>x. fst x \<noteq> m) (r k)))\<rparr>"

lemma map_of_filter_key: "map_of (filter (\<lambda>x. P (fst x)) xs) m = (if P m then map_of xs m else None)"
  by (induction xs) auto

lemma list_server_range:
  "map_of (filter (\<lambda>x. case map_of xs (fst x) of None \<Rightarrow> True | Some sc \<Rightarrow> \<not> (lo \<le> sc \<and> sc \<le> hi)) xs) =
     (\<lambda>m. case map_of xs m of None \<Rightarrow> None | Some sc \<Rightarrow> if (lo::real) \<le> sc \<and> sc \<le> hi then None else Some sc)"
  using map_of_filter_key [where P = "\<lambda>m. case map_of xs m of None \<Rightarrow> True | Some sc \<Rightarrow> \<not> (lo \<le> sc \<and> sc \<le> hi)" and xs = xs]
  by (intro ext) (simp split: option.splits)

lemma list_server_laws: "zset_laws list_server (\<lambda>k r. map_of (r k))"
  unfolding zset_laws_def list_server_def zset_ops.simps fun_upd_same list_server_range
  by (auto simp: map_of_filter_key [where P = "\<lambda>x. x \<noteq> m" for m] fun_eq_iff finite_dom_map_of)

theorem redis_window_exact_witness:
  "fst (snd (redis_is_allowed list_server (\<lambda>t. if t = 100 then ''100.0'' else ''other'')
     \<lparr>rs_requests_per_minute = 2, rs_burst_size = 2, rs_enabled = True\<rparr> ''u'' 100
     (\<lambda>k. [(''90.0'', 90), (''10.0'', 10)]))) = True"
proof -
  let ?z = "map_of [(''90.0'', 90), (''10.0'', 10)] :: string \<rightharpoonup> real"
  have w: "in_window 100 ?z = {''90.0''}"
    by (auto simp: in_window_def split: if_splits)
  show ?thesis
    using redis_window_exact [OF list_server_laws, where stamp = "\<lambda>t. if t = 100 then ''100.0'' else ''other''" and now = 100
        and key = "''u''" and r = "\<lambda>k. [(''90.0'', 90), (''10.0'', 10)]"
        and s = "\<lparr>rs_requests_per_minute = 2, rs_burst_size = 2, rs_enabled = True\<rparr>"] w
    by (simp add: Let_def split_def)
qed

end
