(* ===== verification/GatewayDb.thy ===== *)
theory GatewayDb
  imports Database Permissions RateLimit
begin

text \<open>
  The tables of the gateway (\<^verbatim>\<open>api_gateway/db/models\<close>) and the in-memory state its handlers share.  The deployments and
  pools are the rows of the orchestration database, which the gateway reads in the same server.  Times are whole seconds.
\<close>

record gw_user =
  us_id :: string
  us_email :: string
  us_password_hash :: string
  us_totp_secret :: "string option"
  us_totp_pending_secret :: "string option"
  us_totp_enabled :: bool
  us_default_org_id :: "string option"
  us_created_at :: int

record organization =
  og_id :: string
  og_name :: string
  og_log_payloads :: bool

record membership =
  uo_user_id :: string
  uo_org_id :: string
  uo_role :: string
  uo_created_at :: int

record role_row =
  ro_name :: string
  ro_description :: "string option"
  ro_permissions :: "string list"

record invitation =
  iv_id :: string
  iv_email :: string
  iv_role :: string
  iv_token :: string
  iv_org_id :: string
  iv_created_by :: string
  iv_created_at :: int
  iv_expires_at :: int
  iv_accepted_at :: "int option"

record api_key =
  ak_id :: string
  ak_name :: string
  ak_key_hash :: string
  ak_prefix :: string
  ak_org_id :: string
  ak_deployment_id :: "string option"
  ak_is_active :: bool
  ak_last_used_at :: "int option"
  ak_created_at :: int

record policy_row =
  po_policy_type :: string
  po_config_json :: jobj
  po_org_id :: string
  po_deployment_id :: "string option"

record usage_row =
  ug_user_id :: string
  ug_date :: string
  ug_model :: string
  ug_prompt_tokens :: int
  ug_completion_tokens :: int
  ug_total_tokens :: int
  ug_request_count :: int

record audit_event =
  ad_user_id :: "string option"
  ad_org_id :: "string option"
  ad_action :: string
  ad_resource_type :: "string option"
  ad_resource_id :: "string option"
  ad_details :: jobj
  ad_status :: string
  ad_category :: string
  ad_timestamp :: int

record gateway =
  gw_users :: "gw_user list"
  gw_orgs :: "organization list"
  gw_members :: "membership list"
  gw_roles :: "role_row list"
  gw_invitations :: "invitation list"
  gw_keys :: "api_key list"
  gw_policies :: "policy_row list"
  gw_usage :: "usage_row list"
  gw_audit :: "audit_event list"
  gw_core :: db
  gw_now :: int
  gw_login_store :: auth_store
  gw_register_store :: auth_store

definition ACTION_CATEGORY_MAP :: "(string \<times> string) list" where
  "ACTION_CATEGORY_MAP =
    [(''user.login'', ''auth''), (''user.register_invite'', ''auth''), (''user.accept_invite'', ''auth''), (''user.switch_org'', ''auth''),
     (''user.create'', ''user_management''), (''user.2fa_enabled'', ''security''), (''user.2fa_disabled'', ''security''),
     (''deployment.create'', ''deployment''), (''deployment.delete'', ''deployment''), (''api_key.create'', ''api_key''),
     (''api_key.revoke'', ''api_key''), (''organization.create'', ''organization''), (''organization.update'', ''organization''),
     (''invitation.create'', ''organization''), (''invitation.revoke'', ''organization''), (''credential.create'', ''credential''),
     (''credential.update'', ''credential''), (''credential.delete'', ''credential''), (''deployment.start'', ''deployment''),
     (''deployment.terminate'', ''deployment''), (''deployment.update'', ''deployment''), (''pool.create'', ''deployment''),
     (''pool.stop'', ''deployment''), (''pool.delete'', ''deployment''), (''config.update'', ''configuration'')]"

definition derive_category :: "string \<Rightarrow> string" where
  "derive_category action = (case map_of ACTION_CATEGORY_MAP action of
     Some c \<Rightarrow> c | None \<Rightarrow> takeWhile (\<lambda>c. c \<noteq> CHR ''.'') action)"

text \<open>
  The background task that writes an audit row: a row whose user does not exist violates the foreign key and is dropped, with
  a log line.  The model writes it at once.
\<close>

definition write_audit_log :: "audit_event \<Rightarrow> gateway \<Rightarrow> gateway" where
  "write_audit_log e g = (case ad_user_id e of
     Some uid \<Rightarrow> if uid \<in> us_id ` set (gw_users g) then g\<lparr>gw_audit := gw_audit g @ [e]\<rparr> else g
   | None \<Rightarrow> g\<lparr>gw_audit := gw_audit g @ [e]\<rparr>)"

definition audit :: "string option \<Rightarrow> string option \<Rightarrow> string \<Rightarrow> string option \<Rightarrow> string option \<Rightarrow> jobj \<Rightarrow> string \<Rightarrow> gateway \<Rightarrow> gateway" where
  "audit user org action rtype rid details st g = write_audit_log \<lparr>ad_user_id = user, ad_org_id = org, ad_action = action,
     ad_resource_type = rtype, ad_resource_id = rid, ad_details = details, ad_status = st,
     ad_category = derive_category action, ad_timestamp = gw_now g\<rparr> g"

record audit_filter =
  fl_user_id :: "string option"
  fl_action :: "string option"
  fl_category :: "string option"
  fl_org_id :: "string option"
  fl_start_date :: "int option"
  fl_end_date :: "int option"
  fl_skip :: nat
  fl_limit :: nat

definition if_given :: "'a option \<Rightarrow> ('a \<Rightarrow> bool) \<Rightarrow> bool" where
  "if_given v p \<longleftrightarrow> (case v of None \<Rightarrow> True | Some x \<Rightarrow> p x)"

definition audit_matches :: "audit_filter \<Rightarrow> audit_event \<Rightarrow> bool" where
  "audit_matches f e \<longleftrightarrow> if_given (nonempty_str (fl_user_id f)) (\<lambda>u. ad_user_id e = Some u) \<and>
     if_given (nonempty_str (fl_action f)) (\<lambda>a. ad_action e = a) \<and> if_given (nonempty_str (fl_category f)) (\<lambda>c. ad_category e = c) \<and>
     if_given (nonempty_str (fl_org_id f)) (\<lambda>o'. ad_org_id e = Some o') \<and> if_given (fl_start_date f) (\<lambda>t. t \<le> ad_timestamp e) \<and>
     if_given (fl_end_date f) (\<lambda>t. ad_timestamp e \<le> t)"

definition get_logs :: "audit_filter \<Rightarrow> gateway \<Rightarrow> (audit_event \<times> string option) list" where
  "get_logs f g = map (\<lambda>e. (e, case ad_user_id e of None \<Rightarrow> None
       | Some uid \<Rightarrow> map_option us_email (find (\<lambda>u. us_id u = uid) (gw_users g))))
     (take (fl_limit f) (drop (fl_skip f) (sort_key (\<lambda>e. - ad_timestamp e) (filter (audit_matches f) (gw_audit g)))))"

definition find_user :: "string \<Rightarrow> gateway \<Rightarrow> gw_user option" where
  "find_user uid g = find (\<lambda>u. us_id u = uid) (gw_users g)"

definition find_membership :: "string \<Rightarrow> string \<Rightarrow> gateway \<Rightarrow> membership option" where
  "find_membership uid org g = find (\<lambda>m. uo_user_id m = uid \<and> uo_org_id m = org) (gw_members g)"

definition first_membership :: "string \<Rightarrow> gateway \<Rightarrow> membership option" where
  "first_membership uid g = sql_first_by uo_created_at (\<lambda>m. uo_user_id m = uid) (gw_members g)"

text \<open>The join of a user's memberships with their organizations.\<close>

definition user_orgs :: "string \<Rightarrow> gateway \<Rightarrow> (membership \<times> organization) list" where
  "user_orgs uid g = concat (map (\<lambda>m. map (Pair m) (filter (\<lambda>o'. og_id o' = uo_org_id m) (gw_orgs g)))
     (filter (\<lambda>m. uo_user_id m = uid) (gw_members g)))"

lemma audit_frame [simp]:
  "gw_users (audit u o' a rt ri dt st g) = gw_users g" "gw_members (audit u o' a rt ri dt st g) = gw_members g"
  "gw_roles (audit u o' a rt ri dt st g) = gw_roles g" "gw_keys (audit u o' a rt ri dt st g) = gw_keys g"
  "gw_orgs (audit u o' a rt ri dt st g) = gw_orgs g" "gw_now (audit u o' a rt ri dt st g) = gw_now g"
  "gw_invitations (audit u o' a rt ri dt st g) = gw_invitations g" "gw_core (audit u o' a rt ri dt st g) = gw_core g"
  "gw_policies (audit u o' a rt ri dt st g) = gw_policies g"
  by (simp_all add: audit_def write_audit_log_def split: option.split)

lemma find_membership_in: "find_membership uid org g = Some m \<Longrightarrow> m \<in> set (gw_members g) \<and> uo_user_id m = uid \<and> uo_org_id m = org"
  unfolding find_membership_def by (drule find_in) simp

lemma find_user_in: "find_user uid g = Some u \<Longrightarrow> u \<in> set (gw_users g) \<and> us_id u = uid"
  unfolding find_user_def by (drule find_in) simp

lemma first_membership_in: "first_membership uid g = Some m \<Longrightarrow> m \<in> set (gw_members g) \<and> uo_user_id m = uid"
  unfolding first_membership_def by (frule sql_first_by_Some(1), drule sql_first_by_Some(2)) simp

lemma user_orgs_in: "(m, o') \<in> set (user_orgs uid g) \<Longrightarrow> m \<in> set (gw_members g) \<and> uo_user_id m = uid \<and> og_id o' = uo_org_id m"
  by (auto simp: user_orgs_def)

end
