(* ===== verification/GatewayAuth.thy ===== *)
theory GatewayAuth
  imports GatewayDb Jwt
begin

text \<open>
  Authentication at the gateway: \<^verbatim>\<open>rbac/auth.py\<close>, the shadow users of \<^verbatim>\<open>rbac/shadow_user.py\<close>, the endpoints of
  \<^verbatim>\<open>rbac/router.py\<close>, and the management of roles and members (\<^verbatim>\<open>rbac/roles_router.py\<close>, \<^verbatim>\<open>rbac/users_router.py\<close>).
  Hashing, one-time passwords, the JWT library and the external identity service are fields of \<^verbatim>\<open>auth_env\<close>; identifiers
  drawn at random are arguments.
\<close>

section \<open>auth.py\<close>

text \<open>A failure is an HTTP response or another exception, named by its class where its message is the library's.\<close>

datatype auth_fail = Http http_error | Raised string

record auth_env =
  av_jwt :: jwt_lib
  av_secret_key :: string
  av_algorithm :: string
  av_access_minutes :: int
  av_refresh_days :: int
  av_checkpw :: "string \<Rightarrow> string \<Rightarrow> bool"
  av_hashpw :: "string \<Rightarrow> string"
  av_totp :: "string \<Rightarrow> string \<Rightarrow> bool"
  av_enable_2fa :: bool
  av_mode :: string
  av_external_auth_url :: "string option"
  av_superadmin_email :: "string option"
  av_external_login :: "string \<Rightarrow> string \<Rightarrow> auth_fail + jobj option"
  av_external_refresh :: "string \<Rightarrow> auth_fail + jobj option"

record token_payload =
  tp_sub :: string
  tp_exp :: int
  tp_iat :: int
  tp_type :: string
  tp_roles :: "string list"
  tp_org_id :: "string option"

definition create_access_token :: "auth_env \<Rightarrow> int \<Rightarrow> gw_user \<Rightarrow> string \<Rightarrow> string \<Rightarrow> string" where
  "create_access_token env now user org_id role = jl_encode (av_jwt env)
     [(''sub'', JStr (us_id user)), (''username'', JStr (us_email user)), (''email'', JStr (us_email user)),
      (''exp'', JInt (now + 60 * av_access_minutes env)), (''iat'', JInt now), (''type'', JStr ''access''),
      (''roles'', JArr [JStr role]), (''org_id'', JStr org_id)] (av_secret_key env) (av_algorithm env)"

definition create_refresh_token :: "auth_env \<Rightarrow> int \<Rightarrow> gw_user \<Rightarrow> string option \<Rightarrow> string" where
  "create_refresh_token env now user org_id = jl_encode (av_jwt env)
     [(''sub'', JStr (us_id user)), (''exp'', JInt (now + 86400 * av_refresh_days env)), (''iat'', JInt now),
      (''type'', JStr ''refresh''), (''org_id'', jopt (or_str org_id (us_default_org_id user)))] (av_secret_key env) (av_algorithm env)"

text \<open>The pydantic model of the payload; None is a validation error.\<close>

definition str_list :: "json \<Rightarrow> string list option" where
  "str_list v = (case v of
     JArr xs \<Rightarrow> if list_all (\<lambda>x. case x of JStr s \<Rightarrow> True | _ \<Rightarrow> False) xs
               then Some (map (\<lambda>x. case x of JStr s \<Rightarrow> s | _ \<Rightarrow> []) xs) else None
   | _ \<Rightarrow> None)"

definition parse_payload :: "jobj \<Rightarrow> token_payload option" where
  "parse_payload p = (case (jget p ''sub'', jget p ''exp'', jget p ''iat'', jget p ''type'') of
     (JStr s, JInt e, JInt i, JStr t) \<Rightarrow>
       if t \<noteq> ''access'' \<and> t \<noteq> ''refresh'' then None
       else (case (case map_of p ''roles'' of None \<Rightarrow> Some [] | Some v \<Rightarrow> str_list v) of
          None \<Rightarrow> None
        | Some rs \<Rightarrow> (case jget p ''org_id'' of
            JNull \<Rightarrow> Some \<lparr>tp_sub = s, tp_exp = e, tp_iat = i, tp_type = t, tp_roles = rs, tp_org_id = None\<rparr>
          | JStr o' \<Rightarrow> Some \<lparr>tp_sub = s, tp_exp = e, tp_iat = i, tp_type = t, tp_roles = rs, tp_org_id = Some o'\<rparr>
          | _ \<Rightarrow> None))
   | _ \<Rightarrow> None)"

definition decode_token :: "auth_env \<Rightarrow> int \<Rightarrow> string \<Rightarrow> string \<Rightarrow> auth_fail + token_payload" where
  "decode_token env now token expected = (case jl_decode (av_jwt env) now token (av_secret_key env) (av_algorithm env) of
     Inl e \<Rightarrow> Inl (Http (HTTPException 401 ''Invalid token''))
   | Inr p \<Rightarrow> (case parse_payload p of
       None \<Rightarrow> Inl (Raised ''validation error for TokenPayload'')
     | Some t \<Rightarrow> if expected \<noteq> [] \<and> tp_type t \<noteq> expected
                 then Inl (Http (HTTPException 401 (''Invalid token type: expected '' @ expected))) else Inr t))"

definition authenticate_user :: "auth_env \<Rightarrow> string \<Rightarrow> string \<Rightarrow> gateway \<Rightarrow> gw_user option" where
  "authenticate_user env username password g =
    (case find (\<lambda>u. py_lower (us_email u) = py_lower (py_strip username)) (gw_users g) of
       None \<Rightarrow> None
     | Some u \<Rightarrow> if av_checkpw env password (us_password_hash u) then Some u else None)"

definition log_failed_login :: "string \<Rightarrow> gateway \<Rightarrow> gateway" where
  "log_failed_login username = audit None None ''user.login'' None None
     [(''username'', JStr username), (''reason'', JStr ''authentication_failed'')] ''failure''"

record auth_token =
  at_access_token :: string
  at_refresh_token :: "string option"
  at_expires_in :: int
  at_organizations :: "(string \<times> string \<times> string) list"

text \<open>The loop that selects the organization of a login: the target, the role and whether a choice was made.\<close>

definition pick_org :: "(string option \<times> string \<times> bool) \<Rightarrow> membership \<times> organization \<Rightarrow> string option \<times> string \<times> bool" where
  "pick_org acc mo = (case acc of (target, role, found) \<Rightarrow>
     if target = Some (uo_org_id (fst mo)) then (target, uo_role (fst mo), True)
     else if target = None then (Some (og_id (snd mo)), uo_role (fst mo), True)
     else acc)"

definition select_org :: "string option \<Rightarrow> (membership \<times> organization) list \<Rightarrow> string \<times> string" where
  "select_org default_org orgs_data = (case foldl pick_org (default_org, ''member'', False) orgs_data of
     (Some target, role, True) \<Rightarrow> (target, role)
   | _ \<Rightarrow> (og_id (snd (hd orgs_data)), uo_role (fst (hd orgs_data))))"

definition org_info :: "membership \<times> organization \<Rightarrow> string \<times> string \<times> string" where
  "org_info mo = (og_id (snd mo), og_name (snd mo), uo_role (fst mo))"

definition incorrect_login :: auth_fail where
  "incorrect_login = Http (HTTPException 401 ''Incorrect username or password'')"

definition add_member :: "string \<Rightarrow> string \<Rightarrow> string \<Rightarrow> gateway \<Rightarrow> gateway" where
  "add_member uid org role g = g\<lparr>gw_members := gw_members g @
     [\<lparr>uo_user_id = uid, uo_org_id = org, uo_role = role, uo_created_at = gw_now g\<rparr>]\<rparr>"

definition issue :: "auth_env \<Rightarrow> int \<Rightarrow> gw_user \<Rightarrow> string \<Rightarrow> string \<Rightarrow> (string \<times> string \<times> string) list \<Rightarrow> auth_token" where
  "issue env now user org role orgs = \<lparr>at_access_token = create_access_token env now user org role,
     at_refresh_token = Some (create_refresh_token env now user (Some org)), at_expires_in = av_access_minutes env * 60,
     at_organizations = orgs\<rparr>"

definition auto_join :: "gw_user \<Rightarrow> gateway \<Rightarrow> gateway" where
  "auto_join user g = (if user_orgs (us_id user) g \<noteq> [] then g
     else case gw_orgs g of
       [] \<Rightarrow> g
     | o' # os \<Rightarrow> add_member (us_id user) (og_id o') ''member'' g)"

definition login_user :: "auth_env \<Rightarrow> string \<Rightarrow> string \<Rightarrow> gateway \<Rightarrow> gateway \<times> (auth_fail + auth_token)" where
  "login_user env username password g = (case authenticate_user env username password g of
     None \<Rightarrow> (log_failed_login username g, Inl incorrect_login)
   | Some user \<Rightarrow>
      (let g1 = auto_join user g; orgs_data = user_orgs (us_id user) g1
       in if orgs_data = [] then (g1, Inl (Http (HTTPException 403 ''User does not belong to any organization'')))
          else let (org, role) = select_org (nonempty_str (us_default_org_id user)) orgs_data
               in (audit (Some (us_id user)) (Some org) ''user.login'' None None [(''role'', JStr role)] ''success'' g1,
                   Inr (issue env (gw_now g) user org role (map org_info orgs_data)))))"

definition get_current_user :: "auth_env \<Rightarrow> string \<Rightarrow> gateway \<Rightarrow> auth_fail + (gw_user \<times> string \<times> string list)" where
  "get_current_user env token g = (case decode_token env (gw_now g) token ''access'' of
     Inl e \<Rightarrow> Inl e
   | Inr t \<Rightarrow> (case find_user (tp_sub t) g of
       None \<Rightarrow> Inl (Http (HTTPException 401 ''User not found''))
     | Some user \<Rightarrow> (case nonempty_str (tp_org_id t) of
         Some org \<Rightarrow> (case find_membership (us_id user) org g of
             None \<Rightarrow> Inl (Http (HTTPException 401 ''Organization access revoked''))
           | Some m \<Rightarrow> Inr (user, org, [uo_role m]))
       | None \<Rightarrow> (case first_membership (us_id user) g of
             None \<Rightarrow> Inl (Http (HTTPException 401 ''User does not belong to any organization''))
           | Some m \<Rightarrow> Inr (user, uo_org_id m, [uo_role m])))))"

text \<open>The membership a refresh falls back to: of the token's organization, of the default one, the oldest.\<close>

definition refresh_membership :: "gw_user \<Rightarrow> string option \<Rightarrow> gateway \<Rightarrow> membership option" where
  "refresh_membership user org_id g =
    (let at_org = (\<lambda>o'. case nonempty_str o' of None \<Rightarrow> None | Some o'' \<Rightarrow> find_membership (us_id user) o'' g)
     in case at_org (or_str org_id (us_default_org_id user)) of
          Some m \<Rightarrow> Some m
        | None \<Rightarrow> (case at_org (us_default_org_id user) of Some m \<Rightarrow> Some m | None \<Rightarrow> first_membership (us_id user) g))"

definition refresh_access_token :: "auth_env \<Rightarrow> string \<Rightarrow> gateway \<Rightarrow> auth_fail + auth_token" where
  "refresh_access_token env token g = (case decode_token env (gw_now g) token ''refresh'' of
     Inl (Http e) \<Rightarrow> Inl (Http e)
   | Inl (Raised e) \<Rightarrow> Inl (Http (HTTPException 401 (''Refresh failed: '' @ e)))
   | Inr t \<Rightarrow> (case find_user (tp_sub t) g of
       None \<Rightarrow> Inl (Http (HTTPException 401 ''User not found''))
     | Some user \<Rightarrow> (case refresh_membership user (tp_org_id t) g of
         None \<Rightarrow> Inl (Http (HTTPException 401 ''User does not belong to any organization''))
       | Some m \<Rightarrow> Inr \<lparr>at_access_token = create_access_token env (gw_now g) user (uo_org_id m) (uo_role m),
             at_refresh_token = Some token, at_expires_in = av_access_minutes env * 60, at_organizations = []\<rparr>)))"

section \<open>Shadow users and the guard of local identities\<close>

definition EXTERNAL_PASSWORD_PLACEHOLDER :: string where
  "EXTERNAL_PASSWORD_PLACEHOLDER = ''!external-auth-managed!''"

definition find_email :: "string \<Rightarrow> gateway \<Rightarrow> gw_user option" where
  "find_email email g = find (\<lambda>u. py_lower (us_email u) = email) (gw_users g)"

definition new_user :: "string \<Rightarrow> string \<Rightarrow> string \<Rightarrow> string option \<Rightarrow> int \<Rightarrow> gw_user" where
  "new_user nid email hash org now = \<lparr>us_id = nid, us_email = email, us_password_hash = hash, us_totp_secret = None,
     us_totp_pending_secret = None, us_totp_enabled = False, us_default_org_id = org, us_created_at = now\<rparr>"

definition shadow_membership :: "gw_user \<Rightarrow> membership list \<Rightarrow> string option \<times> string list" where
  "shadow_membership user ms = (case ms of
     [] \<Rightarrow> (None, [])
   | m0 # _ \<Rightarrow> (case nonempty_str (us_default_org_id user) of
       None \<Rightarrow> (Some (uo_org_id m0), [uo_role m0])
     | Some org \<Rightarrow> (case find (\<lambda>m. uo_org_id m = org) ms of
         None \<Rightarrow> (Some (uo_org_id m0), [uo_role m0])
       | Some m \<Rightarrow> (Some org, [uo_role m]))))"

definition get_or_create_shadow_user :: "string \<Rightarrow> string \<Rightarrow> gateway \<Rightarrow> gateway \<times> gw_user \<times> string option \<times> string list" where
  "get_or_create_shadow_user nid email g =
    (let normalized = py_lower (py_strip email);
         (g', user) = (case find_email normalized g of
            Some u \<Rightarrow> (g, u)
          | None \<Rightarrow> (let u = new_user nid normalized EXTERNAL_PASSWORD_PLACEHOLDER None (gw_now g)
                    in (g\<lparr>gw_users := gw_users g @ [u]\<rparr>, u)))
     in (g', user, shadow_membership user (sort_key uo_created_at (filter (\<lambda>m. uo_user_id m = us_id user) (gw_members g')))))"

definition is_external_mode :: "auth_env \<Rightarrow> bool" where
  "is_external_mode env \<longleftrightarrow> av_mode env = ''oidc'' \<or> av_mode env = ''inferiaauth''"

text \<open>The guard of a router: it runs before the handler, which sees the state only in local mode.\<close>

definition require_local_identity :: "auth_env \<Rightarrow> auth_fail + unit" where
  "require_local_identity env = (if is_external_mode env
     then Inl (Http (HTTPException 409
       ''Organization, user, and team management is handled by your identity provider in this deployment mode.''))
     else Inr ())"

definition local_only :: "auth_env \<Rightarrow> (gateway \<Rightarrow> gateway \<times> (auth_fail + 'a)) \<Rightarrow> gateway \<Rightarrow> gateway \<times> (auth_fail + 'a)" where
  "local_only env h g = (case require_local_identity env of Inl e \<Rightarrow> (g, Inl e) | Inr _ \<Rightarrow> h g)"

text \<open>A handler that reads the user of the request.\<close>

definition get_current_user_from_request :: "user_context option \<Rightarrow> auth_fail + user_context" where
  "get_current_user_from_request ctx = (case ctx of None \<Rightarrow> Inl (Http (HTTPException 401 ''Not authenticated'')) | Some u \<Rightarrow> Inr u)"

definition with_user :: "user_context option \<Rightarrow> (user_context \<Rightarrow> gateway \<Rightarrow> gateway \<times> (auth_fail + 'a)) \<Rightarrow> gateway
    \<Rightarrow> gateway \<times> (auth_fail + 'a)" where
  "with_user ctx h g = (case get_current_user_from_request ctx of Inl e \<Rightarrow> (g, Inl e) | Inr u \<Rightarrow> h u g)"

definition with_permission :: "user_context option \<Rightarrow> permission \<Rightarrow> (user_context \<Rightarrow> gateway \<Rightarrow> gateway \<times> (auth_fail + 'a))
    \<Rightarrow> gateway \<Rightarrow> gateway \<times> (auth_fail + 'a)" where
  "with_permission ctx p h = with_user ctx (\<lambda>u g. case require_permission u p of Inl e \<Rightarrow> (g, Inl (Http e)) | Inr _ \<Rightarrow> h u g)"

section \<open>router.py\<close>

record login_request =
  lr_username :: string
  lr_password :: string
  lr_totp_code :: "string option"

definition use_external :: "auth_env \<Rightarrow> bool" where
  "use_external env \<longleftrightarrow> av_mode env = ''external'' \<and> nonempty_str (av_external_auth_url env) \<noteq> None"

definition too_many_attempts :: "string \<Rightarrow> int option \<Rightarrow> auth_fail" where
  "too_many_attempts what retry_after = Http (HTTPException 429 (''Too many '' @ what @ '' attempts. Try again in '' @
     (case retry_after of None \<Rightarrow> ''None'' | Some n \<Rightarrow> dec_int n) @ '' seconds.''))"

definition client_host :: "string option \<Rightarrow> string" where
  "client_host client = (case client of None \<Rightarrow> ''unknown'' | Some h \<Rightarrow> h)"

text \<open>The second factor of a user whose password is right; None when the login may proceed.\<close>

definition totp_refusal :: "auth_env \<Rightarrow> gw_user \<Rightarrow> string option \<Rightarrow> auth_fail option" where
  "totp_refusal env user code = (if us_totp_enabled user \<and> av_enable_2fa env
     then (case nonempty_str code of
        None \<Rightarrow> Some (Http (HTTPException 403 ''TOTP_REQUIRED''))
      | Some c \<Rightarrow> (case us_totp_secret user of
          None \<Rightarrow> Some (Raised ''TypeError'')
        | Some secret \<Rightarrow> if av_totp env secret c then None else Some (Http (HTTPException 401 ''Invalid 2FA Code''))))
     else None)"

text \<open>The tokens of the external service; a body without them raises.\<close>

definition external_token :: "jobj \<Rightarrow> auth_fail + auth_token" where
  "external_token r = (case map_of r ''access_token'' of
     None \<Rightarrow> Inl (Raised ''KeyError'')
   | Some (JStr a) \<Rightarrow> (case jget r ''refresh_token'' of
       JNull \<Rightarrow> Inr \<lparr>at_access_token = a, at_refresh_token = None, at_expires_in = 900, at_organizations = []\<rparr>
     | JStr t \<Rightarrow> Inr \<lparr>at_access_token = a, at_refresh_token = Some t, at_expires_in = 900, at_organizations = []\<rparr>
     | _ \<Rightarrow> Inl (Raised ''ValidationError''))
   | Some _ \<Rightarrow> Inl (Raised ''ValidationError''))"

definition external_email :: "jobj \<Rightarrow> string \<Rightarrow> auth_fail + string" where
  "external_email r username = (case json_or (jget r ''user'') (JObj []) of
     JObj u \<Rightarrow> (case map_of u ''email'' of
         None \<Rightarrow> Inr username | Some (JStr e) \<Rightarrow> Inr e | Some _ \<Rightarrow> Inl (Raised ''AttributeError''))
   | _ \<Rightarrow> Inl (Raised ''AttributeError''))"

definition login_external :: "auth_env \<Rightarrow> login_request \<Rightarrow> string \<Rightarrow> gateway \<Rightarrow> gateway \<times> (auth_fail + auth_token)" where
  "login_external env r nid g = (case av_external_login env (lr_username r) (lr_password r) of
     Inl e \<Rightarrow> (g, Inl e)
   | Inr None \<Rightarrow> (log_failed_login (lr_username r) g, Inl incorrect_login)
   | Inr (Some body) \<Rightarrow> (case external_email body (lr_username r) of
       Inl e \<Rightarrow> (g, Inl e)
     | Inr email \<Rightarrow> (fst (get_or_create_shadow_user nid email g), external_token body)))"

definition login :: "auth_env \<Rightarrow> string option \<Rightarrow> login_request \<Rightarrow> string \<Rightarrow> gateway \<Rightarrow> gateway \<times> (auth_fail + auth_token)" where
  "login env client r nid g =
    (if use_external env \<and> Some (lr_username r) \<noteq> av_superadmin_email env
     then (g, Inl (Http (HTTPException 403 ''Direct password sign in is disabled. Use /auth/start.'')))
     else let (store, allowed, retry) = auth_is_allowed login_rate_limiter (lr_username r) (client_host client)
                                          (of_int (gw_now g)) (gw_login_store g);
              g1 = g\<lparr>gw_login_store := store\<rparr>
          in if \<not> allowed then (g1, Inl (too_many_attempts ''login'' retry))
             else case authenticate_user env (lr_username r) (lr_password r) g1 of
               Some user \<Rightarrow> (case totp_refusal env user (lr_totp_code r) of
                   Some e \<Rightarrow> (g1, Inl e)
                 | None \<Rightarrow> login_user env (lr_username r) (lr_password r) g1)
             | None \<Rightarrow> if use_external env then login_external env r nid g1
                       else (log_failed_login (lr_username r) g1, Inl incorrect_login))"

definition register :: "auth_env \<Rightarrow> gateway \<Rightarrow> gateway \<times> (auth_fail + auth_token)" where
  "register env = local_only env (\<lambda>g. (g, Inl (Http (HTTPException 403
     ''Public registration is disabled. Please ask an administrator for an invitation.''))))"

definition find_invite :: "string \<Rightarrow> gateway \<Rightarrow> invitation option" where
  "find_invite token g = find (\<lambda>i. iv_token i = token) (gw_invitations g)"

definition check_invite :: "string \<Rightarrow> gateway \<Rightarrow> auth_fail + invitation" where
  "check_invite token g = (case find_invite token g of
     None \<Rightarrow> Inl (Http (HTTPException 404 ''Invalid invitation token''))
   | Some i \<Rightarrow> if iv_accepted_at i \<noteq> None then Inl (Http (HTTPException 400 ''Invitation already accepted''))
              else if iv_expires_at i < gw_now g then Inl (Http (HTTPException 400 ''Invitation expired''))
              else Inr i)"

definition mark_accepted :: "invitation \<Rightarrow> gateway \<Rightarrow> gateway" where
  "mark_accepted i g = g\<lparr>gw_invitations := sql_update (\<lambda>j. iv_id j = iv_id i) (\<lambda>j. j\<lparr>iv_accepted_at := Some (gw_now g)\<rparr>) (gw_invitations g)\<rparr>"

definition find_org :: "string \<Rightarrow> gateway \<Rightarrow> organization option" where
  "find_org org g = find (\<lambda>o'. og_id o' = org) (gw_orgs g)"

definition register_invite :: "auth_env \<Rightarrow> string option \<Rightarrow> string \<Rightarrow> string \<Rightarrow> string \<Rightarrow> gateway \<Rightarrow> gateway \<times> (auth_fail + auth_token)" where
  "register_invite env client token password nid = local_only env (\<lambda>g.
     let (store, allowed, retry) = auth_is_allowed register_rate_limiter ''invite'' (client_host client)
                                     (of_int (gw_now g)) (gw_register_store g);
         g1 = g\<lparr>gw_register_store := store\<rparr>
     in if \<not> allowed then (g1, Inl (too_many_attempts ''registration'' retry))
        else case check_invite token g1 of
          Inl e \<Rightarrow> (g1, Inl e)
        | Inr i \<Rightarrow>
           if find_email (py_lower (iv_email i)) g1 \<noteq> None
           then (g1, Inl (Http (HTTPException 400 ''User already exists. Please login and accept the invitation.'')))
           else let user = new_user nid (iv_email i) (av_hashpw env password) (Some (iv_org_id i)) (gw_now g);
                    g2 = mark_accepted i (add_member nid (iv_org_id i) (iv_role i) (g1\<lparr>gw_users := gw_users g1 @ [user]\<rparr>));
                    g3 = audit (Some nid) (Some (iv_org_id i)) ''user.register_invite'' (Some ''user'') (Some nid)
                           [(''email'', JStr (iv_email i)), (''role'', JStr (iv_role i))] ''success'' g2
                in case find_org (iv_org_id i) g3 of
                     None \<Rightarrow> (g3, Inl (Raised ''AttributeError''))
                   | Some o' \<Rightarrow> (g3, Inr (issue env (gw_now g) user (iv_org_id i) (iv_role i) [(og_id o', og_name o', iv_role i)])))"

definition accept_invitation :: "auth_env \<Rightarrow> user_context option \<Rightarrow> string \<Rightarrow> gateway \<Rightarrow> gateway \<times> (auth_fail + auth_token)" where
  "accept_invitation env ctx token = local_only env (with_user ctx (\<lambda>u g.
     case check_invite token g of
       Inl e \<Rightarrow> (g, Inl e)
     | Inr i \<Rightarrow>
        if py_lower (iv_email i) \<noteq> py_lower (uc_email u)
        then (g, Inl (Http (HTTPException 403 ''Invitation email does not match logged in user'')))
        else if find_membership (uc_user_id u) (iv_org_id i) g = None \<and> find_user (uc_user_id u) g = None
        then (g, Inl (Raised ''IntegrityError''))
        else let g1 = (if find_membership (uc_user_id u) (iv_org_id i) g \<noteq> None then g
                       else add_member (uc_user_id u) (iv_org_id i) (iv_role i) g);
                 g2 = mark_accepted i g1;
                 g3 = audit (Some (uc_user_id u)) (Some (iv_org_id i)) ''user.accept_invite'' (Some ''invitation'') (Some (iv_id i))
                        [(''org_id'', JStr (iv_org_id i)), (''role'', JStr (iv_role i))] ''success'' g2
             in case find_user (uc_user_id u) g3 of
                  None \<Rightarrow> (g3, Inl (Raised ''AttributeError''))
                | Some user \<Rightarrow> (g3, Inr (issue env (gw_now g) user (iv_org_id i) (iv_role i)
                                            (map org_info (user_orgs (us_id user) g3))))))"

definition build_invite_link_path :: "string \<Rightarrow> string" where
  "build_invite_link_path token = ''/auth/accept-invite?token='' @ token"

definition get_invite_info :: "string \<Rightarrow> gateway \<Rightarrow> auth_fail + invitation \<times> string" where
  "get_invite_info token g = (case find_invite token g of
     None \<Rightarrow> Inl (Http (HTTPException 404 ''Invitation not found''))
   | Some i \<Rightarrow> if iv_expires_at i < gw_now g then Inl (Http (HTTPException 400 ''Invitation expired''))
              else if iv_accepted_at i \<noteq> None then Inl (Http (HTTPException 400 ''Invitation already accepted''))
              else Inr (i, build_invite_link_path (iv_token i)))"

definition refresh_token :: "auth_env \<Rightarrow> string \<Rightarrow> gateway \<Rightarrow> auth_fail + auth_token" where
  "refresh_token env token g = (case refresh_access_token env token g of
     Inr t \<Rightarrow> Inr t
   | Inl (Raised e) \<Rightarrow> Inl (Raised e)
   | Inl (Http _) \<Rightarrow>
       let failed = Http (HTTPException 401 ''Refresh failed'')
       in if use_external env
          then (case av_external_refresh env token of
             Inl e \<Rightarrow> Inl e
           | Inr None \<Rightarrow> Inl failed
           | Inr (Some body) \<Rightarrow> if body = [] then Inl failed else external_token body)
          else Inl failed)"

definition list_organizations :: "user_context option \<Rightarrow> nat \<Rightarrow> nat \<Rightarrow> gateway \<Rightarrow> auth_fail + (string \<times> string \<times> string) list" where
  "list_organizations ctx skip limit g = (case get_current_user_from_request ctx of
     Inl e \<Rightarrow> Inl e | Inr u \<Rightarrow> Inr (map org_info (take limit (drop skip (user_orgs (uc_user_id u) g)))))"

definition update_user :: "string \<Rightarrow> (gw_user \<Rightarrow> gw_user) \<Rightarrow> gateway \<Rightarrow> gateway" where
  "update_user uid f g = g\<lparr>gw_users := sql_update (\<lambda>u. us_id u = uid) f (gw_users g)\<rparr>"

definition switch_organization :: "auth_env \<Rightarrow> user_context option \<Rightarrow> string \<Rightarrow> gateway \<Rightarrow> gateway \<times> (auth_fail + auth_token)" where
  "switch_organization env ctx org = local_only env (with_user ctx (\<lambda>u g.
     case find_membership (uc_user_id u) org g of
       None \<Rightarrow> (g, Inl (Http (HTTPException 403 ''User is not a member of this organization'')))
     | Some m \<Rightarrow> (case find_user (uc_user_id u) g of
         None \<Rightarrow> (g, Inl (Raised ''AttributeError''))
       | Some user \<Rightarrow>
          let g1 = audit (Some (uc_user_id u)) (Some org) ''user.switch_org'' (Some ''organization'') (Some org) [] ''success''
                     (update_user (uc_user_id u) (\<lambda>x. x\<lparr>us_default_org_id := Some org\<rparr>) g)
          in (g1, Inr (issue env (gw_now g) (user\<lparr>us_default_org_id := Some org\<rparr>) org (uo_role m)
                         (map org_info (user_orgs (us_id user) g1)))))))"

definition get_current_user_info :: "auth_env \<Rightarrow> user_context option \<Rightarrow> gateway \<Rightarrow> auth_fail + user_context \<times> int \<times> bool" where
  "get_current_user_info env ctx g = (case get_current_user_from_request ctx of
     Inl e \<Rightarrow> Inl e
   | Inr u \<Rightarrow> (case find_user (uc_user_id u) g of
       None \<Rightarrow> Inl (Http (HTTPException 404 ''User not found''))
     | Some user \<Rightarrow> Inr (u, us_created_at user, \<not> is_external_mode env \<and> us_totp_enabled user)))"

definition permissions_endpoint :: "user_context option \<Rightarrow> auth_fail + string list \<times> string list" where
  "permissions_endpoint ctx = (case get_current_user_from_request ctx of
     Inl e \<Rightarrow> Inl e | Inr u \<Rightarrow> Inr (uc_permissions u, get_allowed_models u))"

definition totp_setup :: "auth_env \<Rightarrow> user_context option \<Rightarrow> string \<Rightarrow> gateway \<Rightarrow> gateway \<times> (auth_fail + string)" where
  "totp_setup env ctx secret = local_only env (with_user ctx (\<lambda>u g.
     case find_user (uc_user_id u) g of
       None \<Rightarrow> (g, Inl (Http (HTTPException 404 ''User not found'')))
     | Some _ \<Rightarrow> (update_user (uc_user_id u) (\<lambda>x. x\<lparr>us_totp_pending_secret := Some secret\<rparr>) g, Inr secret)))"

definition totp_verify :: "auth_env \<Rightarrow> user_context option \<Rightarrow> string \<Rightarrow> gateway \<Rightarrow> gateway \<times> (auth_fail + string)" where
  "totp_verify env ctx code = local_only env (with_user ctx (\<lambda>u g.
     case (case find_user (uc_user_id u) g of None \<Rightarrow> None | Some x \<Rightarrow> nonempty_str (us_totp_pending_secret x)) of
       None \<Rightarrow> (g, Inl (Http (HTTPException 400 ''TOTP setup not requested'')))
     | Some secret \<Rightarrow> if \<not> av_totp env secret code then (g, Inl (Http (HTTPException 400 ''Invalid Code'')))
        else (audit (Some (uc_user_id u)) (uc_org_id u) ''user.2fa_enabled'' (Some ''user'') (Some (uc_user_id u)) [] ''success''
               (update_user (uc_user_id u) (\<lambda>x. x\<lparr>us_totp_secret := Some secret, us_totp_pending_secret := None,
                  us_totp_enabled := True\<rparr>) g), Inr ''enabled'')))"

definition totp_disable :: "auth_env \<Rightarrow> user_context option \<Rightarrow> gateway \<Rightarrow> gateway \<times> (auth_fail + string)" where
  "totp_disable env ctx = local_only env (with_user ctx (\<lambda>u g.
     case find_user (uc_user_id u) g of
       None \<Rightarrow> (g, Inl (Http (HTTPException 404 ''User not found'')))
     | Some _ \<Rightarrow> (audit (Some (uc_user_id u)) (uc_org_id u) ''user.2fa_disabled'' (Some ''user'') (Some (uc_user_id u)) [] ''success''
          (update_user (uc_user_id u) (\<lambda>x. x\<lparr>us_totp_enabled := False, us_totp_secret := None\<rparr>) g), Inr ''disabled'')))"

section \<open>Roles and members\<close>

definition validate_permissions :: "string list \<Rightarrow> auth_fail + string list" where
  "validate_permissions ps = (case normalize_permissions ps of (normalized, _, invalid) \<Rightarrow>
     if invalid \<noteq> [] then Inl (Http (HTTPException 400 (''Invalid permissions: '' @ join_with '', '' invalid))) else Inr normalized)"

definition find_role :: "string \<Rightarrow> gateway \<Rightarrow> role_row option" where
  "find_role name g = find (\<lambda>r. ro_name r = name) (gw_roles g)"

definition list_roles :: "auth_env \<Rightarrow> user_context option \<Rightarrow> nat \<Rightarrow> nat \<Rightarrow> gateway \<Rightarrow> gateway \<times> (auth_fail + role_row list)" where
  "list_roles env ctx skip limit = local_only env (with_permission ctx ROLE_LIST
     (\<lambda>u g. (g, Inr (take limit (drop skip (gw_roles g))))))"

definition create_role :: "auth_env \<Rightarrow> user_context option \<Rightarrow> role_row \<Rightarrow> gateway \<Rightarrow> gateway \<times> (auth_fail + role_row)" where
  "create_role env ctx r = local_only env (with_permission ctx ROLE_CREATE (\<lambda>u g.
     if find_role (ro_name r) g \<noteq> None then (g, Inl (Http (HTTPException 400 ''Role already exists'')))
     else case validate_permissions (ro_permissions r) of
       Inl e \<Rightarrow> (g, Inl e)
     | Inr ps \<Rightarrow> (let row = r\<lparr>ro_permissions := ps\<rparr> in (g\<lparr>gw_roles := gw_roles g @ [row]\<rparr>, Inr row))))"

definition put_role :: "role_row \<Rightarrow> gateway \<Rightarrow> gateway" where
  "put_role row g = g\<lparr>gw_roles := sql_update (\<lambda>r. ro_name r = ro_name row) (\<lambda>_. row) (gw_roles g)\<rparr>"

definition update_role :: "auth_env \<Rightarrow> user_context option \<Rightarrow> string \<Rightarrow> string option \<Rightarrow> string list option \<Rightarrow> gateway
    \<Rightarrow> gateway \<times> (auth_fail + role_row)" where
  "update_role env ctx name desc perms = local_only env (with_permission ctx ROLE_UPDATE (\<lambda>u g.
     case find_role name g of
       None \<Rightarrow> (g, Inl (Http (HTTPException 404 ''Role not found'')))
     | Some role \<Rightarrow>
        (let role1 = (case desc of None \<Rightarrow> role | Some t \<Rightarrow> role\<lparr>ro_description := Some t\<rparr>)
         in case perms of
              None \<Rightarrow> (put_role role1 g, Inr role1)
            | Some ps \<Rightarrow> (case validate_permissions ps of
                Inl e \<Rightarrow> (g, Inl e)
              | Inr qs \<Rightarrow> (let role2 = role1\<lparr>ro_permissions := qs\<rparr> in (put_role role2 g, Inr role2))))))"

definition delete_role :: "auth_env \<Rightarrow> user_context option \<Rightarrow> string \<Rightarrow> gateway \<Rightarrow> gateway \<times> (auth_fail + string)" where
  "delete_role env ctx name = local_only env (with_permission ctx ROLE_DELETE (\<lambda>u g.
     case find_role name g of
       None \<Rightarrow> (g, Inl (Http (HTTPException 404 ''Role not found'')))
     | Some role \<Rightarrow>
        if name = ''admin'' \<or> name = ''member'' then (g, Inl (Http (HTTPException 400 ''Cannot delete default system roles'')))
        else (g\<lparr>gw_roles := sql_delete (\<lambda>r. ro_name r = name) (gw_roles g)\<rparr>, Inr ''Role deleted'')))"

definition list_available_permissions :: "auth_env \<Rightarrow> user_context option \<Rightarrow> gateway \<Rightarrow> gateway \<times> (auth_fail + string list)" where
  "list_available_permissions env ctx = local_only env (with_permission ctx ROLE_LIST
     (\<lambda>u g. (g, Inr (map permission_value all_permissions))))"

definition list_users :: "auth_env \<Rightarrow> user_context option \<Rightarrow> nat \<Rightarrow> nat \<Rightarrow> gateway \<Rightarrow> gateway \<times> (auth_fail + (gw_user \<times> string) list)" where
  "list_users env ctx skip limit = local_only env (with_permission ctx MEMBER_LIST (\<lambda>u g.
     (g, Inr (take limit (drop skip (concat (map (\<lambda>x. map (\<lambda>m. (x, uo_role m))
        (filter (\<lambda>m. uo_user_id m = us_id x \<and> Some (uo_org_id m) = uc_org_id u) (gw_members g))) (gw_users g))))))))"

definition set_member_role :: "string \<Rightarrow> string \<Rightarrow> string \<Rightarrow> gateway \<Rightarrow> gateway" where
  "set_member_role uid org role g = g\<lparr>gw_members :=
     sql_update (\<lambda>m. uo_user_id m = uid \<and> uo_org_id m = org) (\<lambda>m. m\<lparr>uo_role := role\<rparr>) (gw_members g)\<rparr>"

definition update_user_role :: "auth_env \<Rightarrow> user_context option \<Rightarrow> string \<Rightarrow> string \<Rightarrow> gateway \<Rightarrow> gateway \<times> (auth_fail + string)" where
  "update_user_role env ctx uid role = local_only env (with_permission ctx ROLE_UPDATE (\<lambda>u g.
     if find_role role g = None then (g, Inl (Http (HTTPException 400 (''Role '' @ [CHR 0x27] @ role @ [CHR 0x27] @ '' does not exist''))))
     else case (case uc_org_id u of None \<Rightarrow> None | Some org \<Rightarrow> find_membership uid org g) of
       None \<Rightarrow> (g, Inl (Http (HTTPException 404 ''User not found in this organization'')))
     | Some m \<Rightarrow> (set_member_role uid (uo_org_id m) role g, Inr ''User role updated'')))"

section \<open>The constraints of the tables\<close>

text \<open>What the primary keys, unique constraints and foreign keys of the tables say, and that e-mails differ up to case.\<close>

definition gateway_wf :: "gateway \<Rightarrow> bool" where
  "gateway_wf g \<longleftrightarrow> distinct (map us_id (gw_users g)) \<and> distinct (map (\<lambda>u. py_lower (us_email u)) (gw_users g)) \<and>
     distinct (map (\<lambda>m. (uo_user_id m, uo_org_id m)) (gw_members g)) \<and> distinct (map ro_name (gw_roles g)) \<and>
     (\<forall>m \<in> set (gw_members g). uo_user_id m \<in> us_id ` set (gw_users g) \<and> uo_org_id m \<in> og_id ` set (gw_orgs g)) \<and>
     (\<forall>i \<in> set (gw_invitations g). iv_org_id i \<in> og_id ` set (gw_orgs g)) \<and>
     (\<forall>o' \<in> set (gw_orgs g). og_id o' \<noteq> [])"

definition fresh_user :: "string \<Rightarrow> gateway \<Rightarrow> bool" where
  "fresh_user nid g \<longleftrightarrow> nid \<notin> us_id ` set (gw_users g)"

lemma lower_char_idem [simp]: "lower_char (lower_char c) = lower_char c"
  by (cases "lower_char c = c") (auto simp: lower_char_def Let_def split: if_splits)

lemma py_lower_idem [simp]: "py_lower (py_lower s) = py_lower s"
  by (simp add: py_lower_def)

lemma find_None_iff_set: "find p xs = None \<longleftrightarrow> (\<forall>x \<in> set xs. \<not> p x)"
  by (induction xs) auto

lemma find_by_key: "distinct (map k xs) \<Longrightarrow> x \<in> set xs \<Longrightarrow> find (\<lambda>y. k y = k x) xs = Some x"
  by (induction xs) (auto simp: image_iff)

lemma wf_frame:
  assumes "gw_users g' = gw_users g" "gw_members g' = gw_members g" "gw_roles g' = gw_roles g"
    "gw_invitations g' = gw_invitations g" "gw_orgs g' = gw_orgs g"
  shows "gateway_wf g' = gateway_wf g"
  using assms by (simp add: gateway_wf_def)

lemma wf_audit [simp]: "gateway_wf (audit u o' a rt ri dt st g) = gateway_wf g"
  by (rule wf_frame) simp_all

lemma wf_log_failed [simp]: "gateway_wf (log_failed_login n g) = gateway_wf g"
  by (simp add: log_failed_login_def)

lemma wf_stores [simp]:
  "gateway_wf (g\<lparr>gw_login_store := s\<rparr>) = gateway_wf g" "gateway_wf (g\<lparr>gw_register_store := s\<rparr>) = gateway_wf g"
  "gateway_wf (g\<lparr>gw_now := t\<rparr>) = gateway_wf g"
  by (rule wf_frame; simp)+

lemma wf_add_user:
  assumes "gateway_wf g" "fresh_user (us_id u) g" "find_email (py_lower (us_email u)) g = None"
  shows "gateway_wf (g\<lparr>gw_users := gw_users g @ [u]\<rparr>)"
  using assms by (auto simp: gateway_wf_def fresh_user_def find_email_def find_None_iff_set)

lemma wf_add_member:
  assumes "gateway_wf g" "find_membership uid org g = None" "uid \<in> us_id ` set (gw_users g)" "org \<in> og_id ` set (gw_orgs g)"
  shows "gateway_wf (add_member uid org role g)"
  using assms by (auto simp: gateway_wf_def add_member_def find_membership_def find_None_iff_set)

lemma wf_mark_accepted: "gateway_wf g \<Longrightarrow> gateway_wf (mark_accepted i g)"
  by (auto simp: gateway_wf_def mark_accepted_def in_sql_update)

lemma wf_update_user:
  assumes "gateway_wf g" "\<And>u. us_id (f u) = us_id u" "\<And>u. us_email (f u) = us_email u"
  shows "gateway_wf (update_user uid f g)"
proof -
  have "map us_id (sql_update (\<lambda>u. us_id u = uid) f (gw_users g)) = map us_id (gw_users g)"
    "map (\<lambda>u. py_lower (us_email u)) (sql_update (\<lambda>u. us_id u = uid) f (gw_users g)) = map (\<lambda>u. py_lower (us_email u)) (gw_users g)"
    using assms(2,3) by (simp_all add: sql_update_map)
  moreover from this(1) have "us_id ` set (sql_update (\<lambda>u. us_id u = uid) f (gw_users g)) = us_id ` set (gw_users g)"
    by (metis list.set_map)
  ultimately show ?thesis using assms(1) by (simp add: gateway_wf_def update_user_def)
qed

lemma wf_set_member_role: "gateway_wf g \<Longrightarrow> gateway_wf (set_member_role uid org role g)"
  by (auto simp: gateway_wf_def set_member_role_def sql_update_map in_sql_update)

lemma wf_put_role: "gateway_wf g \<Longrightarrow> gateway_wf (put_role row g)"
  by (simp add: gateway_wf_def put_role_def sql_update_map)

lemma wf_delete_role: "gateway_wf g \<Longrightarrow> gateway_wf (g\<lparr>gw_roles := sql_delete p (gw_roles g)\<rparr>)"
  by (simp add: gateway_wf_def sql_delete_def distinct_map_filter)

lemma wf_add_role: "gateway_wf g \<Longrightarrow> find_role (ro_name r) g = None \<Longrightarrow> gateway_wf (g\<lparr>gw_roles := gw_roles g @ [r]\<rparr>)"
  by (auto simp: gateway_wf_def find_role_def find_None_iff_set)

lemma local_only_cases:
  "local_only env h g = (g', r) \<Longrightarrow> (g' = g \<and> is_external_mode env) \<or> (h g = (g', r) \<and> \<not> is_external_mode env)"
  by (auto simp: local_only_def require_local_identity_def split: if_splits)

lemma with_user_cases: "with_user ctx h g = (g', r) \<Longrightarrow> g' = g \<or> (\<exists>u. ctx = Some u \<and> h u g = (g', r))"
  by (auto simp: with_user_def get_current_user_from_request_def split: option.splits)

lemma with_permission_cases:
  "with_permission ctx p h g = (g', r) \<Longrightarrow> g' = g \<or> (\<exists>u. ctx = Some u \<and> has_permission u p \<and> h u g = (g', r))"
  by (auto simp: with_permission_def require_permission_def dest!: with_user_cases split: if_splits)

lemma authenticate_in:
  assumes "authenticate_user env n pw g = Some u"
  shows "u \<in> set (gw_users g)" "av_checkpw env pw (us_password_hash u)" "py_lower (us_email u) = py_lower (py_strip n)"
  using assms by (auto simp: authenticate_user_def split: option.splits if_splits dest: find_in)

lemma user_orgs_iff:
  "(m, o') \<in> set (user_orgs uid g) \<longleftrightarrow> m \<in> set (gw_members g) \<and> uo_user_id m = uid \<and> o' \<in> set (gw_orgs g) \<and> og_id o' = uo_org_id m"
  by (auto simp: user_orgs_def)

lemma no_orgs_no_member:
  assumes "user_orgs uid g = []" "o' \<in> set (gw_orgs g)"
  shows "find_membership uid (og_id o') g = None"
proof (cases "find_membership uid (og_id o') g")
  case (Some m)
  with assms(2) have "(m, o') \<in> set (user_orgs uid g)" by (auto simp: user_orgs_iff dest: find_membership_in)
  with assms(1) show ?thesis by simp
qed

lemma wf_auto_join: "gateway_wf g \<Longrightarrow> u \<in> set (gw_users g) \<Longrightarrow> gateway_wf (auto_join u g)"
  by (auto simp: auto_join_def split: list.splits intro!: wf_add_member no_orgs_no_member)

lemma auto_join_frame [simp]: "gw_users (auto_join u g) = gw_users g" "gw_orgs (auto_join u g) = gw_orgs g" "gw_now (auto_join u g) = gw_now g"
  by (auto simp: auto_join_def add_member_def split: list.splits)

lemma wf_login_user: "login_user env n pw g = (g', r) \<Longrightarrow> gateway_wf g \<Longrightarrow> gateway_wf g'"
  by (auto simp: login_user_def Let_def split: option.splits if_splits prod.splits
      dest!: authenticate_in(1) intro: wf_auto_join)

lemma wf_shadow_user:
  assumes "gateway_wf g" "fresh_user nid g"
  shows "gateway_wf (fst (get_or_create_shadow_user nid email g))"
  using assms wf_add_user [of g "new_user nid (py_lower (py_strip email)) EXTERNAL_PASSWORD_PLACEHOLDER None (gw_now g)"]
  by (auto simp: get_or_create_shadow_user_def Let_def new_user_def split: option.splits)

lemma wf_login:
  assumes "login env client r nid g = (g', res)" "gateway_wf g" "fresh_user nid g"
  shows "gateway_wf g'"
proof -
  define g1 where "g1 = g\<lparr>gw_login_store := fst (auth_is_allowed login_rate_limiter (lr_username r) (client_host client)
    (of_int (gw_now g)) (gw_login_store g))\<rparr>"
  have wf1: "gateway_wf g1" and fresh1: "fresh_user nid g1"
    using assms(2,3) by (simp_all add: g1_def fresh_user_def)
  have "gateway_wf (fst (login_external env r nid g1))"
    using wf1 fresh1 by (auto simp: login_external_def wf_shadow_user split: sum.splits option.splits)
  then show ?thesis
    using assms(1,2) wf1 unfolding login_def Let_def split_def g1_def [symmetric]
    by (auto split: if_splits option.splits dest: wf_login_user)
qed

lemma check_invite_in: "check_invite token g = Inr i \<Longrightarrow> i \<in> set (gw_invitations g) \<and> iv_token i = token \<and> iv_accepted_at i = None \<and> gw_now g \<le> iv_expires_at i"
  unfolding check_invite_def find_invite_def by (auto split: option.splits if_splits dest: find_in)

lemma wf_register_invite:
  assumes "register_invite env client token pw nid g = (g', res)" "gateway_wf g" "fresh_user nid g"
  shows "gateway_wf g'"
proof -
  define g1 where "g1 = g\<lparr>gw_register_store := fst (auth_is_allowed register_rate_limiter ''invite'' (client_host client)
    (of_int (gw_now g)) (gw_register_store g))\<rparr>"
  have wf1: "gateway_wf g1" and fresh1: "fresh_user nid g1"
    using assms(2,3) by (simp_all add: g1_def fresh_user_def)
  have add: "gateway_wf (mark_accepted i (add_member nid (iv_org_id i) (iv_role i)
      (g1\<lparr>gw_users := gw_users g1 @ [new_user nid (iv_email i) h org now]\<rparr>)))"
    if i: "check_invite token g1 = Inr i" and e: "find_email (py_lower (iv_email i)) g1 = None" for i h org now
  proof (intro wf_mark_accepted wf_add_member wf_add_user)
    show "find_membership nid (iv_org_id i) (g1\<lparr>gw_users := gw_users g1 @ [new_user nid (iv_email i) h org now]\<rparr>) = None"
      using wf1 fresh1 by (auto simp: find_membership_def find_None_iff_set gateway_wf_def fresh_user_def)
    show "iv_org_id i \<in> og_id ` set (gw_orgs (g1\<lparr>gw_users := gw_users g1 @ [new_user nid (iv_email i) h org now]\<rparr>))"
      using wf1 check_invite_in [OF i] by (simp add: gateway_wf_def)
  qed (use wf1 fresh1 e in \<open>simp_all add: new_user_def\<close>)
  show ?thesis
    using local_only_cases [OF assms(1) [unfolded register_invite_def]] wf1 assms(2) add
    unfolding Let_def split_def g1_def [symmetric]
    by (auto split: if_splits sum.splits option.splits)
qed

lemma wf_accept_invitation:
  assumes run: "accept_invitation env ctx token g = (g', res)" and wf: "gateway_wf g"
  shows "gateway_wf g'"
proof -
  have key: "gateway_wf (mark_accepted i (add_member (uc_user_id u) (iv_org_id i) (iv_role i) g))"
    if "check_invite token g = Inr i" "find_membership (uc_user_id u) (iv_org_id i) g = None" "find_user (uc_user_id u) g = Some y" for i u y
    using that wf find_user_in [OF that(3)] check_invite_in [OF that(1)]
    by (intro wf_mark_accepted wf_add_member) (auto simp: gateway_wf_def intro: rev_image_eqI)
  have "gateway_wf (fst (accept_invitation env ctx token g))"
    using wf by (auto simp: accept_invitation_def local_only_def with_user_def Let_def wf_mark_accepted
        split: sum.split option.split intro: key)
  with run show ?thesis by simp
qed

lemma wf_switch_organization: "switch_organization env ctx org g = (g', res) \<Longrightarrow> gateway_wf g \<Longrightarrow> gateway_wf g'"
  unfolding switch_organization_def Let_def
  by (auto dest!: local_only_cases with_user_cases split: option.splits intro!: wf_update_user)

lemma wf_totp:
  "totp_setup env ctx s g = (g', res) \<Longrightarrow> gateway_wf g \<Longrightarrow> gateway_wf g'"
  "totp_verify env ctx s g = (g', res) \<Longrightarrow> gateway_wf g \<Longrightarrow> gateway_wf g'"
  "totp_disable env ctx g = (g', res) \<Longrightarrow> gateway_wf g \<Longrightarrow> gateway_wf g'"
  unfolding totp_setup_def totp_verify_def totp_disable_def
  by (auto dest!: local_only_cases with_user_cases split: option.splits if_splits intro!: wf_update_user)

lemma wf_roles:
  "create_role env ctx r g = (g', res1) \<Longrightarrow> gateway_wf g \<Longrightarrow> gateway_wf g'"
  "update_role env ctx name desc perms g = (g', res1) \<Longrightarrow> gateway_wf g \<Longrightarrow> gateway_wf g'"
  "delete_role env ctx name g = (g', res2) \<Longrightarrow> gateway_wf g \<Longrightarrow> gateway_wf g'"
  "update_user_role env ctx uid name g = (g', res2) \<Longrightarrow> gateway_wf g \<Longrightarrow> gateway_wf g'"
  unfolding create_role_def update_role_def delete_role_def update_user_role_def Let_def
  by (auto dest!: local_only_cases with_permission_cases split: option.splits if_splits sum.splits
      intro!: wf_add_role wf_put_role wf_delete_role wf_set_member_role)

text \<open>The operations of the identity routers, in any order, and the passing of time.\<close>

inductive auth_step :: "auth_env \<Rightarrow> gateway \<Rightarrow> gateway \<Rightarrow> bool" for env where
  "login env client r nid g = (g', res) \<Longrightarrow> fresh_user nid g \<Longrightarrow> auth_step env g g'"
| "register_invite env client token pw nid g = (g', res) \<Longrightarrow> fresh_user nid g \<Longrightarrow> auth_step env g g'"
| "accept_invitation env ctx token g = (g', res) \<Longrightarrow> auth_step env g g'"
| "switch_organization env ctx org g = (g', res) \<Longrightarrow> auth_step env g g'"
| "totp_setup env ctx secret g = (g', ok) \<Longrightarrow> auth_step env g g'"
| "totp_verify env ctx code g = (g', ok) \<Longrightarrow> auth_step env g g'"
| "totp_disable env ctx g = (g', ok) \<Longrightarrow> auth_step env g g'"
| "create_role env ctx row g = (g', role) \<Longrightarrow> auth_step env g g'"
| "update_role env ctx name desc perms g = (g', role) \<Longrightarrow> auth_step env g g'"
| "delete_role env ctx name g = (g', ok) \<Longrightarrow> auth_step env g g'"
| "update_user_role env ctx uid name g = (g', ok) \<Longrightarrow> auth_step env g g'"
| "gw_now g \<le> t \<Longrightarrow> auth_step env g (g\<lparr>gw_now := t\<rparr>)"

interpretation gwi: inv_system gateway_wf "auth_step env" gateway_wf for env
proof
  fix g g' assume "gateway_wf g" "auth_step env g g'"
  from this(2,1) show "gateway_wf g'"
    by (cases rule: auth_step.cases) (auto dest: wf_login wf_register_invite wf_accept_invitation wf_switch_organization wf_totp wf_roles)
qed

section \<open>Tokens\<close>

lemma decode_access_token:
  assumes "jwt_laws (av_jwt env)" "now < t + 60 * av_access_minutes env"
  shows "decode_token env now (create_access_token env t user org role) ''access'' =
    Inr \<lparr>tp_sub = us_id user, tp_exp = t + 60 * av_access_minutes env, tp_iat = t, tp_type = ''access'', tp_roles = [role], tp_org_id = Some org\<rparr>"
proof -
  let ?p = "[(''sub'', JStr (us_id user)), (''username'', JStr (us_email user)), (''email'', JStr (us_email user)),
      (''exp'', JInt (t + 60 * av_access_minutes env)), (''iat'', JInt t), (''type'', JStr ''access''),
      (''roles'', JArr [JStr role]), (''org_id'', JStr org)]"
  have "jget ?p ''exp'' = JInt (t + 60 * av_access_minutes env)" by (simp add: jget_def)
  with assms have "jl_decode (av_jwt env) now (jl_encode (av_jwt env) ?p (av_secret_key env) (av_algorithm env)) (av_secret_key env) (av_algorithm env) = Inr ?p"
    unfolding jwt_laws_def by blast
  then show ?thesis by (simp add: decode_token_def create_access_token_def parse_payload_def jget_def str_list_def)
qed

lemma decode_refresh_token:
  assumes "jwt_laws (av_jwt env)" "now < t + 86400 * av_refresh_days env"
  shows "decode_token env now (create_refresh_token env t user org) expected =
    (if expected \<noteq> [] \<and> expected \<noteq> ''refresh'' then Inl (Http (HTTPException 401 (''Invalid token type: expected '' @ expected)))
     else Inr \<lparr>tp_sub = us_id user, tp_exp = t + 86400 * av_refresh_days env, tp_iat = t, tp_type = ''refresh'', tp_roles = [],
       tp_org_id = or_str org (us_default_org_id user)\<rparr>)"
proof -
  let ?p = "[(''sub'', JStr (us_id user)), (''exp'', JInt (t + 86400 * av_refresh_days env)), (''iat'', JInt t),
      (''type'', JStr ''refresh''), (''org_id'', jopt (or_str org (us_default_org_id user)))]"
  have "jget ?p ''exp'' = JInt (t + 86400 * av_refresh_days env)" by (simp add: jget_def)
  with assms have "jl_decode (av_jwt env) now (jl_encode (av_jwt env) ?p (av_secret_key env) (av_algorithm env)) (av_secret_key env) (av_algorithm env) = Inr ?p"
    unfolding jwt_laws_def by blast
  then show ?thesis
    by (auto simp: decode_token_def create_refresh_token_def parse_payload_def jget_def jopt_def split: option.split)
qed

lemma select_org_in:
  assumes "orgs \<noteq> []" "\<forall>mo \<in> set orgs. og_id (snd mo) = uo_org_id (fst mo)"
  shows "\<exists>mo \<in> set orgs. select_org d orgs = (uo_org_id (fst mo), uo_role (fst mo))"
proof -
  define I where "I = (\<lambda>acc. case acc of (target, role, found) \<Rightarrow> found \<longrightarrow>
    (\<exists>mo \<in> set orgs. target = Some (uo_org_id (fst mo)) \<and> role = uo_role (fst mo)))"
  have step: "I acc \<Longrightarrow> mo \<in> set orgs \<Longrightarrow> I (pick_org acc mo)" for acc mo
    using assms(2) by (cases acc) (auto simp: I_def pick_org_def)
  have "set xs \<subseteq> set orgs \<Longrightarrow> I acc \<Longrightarrow> I (foldl pick_org acc xs)" for xs acc
    by (induction xs arbitrary: acc) (auto simp: step)
  then have "I (foldl pick_org (d, ''member'', False) orgs)" by (auto simp: I_def)
  moreover have "hd orgs \<in> set orgs" using assms(1) by simp
  ultimately show ?thesis
    using assms(2) unfolding select_org_def I_def by (auto split: prod.splits option.splits bool.splits)
qed

lemma membership_found:
  assumes "gateway_wf g" "m \<in> set (gw_members g)"
  shows "find_membership (uo_user_id m) (uo_org_id m) g = Some m"
  using find_by_key [of "\<lambda>m. (uo_user_id m, uo_org_id m)" "gw_members g" m] assms
  by (simp add: gateway_wf_def find_membership_def)

lemma user_found: "gateway_wf g \<Longrightarrow> u \<in> set (gw_users g) \<Longrightarrow> find_user (us_id u) g = Some u"
  by (simp add: gateway_wf_def find_user_def find_by_key)

text \<open>The tokens of a member resolve to the membership until they expire.\<close>

lemma access_token_resolves:
  assumes "jwt_laws (av_jwt env)" "gw_now g < t + 60 * av_access_minutes env" "gateway_wf g" "m \<in> set (gw_members g)"
    and "u \<in> set (gw_users g)" "us_id u = uo_user_id m" "us_id u' = us_id u"
  shows "get_current_user env (create_access_token env t u' (uo_org_id m) r) g = Inr (u, uo_org_id m, [uo_role m])"
proof -
  have "uo_org_id m \<noteq> []" using assms(3,4) unfolding gateway_wf_def by fastforce
  then show ?thesis
    using decode_access_token [OF assms(1,2)] user_found [OF assms(3,5)] membership_found [OF assms(3,4)] assms(6,7)
    by (simp add: get_current_user_def nonempty_str_def)
qed

section \<open>Properties\<close>

text \<open>A small installation: two organizations, one with a member and an open invitation.\<close>

definition demo_env :: auth_env where
  "demo_env = \<lparr>av_jwt = unary_jwt, av_secret_key = ''k'', av_algorithm = ''HS256'', av_access_minutes = 30, av_refresh_days = 7,
     av_checkpw = (\<lambda>p h. h = ''#'' @ p), av_hashpw = (\<lambda>p. ''#'' @ p), av_totp = (\<lambda>s c. c = s), av_enable_2fa = True,
     av_mode = ''local'', av_external_auth_url = None, av_superadmin_email = None,
     av_external_login = (\<lambda>u p. Inr None), av_external_refresh = (\<lambda>t. Inr None)\<rparr>"

definition demo_user :: gw_user where
  "demo_user = new_user ''u1'' ''ann@x'' ''#pw'' (Some ''o1'') 0"

definition demo_gateway :: gateway where
  "demo_gateway = \<lparr>gw_users = [demo_user],
     gw_orgs = [\<lparr>og_id = ''o1'', og_name = ''One'', og_log_payloads = True\<rparr>, \<lparr>og_id = ''o2'', og_name = ''Two'', og_log_payloads = True\<rparr>],
     gw_members = [\<lparr>uo_user_id = ''u1'', uo_org_id = ''o1'', uo_role = ''admin'', uo_created_at = 0\<rparr>], gw_roles = [],
     gw_invitations = [\<lparr>iv_id = ''i1'', iv_email = ''bob@x'', iv_role = ''member'', iv_token = ''t1'', iv_org_id = ''o1'',
       iv_created_by = ''u1'', iv_created_at = 0, iv_expires_at = 1000, iv_accepted_at = None\<rparr>],
     gw_keys = [], gw_policies = [], gw_usage = [], gw_audit = [], gw_core = empty_db, gw_now = 100,
     gw_login_store = Map.empty, gw_register_store = Map.empty\<rparr>"

lemma demo_wf: "gateway_wf demo_gateway"
  by (simp add: gateway_wf_def demo_gateway_def demo_user_def new_user_def)

lemma demo_jwt: "jwt_laws (av_jwt demo_env)"
  by (simp add: demo_env_def unary_jwt_laws)



text \<open>
  Whatever a token claims about roles, the session it opens has the role of a membership in the tables: the token is of the
  access type, and a user whose membership of its organization is gone is refused.
\<close>

theorem session_follows_membership:
  assumes "get_current_user env token g = Inr (u, org, roles)"
  shows "(\<exists>p. decode_token env (gw_now g) token ''access'' = Inr p \<and> tp_type p = ''access'' \<and> tp_sub p = us_id u) \<and>
    u \<in> set (gw_users g) \<and> (\<exists>m. m \<in> set (gw_members g) \<and> uo_user_id m = us_id u \<and> uo_org_id m = org \<and> roles = [uo_role m])"
proof -
  from assms obtain p where p: "decode_token env (gw_now g) token ''access'' = Inr p" "find_user (tp_sub p) g = Some u"
    by (auto simp: get_current_user_def split: sum.splits option.splits)
  have "tp_type p = ''access''" using p(1) by (auto simp: decode_token_def split: sum.splits option.splits if_splits)
  moreover have "\<exists>m. m \<in> set (gw_members g) \<and> uo_user_id m = us_id u \<and> uo_org_id m = org \<and> roles = [uo_role m]"
    using assms p by (auto simp: get_current_user_def split: option.splits dest: find_membership_in first_membership_in)
  ultimately show ?thesis using p find_user_in [OF p(2)] by auto
qed

theorem session_follows_membership_witness:
  "get_current_user demo_env (create_access_token demo_env 100 demo_user ''o1'' ''owner'') demo_gateway = Inr (demo_user, ''o1'', [''admin'']) \<and>
    (\<exists>m. m \<in> set (gw_members demo_gateway) \<and> uo_user_id m = ''u1'' \<and> uo_org_id m = ''o1'' \<and> [''admin''] = [uo_role m])"
proof -
  have run: "get_current_user demo_env (create_access_token demo_env 100 demo_user ''o1'' ''owner'') demo_gateway = Inr (demo_user, ''o1'', [''admin''])"
    using access_token_resolves [OF demo_jwt _ demo_wf, where t = 100 and m = "hd (gw_members demo_gateway)" and u = demo_user and u' = demo_user and r = "''owner''"]
    by (simp add: demo_gateway_def demo_env_def demo_user_def new_user_def)
  show ?thesis using session_follows_membership [OF run] run by (auto simp: demo_user_def new_user_def)
qed

text \<open>A refresh token never opens a session: presented as an access token, it is refused for its type.\<close>

theorem refresh_token_opens_no_session:
  assumes "jwt_laws (av_jwt env)" "gw_now g < t + 86400 * av_refresh_days env"
  shows "get_current_user env (create_refresh_token env t user org) g = Inl (Http (HTTPException 401 ''Invalid token type: expected access''))"
  using decode_refresh_token [OF assms, of user org "''access''"] by (simp add: get_current_user_def)

theorem refresh_token_opens_no_session_witness:
  "get_current_user demo_env (create_refresh_token demo_env 100 demo_user (Some ''o1'')) demo_gateway
    = Inl (Http (HTTPException 401 ''Invalid token type: expected access''))"
  by (rule refresh_token_opens_no_session [OF demo_jwt]) (simp add: demo_env_def demo_gateway_def)

text \<open>An accepted invitation: every row with its token is accepted.\<close>

definition invite_spent :: "string \<Rightarrow> gateway \<Rightarrow> bool" where
  "invite_spent token g \<longleftrightarrow> token \<in> set (map iv_token (gw_invitations g)) \<and>
     (\<forall>i \<in> set (gw_invitations g). iv_token i = token \<longrightarrow> iv_accepted_at i \<noteq> None)"

lemma invite_spent_refused:
  assumes "invite_spent token g"
  shows "check_invite token g = Inl (Http (HTTPException 400 ''Invitation already accepted''))"
proof (cases "find_invite token g")
  case None
  with assms show ?thesis by (auto simp: invite_spent_def find_invite_def find_None_iff_set)
next
  case (Some i)
  with assms have "iv_accepted_at i \<noteq> None" unfolding find_invite_def invite_spent_def by (auto dest!: find_in)
  with Some show ?thesis by (simp add: check_invite_def)
qed

lemma spent_frame: "gw_invitations g' = gw_invitations g \<Longrightarrow> invite_spent token g' = invite_spent token g"
  by (simp add: invite_spent_def)

lemma mark_tokens: "map iv_token (gw_invitations (mark_accepted i g)) = map iv_token (gw_invitations g)"
  by (simp add: mark_accepted_def sql_update_map)

lemma mark_in: "j \<in> set (gw_invitations (mark_accepted i g)) \<longleftrightarrow>
    (\<exists>k \<in> set (gw_invitations g). j = (if iv_id k = iv_id i then k\<lparr>iv_accepted_at := Some (gw_now g)\<rparr> else k))"
  by (auto simp: mark_accepted_def in_sql_update)

lemma spent_mark: "invite_spent token g \<Longrightarrow> invite_spent token (mark_accepted i g)"
  unfolding invite_spent_def mark_tokens by (auto simp: mark_in)

lemma invitations_frame [simp]:
  "gw_invitations (log_failed_login n g) = gw_invitations g" "gw_invitations (add_member uid org role g) = gw_invitations g"
  "gw_invitations (auto_join u g) = gw_invitations g" "gw_invitations (update_user uid f g) = gw_invitations g"
  "gw_invitations (put_role row g) = gw_invitations g" "gw_invitations (set_member_role uid org role g) = gw_invitations g"
  "gw_invitations (fst (get_or_create_shadow_user nid email g)) = gw_invitations g"
  by (auto simp: log_failed_login_def add_member_def auto_join_def update_user_def put_role_def set_member_role_def
      get_or_create_shadow_user_def Let_def split: list.splits option.splits)

lemma login_invitations [simp]:
  "gw_invitations (fst (login_user env n pw g)) = gw_invitations g"
  "gw_invitations (fst (login_external env r nid g)) = gw_invitations g"
  by (auto simp: login_user_def login_external_def Let_def split_def split: option.split sum.split)

lemma login_invitations_frame: "gw_invitations (fst (login env client r nid g)) = gw_invitations g"
  by (simp add: login_def Let_def split_def split: option.split)

lemma spent_register: "invite_spent token g \<Longrightarrow> invite_spent token (fst (register_invite env client tk pw nid g))"
  unfolding register_invite_def local_only_def Let_def split_def
  by (simp add: spent_frame [of "audit _ _ _ _ _ _ _ _"] spent_mark spent_frame [of "add_member _ _ _ _"]
      spent_frame [of "gw_users_update _ _"] spent_frame [of "gw_register_store_update _ _"] split: sum.split option.split)

lemma spent_accept: "invite_spent token g \<Longrightarrow> invite_spent token (fst (accept_invitation env ctx tk g))"
  unfolding accept_invitation_def local_only_def with_user_def Let_def
  by (simp add: spent_frame [of "audit _ _ _ _ _ _ _ _"] spent_mark spent_frame [of "add_member _ _ _ _"]
      split: sum.split option.split)

lemma identity_invitations:
  "gw_invitations (fst (switch_organization env ctx org g)) = gw_invitations g"
  "gw_invitations (fst (totp_setup env ctx s g)) = gw_invitations g"
  "gw_invitations (fst (totp_verify env ctx s g)) = gw_invitations g"
  "gw_invitations (fst (totp_disable env ctx g)) = gw_invitations g"
  "gw_invitations (fst (create_role env ctx row g)) = gw_invitations g"
  "gw_invitations (fst (update_role env ctx nm ds ps g)) = gw_invitations g"
  "gw_invitations (fst (delete_role env ctx nm g)) = gw_invitations g"
  "gw_invitations (fst (update_user_role env ctx uid nm g)) = gw_invitations g"
  by (simp_all add: switch_organization_def totp_setup_def totp_verify_def totp_disable_def create_role_def update_role_def
      delete_role_def update_user_role_def local_only_def with_permission_def with_user_def Let_def split: sum.split option.split)

lemma spent_run: "f = (g', r) \<Longrightarrow> gw_invitations (fst f) = gw_invitations g \<Longrightarrow> invite_spent token g \<Longrightarrow> invite_spent token g'"
  by (drule arg_cong [where f = fst]) (simp add: invite_spent_def)

lemma invite_spent_step:
  assumes sp: "invite_spent token g" and st: "auth_step env g g'"
  shows "invite_spent token g'"
  using st
proof (cases rule: auth_step.cases)
  case (2 client tk pw nid res) then show ?thesis using spent_register [OF sp, of env client tk pw nid] by simp
next
  case (3 ctx tk res) then show ?thesis using spent_accept [OF sp, of env ctx tk] by simp
next
  case (12 t) then show ?thesis using sp spent_frame [of g' g] by simp
qed (erule spent_run, simp add: login_invitations_frame identity_invitations, rule sp)+

interpretation spi: inv_system "invite_spent token" "auth_step env" "invite_spent token" for env token
  by unfold_locales (auto intro: invite_spent_step)

lemma register_spends:
  assumes "register_invite env client token pw nid g = (g', Inr tok)" "distinct (map iv_token (gw_invitations g))"
  shows "invite_spent token g'"
proof -
  define g1 where "g1 = g\<lparr>gw_register_store := fst (auth_is_allowed register_rate_limiter ''invite'' (client_host client)
    (of_int (gw_now g)) (gw_register_store g))\<rparr>"
  from assms(1) obtain i g2 where i: "check_invite token g1 = Inr i" and g': "gw_invitations g' = gw_invitations (mark_accepted i g2)"
      and g2: "gw_invitations g2 = gw_invitations g"
    unfolding register_invite_def local_only_def Let_def split_def g1_def [symmetric]
    by (auto simp: g1_def split: sum.splits if_splits option.splits)
  have "i \<in> set (gw_invitations g)" "iv_token i = token" using check_invite_in [OF i] by (auto simp: g1_def)
  moreover have one: "j = i" if "j \<in> set (gw_invitations g)" "iv_token j = token" for j
    using that calculation assms(2) inj_on_eq_iff [of iv_token "set (gw_invitations g)" j i] by (simp add: distinct_map)
  have "iv_accepted_at j \<noteq> None" if "j \<in> set (gw_invitations (mark_accepted i g2))" "iv_token j = token" for j
  proof -
    from that(1) obtain k where "k \<in> set (gw_invitations g)" "j = (if iv_id k = iv_id i then k\<lparr>iv_accepted_at := Some (gw_now g2)\<rparr> else k)"
      by (auto simp: mark_in g2)
    with that(2) one [of k] show ?thesis by (cases "iv_id k = iv_id i") auto
  qed
  ultimately have "invite_spent token (mark_accepted i g2)"
    unfolding invite_spent_def mark_tokens by (auto simp: g2)
  then show ?thesis using spent_frame [OF g'] by simp
qed

text \<open>
  C20: An invitation registers at most one user: after a registration with its token, in every state the identity operations
  can reach, the token is refused as already accepted.
\<close>

theorem invitation_single_use:
  assumes "register_invite env client token pw nid g = (g', Inr tok)" "distinct (map iv_token (gw_invitations g))"
    and "rtranclp (auth_step env) g' g''"
  shows "check_invite token g'' = Inl (Http (HTTPException 400 ''Invitation already accepted''))"
  by (rule invite_spent_refused [OF spi.run_inv [OF assms(3) register_spends [OF assms(1,2)]]])

theorem invitation_single_use_witness:
  "\<exists>g' tok. register_invite demo_env None ''t1'' ''pw2'' ''u2'' demo_gateway = (g', Inr tok) \<and>
    check_invite ''t1'' g' = Inl (Http (HTTPException 400 ''Invitation already accepted''))"
proof -
  have ok: "isl (snd (register_invite demo_env None ''t1'' ''pw2'' ''u2'' demo_gateway)) = False"
    by code_simp
  obtain g' tok where run: "register_invite demo_env None ''t1'' ''pw2'' ''u2'' demo_gateway = (g', Inr tok)"
    using ok by (cases "register_invite demo_env None ''t1'' ''pw2'' ''u2'' demo_gateway";
      cases "snd (register_invite demo_env None ''t1'' ''pw2'' ''u2'' demo_gateway)") auto
  from invitation_single_use [OF run _ rtranclp.rtrancl_refl] run show ?thesis by (simp add: demo_gateway_def)
qed

text \<open>
  The identity providers the configuration admits do not restrict the password login: it runs as in local mode, for every
  user with a password, and never asks the external service.
\<close>

theorem password_login_ignores_provider:
  assumes "av_mode env \<in> {''local'', ''oidc'', ''inferiaauth''}"
  shows "login env client r nid g = login (env\<lparr>av_mode := ''local''\<rparr>) client r nid g"
proof -
  have "\<not> use_external env" "\<not> use_external (env\<lparr>av_mode := ''local''\<rparr>)" using assms by (auto simp: use_external_def)
  moreover have auth: "authenticate_user (env\<lparr>av_mode := ''local''\<rparr>) n pw g' = authenticate_user env n pw g'"
      and "totp_refusal (env\<lparr>av_mode := ''local''\<rparr>) u code = totp_refusal env u code"
      and tok: "issue (env\<lparr>av_mode := ''local''\<rparr>) now u org role os = issue env now u org role os" for n pw g' u code now org role os
    by (simp_all add: authenticate_user_def totp_refusal_def issue_def create_access_token_def create_refresh_token_def cong: option.case_cong)
  moreover have "login_user (env\<lparr>av_mode := ''local''\<rparr>) n pw g' = login_user env n pw g'" for n pw g'
    unfolding login_user_def auth tok ..
  ultimately show ?thesis by (simp add: login_def Let_def split_def cong: option.case_cong)
qed

theorem password_login_ignores_provider_witness:
  "\<not> isl (snd (login (demo_env\<lparr>av_mode := ''inferiaauth'', av_external_auth_url := Some ''http://idp''\<rparr>) None
      \<lparr>lr_username = ''ann@x'', lr_password = ''pw'', lr_totp_code = None\<rparr> ''u9'' demo_gateway))"
proof -
  let ?env = "demo_env\<lparr>av_mode := ''inferiaauth'', av_external_auth_url := Some ''http://idp''\<rparr>"
  have "\<not> isl (snd (login (?env\<lparr>av_mode := ''local''\<rparr>) None
      \<lparr>lr_username = ''ann@x'', lr_password = ''pw'', lr_totp_code = None\<rparr> ''u9'' demo_gateway))"
    by code_simp
  then show ?thesis by (subst password_login_ignores_provider) simp_all
qed

text \<open>
  The limit on login attempts is kept per spelling of the user name: a leading blank names the same account, and its attempts
  pass the limiter whatever those of the plain spelling have used up.
\<close>

theorem login_limit_evaded:
  assumes "gw_login_store g (get_key ('' '' @ n) (client_host client)) = None"
  shows "authenticate_user env ('' '' @ n) pw g = authenticate_user env n pw g \<and>
    fst (snd (auth_is_allowed login_rate_limiter ('' '' @ n) (client_host client) (of_int (gw_now g)) (gw_login_store g)))"
proof -
  have "py_strip ('' '' @ n) = py_strip n" by (simp add: py_strip_def is_space_def)
  with assms show ?thesis
    by (simp add: authenticate_user_def auth_is_allowed_def login_rate_limiter_def blocked_at_def Let_def)
qed

theorem login_limit_evaded_witness:
  "authenticate_user demo_env ('' '' @ ''ann@x'') ''pw'' demo_gateway = Some demo_user"
  using login_limit_evaded [of demo_gateway "''ann@x''" None demo_env "''pw''"]
  by (simp add: demo_gateway_def authenticate_user_def demo_env_def demo_user_def new_user_def py_lower_def lower_char_def py_strip_def is_space_def)

text \<open>
  C19: The tables keep their keys through any sequence of identity operations: identifiers, e-mails up to case, memberships and
  role names stay unique, and memberships and invitations keep naming users and organizations that exist.
\<close>

theorem identity_tables_wf:
  assumes "gateway_wf g" "rtranclp (auth_step env) g g'"
  shows "gateway_wf g'"
  by (rule gwi.run_inv [OF assms(2,1)])

theorem identity_tables_wf_witness:
  "gateway_wf (fst (register_invite demo_env None ''t1'' ''pw2'' ''u2'' demo_gateway))"
proof (rule identity_tables_wf [OF demo_wf])
  have "auth_step demo_env demo_gateway (fst (register_invite demo_env None ''t1'' ''pw2'' ''u2'' demo_gateway))"
    by (rule auth_step.intros(2) [OF prod.collapse [symmetric]]) (simp add: fresh_user_def demo_gateway_def demo_user_def new_user_def)
  then show "rtranclp (auth_step demo_env) demo_gateway (fst (register_invite demo_env None ''t1'' ''pw2'' ''u2'' demo_gateway))"
    by (rule r_into_rtranclp)
qed

end
