(* ===== verification/TtlCache.thy ===== *)
theory TtlCache
  imports Prelude
begin

text \<open>
  The expiring caches of the gateway come from a third-party library.  A cache is a value of an arbitrary type with a lookup
  and an insertion at a time; which entry an insertion evicts, and what a lookup does to the order of eviction, is left open.
\<close>

record ('k, 'v, 'c) ttl_cache =
  tc_get :: "int \<Rightarrow> 'k \<Rightarrow> 'c \<Rightarrow> 'v option"
  tc_put :: "int \<Rightarrow> 'k \<Rightarrow> 'v \<Rightarrow> 'c \<Rightarrow> 'c"

text \<open>
  The documented behaviour: an entry just put is returned until it is \<^verbatim>\<open>ttl\<close> old; whatever a lookup returns after an
  insertion is the entry put, while it is fresh, or what the cache returned before.
\<close>

definition ttl_laws :: "int \<Rightarrow> ('k, 'v, 'c) ttl_cache \<Rightarrow> bool" where
  "ttl_laws ttl tc \<longleftrightarrow> (\<forall>now t k v c. now \<le> t \<longrightarrow> t < now + ttl \<longrightarrow> tc_get tc t k (tc_put tc now k v c) = Some v) \<and>
     (\<forall>now t k k' v w c. now \<le> t \<longrightarrow> tc_get tc t k' (tc_put tc now k v c) = Some w \<longrightarrow>
        (k' = k \<and> w = v \<and> t < now + ttl) \<or> (k' \<noteq> k \<and> tc_get tc t k' c = Some w))"

lemma ttl_hit: "ttl_laws ttl tc \<Longrightarrow> now \<le> t \<Longrightarrow> t < now + ttl \<Longrightarrow> tc_get tc t k (tc_put tc now k v c) = Some v"
  by (simp add: ttl_laws_def)

lemma ttl_origin:
  assumes "ttl_laws ttl tc" "now \<le> t" "tc_get tc t k' (tc_put tc now k v c) = Some w"
  shows "(k' = k \<and> w = v \<and> t < now + ttl) \<or> (k' \<noteq> k \<and> tc_get tc t k' c = Some w)"
  using assms unfolding ttl_laws_def by blast

text \<open>A cache that never evicts.\<close>

definition list_cache :: "int \<Rightarrow> ('k, 'v, ('k \<times> int \<times> 'v) list) ttl_cache" where
  "list_cache ttl = \<lparr>tc_get = (\<lambda>now k c. case map_of c k of None \<Rightarrow> None | Some (e, v) \<Rightarrow> if now < e then Some v else None),
     tc_put = (\<lambda>now k v c. (k, now + ttl, v) # c)\<rparr>"

lemma list_cache_laws: "ttl_laws ttl (list_cache ttl)"
  by (auto simp: ttl_laws_def list_cache_def split: if_splits)

end
