(* ===== verification/CircuitBreaker.thy ===== *)
theory CircuitBreaker
  imports Prelude
begin

text \<open>
  \<^verbatim>\<open>common/circuit_breaker.py\<close>: the breaker with its lock-protected operations, the call wrapper and the registry.
  A protected call is two atomic operations with the call in between, so that calls may overlap;
  \<^verbatim>\<open>expected\<close> is the exception filter, times are the readings of \<^verbatim>\<open>time.time()\<close>.
\<close>

section \<open>The breaker\<close>

datatype circuit_state = CLOSED | OPEN | HALF_OPEN

record breaker =
  cb_failure_threshold :: int
  cb_recovery_timeout :: real
  cb_name :: string
  cb_state :: circuit_state
  cb_failure_count :: int
  cb_last_failure_time :: "real option"

definition new_breaker :: "int \<Rightarrow> real \<Rightarrow> string \<Rightarrow> breaker" where
  "new_breaker threshold timeout name = \<lparr>cb_failure_threshold = threshold, cb_recovery_timeout = timeout, cb_name = name,
     cb_state = CLOSED, cb_failure_count = 0, cb_last_failure_time = None\<rparr>"

text \<open>The time \<^verbatim>\<open>0.0\<close> is falsy, as None is.\<close>

definition cooled_down :: "real \<Rightarrow> breaker \<Rightarrow> bool" where
  "cooled_down now b = (case cb_last_failure_time b of None \<Rightarrow> False
     | Some t \<Rightarrow> t \<noteq> 0 \<and> now - t \<ge> cb_recovery_timeout b)"

definition can_execute :: "real \<Rightarrow> breaker \<Rightarrow> breaker \<times> bool" where
  "can_execute now b = (case cb_state b of
     CLOSED \<Rightarrow> (b, True)
   | OPEN \<Rightarrow> if cooled_down now b then (b\<lparr>cb_state := HALF_OPEN\<rparr>, True) else (b, False)
   | HALF_OPEN \<Rightarrow> (b, True))"

definition record_success :: "breaker \<Rightarrow> breaker" where
  "record_success b = (if cb_state b = HALF_OPEN
     then b\<lparr>cb_state := CLOSED, cb_failure_count := 0, cb_last_failure_time := None\<rparr>
     else b\<lparr>cb_failure_count := 0\<rparr>)"

definition record_failure :: "real \<Rightarrow> breaker \<Rightarrow> breaker" where
  "record_failure now b =
    (let b1 = b\<lparr>cb_failure_count := cb_failure_count b + 1, cb_last_failure_time := Some now\<rparr>
     in if cb_state b1 = HALF_OPEN then b1\<lparr>cb_state := OPEN\<rparr>
        else if cb_failure_count b1 \<ge> cb_failure_threshold b1 then b1\<lparr>cb_state := OPEN\<rparr>
        else b1)"

section \<open>A protected call\<close>

datatype 'e raised = CircuitBreakerError string | Passed 'e

definition open_message :: "breaker \<Rightarrow> string" where
  "open_message b = ''Circuit breaker '' @ [CHR 0x27] @ cb_name b @ [CHR 0x27] @ '' is OPEN - service unavailable''"

text \<open>What the wrapper does once the call has ended at \<^verbatim>\<open>now\<close>.\<close>

definition after_call :: "('e \<Rightarrow> bool) \<Rightarrow> real \<Rightarrow> 'e + 'a \<Rightarrow> breaker \<Rightarrow> breaker" where
  "after_call expected now r b = (case r of
     Inr x \<Rightarrow> record_success b
   | Inl e \<Rightarrow> if expected e then record_failure now b else b)"

definition wrapper :: "('e \<Rightarrow> bool) \<Rightarrow> real \<Rightarrow> real \<Rightarrow> 'e + 'a \<Rightarrow> breaker \<Rightarrow> breaker \<times> ('e raised + 'a)" where
  "wrapper expected start stop r b =
    (let (b1, ok) = can_execute start b
     in if \<not> ok then (b1, Inl (CircuitBreakerError (open_message b1)))
        else (after_call expected stop r b1, case r of Inl e \<Rightarrow> Inl (Passed e) | Inr x \<Rightarrow> Inr x))"

section \<open>The registry\<close>

type_synonym breaker_registry = "(string \<times> breaker) list"

definition get_or_create :: "string \<Rightarrow> int \<Rightarrow> real \<Rightarrow> breaker_registry \<Rightarrow> breaker_registry \<times> breaker" where
  "get_or_create name threshold timeout reg = (case map_of reg name of
     Some b \<Rightarrow> (reg, b)
   | None \<Rightarrow> let b = new_breaker threshold timeout name in (reg @ [(name, b)], b))"

definition state_value :: "circuit_state \<Rightarrow> string" where
  "state_value s = (case s of CLOSED \<Rightarrow> ''closed'' | OPEN \<Rightarrow> ''open'' | HALF_OPEN \<Rightarrow> ''half_open'')"

definition registry_status :: "breaker_registry \<Rightarrow> (string \<times> string \<times> int) list" where
  "registry_status reg = map (\<lambda>(name, b). (name, state_value (cb_state b), cb_failure_count b)) reg"

section \<open>The contract: a function of the history\<close>

text \<open>
  What a caller may rely on, without the state machine: the breaker refuses a call when the last completed calls
  are at least \<^verbatim>\<open>failure_threshold\<close> failures in a row and the last of them is more recent than
  \<^verbatim>\<open>recovery_timeout\<close>.  The history lists the completed calls, newest first.
\<close>

datatype outcome = Ok | Fail real

fun streak :: "outcome list \<Rightarrow> nat" where
  "streak (Fail t # h) = Suc (streak h)"
| "streak h = 0"

definition spec_refuses :: "int \<Rightarrow> real \<Rightarrow> outcome list \<Rightarrow> real \<Rightarrow> bool" where
  "spec_refuses threshold timeout h now \<longleftrightarrow> (case h of
     Fail t # _ \<Rightarrow> threshold \<le> int (streak h) \<and> now - t < timeout | _ \<Rightarrow> False)"

definition observed :: "('e \<Rightarrow> bool) \<Rightarrow> real \<Rightarrow> 'e + 'a \<Rightarrow> outcome list \<Rightarrow> outcome list" where
  "observed expected stop r h = (case r of
     Inr x \<Rightarrow> Ok # h | Inl e \<Rightarrow> if expected e then Fail stop # h else h)"

text \<open>Calls one after another: start, end and result of each; the verdicts of the breaker and of the contract.\<close>

fun run_breaker :: "('e \<Rightarrow> bool) \<Rightarrow> (real \<times> real \<times> ('e + 'a)) list \<Rightarrow> breaker \<Rightarrow> bool list" where
  "run_breaker expected [] b = []"
| "run_breaker expected ((start, stop, r) # cs) b =
    (let (b', res) = wrapper expected start stop r b
     in (case res of Inl (CircuitBreakerError m) \<Rightarrow> False | _ \<Rightarrow> True) # run_breaker expected cs b')"

fun run_spec :: "('e \<Rightarrow> bool) \<Rightarrow> int \<Rightarrow> real \<Rightarrow> (real \<times> real \<times> ('e + 'a)) list \<Rightarrow> outcome list \<Rightarrow> bool list" where
  "run_spec expected threshold timeout [] h = []"
| "run_spec expected threshold timeout ((start, stop, r) # cs) h =
    (if spec_refuses threshold timeout h start then False # run_spec expected threshold timeout cs h
     else True # run_spec expected threshold timeout cs (observed expected stop r h))"

text \<open>Times are positive and never run back.\<close>

fun ordered :: "real \<Rightarrow> (real \<times> real \<times> ('e + 'a)) list \<Rightarrow> bool" where
  "ordered t [] = (0 < t)"
| "ordered t ((start, stop, r) # cs) = (0 < t \<and> t \<le> start \<and> start \<le> stop \<and> ordered stop cs)"

definition tracks :: "int \<Rightarrow> real \<Rightarrow> breaker \<Rightarrow> outcome list \<Rightarrow> real \<Rightarrow> bool" where
  "tracks threshold timeout b h now \<longleftrightarrow>
     cb_failure_threshold b = threshold \<and> cb_recovery_timeout b = timeout \<and> cb_failure_count b = int (streak h)
     \<and> (case h of
          Fail t # _ \<Rightarrow> cb_last_failure_time b = Some t \<and> 0 < t \<and> t \<le> now
            \<and> (if int (streak h) < threshold then cb_state b = CLOSED
               else cb_state b = OPEN \<or> cb_state b = HALF_OPEN \<and> now - t \<ge> timeout)
        | _ \<Rightarrow> cb_state b = CLOSED)"

lemma tracks_new: "tracks threshold timeout (new_breaker threshold timeout name) [] now"
  by (simp add: tracks_def new_breaker_def)

lemma tracks_later: "tracks threshold timeout b h now \<Longrightarrow> now \<le> now' \<Longrightarrow> tracks threshold timeout b h now'"
  by (auto simp: tracks_def split: list.splits outcome.splits if_splits)

lemma can_execute_tracks:
  assumes "tracks threshold timeout b h now"
  shows "snd (can_execute now b) \<longleftrightarrow> \<not> spec_refuses threshold timeout h now"
    and "tracks threshold timeout (fst (can_execute now b)) h now"
    and "snd (can_execute now b) \<Longrightarrow> cb_state (fst (can_execute now b)) \<noteq> OPEN"
  using assms
  by (auto simp: tracks_def can_execute_def spec_refuses_def cooled_down_def
      split: list.splits outcome.splits if_splits circuit_state.splits)

lemma after_call_tracks:
  assumes "tracks threshold timeout b h now" "cb_state b \<noteq> OPEN" "now \<le> stop" "0 < stop"
  shows "tracks threshold timeout (after_call expected stop r b) (observed expected stop r h) stop"
  using assms
  by (auto simp: tracks_def after_call_def observed_def record_success_def record_failure_def Let_def
      split: list.splits outcome.splits if_splits sum.splits)

lemma wrapper_tracks:
  assumes "tracks threshold timeout b h start" "start \<le> stop" "0 < stop"
  shows "(\<exists>m. snd (wrapper expected start stop r b) = Inl (CircuitBreakerError m)) \<longleftrightarrow> spec_refuses threshold timeout h start"
    and "spec_refuses threshold timeout h start \<Longrightarrow> tracks threshold timeout (fst (wrapper expected start stop r b)) h stop"
    and "\<not> spec_refuses threshold timeout h start \<Longrightarrow>
      tracks threshold timeout (fst (wrapper expected start stop r b)) (observed expected stop r h) stop"
proof -
  note can = can_execute_tracks [OF assms(1)]
  show "(\<exists>m. snd (wrapper expected start stop r b) = Inl (CircuitBreakerError m)) \<longleftrightarrow> spec_refuses threshold timeout h start"
    using can(1) by (auto simp: wrapper_def split_def Let_def split: sum.splits)
  show "tracks threshold timeout (fst (wrapper expected start stop r b)) h stop" if "spec_refuses threshold timeout h start"
    using that can tracks_later assms(2) by (auto simp: wrapper_def split_def Let_def)
  show "tracks threshold timeout (fst (wrapper expected start stop r b)) (observed expected stop r h) stop"
    if "\<not> spec_refuses threshold timeout h start"
    using that can after_call_tracks [OF can(2) _ assms(2,3)] by (simp add: wrapper_def split_def Let_def)
qed

lemma run_tracks:
  assumes "tracks threshold timeout b h now" "ordered now cs"
  shows "run_breaker expected cs b = run_spec expected threshold timeout cs h"
  using assms
proof (induction cs arbitrary: b h now)
  case (Cons c cs)
  obtain start stop r where c: "c = (start, stop, r)" by (cases c) auto
  have times: "now \<le> start" "start \<le> stop" "0 < stop" "ordered stop cs" using Cons.prems c by auto
  note w = wrapper_tracks [OF tracks_later [OF Cons.prems(1) times(1)] times(2,3), of expected r]
  show ?case
  proof (cases "spec_refuses threshold timeout h start")
    case True
    then obtain m where "snd (wrapper expected start stop r b) = Inl (CircuitBreakerError m)" using w(1) by blast
    with True show ?thesis using Cons.IH [OF w(2) times(4)] c by (simp add: split_def Let_def)
  next
    case False
    then have "\<nexists>m. snd (wrapper expected start stop r b) = Inl (CircuitBreakerError m)" using w(1) by blast
    with False show ?thesis using Cons.IH [OF w(3) times(4)] c
      by (auto simp: split_def Let_def split: sum.splits raised.splits)
  qed
qed simp

section \<open>Overlapping calls\<close>

text \<open>One operation of the breaker at a time, by any caller, or the passing of time.\<close>

inductive breaker_step :: "real \<times> breaker \<Rightarrow> real \<times> breaker \<Rightarrow> bool" where
  b_tick: "t < t' \<Longrightarrow> breaker_step (t, b) (t', b)"
| b_enter: "breaker_step (t, b) (t, fst (can_execute t b))"
| b_success: "breaker_step (t, b) (t, record_success b)"
| b_failure: "breaker_step (t, b) (t, record_failure t b)"

definition breaker_inv :: "int \<Rightarrow> real \<Rightarrow> real \<times> breaker \<Rightarrow> bool" where
  "breaker_inv threshold timeout s \<longleftrightarrow> (let (now, b) = s in
     0 < now \<and> cb_failure_threshold b = threshold \<and> cb_recovery_timeout b = timeout \<and> 0 \<le> cb_failure_count b
     \<and> (cb_state b = CLOSED \<longrightarrow> cb_failure_count b < threshold)
     \<and> (cb_state b \<noteq> CLOSED \<longrightarrow> (\<exists>t. cb_last_failure_time b = Some t \<and> 0 < t \<and> t \<le> now)))"

lemma breaker_step_inv:
  assumes "breaker_inv threshold timeout s" "breaker_step s s'" "0 < threshold"
  shows "breaker_inv threshold timeout s'"
  using assms(2,1,3)
  by (induction rule: breaker_step.induct)
     (auto simp: breaker_inv_def can_execute_def record_success_def record_failure_def Let_def cooled_down_def
       split: circuit_state.splits option.splits if_splits)

interpretation brk: inv_system "breaker_inv (Suc n) timeout" breaker_step "breaker_inv (Suc n) timeout" for n timeout
  by unfold_locales (auto intro: breaker_step_inv)

section \<open>Properties\<close>

text \<open>
  C12: For calls made one after another the state machine implements the contract: it refuses a call exactly when the
  latest completed calls are at least \<^verbatim>\<open>failure_threshold\<close> counted failures in a row and the last of them ended less than
  \<^verbatim>\<open>recovery_timeout\<close> ago, whatever the calls returned and however the clock advanced.
\<close>

theorem breaker_refines_history:
  assumes "ordered now calls"
  shows "run_breaker expected calls (new_breaker threshold timeout name) = run_spec expected threshold timeout calls []"
  by (rule run_tracks [OF tracks_new assms])

text \<open>
  Under any interleaving of overlapping calls the breaker never stays shut for good and never leaks: while it is
  closed fewer than \<^verbatim>\<open>failure_threshold\<close> failures are counted, and once \<^verbatim>\<open>recovery_timeout\<close> has
  passed since the moment it is looked at, a call is admitted.
\<close>

theorem breaker_never_stuck:
  assumes "rtranclp breaker_step (now, new_breaker threshold timeout name) (now', b)" "0 < threshold" "0 < now"
    and "now' + timeout \<le> later"
  shows "snd (can_execute later b) \<and> (cb_state b = CLOSED \<longrightarrow> cb_failure_count b < threshold)"
proof -
  obtain n where n: "threshold = int (Suc n)" using assms(2) by (metis zero_less_imp_eq_int gr0_conv_Suc)
  have "breaker_inv threshold timeout (now, new_breaker threshold timeout name)"
    using assms(2,3) by (simp add: breaker_inv_def new_breaker_def)
  then have "breaker_inv threshold timeout (now', b)"
    using brk.run_inv [of _ _ n timeout] assms(1) n by simp
  then show ?thesis using assms(4)
    by (auto simp: breaker_inv_def can_execute_def cooled_down_def split: circuit_state.splits)
qed

text \<open>Every call is admitted in the half-open state, not one probe.\<close>

lemma half_open_admits_all: "cb_state b = HALF_OPEN \<Longrightarrow> can_execute now b = (b, True)"
  by (simp add: can_execute_def)

section \<open>Witnesses\<close>

theorem breaker_refines_history_witness:
  "run_breaker (\<lambda>e::nat. True) [(1, 2, Inl 0), (3, 4, Inl 0), (5, 6, Inr ()), (40, 41, Inr ()), (42, 43, Inr ())]
     (new_breaker 2 30 ''redis'') = [True, True, False, True, True]"
  using breaker_refines_history [of 1 "[(1, 2, Inl 0), (3, 4, Inl 0), (5, 6, Inr ()), (40, 41, Inr ()), (42, 43, Inr ())]"
      "\<lambda>e::nat. True" 2 30 "''redis''"]
  by (simp add: spec_refuses_def observed_def)

theorem breaker_never_stuck_witness:
  "cb_state (record_failure 5 (new_breaker 1 30 ''redis'')) = OPEN
   \<and> snd (can_execute 40 (record_failure 5 (new_breaker 1 30 ''redis'')))"
proof -
  have "rtranclp breaker_step (5, new_breaker 1 30 ''redis'') (5, record_failure 5 (new_breaker 1 30 ''redis''))"
    by (blast intro: b_failure)
  from breaker_never_stuck [OF this] show ?thesis
    by (simp add: record_failure_def new_breaker_def)
qed

end
