(* ===== verification/PolicyEngine.thy ===== *)
theory PolicyEngine
  imports GatewayAuth TtlCache CircuitBreaker
begin

text \<open>
  API keys (\<^verbatim>\<open>management/api_keys.py\<close>), the policy engine (\<^verbatim>\<open>policy/engine.py\<close>) and the internal endpoints over them
  (\<^verbatim>\<open>gateway/router.py\<close>).  The caches are the parameter \<^verbatim>\<open>tc\<close>, Redis a record of the two commands used, the texts of
  JSON columns are read by \<^verbatim>\<open>pe_loads\<close>.
\<close>

section \<open>API keys\<close>

definition org_required :: auth_fail where
  "org_required = Http (HTTPException 400 ''Action requires organization context'')"

definition key_prefix :: "string \<Rightarrow> string" where
  "key_prefix raw = take 6 raw @ ''...''"

text \<open>\<^verbatim>\<open>hex\<close> and \<^verbatim>\<open>nid\<close> are the two random identifiers; a deployment that does not exist violates the foreign key.\<close>

definition create_api_key :: "auth_env \<Rightarrow> user_context option \<Rightarrow> string \<Rightarrow> string option \<Rightarrow> string \<Rightarrow> string \<Rightarrow> gateway
    \<Rightarrow> gateway \<times> (auth_fail + api_key \<times> string)" where
  "create_api_key env ctx name dep hex nid = with_permission ctx API_KEY_CREATE (\<lambda>u g.
     case nonempty_str (uc_org_id u) of
       None \<Rightarrow> (g, Inl org_required)
     | Some org \<Rightarrow>
        if (case dep of None \<Rightarrow> False | Some did \<Rightarrow> did \<notin> md_id ` set (db_deps (gw_core g)))
        then (g, Inl (Raised ''IntegrityError''))
        else let raw = ''sk-'' @ hex;
                 k = \<lparr>ak_id = nid, ak_name = name, ak_key_hash = av_hashpw env raw, ak_prefix = key_prefix raw, ak_org_id = org,
                      ak_deployment_id = dep, ak_is_active = True, ak_last_used_at = None, ak_created_at = gw_now g\<rparr>
             in (audit (Some (uc_user_id u)) (uc_org_id u) ''api_key.create'' (Some ''api_key'') (Some nid)
                   [(''name'', JStr name), (''prefix'', JStr (ak_prefix k)), (''deployment_id'', jopt dep)] ''success''
                   (g\<lparr>gw_keys := gw_keys g @ [k]\<rparr>), Inr (k, raw)))"

definition list_api_keys :: "user_context option \<Rightarrow> nat \<Rightarrow> nat \<Rightarrow> gateway \<Rightarrow> gateway \<times> (auth_fail + api_key list)" where
  "list_api_keys ctx skip limit = with_permission ctx API_KEY_LIST (\<lambda>u g. (g, Inr (case nonempty_str (uc_org_id u) of
     None \<Rightarrow> [] | Some org \<Rightarrow> take limit (drop skip (filter (\<lambda>k. ak_org_id k = org) (gw_keys g))))))"

definition revoke_api_key :: "user_context option \<Rightarrow> string \<Rightarrow> gateway \<Rightarrow> gateway \<times> (auth_fail + unit)" where
  "revoke_api_key ctx kid = with_permission ctx API_KEY_REVOKE (\<lambda>u g.
     case nonempty_str (uc_org_id u) of
       None \<Rightarrow> (g, Inl org_required)
     | Some org \<Rightarrow> (case find (\<lambda>k. ak_id k = kid \<and> ak_org_id k = org) (gw_keys g) of
         None \<Rightarrow> (g, Inl (Http (HTTPException 404 ''API Key not found'')))
       | Some k \<Rightarrow>
          (audit (Some (uc_user_id u)) (uc_org_id u) ''api_key.revoke'' (Some ''api_key'') (Some kid)
             [(''name'', JStr (ak_name k)), (''prefix'', JStr (ak_prefix k))] ''success''
             (g\<lparr>gw_keys := sql_update (\<lambda>x. ak_id x = kid) (\<lambda>x. x\<lparr>ak_is_active := False, ak_last_used_at := Some (gw_now g)\<rparr>) (gw_keys g)\<rparr>),
           Inr ())))"

section \<open>Context resolution\<close>

definition verify_api_key :: "auth_env \<Rightarrow> string \<Rightarrow> gateway \<Rightarrow> api_key option" where
  "verify_api_key env key g = (if key = [] then None
     else find (\<lambda>k. av_checkpw env key (ak_key_hash k)) (filter (\<lambda>k. ak_prefix k = key_prefix key) (gw_keys g)))"

record dep_context =
  dc_id :: string
  dc_model_name :: "string option"
  dc_endpoint :: "string option"
  dc_engine :: "string option"
  dc_configuration :: "jobj option"
  dc_org_id :: "string option"
  dc_policies :: "string option"
  dc_inference_model :: "string option"
  dc_inference_token :: "string option"
  dc_pool_id :: "string option"

record inference_context =
  cx_deployment :: dep_context
  cx_config :: jobj
  cx_user_id_context :: string
  cx_log_payloads :: bool

definition fetch_inference_token :: "deployment \<Rightarrow> gateway \<Rightarrow> string option \<times> string option" where
  "fetch_inference_token m g = (case filter (\<lambda>p. cp_id p = md_pool_id m) (db_pools (gw_core g)) of
     [p] \<Rightarrow> (cp_inference_token p, nonempty_str (Some (md_pool_id m)))
   | _ \<Rightarrow> (None, None))"

definition deployment_dict :: "deployment \<Rightarrow> gateway \<Rightarrow> dep_context" where
  "deployment_dict m g = (let (tok, pid) = fetch_inference_token m g in
     \<lparr>dc_id = md_id m, dc_model_name = md_model_name m, dc_endpoint = md_endpoint m, dc_engine = md_engine m,
      dc_configuration = md_configuration m, dc_org_id = md_org_id m, dc_policies = md_policies m,
      dc_inference_model = md_inference_model m, dc_inference_token = tok, dc_pool_id = pid\<rparr>)"

text \<open>The join of deployments and organizations, and its first row.\<close>

definition deployment_rows :: "(deployment \<Rightarrow> bool) \<Rightarrow> gateway \<Rightarrow> (deployment \<times> organization) list" where
  "deployment_rows p g = concat (map (\<lambda>m. map (Pair m) (filter (\<lambda>o'. md_org_id m = Some (og_id o')) (gw_orgs g)))
     (filter p (db_deps (gw_core g))))"

definition first_deployment :: "(deployment \<Rightarrow> bool) \<Rightarrow> gateway \<Rightarrow> (deployment \<times> organization) option" where
  "first_deployment p g = (case deployment_rows p g of [] \<Rightarrow> None | r # _ \<Rightarrow> Some r)"

definition model_of_org :: "string \<Rightarrow> string \<Rightarrow> string \<Rightarrow> deployment \<Rightarrow> bool" where
  "model_of_org org model mtype m \<longleftrightarrow> md_org_id m = Some org \<and>
     (md_model_name m = Some model \<or> md_llmd_resource_name m = Some model) \<and> md_model_type m = Some mtype"

definition serving_state :: "deployment \<Rightarrow> bool" where
  "serving_state m \<longleftrightarrow> md_state m \<in> {''RUNNING'', ''READY'', ''ready''}"

definition not_serving :: "string \<Rightarrow> deployment \<Rightarrow> string" where
  "not_serving model m = ''Model '' @ [CHR 0x27] @ model @ [CHR 0x27] @ '' is currently '' @ md_state m @
     ''. Please start the deployment first.''"

definition base_config :: jobj where
  "base_config = [(''rate_limit'', JObj [(''enabled'', JBool False)])]"

text \<open>One policy merged into the configuration; a failure is the text of the exception.\<close>

fun py_type :: "json \<Rightarrow> string" where
  "py_type JNull = ''NoneType''"
| "py_type (JBool b) = ''bool''"
| "py_type (JInt n) = ''int''"
| "py_type (JDec m e) = ''float''"
| "py_type (JStr s) = ''str''"
| "py_type (JArr xs) = ''list''"
| "py_type (JObj d) = ''dict''"

definition no_attribute :: "json \<Rightarrow> string \<Rightarrow> string" where
  "no_attribute v a = [CHR 0x27] @ py_type v @ [CHR 0x27] @ '' object has no attribute '' @ [CHR 0x27] @ a @ [CHR 0x27]"

definition apply_policy :: "string + jobj \<Rightarrow> string \<times> json \<Rightarrow> string + jobj" where
  "apply_policy acc p = (case acc of
     Inl e \<Rightarrow> Inl e
   | Inr config \<Rightarrow>
      (let t = py_lower (fst p) in
       if map_of config t = None \<or> \<not> truthy (snd p) then Inr config
       else case snd p of
         JObj d \<Rightarrow> Inr (AList.update t (JObj (if map_of d ''enabled'' = None then d @ [(''enabled'', JBool (t \<noteq> ''rate_limit''))] else d)) config)
       | JArr xs \<Rightarrow> if JStr ''enabled'' \<in> set xs then Inr (AList.update t (JArr xs) config)
                   else Inl ''list indices must be integers or slices, not str''
       | v \<Rightarrow> Inl (no_attribute v ''copy'')))"

definition policies_for :: "string \<Rightarrow> string \<Rightarrow> gateway \<Rightarrow> policy_row list" where
  "policies_for org did g = filter (\<lambda>p. po_org_id p = org \<and> (po_deployment_id p = Some did \<or> po_deployment_id p = None)) (gw_policies g)"

definition merge_policies :: "(string \<Rightarrow> json) \<Rightarrow> string \<Rightarrow> deployment \<Rightarrow> gateway \<Rightarrow> string + jobj" where
  "merge_policies loads org m g =
    (let ps = policies_for org (md_id m) g;
         sorted = filter (\<lambda>p. nonempty_str (po_deployment_id p) = None) ps @ filter (\<lambda>p. nonempty_str (po_deployment_id p) \<noteq> None) ps;
         config = foldl apply_policy (Inr base_config) (map (\<lambda>p. (po_policy_type p, JObj (po_config_json p))) sorted);
         inline = (case md_policies m of None \<Rightarrow> JNull | Some t \<Rightarrow> loads t)
     in case config of
          Inl e \<Rightarrow> Inl e
        | Inr c \<Rightarrow> if \<not> truthy inline then Inr c
                   else case inline of JObj d \<Rightarrow> foldl apply_policy (Inr c) d | v \<Rightarrow> Inl (no_attribute v ''items''))"

type_synonym ctx_key = "string \<times> string \<times> string"

definition resolve_sandbox_context :: "(ctx_key, inference_context, 'c) ttl_cache \<Rightarrow> string \<Rightarrow> string \<Rightarrow> ctx_key \<Rightarrow> gateway \<Rightarrow> 'c
    \<Rightarrow> 'c \<times> (string + inference_context)" where
  "resolve_sandbox_context tc org uid key g cache = (case key of (_, model, mtype) \<Rightarrow>
     case first_deployment (model_of_org org model mtype) g of
       None \<Rightarrow> (cache, Inl ''Deployment not found for model in this organization'')
     | Some (m, _) \<Rightarrow>
        if \<not> serving_state m then (cache, Inl (not_serving model m))
        else let cx = \<lparr>cx_deployment = deployment_dict m g, cx_config = base_config, cx_user_id_context = uid, cx_log_payloads = True\<rparr>
             in (tc_put tc (gw_now g) key cx cache, Inr cx))"

definition key_deployment :: "api_key \<Rightarrow> string \<Rightarrow> string \<Rightarrow> gateway \<Rightarrow> (deployment \<times> organization) option" where
  "key_deployment k model mtype g = first_deployment (case nonempty_str (ak_deployment_id k) of
     Some did \<Rightarrow> (\<lambda>m. md_id m = did) | None \<Rightarrow> model_of_org (ak_org_id k) model mtype) g"

definition resolve_key_context :: "auth_env \<Rightarrow> (string \<Rightarrow> json) \<Rightarrow> ctx_key \<Rightarrow> gateway \<Rightarrow> string + inference_context" where
  "resolve_key_context env loads key g = (case key of (api_key, model, mtype) \<Rightarrow>
     case verify_api_key env api_key g of
       None \<Rightarrow> Inl ''Invalid API Key''
     | Some k \<Rightarrow> (case key_deployment k model mtype g of
         None \<Rightarrow> Inl ''Deployment or Organization not found for model/key combination''
       | Some (m, o') \<Rightarrow>
          if \<not> serving_state m then Inl (not_serving model m)
          else (case merge_policies loads (ak_org_id k) m g of
             Inl e \<Rightarrow> Inl (''Policy Logic Error: '' @ e)
           | Inr config \<Rightarrow> Inr \<lparr>cx_deployment = deployment_dict m g, cx_config = config,
                 cx_user_id_context = ''apikey:'' @ ak_id k, cx_log_payloads = og_log_payloads o'\<rparr>)))"

definition resolve_context :: "auth_env \<Rightarrow> (string \<Rightarrow> json) \<Rightarrow> (ctx_key, inference_context, 'c) ttl_cache \<Rightarrow> ctx_key \<Rightarrow> bool \<Rightarrow> gateway \<Rightarrow> 'c
    \<Rightarrow> 'c \<times> (string + inference_context)" where
  "resolve_context env loads tc key sandbox g cache = (case tc_get tc (gw_now g) key cache of
     Some cx \<Rightarrow> (cache, Inr cx)
   | None \<Rightarrow>
      if sandbox \<and> starts_with (fst key) ''sandbox:''
      then (case split_on (CHR '':'') (fst key) of
          [_, org, uid] \<Rightarrow> resolve_sandbox_context tc org uid key g cache
        | _ \<Rightarrow> (cache, Inl ''Invalid sandbox token format''))
      else (case resolve_key_context env loads key g of
          Inl e \<Rightarrow> (cache, Inl e)
        | Inr cx \<Rightarrow> (tc_put tc (gw_now g) key cx cache, Inr cx)))"

section \<open>Quotas\<close>

text \<open>What the engine uses of Redis: reading a counter, and the transaction that counts a request and its tokens.\<close>

record 'r redis_ops =
  ro_get :: "string \<Rightarrow> 'r \<Rightarrow> string + int option"
  ro_track :: "string \<Rightarrow> string \<Rightarrow> int \<Rightarrow> 'r \<Rightarrow> 'r \<times> (string + unit)"

record ('o, 'p) quota_state =
  qs_org_cache :: 'o
  qs_policy_cache :: 'p
  qs_breaker :: breaker

definition DEFAULT_DAILY_REQUEST_LIMIT :: int where
  "DEFAULT_DAILY_REQUEST_LIMIT = 1000"

definition DEFAULT_DAILY_TOKEN_LIMIT :: int where
  "DEFAULT_DAILY_TOKEN_LIMIT = 100000"

definition usage_key :: "string \<Rightarrow> string \<Rightarrow> string \<Rightarrow> string \<Rightarrow> string" where
  "usage_key uid today model what = ''usage:'' @ uid @ '':'' @ today @ '':'' @ model @ '':'' @ what"

definition quota_org :: "(string, string, 'o) ttl_cache \<Rightarrow> string \<Rightarrow> gateway \<Rightarrow> 'o \<Rightarrow> 'o \<times> string option" where
  "quota_org tc uid g cache = (if \<not> starts_with uid ''apikey:'' then (cache, None)
     else let kid = split_on (CHR '':'') uid ! 1 in
       case tc_get tc (gw_now g) kid cache of
         Some org \<Rightarrow> (cache, Some org)
       | None \<Rightarrow> (case map_option ak_org_id (find (\<lambda>k. ak_id k = kid) (gw_keys g)) of
           None \<Rightarrow> (cache, None)
         | Some org \<Rightarrow> (if org = [] then cache else tc_put tc (gw_now g) kid org cache, Some org)))"

definition quota_policy :: "(string, jobj, 'p) ttl_cache \<Rightarrow> string option \<Rightarrow> gateway \<Rightarrow> 'p \<Rightarrow> 'p \<times> jobj" where
  "quota_policy tc org g cache = (case nonempty_str org of
     None \<Rightarrow> (cache, [])
   | Some o' \<Rightarrow> (case tc_get tc (gw_now g) o' cache of
       Some cfg \<Rightarrow> (cache, cfg)
     | None \<Rightarrow> (case find (\<lambda>p. po_org_id p = o' \<and> po_policy_type p = ''quota'' \<and> po_deployment_id p = None) (gw_policies g) of
         None \<Rightarrow> (cache, [])
       | Some p \<Rightarrow> if po_config_json p = [] then (cache, []) else (tc_put tc (gw_now g) o' (po_config_json p) cache, po_config_json p))))"

definition quota_limit :: "jobj \<Rightarrow> string \<Rightarrow> int \<Rightarrow> json" where
  "quota_limit cfg name dflt = (case map_of cfg name of None \<Rightarrow> JInt dflt | Some v \<Rightarrow> v)"

text \<open>\<^verbatim>\<open>used >= limit\<close>; None is the type error of a limit that is not a number.\<close>

definition reached :: "int \<Rightarrow> json \<Rightarrow> bool option" where
  "reached used limit = (case limit of
     JInt n \<Rightarrow> Some (n \<le> used) | JBool b \<Rightarrow> Some (of_bool b \<le> used) | JDec m e \<Rightarrow> Some (m \<le> used * 10 ^ e) | _ \<Rightarrow> None)"

definition quota_exceeded :: "string \<Rightarrow> json \<Rightarrow> int \<Rightarrow> auth_fail" where
  "quota_exceeded what limit used = Http (HTTPException 429 (''Daily quota exceeded ('' @ what @ '' Limit). Limit: '' @ py_str limit @
     ''. Used: '' @ dec_int used @ ''.''))"

definition quota_verdict :: "jobj \<Rightarrow> int \<Rightarrow> int \<Rightarrow> auth_fail + unit" where
  "quota_verdict cfg requests tokens =
    (let lr = quota_limit cfg ''request_limit'' DEFAULT_DAILY_REQUEST_LIMIT; lt = quota_limit cfg ''token_limit'' DEFAULT_DAILY_TOKEN_LIMIT
     in case reached requests lr of
          None \<Rightarrow> Inl (Raised ''TypeError'')
        | Some True \<Rightarrow> Inl (quota_exceeded ''Request'' lr requests)
        | Some False \<Rightarrow> (case reached tokens lt of
            None \<Rightarrow> Inl (Raised ''TypeError'')
          | Some True \<Rightarrow> Inl (quota_exceeded ''Token'' lt tokens)
          | Some False \<Rightarrow> Inr ()))"

definition redis_quota :: "'r redis_ops \<Rightarrow> string \<Rightarrow> string \<Rightarrow> 'r \<Rightarrow> string + int option \<times> int option" where
  "redis_quota ro rk tk r = (case ro_get ro rk r of
     Inl e \<Rightarrow> Inl e
   | Inr a \<Rightarrow> (case ro_get ro tk r of Inl e \<Rightarrow> Inl e | Inr b \<Rightarrow> Inr (a, b)))"

definition or_zero_opt :: "int option \<Rightarrow> int" where
  "or_zero_opt v = (case v of None \<Rightarrow> 0 | Some n \<Rightarrow> n)"

definition check_quota :: "(string, string, 'o) ttl_cache \<Rightarrow> (string, jobj, 'p) ttl_cache \<Rightarrow> 'r redis_ops \<Rightarrow> string \<Rightarrow> string \<Rightarrow> string
    \<Rightarrow> gateway \<Rightarrow> 'r \<Rightarrow> ('o, 'p) quota_state \<Rightarrow> ('o, 'p) quota_state \<times> (auth_fail + unit)" where
  "check_quota oc pc ro today uid model g r s =
    (let (oc', org) = quota_org oc uid g (qs_org_cache s);
         (pc', cfg) = quota_policy pc org g (qs_policy_cache s);
         (b, res) = wrapper (\<lambda>_. True) (of_int (gw_now g)) (of_int (gw_now g))
           (redis_quota ro (usage_key uid today model ''requests'') (usage_key uid today model ''tokens'') r) (qs_breaker s)
     in (\<lparr>qs_org_cache = oc', qs_policy_cache = pc', qs_breaker = b\<rparr>,
         case res of Inl _ \<Rightarrow> Inr () | Inr (a, t) \<Rightarrow> quota_verdict cfg (or_zero_opt a) (or_zero_opt t)))"

definition usage_of_key :: "(string \<times> int) list \<Rightarrow> string \<Rightarrow> int" where
  "usage_of_key usage k = or_zero_opt (map_of usage k)"

definition increment_redis_only :: "'r redis_ops \<Rightarrow> string \<Rightarrow> string \<Rightarrow> string \<Rightarrow> (string \<times> int) list \<Rightarrow> gateway
    \<Rightarrow> 'r \<Rightarrow> breaker \<Rightarrow> 'r \<times> breaker" where
  "increment_redis_only ro today uid model usage g r b =
    (let (r', out) = ro_track ro (usage_key uid today model ''requests'') (usage_key uid today model ''tokens'')
           (usage_of_key usage ''total_tokens'') r;
         (b', res) = wrapper (\<lambda>_. True) (of_int (gw_now g)) (of_int (gw_now g)) out b
     in (case res of Inl (CircuitBreakerError _) \<Rightarrow> r | _ \<Rightarrow> r', b'))"

definition persist_usage_db :: "string \<Rightarrow> string \<Rightarrow> string \<Rightarrow> (string \<times> int) list \<Rightarrow> gateway \<Rightarrow> gateway" where
  "persist_usage_db today uid model usage g =
    (let here = (\<lambda>u. ug_user_id u = uid \<and> ug_date u = today \<and> ug_model u = model);
         p = usage_of_key usage ''prompt_tokens''; c = usage_of_key usage ''completion_tokens''; t = usage_of_key usage ''total_tokens''
     in if \<exists>u \<in> set (gw_usage g). here u
        then g\<lparr>gw_usage := sql_update here (\<lambda>u. u\<lparr>ug_request_count := ug_request_count u + 1, ug_prompt_tokens := ug_prompt_tokens u + p,
               ug_completion_tokens := ug_completion_tokens u + c, ug_total_tokens := ug_total_tokens u + t\<rparr>) (gw_usage g)\<rparr>
        else g\<lparr>gw_usage := gw_usage g @ [\<lparr>ug_user_id = uid, ug_date = today, ug_model = model, ug_prompt_tokens = p,
               ug_completion_tokens = c, ug_total_tokens = t, ug_request_count = 1\<rparr>]\<rparr>)"

text \<open>The dashboard's view: the requests and tokens of the day.\<close>

definition get_quotas :: "string \<Rightarrow> string \<Rightarrow> gateway \<Rightarrow> int \<times> int" where
  "get_quotas today uid g = (let us = filter (\<lambda>u. ug_user_id u = uid \<and> ug_date u = today) (gw_usage g)
     in (sum_list (map ug_request_count us), sum_list (map ug_total_tokens us)))"

section \<open>Internal endpoints\<close>

definition resolve_inference_context :: "string + inference_context \<Rightarrow> jobj" where
  "resolve_inference_context result = (case result of
     Inl e \<Rightarrow> [(''valid'', JBool False), (''error'', JStr e), (''deployment'', JNull), (''rate_limit_config'', JNull),
       (''user_id_context'', JNull), (''org_id'', JNull), (''log_payloads'', JBool True)]
   | Inr cx \<Rightarrow> (let m = cx_deployment cx in
      [(''valid'', JBool True), (''error'', JNull),
       (''deployment'', JObj [(''id'', JStr (dc_id m)), (''model_name'', jopt (dc_model_name m)), (''endpoint'', jopt (dc_endpoint m)),
          (''engine'', jopt (dc_engine m)), (''configuration'', case dc_configuration m of None \<Rightarrow> JNull | Some c \<Rightarrow> JObj c),
          (''inference_model'', jopt (dc_inference_model m)), (''inference_token'', jopt (dc_inference_token m)), (''pool_id'', jopt (dc_pool_id m))]),
       (''rate_limit_config'', jget (cx_config cx) ''rate_limit''), (''user_id_context'', JStr (cx_user_id_context cx)),
       (''org_id'', jopt (dc_org_id m)), (''log_payloads'', JBool (cx_log_payloads cx))]))"

record model_info =
  mi_id :: string
  mi_created :: int
  mi_owned_by :: string
  mi_description :: string

definition health_key :: "string \<Rightarrow> deployment \<Rightarrow> json" where
  "health_key internal m = (case md_configuration m of
     None \<Rightarrow> JStr internal
   | Some c \<Rightarrow> json_or (json_or (json_or (jget c ''api_key'') (jget c ''key'')) (jget c ''token'')) (JStr internal))"

text \<open>\<^verbatim>\<open>probe\<close> is the answer to the health request: true for status 200 with a JSON object.\<close>

definition check_health :: "(string \<Rightarrow> json \<Rightarrow> bool) \<Rightarrow> string \<Rightarrow> deployment \<Rightarrow> bool" where
  "check_health probe internal m =
    (let nosana = (case nonempty_str (md_endpoint m) of None \<Rightarrow> False | Some e \<Rightarrow> py_in ''nos.ci'' e)
     in if md_engine m \<notin> {Some ''nosana'', Some ''vllm'', Some ''vllm-omni'', Some ''ollama'', Some ''triton''} \<and> \<not> nosana then True
        else case md_endpoint m of
          None \<Rightarrow> False
        | Some e \<Rightarrow> starts_with e ''http'' \<and>
            probe (rev (dropWhile (\<lambda>c. c = CHR ''/'') (rev e)) @ ''/v1/models'') (health_key internal m))"

definition to_model_info :: "deployment \<Rightarrow> model_info" where
  "to_model_info m = \<lparr>mi_id = opt_str (md_model_name m), mi_created = \<lfloor>md_created_at m\<rfloor>,
     mi_owned_by = (case md_org_id m of None \<Rightarrow> ''system'' | Some o' \<Rightarrow> o'),
     mi_description = ''Model deployment for '' @ opt_str (md_model_name m) @ '' ('' @ opt_str (md_engine m) @ '')''\<rparr>"

definition unauthorized :: "string \<Rightarrow> auth_fail" where
  "unauthorized detail = Http (HTTPException 401 detail)"

text \<open>\<^verbatim>\<open>limited\<close> is what the rate limiter raises, if it does.\<close>

definition list_models :: "auth_env \<Rightarrow> (string \<times> nat \<times> nat, model_info list, 'c) ttl_cache \<Rightarrow> (string \<Rightarrow> json \<Rightarrow> bool) \<Rightarrow> string
    \<Rightarrow> http_error option \<Rightarrow> string option \<Rightarrow> nat \<Rightarrow> nat \<Rightarrow> gateway \<Rightarrow> 'c \<Rightarrow> 'c \<times> (auth_fail + model_info list)" where
  "list_models env tc probe internal limited header skip limit g cache = (case limited of
     Some e \<Rightarrow> (cache, Inl (Http e))
   | None \<Rightarrow> (case header of
       None \<Rightarrow> (cache, Inl (unauthorized ''Missing or invalid Authorization header''))
     | Some h \<Rightarrow>
        if \<not> starts_with h ''Bearer '' then (cache, Inl (unauthorized ''Missing or invalid Authorization header''))
        else case verify_api_key env (split_on (CHR '' '') h ! 1) g of
          None \<Rightarrow> (cache, Inl (unauthorized ''Invalid API Key''))
        | Some k \<Rightarrow> (case tc_get tc (gw_now g) (ak_org_id k, skip, limit) cache of
            Some ms \<Rightarrow> (cache, Inr ms)
          | None \<Rightarrow> (let ms = map to_model_info (filter (check_health probe internal)
                               (take limit (drop skip (filter serving_state (db_deps (gw_core g))))))
                    in (tc_put tc (gw_now g) (ak_org_id k, skip, limit) ms cache, Inr ms)))))"

definition sensitive_keys :: "string list" where
  "sensitive_keys = [''key'', ''api_key'', ''secret'', ''secret_access_key'', ''password'', ''mnemonic'', ''token'', ''credential'']"

definition mask_secret :: "json \<Rightarrow> json" where
  "mask_secret v = (case v of JStr s \<Rightarrow> if length s > 4 then JStr (take 4 s @ ''****'') else JStr ''****'' | _ \<Rightarrow> JStr ''****'')"

fun mask_credentials :: "json \<Rightarrow> json" where
  "mask_credentials (JObj kvs) = JObj (map (\<lambda>kv. (fst kv,
     if py_lower (fst kv) \<in> set sensitive_keys then mask_secret (snd kv)
     else (case snd kv of
        JObj d \<Rightarrow> mask_credentials (JObj d)
      | JArr xs \<Rightarrow> JArr (map (\<lambda>x. case x of JObj d \<Rightarrow> mask_credentials (JObj d) | v \<Rightarrow> v) xs)
      | v \<Rightarrow> v))) kvs)"
| "mask_credentials v = v"

definition get_provider_credentials_internal :: "string \<Rightarrow> string option \<Rightarrow> string option \<Rightarrow> jobj \<Rightarrow> auth_fail + jobj" where
  "get_provider_credentials_internal internal key alt providers = (case nonempty_str (or_str key alt) of
     None \<Rightarrow> Inl (Http (HTTPException 403 ''Invalid or missing internal API key''))
   | Some k \<Rightarrow> if k \<noteq> internal then Inl (Http (HTTPException 403 ''Invalid or missing internal API key''))
              else Inr [(''providers'', JObj providers)])"

section \<open>Properties of API keys\<close>

lemma find_map_same:
  assumes "\<And>x. x \<in> set xs \<Longrightarrow> p (f x) = p x"
  shows "find p (map f xs) = map_option f (find p xs)"
  using assms by (induction xs) auto

lemma filter_map_same: "(\<And>x. x \<in> set xs \<Longrightarrow> p (f x) = p x) \<Longrightarrow> filter p (map f xs) = map f (filter p xs)"
  by (induction xs) auto

definition deactivate :: "string \<Rightarrow> int \<Rightarrow> api_key \<Rightarrow> api_key" where
  "deactivate kid now k = (if ak_id k = kid then k\<lparr>ak_is_active := False, ak_last_used_at := Some now\<rparr> else k)"

lemma deactivate_frame [simp]:
  "ak_id (deactivate kid now k) = ak_id k" "ak_org_id (deactivate kid now k) = ak_org_id k" "ak_key_hash (deactivate kid now k) = ak_key_hash k"
  "ak_prefix (deactivate kid now k) = ak_prefix k" "ak_deployment_id (deactivate kid now k) = ak_deployment_id k"
  by (simp_all add: deactivate_def)

lemma revoke_effect:
  assumes "revoke_api_key ctx kid g = (g', Inr ())"
  shows "gw_keys g' = map (deactivate kid (gw_now g)) (gw_keys g)" "gw_core g' = gw_core g" "gw_orgs g' = gw_orgs g"
    "gw_policies g' = gw_policies g"
  using assms by (auto simp: revoke_api_key_def with_permission_def with_user_def sql_update_def deactivate_def
      split: option.splits sum.splits)

lemma verify_after_revoke:
  assumes "gw_keys g' = map (deactivate kid now) (gw_keys g)"
  shows "verify_api_key env key g' = map_option (deactivate kid now) (verify_api_key env key g)"
  by (simp add: verify_api_key_def assms filter_map_same find_map_same)

lemma resolution_frame:
  assumes "gw_core g' = gw_core g" "gw_orgs g' = gw_orgs g" "gw_policies g' = gw_policies g"
  shows "first_deployment p g' = first_deployment p g" "deployment_dict m g' = deployment_dict m g" "merge_policies loads org m g' = merge_policies loads org m g"
  by (simp_all add: first_deployment_def deployment_rows_def deployment_dict_def fetch_inference_token_def merge_policies_def policies_for_def assms)

text \<open>
  Revoking a key does not stop it: the key stays in the table marked inactive, and every resolution, for that key and for all
  others, gives the same result as before the revocation.
\<close>

theorem revoked_key_still_resolves:
  assumes "revoke_api_key ctx kid g = (g', Inr ())"
  shows "resolve_key_context env loads key g' = resolve_key_context env loads key g"
proof -
  note fr = resolution_frame [OF revoke_effect(2-4) [OF assms]]
  have kd: "key_deployment (deactivate kid now k) m t g' = key_deployment k m t g" for now k m t
    by (simp add: key_deployment_def fr cong: option.case_cong)
  show ?thesis
    unfolding resolve_key_context_def verify_after_revoke [OF revoke_effect(1) [OF assms]]
    by (auto simp: kd fr split: option.split prod.split sum.split)
qed

text \<open>A deployment of the second organization and a member of the first who may manage its keys.\<close>

definition key_gateway :: gateway where
  "key_gateway = demo_gateway\<lparr>gw_core := empty_db\<lparr>db_deps := [(sample_dep ''d2'' ''p2'' ''RUNNING'' None 1)\<lparr>md_org_id := Some ''o2''\<rparr>]\<rparr>\<rparr>"

definition key_admin :: user_context where
  "key_admin = \<lparr>uc_user_id = ''u1'', uc_username = ''ann@x'', uc_email = ''ann@x'', uc_roles = [''admin''],
     uc_permissions = [''api_key:create'', ''api_key:revoke''], uc_org_id = Some ''o1'', uc_quota_limit = 10000, uc_quota_used = 0, uc_is_active = True\<rparr>"

definition key_created :: gateway where
  "key_created = fst (create_api_key demo_env (Some key_admin) ''k'' (Some ''d2'') ''abcdef'' ''k1'' key_gateway)"

theorem revoked_key_still_resolves_witness:
  "\<exists>g'. revoke_api_key (Some key_admin) ''k1'' key_created = (g', Inr ()) \<and>
    \<not> isl (resolve_key_context demo_env (\<lambda>_. JNull) (''sk-abcdef'', ''m'', ''inference'') g')"
proof -
  have ok: "snd (revoke_api_key (Some key_admin) ''k1'' key_created) = Inr ()"
    and live: "\<not> isl (resolve_key_context demo_env (\<lambda>_. JNull) (''sk-abcdef'', ''m'', ''inference'') key_created)"
    by code_simp+
  obtain g' where run: "revoke_api_key (Some key_admin) ''k1'' key_created = (g', Inr ())"
    using ok by (cases "revoke_api_key (Some key_admin) ''k1'' key_created") auto
  from revoked_key_still_resolves [OF run] live run show ?thesis by simp
qed

lemma in_deployment_rows:
  "(m, o') \<in> set (deployment_rows p g) \<longleftrightarrow> m \<in> set (db_deps (gw_core g)) \<and> p m \<and> o' \<in> set (gw_orgs g) \<and> md_org_id m = Some (og_id o')"
  by (auto simp: deployment_rows_def)

lemma first_deployment_in:
  assumes "first_deployment p g = Some (m, o')"
  shows "m \<in> set (db_deps (gw_core g)) \<and> p m \<and> o' \<in> set (gw_orgs g) \<and> md_org_id m = Some (og_id o')"
proof -
  from assms obtain rows where "deployment_rows p g = (m, o') # rows" by (auto simp: first_deployment_def split: list.splits)
  then show ?thesis using in_deployment_rows [of m o' p g] by simp
qed

lemma first_deployment_exists:
  assumes "m \<in> set (db_deps (gw_core g))" "p m" "o' \<in> set (gw_orgs g)" "md_org_id m = Some (og_id o')"
  shows "\<exists>m' o''. first_deployment p g = Some (m', o'')"
  using in_deployment_rows [of m o' p g] assms by (auto simp: first_deployment_def split: list.split)



text \<open>
  A key may be bound to a deployment of another organization: whoever may create keys in one organization gets, for a
  deployment they know the identifier of, a key that resolves to it under any model name, whatever organization owns it.
\<close>

theorem bound_key_crosses_organizations:
  assumes hash: "\<And>p. av_checkpw env p (av_hashpw env p)" and new: "verify_api_key env raw g = None"
    and run: "create_api_key env ctx name (Some did) hex nid g = (g', Inr (k, raw))"
    and ids: "distinct (map md_id (db_deps (gw_core g)))"
    and m: "m \<in> set (db_deps (gw_core g))" "md_id m = did" "did \<noteq> []" "serving_state m"
    and own: "o' \<in> set (gw_orgs g)" "md_org_id m = Some (og_id o')"
    and pol: "merge_policies loads (ak_org_id k) m g = Inr cfg"
  shows "\<exists>cx. resolve_key_context env loads (raw, model, mtype) g' = Inr cx \<and> dc_id (cx_deployment cx) = did \<and>
    dc_org_id (cx_deployment cx) = Some (og_id o')"
proof -
  from run have k: "ak_deployment_id k = Some did" "ak_key_hash k = av_hashpw env raw" "ak_prefix k = key_prefix raw" "raw \<noteq> []"
    and g': "gw_keys g' = gw_keys g @ [k]" "gw_core g' = gw_core g" "gw_orgs g' = gw_orgs g" "gw_policies g' = gw_policies g"
    unfolding create_api_key_def with_permission_def with_user_def Let_def
    by (auto split: option.splits sum.splits if_splits)
  note fr = resolution_frame [OF g'(2-4)]
  have "verify_api_key env raw g' = Some k"
    using new k hash by (simp add: verify_api_key_def g' find_append)
  moreover obtain m' o'' where fd: "first_deployment (\<lambda>x. md_id x = did) g = Some (m', o'')"
    using first_deployment_exists [of m g "\<lambda>x. md_id x = did" o'] m own by auto
  moreover have "m' = m"
    using first_deployment_in [OF fd] m(1,2) ids inj_on_eq_iff [of md_id "set (db_deps (gw_core g))" m' m] by (simp add: distinct_map)
  ultimately have "resolve_key_context env loads (raw, model, mtype) g' =
      Inr \<lparr>cx_deployment = deployment_dict m g, cx_config = cfg, cx_user_id_context = ''apikey:'' @ ak_id k, cx_log_payloads = og_log_payloads o''\<rparr>"
    using k(1) m(3,4) pol by (simp add: resolve_key_context_def key_deployment_def nonempty_str_def fr)
  then show ?thesis using m(2) own(2) by (simp add: deployment_dict_def split_def Let_def)
qed

theorem bound_key_crosses_organizations_witness:
  "\<exists>cx. resolve_key_context demo_env (\<lambda>_. JNull) (''sk-abcdef'', ''any'', ''inference'') key_created = Inr cx \<and>
    dc_id (cx_deployment cx) = ''d2'' \<and> dc_org_id (cx_deployment cx) = Some ''o2'' \<and> uc_org_id key_admin = Some ''o1''"
proof -
  let ?m = "(sample_dep ''d2'' ''p2'' ''RUNNING'' None 1)\<lparr>md_org_id := Some ''o2''\<rparr>"
  define k where "k = fst (projr (snd (create_api_key demo_env (Some key_admin) ''k'' (Some ''d2'') ''abcdef'' ''k1'' key_gateway)))"
  have raw: "map_sum id snd (snd (create_api_key demo_env (Some key_admin) ''k'' (Some ''d2'') ''abcdef'' ''k1'' key_gateway)) = Inr ''sk-abcdef''"
    by code_simp
  have run: "create_api_key demo_env (Some key_admin) ''k'' (Some ''d2'') ''abcdef'' ''k1'' key_gateway = (key_created, Inr (k, ''sk-abcdef''))"
    using raw by (cases "create_api_key demo_env (Some key_admin) ''k'' (Some ''d2'') ''abcdef'' ''k1'' key_gateway";
      cases "snd (create_api_key demo_env (Some key_admin) ''k'' (Some ''d2'') ''abcdef'' ''k1'' key_gateway)") (auto simp: k_def key_created_def)
  have "merge_policies (\<lambda>_. JNull) (ak_org_id k) ?m key_gateway = Inr base_config"
    by (simp add: merge_policies_def policies_for_def key_gateway_def demo_gateway_def sample_dep_def)
  then have "\<exists>cx. resolve_key_context demo_env (\<lambda>_. JNull) (''sk-abcdef'', ''any'', ''inference'') key_created = Inr cx \<and>
      dc_id (cx_deployment cx) = ''d2'' \<and> dc_org_id (cx_deployment cx) = Some (og_id \<lparr>og_id = ''o2'', og_name = ''Two'', og_log_payloads = True\<rparr>)"
    by (intro bound_key_crosses_organizations [OF _ _ run, where m = ?m])
      (simp_all add: demo_env_def verify_api_key_def key_gateway_def demo_gateway_def sample_dep_def serving_state_def)
  then show ?thesis by (simp add: key_admin_def)
qed

section \<open>Properties of the context cache\<close>

text \<open>
  The cache does not distinguish sandbox calls: for ten seconds after a sandbox call resolved a name, the same string is
  accepted as an API key outside the sandbox, although no such key exists and whatever has become of the deployment.
\<close>

theorem sandbox_context_leaks:
  assumes laws: "ttl_laws 10 tc" and miss: "tc_get tc (gw_now g) key cache = None" and name: "starts_with (fst key) ''sandbox:''"
    and run: "resolve_context env loads tc key True g cache = (cache', Inr cx)"
    and later: "gw_now g \<le> gw_now g'" "gw_now g' < gw_now g + 10" and none: "verify_api_key env (fst key) g' = None"
  shows "resolve_context env loads tc key False g' cache' = (cache', Inr cx) \<and>
    resolve_key_context env loads key g' = Inl ''Invalid API Key''"
proof -
  from run miss name have "cache' = tc_put tc (gw_now g) key cx cache"
    unfolding resolve_context_def resolve_sandbox_context_def Let_def
    by (auto split: list.splits option.splits if_splits prod.splits)
  then have "tc_get tc (gw_now g') key cache' = Some cx" using ttl_hit [OF laws later] by simp
  with none show ?thesis by (cases key) (simp add: resolve_context_def resolve_key_context_def)
qed

theorem sandbox_context_leaks_witness:
  "\<exists>cache cx. resolve_context demo_env (\<lambda>_. JNull) (list_cache 10) (''sandbox:o2:u'', ''m'', ''inference'') False
     (key_gateway\<lparr>gw_core := empty_db, gw_now := 105\<rparr>) cache = (cache, Inr cx)"
proof -
  let ?key = "(''sandbox:o2:u'', ''m'', ''inference'')" and ?tc = "list_cache 10 :: (ctx_key, inference_context, _) ttl_cache"
  have "\<not> isl (snd (resolve_context demo_env (\<lambda>_. JNull) ?tc ?key True key_gateway []))"
    by code_simp
  then obtain cache cx where run: "resolve_context demo_env (\<lambda>_. JNull) ?tc ?key True key_gateway [] = (cache, Inr cx)"
    by (cases "resolve_context demo_env (\<lambda>_. JNull) ?tc ?key True key_gateway []";
      cases "snd (resolve_context demo_env (\<lambda>_. JNull) ?tc ?key True key_gateway [])") auto
  have "resolve_context demo_env (\<lambda>_. JNull) ?tc ?key False (key_gateway\<lparr>gw_core := empty_db, gw_now := 105\<rparr>) cache = (cache, Inr cx) \<and>
     resolve_key_context demo_env (\<lambda>_. JNull) ?key (key_gateway\<lparr>gw_core := empty_db, gw_now := 105\<rparr>) = Inl ''Invalid API Key''"
    by (rule sandbox_context_leaks [OF list_cache_laws _ _ run])
      (simp_all add: list_cache_def starts_with_def verify_api_key_def key_gateway_def demo_gateway_def)
  then show ?thesis by blast
qed

section \<open>Properties of quotas\<close>

text \<open>Redis while it answers: counters are read as written, and the transaction adds to its two counters only.\<close>

definition redis_up :: "'r redis_ops \<Rightarrow> bool" where
  "redis_up ro \<longleftrightarrow> (\<forall>k r. \<exists>v. ro_get ro k r = Inr v) \<and>
     (\<forall>a b n r. a \<noteq> b \<longrightarrow> snd (ro_track ro a b n r) = Inr () \<and>
        ro_get ro a (fst (ro_track ro a b n r)) = Inr (Some (or_zero_opt (projr (ro_get ro a r)) + 1)) \<and>
        ro_get ro b (fst (ro_track ro a b n r)) = Inr (Some (or_zero_opt (projr (ro_get ro b r)) + n)))"

definition map_redis :: "(string \<Rightarrow> int option) redis_ops" where
  "map_redis = \<lparr>ro_get = (\<lambda>k r. Inr (r k)),
     ro_track = (\<lambda>a b n r. (r(a \<mapsto> or_zero_opt (r a) + 1, b \<mapsto> or_zero_opt (r b) + n), Inr ()))\<rparr>"

lemma map_redis_up: "redis_up map_redis"
  by (simp add: redis_up_def map_redis_def)

lemma usage_keys_differ: "usage_key u d m ''requests'' \<noteq> usage_key u d m ''tokens''"
  by (simp add: usage_key_def)

text \<open>Requests tracked one after another.\<close>

fun track_all :: "'r redis_ops \<Rightarrow> string \<Rightarrow> string \<Rightarrow> string \<Rightarrow> gateway \<Rightarrow> (string \<times> int) list list \<Rightarrow> 'r \<times> breaker \<Rightarrow> 'r \<times> breaker" where
  "track_all ro today uid model g [] rb = rb"
| "track_all ro today uid model g (u # us) rb = track_all ro today uid model g us (increment_redis_only ro today uid model u g (fst rb) (snd rb))"

definition counted :: "'r redis_ops \<Rightarrow> string \<Rightarrow> 'r \<Rightarrow> int" where
  "counted ro k r = or_zero_opt (projr (ro_get ro k r))"

lemma increment_counts:
  assumes up: "redis_up ro" and closed: "cb_state b = CLOSED"
    and run: "increment_redis_only ro today uid model u g r b = (r', b')"
  shows "counted ro (usage_key uid today model ''requests'') r' = counted ro (usage_key uid today model ''requests'') r + 1"
    "counted ro (usage_key uid today model ''tokens'') r' = counted ro (usage_key uid today model ''tokens'') r + usage_of_key u ''total_tokens''"
    "cb_state b' = CLOSED"
  using run closed up usage_keys_differ [of uid today model] unfolding redis_up_def
  by (auto simp: increment_redis_only_def wrapper_def can_execute_def after_call_def record_success_def counted_def or_zero_opt_def
      split_def Let_def split: sum.splits)

lemma track_counts:
  assumes "redis_up ro" "cb_state (snd rb) = CLOSED" "track_all ro today uid model g us rb = (r', b')"
  shows "counted ro (usage_key uid today model ''requests'') r' = counted ro (usage_key uid today model ''requests'') (fst rb) + int (length us) \<and>
    counted ro (usage_key uid today model ''tokens'') r' = counted ro (usage_key uid today model ''tokens'') (fst rb)
      + sum_list (map (\<lambda>u. usage_of_key u ''total_tokens'') us) \<and> cb_state b' = CLOSED"
  using assms(2,3)
proof (induction us arbitrary: rb)
  case (Cons u us)
  obtain r1 b1 where s: "increment_redis_only ro today uid model u g (fst rb) (snd rb) = (r1, b1)" by force
  with Cons.prems(2) have "track_all ro today uid model g us (r1, b1) = (r', b')" by simp
  with Cons.IH [of "(r1, b1)"] increment_counts [OF assms(1) Cons.prems(1) s] show ?case by simp
qed simp



text \<open>While the breaker is open the quota is not enforced: every request is admitted, whatever has been used.\<close>

theorem quota_fails_open:
  assumes "cb_state (qs_breaker s) = OPEN" "\<not> cooled_down (of_int (gw_now g)) (qs_breaker s)"
  shows "snd (check_quota oc pc ro today uid model g r s) = Inr ()"
  using assms by (simp add: check_quota_def split_def Let_def wrapper_def can_execute_def)

theorem quota_fails_open_witness:
  "snd (check_quota (list_cache 300) (list_cache 60) map_redis ''2026-01-01'' ''apikey:k1'' ''m'' key_created (\<lambda>_. Some 1000000)
     \<lparr>qs_org_cache = [], qs_policy_cache = [], qs_breaker = (new_breaker 3 30 ''redis_quota'')\<lparr>cb_state := OPEN, cb_last_failure_time := Some 90\<rparr>\<rparr>) = Inr ()"
proof (rule quota_fails_open)
  have "gw_now key_created = 100" by code_simp
  then show "\<not> cooled_down (of_int (gw_now key_created)) (qs_breaker \<lparr>qs_org_cache = [], qs_policy_cache = [],
      qs_breaker = (new_breaker 3 30 ''redis_quota'')\<lparr>cb_state := OPEN, cb_last_failure_time := Some 90\<rparr>\<rparr>)"
    by (simp add: cooled_down_def new_breaker_def)
qed simp

text \<open>What is persisted shows in the quota view: one more request and the tokens of the call, on the same day and for the same caller only.\<close>

theorem usage_roundtrip:
  assumes "distinct (map (\<lambda>u. (ug_user_id u, ug_date u, ug_model u)) (gw_usage g))"
  shows "get_quotas day who (persist_usage_db today uid model usage g) =
    (if who = uid \<and> day = today then (fst (get_quotas day who g) + 1, snd (get_quotas day who g) + usage_of_key usage ''total_tokens'')
     else get_quotas day who g)"
proof -
  define here where "here = (\<lambda>u :: usage_row. ug_user_id u = uid \<and> ug_date u = today \<and> ug_model u = model)"
  define f where "f = (\<lambda>u. u\<lparr>ug_request_count := ug_request_count u + 1, ug_prompt_tokens := ug_prompt_tokens u + usage_of_key usage ''prompt_tokens'',
    ug_completion_tokens := ug_completion_tokens u + usage_of_key usage ''completion_tokens'', ug_total_tokens := ug_total_tokens u + usage_of_key usage ''total_tokens''\<rparr> :: usage_row)"
  define sel where "sel = (\<lambda>u :: usage_row. ug_user_id u = who \<and> ug_date u = day)"
  have upd: "sum_list (map ug_request_count (filter sel (sql_update here f us))) =
        sum_list (map ug_request_count (filter sel us)) + (if (\<exists>u \<in> set us. here u) \<and> who = uid \<and> day = today then 1 else 0) \<and>
      sum_list (map ug_total_tokens (filter sel (sql_update here f us))) =
        sum_list (map ug_total_tokens (filter sel us)) + (if (\<exists>u \<in> set us. here u) \<and> who = uid \<and> day = today then usage_of_key usage ''total_tokens'' else 0)"
    if "distinct (map (\<lambda>u. (ug_user_id u, ug_date u, ug_model u)) us)" for us
    using that
  proof (induction us)
    case (Cons u us)
    have fu: "sel (f u) = sel u" "ug_request_count (f u) = ug_request_count u + 1"
      "ug_total_tokens (f u) = ug_total_tokens u + usage_of_key usage ''total_tokens''" by (simp_all add: sel_def f_def)
    show ?case
    proof (cases "here u")
      case True
      then have "\<forall>v \<in> set us. \<not> here v" using Cons.prems by (auto simp: here_def image_iff)
      then have "sql_update here f us = us" by (simp add: sql_update_none sql_count_0)
      moreover have "sel u \<longleftrightarrow> who = uid \<and> day = today" using True by (auto simp: here_def sel_def)
      ultimately show ?thesis using True fu by simp
    qed (use Cons in \<open>auto split: if_splits\<close>)
  qed simp
  have q: "get_quotas day who h = (sum_list (map ug_request_count (filter sel (gw_usage h))), sum_list (map ug_total_tokens (filter sel (gw_usage h))))" for h
    by (simp add: get_quotas_def sel_def Let_def)
  show ?thesis
  proof (cases "\<exists>u \<in> set (gw_usage g). here u")
    case True
    then have "gw_usage (persist_usage_db today uid model usage g) = sql_update here f (gw_usage g)"
      by (auto simp: persist_usage_db_def here_def f_def Let_def)
    with True upd [OF assms] show ?thesis unfolding q by simp
  next
    case False
    then show ?thesis by (auto simp: persist_usage_db_def get_quotas_def Let_def here_def)
  qed
qed

theorem usage_roundtrip_witness:
  "get_quotas ''d1'' ''u'' (persist_usage_db ''d1'' ''u'' ''m'' [(''total_tokens'', 7)] (persist_usage_db ''d1'' ''u'' ''m'' [(''total_tokens'', 5)] demo_gateway)) = (2, 12)"
proof -
  have a: "get_quotas ''d1'' ''u'' (persist_usage_db ''d1'' ''u'' ''m'' [(''total_tokens'', 5)] demo_gateway) = (1, 5)"
    and d: "distinct (map (\<lambda>u. (ug_user_id u, ug_date u, ug_model u)) (gw_usage (persist_usage_db ''d1'' ''u'' ''m'' [(''total_tokens'', 5)] demo_gateway)))"
    by code_simp+
  show ?thesis using usage_roundtrip [OF d, of "''d1''" "''u''" "''d1''" "''u''" "''m''" "[(''total_tokens'', 7)]"] a
    by (simp add: usage_of_key_def or_zero_opt_def)
qed

section \<open>Properties of the internal endpoints\<close>

text \<open>
  The model list of a key is not restricted to its organization: two valid keys of any organizations get the same list, all
  healthy serving deployments of the installation, when their own caches hold nothing.
\<close>

theorem model_list_not_scoped:
  assumes "starts_with h1 ''Bearer ''" "starts_with h2 ''Bearer ''"
    and "verify_api_key env (split_on (CHR '' '') h1 ! 1) g = Some k1" "verify_api_key env (split_on (CHR '' '') h2 ! 1) g = Some k2"
    and "tc_get tc (gw_now g) (ak_org_id k1, skip, limit) cache1 = None" "tc_get tc (gw_now g) (ak_org_id k2, skip, limit) cache2 = None"
  shows "snd (list_models env tc probe internal None (Some h1) skip limit g cache1) = snd (list_models env tc probe internal None (Some h2) skip limit g cache2)"
  using assms by (simp add: list_models_def Let_def)

definition two_org_gateway :: gateway where
  "two_org_gateway = key_created\<lparr>gw_keys := gw_keys key_created @
     [\<lparr>ak_id = ''k2'', ak_name = ''b'', ak_key_hash = ''#sk-zzz'', ak_prefix = ''sk-zzz...'', ak_org_id = ''o2'', ak_deployment_id = None,
       ak_is_active = True, ak_last_used_at = None, ak_created_at = 0\<rparr>],
     gw_core := (gw_core key_created)\<lparr>db_deps := map (\<lambda>m. m\<lparr>md_engine := Some ''openai''\<rparr>) (db_deps (gw_core key_created))\<rparr>\<rparr>"

theorem model_list_not_scoped_witness:
  "snd (list_models demo_env (list_cache 30) (\<lambda>_ _. True) ''i'' None (Some ''Bearer sk-abcdef'') 0 50 two_org_gateway [])
    = snd (list_models demo_env (list_cache 30) (\<lambda>_ _. True) ''i'' None (Some ''Bearer sk-zzz'') 0 50 two_org_gateway [])"
proof -
  have 1: "map_option ak_org_id (verify_api_key demo_env (split_on (CHR '' '') ''Bearer sk-abcdef'' ! 1) two_org_gateway) = Some ''o1''"
    and 2: "map_option ak_org_id (verify_api_key demo_env (split_on (CHR '' '') ''Bearer sk-zzz'' ! 1) two_org_gateway) = Some ''o2''"
    by code_simp+
  from 1 2 obtain k1 k2 where "verify_api_key demo_env (split_on (CHR '' '') ''Bearer sk-abcdef'' ! 1) two_org_gateway = Some k1"
      "verify_api_key demo_env (split_on (CHR '' '') ''Bearer sk-zzz'' ! 1) two_org_gateway = Some k2" by auto
  then show ?thesis by (intro model_list_not_scoped) (simp_all add: starts_with_def list_cache_def)
qed

text \<open>A masked value, and the values of an object that stand under a sensitive name.\<close>

definition masked_value :: "json \<Rightarrow> bool" where
  "masked_value v \<longleftrightarrow> (\<exists>p. v = JStr (p @ ''****'') \<and> length p \<le> 4)"

inductive exposes :: "json \<Rightarrow> json \<Rightarrow> bool" where
  exposes_here: "(k, v) \<in> set kvs \<Longrightarrow> py_lower k \<in> set sensitive_keys \<Longrightarrow> exposes (JObj kvs) v"
| exposes_nested: "(k, JObj d) \<in> set kvs \<Longrightarrow> py_lower k \<notin> set sensitive_keys \<Longrightarrow> exposes (JObj d) v \<Longrightarrow> exposes (JObj kvs) v"
| exposes_listed: "(k, JArr xs) \<in> set kvs \<Longrightarrow> py_lower k \<notin> set sensitive_keys \<Longrightarrow> JObj d \<in> set xs \<Longrightarrow> exposes (JObj d) v \<Longrightarrow> exposes (JObj kvs) v"

inductive_cases exposes_obj: "exposes (JObj kvs) v"

lemma mask_item: "(case x of JObj d \<Rightarrow> mask_credentials (JObj d) | v \<Rightarrow> v) = mask_credentials x"
  by (cases x) auto

definition mask_field :: "string \<Rightarrow> json \<Rightarrow> json" where
  "mask_field k v = (if py_lower k \<in> set sensitive_keys then mask_secret v
     else case v of JArr xs \<Rightarrow> JArr (map mask_credentials xs) | _ \<Rightarrow> mask_credentials v)"

lemma mask_obj: "mask_credentials (JObj kvs) = JObj (map (\<lambda>kv. (fst kv, mask_field (fst kv) (snd kv))) kvs)"
proof -
  have "(if py_lower k \<in> set sensitive_keys then mask_secret v
     else (case v of JObj d \<Rightarrow> mask_credentials (JObj d)
      | JArr xs \<Rightarrow> JArr (map (\<lambda>x. case x of JObj d \<Rightarrow> mask_credentials (JObj d) | v \<Rightarrow> v) xs) | v \<Rightarrow> v)) = mask_field k v" for k v
    unfolding mask_field_def mask_item by (cases v) auto
  then show ?thesis by simp
qed

lemma mask_field_obj: "mask_field k w = JObj d \<Longrightarrow> py_lower k \<notin> set sensitive_keys \<Longrightarrow> mask_credentials w = JObj d"
  by (cases w) (simp_all add: mask_field_def del: mask_credentials.simps(1))

lemma mask_field_arr:
  assumes "mask_field k w = JArr xs" "py_lower k \<notin> set sensitive_keys" "JObj d \<in> set xs"
  obtains y where "mask_credentials y = JObj d"
  using assms by (cases w) (auto simp: mask_field_def simp del: mask_credentials.simps(1) simp: mask_obj)

lemma mask_is_obj: "mask_credentials c = JObj kvs \<Longrightarrow> \<exists>e. c = JObj e \<and> kvs = map (\<lambda>kv. (fst kv, mask_field (fst kv) (snd kv))) e"
  by (cases c) (simp_all add: mask_obj del: mask_credentials.simps(1))

lemma mask_secret_masked: "masked_value (mask_secret v)"
  by (auto simp: masked_value_def mask_secret_def split: json.split intro: exI [of _ "[]"])

text \<open>C25: Every value under a sensitive name, in nested objects and in lists of objects, is masked.\<close>

theorem credentials_masked:
  assumes "exposes (mask_credentials c) v"
  shows "masked_value v"
  using assms
proof (induction "mask_credentials c" v arbitrary: c rule: exposes.induct)
  case (exposes_here k v kvs)
  obtain e where "kvs = map (\<lambda>kv. (fst kv, mask_field (fst kv) (snd kv))) e" using mask_is_obj exposes_here(3) by metis
  with exposes_here show ?case by (auto simp: mask_field_def mask_secret_masked)
next
  case (exposes_nested k d kvs v)
  obtain e where e: "kvs = map (\<lambda>kv. (fst kv, mask_field (fst kv) (snd kv))) e" using mask_is_obj exposes_nested(5) by metis
  with exposes_nested obtain w where "mask_field k w = JObj d" by auto
  from mask_field_obj [OF this exposes_nested(2)] exposes_nested(4) show ?case by metis
next
  case (exposes_listed k xs kvs d v)
  obtain e where "kvs = map (\<lambda>kv. (fst kv, mask_field (fst kv) (snd kv))) e" using mask_is_obj exposes_listed(6) by metis
  with exposes_listed obtain w where "mask_field k w = JArr xs" by auto
  then obtain y where "mask_credentials y = JObj d" using mask_field_arr exposes_listed(2,3) by metis
  with exposes_listed(5) show ?case by metis
qed

theorem credentials_masked_witness:
  "exposes (mask_credentials (JObj [(''aws'', JObj [(''Secret'', JStr ''abcdefgh'')])])) (JStr ''abcd****'') \<and> masked_value (JStr ''abcd****'')"
proof -
  have m: "mask_credentials (JObj [(''aws'', JObj [(''Secret'', JStr ''abcdefgh'')])]) = JObj [(''aws'', JObj [(''Secret'', JStr ''abcd****'')])]"
    and k: "py_lower ''Secret'' \<in> set sensitive_keys" "py_lower ''aws'' \<notin> set sensitive_keys"
    by code_simp+
  have inner: "exposes (JObj [(''Secret'', JStr ''abcd****'')]) (JStr ''abcd****'')"
    by (rule exposes_here [of "''Secret''", OF _ k(1)]) (simp only: list.set insert_iff simp_thms)
  have "exposes (mask_credentials (JObj [(''aws'', JObj [(''Secret'', JStr ''abcdefgh'')])])) (JStr ''abcd****'')"
    unfolding m by (rule exposes_nested [of "''aws''", OF _ k(2) inner]) (simp only: list.set insert_iff simp_thms)
  then show ?thesis using credentials_masked by blast
qed

end
