(* ===== verification/GatewayEdge.thy ===== *)
theory GatewayEdge
  imports GatewayAuth TtlCache
begin

text \<open>
  The edge of the gateway: the verification of external tokens (\<^verbatim>\<open>common/jwks_verifier.py\<close>), the shadow organizations
  (\<^verbatim>\<open>rbac/external_org.py\<close>), the authentication middleware (\<^verbatim>\<open>rbac/middleware.py\<close>), the internal-key middleware
  (\<^verbatim>\<open>common/middleware.py\<close>) and the proxy routes (\<^verbatim>\<open>gateway/proxy_routes.py\<close>).  Signatures, HTTP exchanges and the caches are
  parameters.
\<close>

section \<open>Requests\<close>

text \<open>Header names are in lower case, as the server presents them; a lookup returns the first value.\<close>

record http_request =
  rq_method :: string
  rq_path :: string
  rq_root_path :: string
  rq_headers :: "(string \<times> string) list"

definition header :: "http_request \<Rightarrow> string \<Rightarrow> string option" where
  "header r name = map_of (rq_headers r) (py_lower name)"

definition header_lower :: "http_request \<Rightarrow> string \<Rightarrow> string" where
  "header_lower r name = py_lower (case header r name of None \<Rightarrow> [] | Some v \<Rightarrow> v)"

definition route_path :: "http_request \<Rightarrow> string" where
  "route_path r = (if rq_root_path r \<noteq> [] \<and> starts_with (rq_path r) (rq_root_path r)
     then (let s = drop (length (rq_root_path r)) (rq_path r) in if starts_with s ''/'' then s else ''/'' @ s)
     else rq_path r)"

section \<open>The internal key\<close>

datatype gate = Pass | Refuse int string

definition norm_path :: "string \<Rightarrow> string" where
  "norm_path p = (if p = ''/'' then p else rstrip_slash p)"

definition internal_auth_middleware :: "string \<Rightarrow> string option \<Rightarrow> string list \<Rightarrow> http_request \<Rightarrow> gate" where
  "internal_auth_middleware key prefix skip r =
    (let path = route_path r in
     if norm_path path \<in> set (map norm_path skip) then Pass
     else if header_lower r ''upgrade'' = ''websocket'' then Pass
     else if (case nonempty_str prefix of None \<Rightarrow> False | Some p \<Rightarrow> \<not> starts_with path p) then Pass
     else if key = [] then Refuse 503 ''Internal API key not configured''
     else case nonempty_str (or_str (header r ''X-Internal-API-Key'') (header r ''X-Internal-Key'')) of
       None \<Rightarrow> Refuse 401 ''Missing X-Internal-API-Key header''
     | Some k \<Rightarrow> if k \<noteq> key then Refuse 403 ''Invalid internal API key'' else Pass)"

section \<open>External tokens\<close>

text \<open>
  What the verifier uses: the HTTP fetch of the key set, the construction of a public key from the field \<^verbatim>\<open>x\<close>, the
  unverified header and the verified claims of a token.
\<close>

record 'k jwks_env =
  je_fetch :: "string + json"
  je_public_key :: "json \<Rightarrow> string + 'k"
  je_header :: "string \<Rightarrow> string + jobj"
  je_decode :: "'k \<Rightarrow> int \<Rightarrow> string \<Rightarrow> string + jobj"
  je_cache_ttl :: int

record jwks_state =
  js_jwks :: "jobj option"
  js_cached_at :: int

definition MAX_TOKEN_LEN :: nat where
  "MAX_TOKEN_LEN = 8192"

definition jwk_to_ed25519_public :: "'k jwks_env \<Rightarrow> jobj \<Rightarrow> string + 'k" where
  "jwk_to_ed25519_public e jwk = (if jget jwk ''kty'' \<noteq> JStr ''OKP'' \<or> jget jwk ''crv'' \<noteq> JStr ''Ed25519'' then Inl ''JWK is not an Ed25519 key''
     else if \<not> truthy (jget jwk ''x'') then Inl (''JWK missing '' @ [CHR 0x27] @ ''x'' @ [CHR 0x27] @ '' parameter'')
     else case je_public_key e (jget jwk ''x'') of Inl t \<Rightarrow> Inl (''invalid Ed25519 JWK: '' @ t) | Inr k \<Rightarrow> Inr k)"

definition fetch_jwks :: "'k jwks_env \<Rightarrow> string + jobj" where
  "fetch_jwks e = (case je_fetch e of
     Inl t \<Rightarrow> Inl (''JWKS fetch failed: '' @ t)
   | Inr (JObj d) \<Rightarrow> if map_of d ''keys'' = None then Inl (''JWKS response missing '' @ [CHR 0x27] @ ''keys'' @ [CHR 0x27]) else Inr d
   | Inr _ \<Rightarrow> Inl (''JWKS response missing '' @ [CHR 0x27] @ ''keys'' @ [CHR 0x27]))"

definition get_jwks :: "'k jwks_env \<Rightarrow> int \<Rightarrow> jwks_state \<Rightarrow> jwks_state \<times> (string + jobj)" where
  "get_jwks e now s = (case js_jwks s of
     Some d \<Rightarrow> if now - js_cached_at s < je_cache_ttl e then (s, Inr d)
              else (case fetch_jwks e of Inl t \<Rightarrow> (s, Inl t) | Inr d' \<Rightarrow> (\<lparr>js_jwks = Some d', js_cached_at = now\<rparr>, Inr d'))
   | None \<Rightarrow> (case fetch_jwks e of Inl t \<Rightarrow> (s, Inl t) | Inr d' \<Rightarrow> (\<lparr>js_jwks = Some d', js_cached_at = now\<rparr>, Inr d')))"

text \<open>What verification raises: its own exception, or one of a key set that is not a list of objects.\<close>

datatype jwks_fail = JWKSVerifyError string | Uncaught string

fun find_jwk :: "(jobj \<Rightarrow> bool) \<Rightarrow> json list \<Rightarrow> jwks_fail + jobj option" where
  "find_jwk p [] = Inr None"
| "find_jwk p (JObj j # js) = (if p j then Inr (Some j) else find_jwk p js)"
| "find_jwk p (v # js) = Inl (Uncaught ''AttributeError'')"

definition jwk_list :: "jobj \<Rightarrow> jwks_fail + json list" where
  "jwk_list d = (let v = jget d ''keys'' in if \<not> truthy v then Inr []
     else case v of JArr xs \<Rightarrow> Inr xs | JObj kvs \<Rightarrow> Inl (Uncaught ''AttributeError'') | JStr t \<Rightarrow> Inl (Uncaught ''AttributeError'')
     | _ \<Rightarrow> Inl (Uncaught ''TypeError''))"

definition verify_error :: "string + 'a \<Rightarrow> jwks_fail + 'a" where
  "verify_error r = (case r of Inl t \<Rightarrow> Inl (JWKSVerifyError t) | Inr x \<Rightarrow> Inr x)"

definition resolve_key :: "'k jwks_env \<Rightarrow> json \<Rightarrow> jobj \<Rightarrow> jwks_fail + 'k" where
  "resolve_key e kid d = (case jwk_list d of
     Inl f \<Rightarrow> Inl f
   | Inr keys \<Rightarrow>
      (let wanted = (\<lambda>j. if truthy kid then jget j ''kid'' = kid else jget j ''kty'' = JStr ''OKP'' \<and> jget j ''crv'' = JStr ''Ed25519'')
       in case find_jwk wanted keys of
            Inl f \<Rightarrow> Inl f
          | Inr (Some j) \<Rightarrow> verify_error (jwk_to_ed25519_public e j)
          | Inr None \<Rightarrow> Inl (JWKSVerifyError (if truthy kid then ''unknown kid: '' @ py_str kid else ''no Ed25519 keys in JWKS''))))"

definition verify_sync :: "'k jwks_env \<Rightarrow> int \<Rightarrow> string \<Rightarrow> jwks_state \<Rightarrow> jwks_state \<times> (jwks_fail + jobj)" where
  "verify_sync e now token s =
    (if token = [] \<or> length token > MAX_TOKEN_LEN then (s, Inl (JWKSVerifyError ''token length out of range''))
     else case je_header e token of
       Inl t \<Rightarrow> (s, Inl (JWKSVerifyError (''invalid token header: '' @ t)))
     | Inr h \<Rightarrow>
        if jget h ''alg'' \<noteq> JStr ''EdDSA''
        then (s, Inl (JWKSVerifyError (''unsupported alg: '' @ py_repr (jget h ''alg'') @ ''; only EdDSA accepted'')))
        else (case get_jwks e now s of
            (s', Inl t) \<Rightarrow> (s', Inl (JWKSVerifyError t))
          | (s', Inr d) \<Rightarrow> (s', case resolve_key e (jget h ''kid'') d of
               Inl f \<Rightarrow> Inl f
             | Inr k \<Rightarrow> (case je_decode e k now token of
                 Inl t \<Rightarrow> Inl (JWKSVerifyError t)
               | Inr claims \<Rightarrow> if jget claims ''type'' \<noteq> JStr ''access'' then Inl (JWKSVerifyError ''token type must be access'') else Inr claims))))"

section \<open>Shadow organizations\<close>

text \<open>\<^verbatim>\<open>xe_org\<close> is the identity provider's answer for an organization: whether it succeeded, with its JSON body, if any.\<close>

record 'k ext_env =
  xe_jwks :: "'k jwks_env"
  xe_org :: "string \<Rightarrow> string \<Rightarrow> (bool \<times> json option) option"
  xe_role_map :: "(string \<times> string) list"
  xe_groups_claim :: string
  xe_default_role :: string

definition stripped_name :: "json \<Rightarrow> string option" where
  "stripped_name v = (case v of JStr s \<Rightarrow> nonempty_str (Some (py_strip s)) | _ \<Rightarrow> None)"

definition idp_name :: "json \<Rightarrow> string option" where
  "idp_name v = (case v of
     JObj d \<Rightarrow> (case stripped_name (jget d ''name'') of
         Some n \<Rightarrow> Some n
       | None \<Rightarrow> (case jget d ''org'' of JObj o' \<Rightarrow> stripped_name (jget o' ''name'') | _ \<Rightarrow> None))
   | _ \<Rightarrow> None)"

definition fetch_idp_org_name :: "auth_env \<Rightarrow> 'k ext_env \<Rightarrow> string \<Rightarrow> string \<Rightarrow> string option" where
  "fetch_idp_org_name env x org token =
    (if org = [] \<or> token = [] then None
     else case nonempty_str (av_external_auth_url env) of
       None \<Rightarrow> None
     | Some url \<Rightarrow> (case xe_org x (rstrip_slash url @ ''/api/v1/orgs/'' @ org) token of
         Some (True, Some body) \<Rightarrow> idp_name body | _ \<Rightarrow> None))"

definition fallback_name :: "string \<Rightarrow> string" where
  "fallback_name org = ''Organization '' @ take 8 org"

definition add_org :: "string \<Rightarrow> string \<Rightarrow> gateway \<Rightarrow> gateway" where
  "add_org org name g = g\<lparr>gw_orgs := gw_orgs g @ [\<lparr>og_id = org, og_name = name, og_log_payloads = True\<rparr>]\<rparr>"

text \<open>None is the failure of both insertions, for a name already taken.\<close>

definition provision_org :: "string \<Rightarrow> string \<Rightarrow> gateway \<Rightarrow> gateway option" where
  "provision_org org name g =
    (let taken = (\<lambda>n. \<exists>o' \<in> set (gw_orgs g). og_name o' = n); name2 = name @ '' ('' @ take 8 org @ '')''
     in if \<not> taken name then Some (add_org org name g) else if \<not> taken name2 then Some (add_org org name2 g) else None)"

definition ensure_external_org :: "auth_env \<Rightarrow> 'k ext_env \<Rightarrow> string \<Rightarrow> string \<Rightarrow> string \<Rightarrow> gateway \<Rightarrow> gateway" where
  "ensure_external_org env x org uid token g =
    (if org = [] then g
     else case (if find_org org g \<noteq> None then Some g
                else provision_org org (case fetch_idp_org_name env x org token of None \<Rightarrow> fallback_name org | Some n \<Rightarrow> n) g) of
       None \<Rightarrow> g
     | Some g1 \<Rightarrow> if uid = [] \<or> find_membership uid org g1 \<noteq> None \<or> find_user uid g1 = None then g1
                 else add_member uid org ''member'' g1)"

section \<open>Token resolution\<close>

definition local_permissions :: "string list \<Rightarrow> gateway \<Rightarrow> string list" where
  "local_permissions roles g = fst (normalize_permissions (concat (map ro_permissions (filter (\<lambda>r. ro_name r \<in> set roles) (gw_roles g)))))"

definition user_ctx :: "gw_user \<Rightarrow> string list \<Rightarrow> string list \<Rightarrow> string option \<Rightarrow> user_context" where
  "user_ctx user roles perms org = \<lparr>uc_user_id = us_id user, uc_username = us_email user, uc_email = us_email user, uc_roles = roles,
     uc_permissions = perms, uc_org_id = org, uc_quota_limit = 10000, uc_quota_used = 0, uc_is_active = True\<rparr>"

definition resolve_local_token :: "auth_env \<Rightarrow> string \<Rightarrow> gateway \<Rightarrow> auth_fail + user_context" where
  "resolve_local_token env token g = (case get_current_user env token g of
     Inl e \<Rightarrow> Inl e
   | Inr (user, org, roles) \<Rightarrow> Inr (user_ctx user roles (local_permissions roles g) (Some org)))"

text \<open>The members of a claim that Python iterates over, and its texts; a null permission counts as the empty text.\<close>

definition claim_items :: "json \<Rightarrow> auth_fail + json list" where
  "claim_items v = (if \<not> truthy v then Inr []
     else case v of JArr xs \<Rightarrow> Inr xs | JStr s \<Rightarrow> Inr (map (\<lambda>c. JStr [c]) s) | JObj d \<Rightarrow> Inr (map (\<lambda>kv. JStr (fst kv)) d)
     | _ \<Rightarrow> Inl (Raised ''TypeError''))"

fun texts :: "bool \<Rightarrow> json list \<Rightarrow> string list option" where
  "texts nulls [] = Some []"
| "texts nulls (JStr s # xs) = map_option ((#) s) (texts nulls xs)"
| "texts nulls (v # xs) = (if nulls \<and> \<not> truthy v then map_option ((#) []) (texts nulls xs) else None)"

definition claim_texts :: "bool \<Rightarrow> json \<Rightarrow> auth_fail + string list" where
  "claim_texts nulls v = (case claim_items v of
     Inl e \<Rightarrow> Inl e
   | Inr xs \<Rightarrow> (case texts nulls xs of None \<Rightarrow> Inl (Raised ''ValidationError'') | Some ts \<Rightarrow> Inr ts))"

definition claim_org :: "jobj \<Rightarrow> auth_fail + string option" where
  "claim_org claims =
    (let v = jget claims ''org_id'' in
     if truthy v then (case v of JStr s \<Rightarrow> Inr (Some s) | _ \<Rightarrow> Inl (Raised ''ValidationError''))
     else case (case jget claims ''org_ids'' of JObj (kv # kvs) \<Rightarrow> Inl (Raised ''KeyError'') | w \<Rightarrow> claim_items w) of
       Inl e \<Rightarrow> Inl e
     | Inr [] \<Rightarrow> Inr None
     | Inr (JStr s # _) \<Rightarrow> Inr (Some s)
     | Inr (JNull # _) \<Rightarrow> Inr None
     | Inr (_ # _) \<Rightarrow> Inl (Raised ''ValidationError''))"

text \<open>The steps both external providers share: claims, shadow user, organization and shadow organization.\<close>

definition invalid_token :: auth_fail where
  "invalid_token = Http (HTTPException 401 ''Invalid token'')"

definition external_identity :: "auth_env \<Rightarrow> 'k ext_env \<Rightarrow> string \<Rightarrow> string \<Rightarrow> gateway \<Rightarrow> jwks_state
    \<Rightarrow> gateway \<times> jwks_state \<times> (auth_fail + gw_user \<times> string option \<times> jobj)" where
  "external_identity env x token nid g s = (case verify_sync (xe_jwks x) (gw_now g) token s of
     (s', Inl (JWKSVerifyError _)) \<Rightarrow> (g, s', Inl invalid_token)
   | (s', Inl (Uncaught t)) \<Rightarrow> (g, s', Inl (Raised t))
   | (s', Inr claims) \<Rightarrow> (case (case map_of claims ''email'' of None \<Rightarrow> JStr [] | Some v \<Rightarrow> v) of
       JStr email \<Rightarrow>
        (let (g1, user, _) = get_or_create_shadow_user nid email g
         in case claim_org claims of
              Inl e \<Rightarrow> (g1, s', Inl e)
            | Inr org \<Rightarrow> (case nonempty_str org of None \<Rightarrow> g1 | Some o' \<Rightarrow> ensure_external_org env x o' (us_id user) token g1, s', Inr (user, org, claims)))
     | _ \<Rightarrow> (g, s', Inl (Raised ''AttributeError''))))"

definition resolve_external_token :: "auth_env \<Rightarrow> 'k ext_env \<Rightarrow> string \<Rightarrow> string \<Rightarrow> gateway \<Rightarrow> jwks_state
    \<Rightarrow> gateway \<times> jwks_state \<times> (auth_fail + user_context)" where
  "resolve_external_token env x token nid g s = (case external_identity env x token nid g s of
     (g', s', Inl e) \<Rightarrow> (g', s', Inl e)
   | (g', s', Inr (user, org, claims)) \<Rightarrow> (g', s',
       case claim_texts False (jget claims ''roles'') of
         Inl e \<Rightarrow> Inl e
       | Inr roles \<Rightarrow> (case claim_texts True (jget claims ''permissions'') of
           Inl e \<Rightarrow> Inl e
         | Inr perms \<Rightarrow> Inr (user_ctx user roles (expand_catalog_permissions perms) org))))"

fun first_group :: "(string \<times> string) list \<Rightarrow> json list \<Rightarrow> string option" where
  "first_group m [] = None"
| "first_group m (JStr s # xs) = (case map_of m s of Some r \<Rightarrow> Some r | None \<Rightarrow> first_group m xs)"
| "first_group m (v # xs) = first_group m xs"

definition oidc_role :: "'k ext_env \<Rightarrow> jobj \<Rightarrow> auth_fail + string" where
  "oidc_role x claims = (if xe_role_map x = [] then Inr ''admin''
     else case (case jget claims (xe_groups_claim x) of JStr s \<Rightarrow> Inr (if s = [] then [] else [JStr s]) | v \<Rightarrow> claim_items v) of
       Inl e \<Rightarrow> Inl e
     | Inr groups \<Rightarrow> Inr (case first_group (xe_role_map x) groups of None \<Rightarrow> xe_default_role x | Some r \<Rightarrow> r))"

definition resolve_oidc_token :: "auth_env \<Rightarrow> 'k ext_env \<Rightarrow> string \<Rightarrow> string \<Rightarrow> gateway \<Rightarrow> jwks_state
    \<Rightarrow> gateway \<times> jwks_state \<times> (auth_fail + user_context)" where
  "resolve_oidc_token env x token nid g s = (case external_identity env x token nid g s of
     (g', s', Inl e) \<Rightarrow> (g', s', Inl e)
   | (g', s', Inr (user, org, claims)) \<Rightarrow> (g', s',
       case oidc_role x claims of
         Inl e \<Rightarrow> Inl e
       | Inr role \<Rightarrow> Inr (user_ctx user [role] (expand_catalog_permissions (catalog_role_permissions role)) org)))"

definition resolve_token_to_user_context :: "auth_env \<Rightarrow> 'k ext_env \<Rightarrow> string \<Rightarrow> string \<Rightarrow> gateway \<Rightarrow> jwks_state
    \<Rightarrow> gateway \<times> jwks_state \<times> (auth_fail + user_context)" where
  "resolve_token_to_user_context env x token nid g s = (case resolve_local_token env token g of
     Inr u \<Rightarrow> (g, s, Inr u)
   | Inl (Raised e) \<Rightarrow> (g, s, Inl (Raised e))
   | Inl (Http e) \<Rightarrow>
       if av_mode env = ''inferiaauth'' then resolve_external_token env x token nid g s
       else if av_mode env = ''oidc'' then resolve_oidc_token env x token nid g s
       else (g, s, Inl (Http e)))"

section \<open>The authentication middleware\<close>

definition public_paths :: "string list" where
  "public_paths = [''/'', ''/health'', ''/health/services'', ''/docs'', ''/redoc'', ''/openapi.json'', ''/auth/login'', ''/auth/register'',
     ''/auth/refresh'', ''/auth/register-invite'', ''/auth/start'', ''/auth/callback'', ''/audit/internal/log'']"

definition invitation_lookup :: "string \<Rightarrow> bool" where
  "invitation_lookup p \<longleftrightarrow> starts_with p ''/auth/invitations/'' \<and> CHR ''/'' \<notin> set (drop (length ''/auth/invitations/'') p) \<and>
     length p > length ''/auth/invitations/''"

definition skips_auth :: "http_request \<Rightarrow> bool" where
  "skips_auth r \<longleftrightarrow> header_lower r ''upgrade'' = ''websocket'' \<or> py_in ''upgrade'' (header_lower r ''connection'') \<or>
     (let p = route_path r in starts_with p ''/deployment/ws'' \<or> starts_with p ''/v1/workers/'' \<or> starts_with p ''/hf/'' \<or> starts_with p ''/v2/'' \<or>
        starts_with p ''/v1/llmfit/'' \<or> p \<in> set public_paths \<or> starts_with p ''/internal/'' \<or> invitation_lookup p) \<or> rq_method r = ''OPTIONS''"

definition py_words :: "string \<Rightarrow> string list" where
  "py_words s = filter (\<lambda>w. w \<noteq> []) (split_on (CHR '' '') (map (\<lambda>c. if is_space c then CHR '' '' else c) s))"

datatype admission = Unchecked | Admitted user_context | Rejected int string

definition rejection :: "auth_fail \<Rightarrow> admission" where
  "rejection e = (case e of Http (HTTPException n d) \<Rightarrow> Rejected n d | Raised t \<Rightarrow> Rejected 401 (''Authentication failed: '' @ t))"

definition bearer_token :: "http_request \<Rightarrow> admission + string" where
  "bearer_token r = (case nonempty_str (header r ''Authorization'') of
     None \<Rightarrow> Inl (Rejected 401 ''Missing Authorization header'')
   | Some h \<Rightarrow> (case py_words h of
       [scheme, token] \<Rightarrow> if py_lower scheme \<noteq> ''bearer'' then Inl (Rejected 401 ''Invalid authentication scheme'') else Inr token
     | _ \<Rightarrow> Inl (Rejected 401 ''Invalid Authorization header format'')))"

definition auth_middleware :: "auth_env \<Rightarrow> 'k ext_env \<Rightarrow> (string, user_context, 'c) ttl_cache \<Rightarrow> http_request \<Rightarrow> string
    \<Rightarrow> gateway \<Rightarrow> jwks_state \<Rightarrow> 'c \<Rightarrow> gateway \<times> jwks_state \<times> 'c \<times> admission" where
  "auth_middleware env x tc r nid g s cache =
    (if skips_auth r then (g, s, cache, Unchecked)
     else case bearer_token r of
       Inl a \<Rightarrow> (g, s, cache, a)
     | Inr token \<Rightarrow> (case tc_get tc (gw_now g) token cache of
         Some u \<Rightarrow> (g, s, cache, Admitted u)
       | None \<Rightarrow> (case resolve_token_to_user_context env x token nid g s of
           (g', s', Inl e) \<Rightarrow> (g', s', cache, rejection e)
         | (g', s', Inr u) \<Rightarrow> (g', s', tc_put tc (gw_now g) token u cache, Admitted u))))"

section \<open>The proxy\<close>

definition strip_slashes :: "string \<Rightarrow> string" where
  "strip_slashes s = rstrip_slash (dropWhile (\<lambda>c. c = CHR ''/'') s)"

definition proxy_permission :: "string \<Rightarrow> string \<Rightarrow> permission" where
  "proxy_permission method path =
    (let m = py_upper method; p = py_lower (strip_slashes path) in
     if m = ''POST'' \<and> (starts_with p ''deployment/deletepool'' \<or> starts_with p ''deployment/stoppool'') then DEPLOYMENT_DELETE
     else if m = ''POST'' \<and> (starts_with p ''deployment/deploy'' \<or> starts_with p ''deployment/createpool'') then DEPLOYMENT_CREATE
     else if m = ''POST'' \<and> starts_with p ''deployment/'' then DEPLOYMENT_UPDATE
     else if m = ''GET'' \<or> m = ''HEAD'' then DEPLOYMENT_LIST
     else if m = ''POST'' then DEPLOYMENT_CREATE
     else if m = ''PUT'' \<or> m = ''PATCH'' then DEPLOYMENT_UPDATE
     else if m = ''DELETE'' then DEPLOYMENT_DELETE
     else DEPLOYMENT_LIST)"

definition require_proxy_permission :: "user_context \<Rightarrow> string \<Rightarrow> string \<Rightarrow> unit http" where
  "require_proxy_permission u method path = require_permission u (proxy_permission method path)"

definition require_models_permission :: "user_context \<Rightarrow> string \<Rightarrow> unit http" where
  "require_models_permission u method =
    (let m = py_upper method in
     if m = ''GET'' then require_permission u MODEL_LIST else if m = ''POST'' then require_permission u MODEL_ADD
     else if m = ''DELETE'' then require_permission u MODEL_DELETE else Inl (HTTPException 405 ''method not allowed''))"

text \<open>The node and worker routes check the methods they list; for any other there is no check.\<close>

definition require_method_permission :: "user_context \<Rightarrow> string \<Rightarrow> unit http" where
  "require_method_permission u method =
    (let m = py_upper method in
     if m = ''GET'' then require_permission u DEPLOYMENT_LIST else if m = ''POST'' then require_permission u DEPLOYMENT_CREATE
     else if m = ''PATCH'' \<or> m = ''PUT'' then require_permission u DEPLOYMENT_UPDATE
     else if m = ''DELETE'' then require_permission u DEPLOYMENT_DELETE else Inr ())"

definition require_worker_permission :: "user_context \<Rightarrow> string \<Rightarrow> unit http" where
  "require_worker_permission u method =
    (let m = py_upper method in
     if m = ''GET'' then require_permission u DEPLOYMENT_LIST else if m = ''POST'' then require_permission u DEPLOYMENT_CREATE
     else if m = ''DELETE'' then require_permission u DEPLOYMENT_DELETE else Inr ())"

definition require_ami_permission :: "user_context \<Rightarrow> string \<Rightarrow> unit http" where
  "require_ami_permission u method = require_permission u (if py_upper method = ''POST'' then DEPLOYMENT_CREATE else DEPLOYMENT_LIST)"

text \<open>The dictionary of headers: a name has its first value; removal and assignment match names exactly.\<close>

definition header_dict :: "http_request \<Rightarrow> (string \<times> string) list" where
  "header_dict r = AList.clearjunk (rq_headers r)"

definition trusted_headers :: "string \<Rightarrow> (string \<times> string) list \<Rightarrow> (string \<times> string) list" where
  "trusted_headers key hs = AList.update ''X-Gateway-Request'' ''true'' (AList.update ''X-Internal-API-Key'' key
     (AList.delete ''X-Internal-API-Key'' hs))"

definition proxy_headers :: "string \<Rightarrow> user_context \<Rightarrow> http_request \<Rightarrow> (string \<times> string) list" where
  "proxy_headers key u r =
    (let h1 = AList.delete ''X-Internal-API-Key'' (AList.delete ''Authorization'' (header_dict r));
         h2 = AList.update ''X-Internal-API-Key'' key h1; h3 = AList.update ''X-User-ID'' (uc_user_id u) h2
     in AList.update ''X-Gateway-Request'' ''true'' (AList.update ''X-Organization-ID'' (opt_str (uc_org_id u)) h3))"

record upstream =
  up_method :: string
  up_url :: string
  up_headers :: "(string \<times> string) list"

text \<open>The request sent, unless the rate limiter refuses with an HTTP error.\<close>

definition proxy_request :: "string \<Rightarrow> http_error option \<Rightarrow> string \<Rightarrow> string \<Rightarrow> string \<Rightarrow> user_context \<Rightarrow> http_request \<Rightarrow> upstream http" where
  "proxy_request key limited method path target u r = (case limited of
     Some e \<Rightarrow> Inl e
   | None \<Rightarrow> Inr \<lparr>up_method = method, up_url = target @ ''/'' @ path, up_headers = proxy_headers key u r\<rparr>)"

definition when_permitted :: "unit http \<Rightarrow> 'a http \<Rightarrow> 'a http" where
  "when_permitted p k = (case p of Inl e \<Rightarrow> Inl e | Inr _ \<Rightarrow> k)"

record proxy_env =
  px_key :: string
  px_orchestration :: string
  px_limited :: "http_error option"

definition to_orchestration :: "proxy_env \<Rightarrow> user_context \<Rightarrow> http_request \<Rightarrow> unit http \<Rightarrow> string \<Rightarrow> string \<Rightarrow> upstream http" where
  "to_orchestration px u r allowed method path =
     when_permitted allowed (proxy_request (px_key px) (px_limited px) method path (px_orchestration px) u r)"

definition proxy_deployments :: "proxy_env \<Rightarrow> user_context \<Rightarrow> http_request \<Rightarrow> string \<Rightarrow> upstream http" where
  "proxy_deployments px u r path = to_orchestration px u r (require_proxy_permission u (rq_method r) (''deployments/'' @ path)) (rq_method r) (''deployments/'' @ path)"

definition proxy_nodes :: "proxy_env \<Rightarrow> user_context \<Rightarrow> http_request \<Rightarrow> string \<Rightarrow> upstream http" where
  "proxy_nodes px u r path = to_orchestration px u r (require_method_permission u (rq_method r)) (rq_method r) (''v1/nodes/'' @ path)"

definition proxy_providers :: "proxy_env \<Rightarrow> user_context \<Rightarrow> http_request \<Rightarrow> string \<Rightarrow> upstream http" where
  "proxy_providers px u r path = to_orchestration px u r (Inr ()) (rq_method r) (''api/v1/providers/'' @ path)"

definition proxy_models_collection :: "proxy_env \<Rightarrow> user_context \<Rightarrow> http_request \<Rightarrow> upstream http" where
  "proxy_models_collection px u r = to_orchestration px u r (require_models_permission u (rq_method r)) (rq_method r) ''v1/models''"

definition proxy_models :: "proxy_env \<Rightarrow> user_context \<Rightarrow> http_request \<Rightarrow> string \<Rightarrow> upstream http" where
  "proxy_models px u r path = to_orchestration px u r (require_models_permission u (rq_method r)) (rq_method r) (''v1/models/'' @ path)"

definition proxy_logs :: "proxy_env \<Rightarrow> user_context \<Rightarrow> http_request \<Rightarrow> string \<Rightarrow> upstream http" where
  "proxy_logs px u r path = to_orchestration px u r (require_proxy_permission u (rq_method r) (''logs/'' @ path)) ''GET'' (''logs/'' @ path)"

definition proxy_provider_resources :: "proxy_env \<Rightarrow> user_context \<Rightarrow> http_request \<Rightarrow> upstream http" where
  "proxy_provider_resources px u r = to_orchestration px u r (require_proxy_permission u (rq_method r) ''provider/resources'') ''GET'' ''provider/resources''"

definition proxy_inventory :: "proxy_env \<Rightarrow> user_context \<Rightarrow> http_request \<Rightarrow> string \<Rightarrow> upstream http" where
  "proxy_inventory px u r path = to_orchestration px u r (require_proxy_permission u (rq_method r) (''inventory/'' @ path)) (rq_method r) (''inventory/'' @ path)"

definition proxy_deployment :: "proxy_env \<Rightarrow> user_context \<Rightarrow> http_request \<Rightarrow> string \<Rightarrow> upstream http" where
  "proxy_deployment px u r path = to_orchestration px u r (require_proxy_permission u (rq_method r) (''deployment/'' @ path)) (rq_method r) (''deployment/'' @ path)"

definition proxy_admin_workers :: "proxy_env \<Rightarrow> user_context \<Rightarrow> http_request \<Rightarrow> string \<Rightarrow> upstream http" where
  "proxy_admin_workers px u r path = to_orchestration px u r (require_worker_permission u (rq_method r)) (rq_method r) (''v1/admin/workers/'' @ path)"

definition proxy_admin_engine_ami :: "proxy_env \<Rightarrow> user_context \<Rightarrow> http_request \<Rightarrow> string \<Rightarrow> upstream http" where
  "proxy_admin_engine_ami px u r path = to_orchestration px u r (require_ami_permission u (rq_method r)) (rq_method r)
     (''v1/admin/aws/engine-ami'' @ (if path = [] then [] else ''/'' @ path))"

definition proxy_admin_aws_discovery :: "proxy_env \<Rightarrow> user_context \<Rightarrow> http_request \<Rightarrow> upstream http" where
  "proxy_admin_aws_discovery px u r =
    (let p = (if rq_root_path r \<noteq> [] \<and> starts_with (rq_path r) (rq_root_path r) then drop (length (rq_root_path r)) (rq_path r) else rq_path r)
     in to_orchestration px u r (require_permission u DEPLOYMENT_LIST) (rq_method r) (dropWhile (\<lambda>c. c = CHR ''/'') p))"

text \<open>The worker endpoints and the fit service, without a user.\<close>

definition proxy_worker_endpoints :: "proxy_env \<Rightarrow> http_request \<Rightarrow> string \<Rightarrow> upstream" where
  "proxy_worker_endpoints px r path = \<lparr>up_method = rq_method r, up_url = px_orchestration px @ ''/v1/workers/'' @ path,
     up_headers = trusted_headers (px_key px) (header_dict r)\<rparr>"

definition LLMFIT_URL :: string where
  "LLMFIT_URL = ''http://llmfit:8787''"

definition proxy_llmfit :: "proxy_env \<Rightarrow> http_request \<Rightarrow> string \<Rightarrow> upstream" where
  "proxy_llmfit px r path = \<lparr>up_method = rq_method r, up_url = LLMFIT_URL @ ''/'' @ path,
     up_headers = trusted_headers (px_key px) (AList.delete ''Authorization'' (header_dict r))\<rparr>"

section \<open>Streaming passthroughs\<close>

text \<open>\<^verbatim>\<open>posixpath.normpath\<close>: \<^verbatim>\<open>slashes\<close> is the number of leading slashes kept; components are collected in reverse.\<close>

definition norm_step :: "nat \<Rightarrow> string list \<Rightarrow> string \<Rightarrow> string list" where
  "norm_step slashes acc c =
    (if c = [] \<or> c = ''.'' then acc
     else if c \<noteq> ''..'' \<or> (slashes = 0 \<and> acc = []) \<or> (acc \<noteq> [] \<and> hd acc = ''..'') then c # acc
     else tl acc)"

definition initial_slashes :: "string \<Rightarrow> nat" where
  "initial_slashes p = (if \<not> starts_with p ''/'' then 0 else if starts_with p ''//'' \<and> \<not> starts_with p ''///'' then 2 else 1)"

definition normpath :: "string \<Rightarrow> string" where
  "normpath p = (if p = [] then ''.''
     else let s = initial_slashes p; q = replicate s (CHR ''/'') @ join_with ''/'' (rev (foldl (norm_step s) [] (split_on (CHR ''/'') p)))
          in if q = [] then ''.'' else q)"

definition stream_request_headers :: "string list" where
  "stream_request_headers = [''range'', ''accept-encoding'', ''if-none-match'', ''if-modified-since'']"

definition STREAM_FORWARD_HEADERS :: "string list" where
  "STREAM_FORWARD_HEADERS = [''content-type'', ''content-length'', ''content-range'', ''accept-ranges'', ''etag'', ''last-modified'',
     ''x-repo-commit'', ''x-linked-etag'', ''x-linked-size'', ''location'']"

definition streaming_passthrough :: "proxy_env \<Rightarrow> string \<Rightarrow> http_request \<Rightarrow> upstream" where
  "streaming_passthrough px url r = \<lparr>up_method = rq_method r, up_url = url,
     up_headers = concat (map (\<lambda>h. case nonempty_str (header r h) of None \<Rightarrow> [] | Some v \<Rightarrow> [(h, v)]) stream_request_headers)
       @ [(''X-Internal-API-Key'', px_key px), (''X-Gateway-Request'', ''true'')]\<rparr>"

definition stream_response_headers :: "(string \<times> string) list \<Rightarrow> (string \<times> string) list" where
  "stream_response_headers hs = filter (\<lambda>kv. py_lower (fst kv) \<in> set STREAM_FORWARD_HEADERS) hs"

definition confined_passthrough :: "string \<Rightarrow> proxy_env \<Rightarrow> http_request \<Rightarrow> string \<Rightarrow> upstream http" where
  "confined_passthrough prefix px r path =
    (let n = normpath (prefix @ ''/'' @ path)
     in if \<not> (n = prefix \<or> starts_with n (prefix @ ''/'')) then Inl (HTTPException 400 ''invalid path'')
        else Inr (streaming_passthrough px (px_orchestration px @ n) r))"

definition proxy_hf_mirror :: "proxy_env \<Rightarrow> http_request \<Rightarrow> string \<Rightarrow> upstream http" where
  "proxy_hf_mirror = confined_passthrough ''/hf''"

definition proxy_v2_registry :: "proxy_env \<Rightarrow> http_request \<Rightarrow> string \<Rightarrow> upstream http" where
  "proxy_v2_registry = confined_passthrough ''/v2''"

section \<open>WebSocket proxies\<close>

text \<open>The handshake of the dashboard's proxies: None is the close code 1008.\<close>

definition ws_token :: "(string \<times> string) list \<Rightarrow> string option" where
  "ws_token q = nonempty_str (or_str (map_of q ''access_token'') (map_of q ''token''))"

definition ws_admit :: "(string \<Rightarrow> auth_fail + user_context) \<Rightarrow> permission \<Rightarrow> (string \<times> string) list \<Rightarrow> user_context option" where
  "ws_admit resolve p q = (case ws_token q of
     None \<Rightarrow> None
   | Some t \<Rightarrow> (case resolve t of
       Inl _ \<Rightarrow> None
     | Inr u \<Rightarrow> (case require_permission u p of Inl _ \<Rightarrow> None | Inr _ \<Rightarrow> Some u)))"

definition ws_headers :: "string \<Rightarrow> user_context \<Rightarrow> (string \<times> string) list" where
  "ws_headers key u = [(''X-Internal-API-Key'', key), (''X-Gateway-Request'', ''true''), (''X-User-ID'', uc_user_id u),
     (''X-Organization-ID'', case uc_org_id u of None \<Rightarrow> [] | Some o' \<Rightarrow> o')]"

definition ws_query :: "(string \<times> string) list \<Rightarrow> string" where
  "ws_query q = (let s = join_with ''&'' (map (\<lambda>kv. fst kv @ ''='' @ snd kv) (filter (\<lambda>kv. fst kv \<notin> {''access_token'', ''token''}) q))
     in if s = [] then [] else ''?'' @ s)"

text \<open>\<^verbatim>\<open>base\<close> is the orchestration address with its scheme replaced by the WebSocket one.\<close>

definition proxy_deployment_ws :: "string \<Rightarrow> string \<Rightarrow> (string \<Rightarrow> auth_fail + user_context) \<Rightarrow> (string \<times> string) list
    \<Rightarrow> (string \<times> (string \<times> string) list) option" where
  "proxy_deployment_ws base key resolve q = (case ws_admit resolve DEPLOYMENT_LIST q of
     None \<Rightarrow> None | Some u \<Rightarrow> Some (rstrip_slash base @ ''/deployment/ws'', ws_headers key u))"

definition proxy_admin_workers_ws :: "string \<Rightarrow> string \<Rightarrow> (string \<Rightarrow> auth_fail + user_context) \<Rightarrow> string \<Rightarrow> string \<Rightarrow> permission
    \<Rightarrow> (string \<times> string) list \<Rightarrow> (string \<times> (string \<times> string) list) option" where
  "proxy_admin_workers_ws base key resolve node subpath p q = (case ws_admit resolve p q of
     None \<Rightarrow> None
   | Some u \<Rightarrow> Some (rstrip_slash base @ ''/v1/admin/workers/'' @ node @ ''/'' @ subpath @ ws_query q, ws_headers key u))"

definition proxy_admin_workers_logs :: "string \<Rightarrow> string \<Rightarrow> (string \<Rightarrow> auth_fail + user_context) \<Rightarrow> string \<Rightarrow> (string \<times> string) list
    \<Rightarrow> (string \<times> (string \<times> string) list) option" where
  "proxy_admin_workers_logs base key resolve node = proxy_admin_workers_ws base key resolve node ''logs'' DEPLOYMENT_LIST"

definition proxy_admin_workers_shell :: "string \<Rightarrow> string \<Rightarrow> (string \<Rightarrow> auth_fail + user_context) \<Rightarrow> string \<Rightarrow> (string \<times> string) list
    \<Rightarrow> (string \<times> (string \<times> string) list) option" where
  "proxy_admin_workers_shell base key resolve node = proxy_admin_workers_ws base key resolve node ''shell'' DEPLOYMENT_UPDATE"

definition proxy_worker_channel :: "string \<Rightarrow> string \<Rightarrow> string option \<Rightarrow> (string \<times> (string \<times> string) list) option" where
  "proxy_worker_channel base key auth = (case nonempty_str auth of
     None \<Rightarrow> None
   | Some a \<Rightarrow> Some (rstrip_slash base @ ''/v1/workers/channel'',
       [(''Authorization'', a), (''X-Internal-API-Key'', key), (''X-Gateway-Request'', ''true'')]))"

section \<open>Properties of the edge\<close>

lemma norm_step_clean:
  assumes "s > 0" "''..'' \<notin> set acc" "[] \<notin> set acc" "''.'' \<notin> set acc"
  shows "''..'' \<notin> set (norm_step s acc c)" "[] \<notin> set (norm_step s acc c)" "''.'' \<notin> set (norm_step s acc c)"
  using assms by (cases acc; auto simp: norm_step_def)+

lemma norm_fold_clean:
  assumes "s > 0" "''..'' \<notin> set acc" "[] \<notin> set acc" "''.'' \<notin> set acc"
  shows "''..'' \<notin> set (foldl (norm_step s) acc cs) \<and> [] \<notin> set (foldl (norm_step s) acc cs) \<and> ''.'' \<notin> set (foldl (norm_step s) acc cs)"
  using assms(2-4)
proof (induction cs arbitrary: acc)
  case (Cons c cs)
  then show ?case using norm_step_clean [OF assms(1) Cons.prems, of c] by simp
qed simp

lemma norm_fold_no_slash:
  assumes "\<forall>c \<in> set cs. CHR ''/'' \<notin> set c" "\<forall>c \<in> set acc. CHR ''/'' \<notin> set c"
  shows "\<forall>c \<in> set (foldl (norm_step s) acc cs). CHR ''/'' \<notin> set c"
  using assms
proof (induction cs arbitrary: acc)
  case (Cons c cs)
  have "\<forall>d \<in> set (norm_step s acc c). CHR ''/'' \<notin> set d"
    using Cons.prems by (cases acc) (auto simp: norm_step_def)
  with Cons show ?case by simp
qed simp

lemma split_on_no_sep: "w \<in> set (split_on c s) \<Longrightarrow> c \<notin> set w"
  by (induction s arbitrary: w) (auto split: if_splits list.splits)

lemma split_join:
  assumes "ws \<noteq> []" "\<forall>w \<in> set ws. c \<notin> set w"
  shows "split_on c (join_with [c] ws) = ws"
proof -
  have one: "split_on c w = [w]" if "c \<notin> set w" for w using that by (induction w) auto
  have app: "split_on c (w @ c # t) = w # split_on c t" if "c \<notin> set w" for w t using that by (induction w) auto
  show ?thesis
    using assms
  proof (induction ws)
    case (Cons w ws)
    then show ?case by (cases ws) (simp_all add: join_with_def one app)
  qed simp
qed

lemma takeWhile_segments:
  assumes "CHR ''/'' \<notin> set c"
  shows "takeWhile (\<lambda>x. x \<noteq> CHR ''/'') (c @ concat (map (\<lambda>s. ''/'' @ s) rest)) = c"
proof -
  have "takeWhile (\<lambda>x. x \<noteq> CHR ''/'') (concat (map (\<lambda>s. ''/'' @ s) rest)) = []" by (cases rest) auto
  with assms show ?thesis by (simp add: takeWhile_append)
qed

lemma slash_append: "(@) ''/'' = (#) (CHR ''/'')"
  by (rule ext) simp

lemma starts_with_split: "starts_with s p \<Longrightarrow> \<exists>t. s = p @ t"
  unfolding starts_with_def by (metis append_take_drop_id)

lemma normpath_segments:
  assumes "starts_with p ''/''" "\<not> starts_with p ''//''"
  shows "\<exists>segs. normpath p = ''/'' @ join_with ''/'' segs \<and> (\<forall>s \<in> set segs. s \<notin> {[], ''.'', ''..''} \<and> CHR ''/'' \<notin> set s)"
proof -
  let ?f = "foldl (norm_step 1) [] (split_on (CHR ''/'') p)"
  have "p \<noteq> []" "initial_slashes p = 1" using assms by (auto simp: initial_slashes_def starts_with_def)
  then have "normpath p = ''/'' @ join_with ''/'' (rev ?f)" by (simp add: normpath_def Let_def)
  moreover have "\<forall>s \<in> set (rev ?f). s \<notin> {[], ''.'', ''..''} \<and> CHR ''/'' \<notin> set s"
    using norm_fold_clean [of 1 "[]" "split_on (CHR ''/'') p"] norm_fold_no_slash [of "split_on (CHR ''/'') p" "[]" 1] split_on_no_sep
    by auto
  ultimately show ?thesis by blast
qed

text \<open>
  C21: The artifact passthroughs cannot leave their prefix: what they send the internal key to is an address below it, without
  empty, dot or parent segments, whatever path the client asked for.
\<close>

theorem artifact_paths_confined:
  assumes "prefix \<in> {''/hf'', ''/v2''}" "confined_passthrough prefix px r path = Inr up"
  shows "\<exists>segs. up_url up = px_orchestration px @ prefix @ concat (map (\<lambda>s. ''/'' @ s) segs) \<and>
    (\<forall>s \<in> set segs. s \<notin> {[], ''.'', ''..''} \<and> CHR ''/'' \<notin> set s)"
proof -
  define n where "n = normpath (prefix @ ''/'' @ path)"
  obtain p where p: "prefix = ''/'' @ p" "CHR ''/'' \<notin> set p" "p \<noteq> []" using assms(1) by auto
  have "starts_with (prefix @ ''/'' @ path) ''/''" "\<not> starts_with (prefix @ ''/'' @ path) ''//''" using assms(1) by (auto simp: starts_with_def)
  then obtain segs where shape: "n = ''/'' @ join_with ''/'' segs" and clean: "\<forall>s \<in> set segs. s \<notin> {[], ''.'', ''..''} \<and> CHR ''/'' \<notin> set s"
    using normpath_segments unfolding n_def by blast
  have ok: "n = prefix \<or> starts_with n (prefix @ ''/'')" and url: "up_url up = px_orchestration px @ n"
    using assms(2) by (auto simp: confined_passthrough_def streaming_passthrough_def Let_def n_def split: if_splits)
  obtain c rest where segs: "segs = c # rest" using ok shape p(1,3) by (cases segs) (auto simp: join_with_def starts_with_def)
  have nn: "n = ''/'' @ c @ concat (map (\<lambda>s. ''/'' @ s) rest)" using shape segs by (simp add: join_with_def slash_append)
  have c: "takeWhile (\<lambda>x. x \<noteq> CHR ''/'') (tl n) = c" using takeWhile_segments [of c rest] clean segs by (simp add: nn)
  have "takeWhile (\<lambda>x. x \<noteq> CHR ''/'') (tl n) = p"
    using ok
  proof
    assume "n = prefix"
    then show ?thesis using p(1,2) by (auto simp: takeWhile_eq_all_conv)
  next
    assume "starts_with n (prefix @ ''/'')"
    then obtain t where "n = (prefix @ ''/'') @ t" using starts_with_split by blast
    then show ?thesis using p(1,2) by (auto simp: takeWhile_append takeWhile_eq_all_conv)
  qed
  then have "n = prefix @ concat (map (\<lambda>s. ''/'' @ s) rest)" using c nn p(1) by simp
  then show ?thesis using url clean segs by (intro exI [of _ rest]) simp
qed

definition demo_px :: proxy_env where
  "demo_px = \<lparr>px_key = ''ik'', px_orchestration = ''http://o'', px_limited = None\<rparr>"

definition plain_get :: "string \<Rightarrow> http_request" where
  "plain_get path = \<lparr>rq_method = ''GET'', rq_path = path, rq_root_path = [], rq_headers = []\<rparr>"

theorem artifact_paths_confined_witness:
  "\<exists>up segs. confined_passthrough ''/hf'' demo_px (plain_get ''/hf/a/../b'') ''a/.././b'' = Inr up \<and>
    up_url up = ''http://o'' @ ''/hf'' @ concat (map (\<lambda>s. ''/'' @ s) segs)"
proof -
  have "\<not> isl (confined_passthrough ''/hf'' demo_px (plain_get ''/hf/a/../b'') ''a/.././b'')" by code_simp
  then obtain up where up: "confined_passthrough ''/hf'' demo_px (plain_get ''/hf/a/../b'') ''a/.././b'' = Inr up"
    by (cases "confined_passthrough ''/hf'' demo_px (plain_get ''/hf/a/../b'') ''a/.././b''") auto
  from artifact_paths_confined [OF _ up] up show ?thesis by (auto simp: demo_px_def)
qed

text \<open>
  The internal-key middleware lets a request through exactly when its path is exempt or outside the checked prefix, when it
  carries the configured key, or when it merely announces a WebSocket upgrade, with no key at all.
\<close>

theorem internal_auth_exact:
  "internal_auth_middleware key prefix skip r = Pass \<longleftrightarrow>
    norm_path (route_path r) \<in> set (map norm_path skip) \<or> header_lower r ''upgrade'' = ''websocket'' \<or>
    (\<exists>p. nonempty_str prefix = Some p \<and> \<not> starts_with (route_path r) p) \<or>
    (key \<noteq> [] \<and> nonempty_str (or_str (header r ''X-Internal-API-Key'') (header r ''X-Internal-Key'')) = Some key)"
  by (auto simp: internal_auth_middleware_def Let_def split: option.split)

lemma update_absent: "k \<notin> fst ` set xs \<Longrightarrow> AList.update k v xs = xs @ [(k, v)]"
  by (induction xs) auto

lemma delete_absent: "k \<notin> fst ` set xs \<Longrightarrow> AList.delete k xs = xs"
  by (induction xs) (auto simp: AList.delete_eq)

text \<open>How a service reads a header: names up to case, first occurrence.\<close>

definition received_header :: "(string \<times> string) list \<Rightarrow> string \<Rightarrow> string option" where
  "received_header hs name = map_of (map (\<lambda>kv. (py_lower (fst kv), snd kv)) hs) (py_lower name)"

lemma header_dict_keys: "fst ` set (header_dict r) = fst ` set (rq_headers r)"
  by (simp add: header_dict_def map_of_clearjunk flip: dom_map_of_conv_image_fst)

lemma proxy_headers_shape:
  assumes "\<forall>kv \<in> set (rq_headers r). py_lower (fst kv) = fst kv"
  shows "proxy_headers key u r = header_dict r @ [(''X-Internal-API-Key'', key), (''X-User-ID'', uc_user_id u),
    (''X-Organization-ID'', opt_str (uc_org_id u)), (''X-Gateway-Request'', ''true'')]"
proof -
  have absent: "k \<notin> fst ` set (header_dict r)" if "py_lower k \<noteq> k" for k using assms that unfolding header_dict_keys by auto
  have "py_lower ''Authorization'' \<noteq> ''Authorization''" "py_lower ''X-Internal-API-Key'' \<noteq> ''X-Internal-API-Key''"
    "py_lower ''X-User-ID'' \<noteq> ''X-User-ID''" "py_lower ''X-Organization-ID'' \<noteq> ''X-Organization-ID''" "py_lower ''X-Gateway-Request'' \<noteq> ''X-Gateway-Request''"
    by code_simp+
  note this [THEN absent]
  then show ?thesis by (simp add: proxy_headers_def Let_def delete_absent update_absent)
qed

text \<open>
  A client that sends its own organization header keeps it: the gateway's value is added after it under another spelling, and
  a service that reads the header gets the client's.  The bearer token is forwarded as well.
\<close>

theorem client_organization_wins:
  assumes "\<forall>kv \<in> set (rq_headers r). py_lower (fst kv) = fst kv" "header r ''X-Organization-ID'' = Some org"
  shows "received_header (proxy_headers key u r) ''X-Organization-ID'' = Some org \<and>
    received_header (proxy_headers key u r) ''Authorization'' = header r ''Authorization''"
proof -
  have low: "map (\<lambda>kv. (py_lower (fst kv), snd kv)) (header_dict r) = header_dict r"
  proof (rule map_idI)
    fix kv assume "kv \<in> set (header_dict r)"
    then have "fst kv \<in> fst ` set (rq_headers r)" using header_dict_keys [of r] by blast
    then have "py_lower (fst kv) = fst kv" using assms(1) by auto
    then show "(py_lower (fst kv), snd kv) = kv" by simp
  qed
  have org: "map_of (header_dict r) (py_lower ''X-Organization-ID'') = Some org" and auth: "map_of (header_dict r) (py_lower ''Authorization'') = header r ''Authorization''"
    using assms(2) by (simp_all add: header_dict_def header_def map_of_clearjunk)
  have ne: "py_lower ''X-Internal-API-Key'' \<noteq> py_lower ''Authorization''" "py_lower ''X-User-ID'' \<noteq> py_lower ''Authorization''"
    "py_lower ''X-Organization-ID'' \<noteq> py_lower ''Authorization''" "py_lower ''X-Gateway-Request'' \<noteq> py_lower ''Authorization''"
    by code_simp+
  show ?thesis
    unfolding received_header_def proxy_headers_shape [OF assms(1)] map_append low
    using org auth ne by (auto simp: map_add_def split: option.split)
qed

theorem client_organization_wins_witness:
  "received_header (proxy_headers ''ik'' (user_ctx demo_user [''admin''] [] (Some ''o1''))
     ((plain_get ''/v1/nodes/x'')\<lparr>rq_headers := [(''x-organization-id'', ''o2'')]\<rparr>)) ''X-Organization-ID'' = Some ''o2''"
proof -
  let ?r = "(plain_get ''/v1/nodes/x'')\<lparr>rq_headers := [(''x-organization-id'', ''o2'')]\<rparr>"
  have l: "py_lower ''x-organization-id'' = ''x-organization-id''" "py_lower ''X-Organization-ID'' = ''x-organization-id''"
    by code_simp+
  have "\<forall>kv \<in> set (rq_headers ?r). py_lower (fst kv) = fst kv" "header ?r ''X-Organization-ID'' = Some ''o2''"
    by (simp_all add: plain_get_def header_def l)
  from client_organization_wins [OF this] show ?thesis by simp
qed

section \<open>Properties of the authentication middleware\<close>

lemma wf_add_org: "gateway_wf g \<Longrightarrow> org \<noteq> [] \<Longrightarrow> gateway_wf (add_org org name g)"
  by (auto simp: gateway_wf_def add_org_def)

lemma provision_wf:
  assumes "provision_org org name g = Some g1" "gateway_wf g" "org \<noteq> []"
  shows "gateway_wf g1 \<and> org \<in> og_id ` set (gw_orgs g1)"
proof -
  from assms(1) obtain n where "g1 = add_org org n g" by (auto simp: provision_org_def Let_def split: if_splits)
  with assms(2,3) show ?thesis by (simp add: wf_add_org) (simp add: add_org_def)
qed

lemma find_org_in: "find_org org g \<noteq> None \<Longrightarrow> org \<in> og_id ` set (gw_orgs g)"
  unfolding find_org_def by (auto dest!: find_in intro: rev_image_eqI)

lemma wf_ensure_external_org:
  assumes "gateway_wf g"
  shows "gateway_wf (ensure_external_org env x org uid token g)"
proof (cases "org = []")
  case False
  define name where "name = (case fetch_idp_org_name env x org token of None \<Rightarrow> fallback_name org | Some n \<Rightarrow> n)"
  define og where "og = (if find_org org g \<noteq> None then Some g else provision_org org name g)"
  have ok: "gateway_wf g1 \<and> org \<in> og_id ` set (gw_orgs g1)" if "og = Some g1" for g1
    using that assms False provision_wf [of org name g g1] find_org_in [of org g] by (auto simp: og_def split: if_splits)
  have "gateway_wf (add_member uid org ''member'' g1)"
    if "og = Some g1" "find_membership uid org g1 = None" "find_user uid g1 = Some u" for g1 u
    using ok [OF that(1)] that(2) find_user_in [OF that(3)] by (intro wf_add_member) auto
  then show ?thesis
    using False ok assms unfolding ensure_external_org_def name_def [symmetric] og_def [symmetric]
    by (auto split: option.split)
qed (simp add: ensure_external_org_def assms)

lemma wf_external_identity:
  assumes "gateway_wf g" "fresh_user nid g"
  shows "gateway_wf (fst (external_identity env x token nid g s))"
  using wf_shadow_user [OF assms]
  by (auto simp: external_identity_def Let_def split_def wf_ensure_external_org assms(1)
      split: prod.split sum.split jwks_fail.split option.split json.split)

lemma wf_resolve_token:
  assumes "gateway_wf g" "fresh_user nid g"
  shows "gateway_wf (fst (resolve_token_to_user_context env x token nid g s))"
proof -
  obtain g1 s1 o1 where i: "external_identity env x token nid g s = (g1, s1, o1)" by (metis prod_cases3)
  then have "gateway_wf g1" using wf_external_identity [OF assms, of env x token s] by simp
  then show ?thesis
    using assms(1) i by (simp add: resolve_token_to_user_context_def resolve_external_token_def resolve_oidc_token_def
        split: sum.split auth_fail.split prod.split)
qed

text \<open>
  Authenticating a request keeps the keys and foreign keys of the tables, also where it creates shadow users, organizations and
  memberships for an external identity.
\<close>

theorem middleware_keeps_tables:
  assumes "gateway_wf g" "fresh_user nid g"
  shows "gateway_wf (fst (auth_middleware env x tc r nid g s cache))"
proof -
  have "gateway_wf g'" if "resolve_token_to_user_context env x token nid g s = (g', s', out)" for token g' s' out
    using wf_resolve_token [OF assms, of env x token s] that by simp
  then show ?thesis using assms(1) by (simp add: auth_middleware_def split: sum.split option.split prod.split)
qed

text \<open>An identity provider that accepts the token \<^verbatim>\<open>ext\<close>, for a new user of a new organization.\<close>

definition demo_ext :: "unit ext_env" where
  "demo_ext = \<lparr>xe_jwks = \<lparr>je_fetch = Inr (JObj [(''keys'', JArr [JObj [(''kty'', JStr ''OKP''), (''crv'', JStr ''Ed25519''), (''x'', JStr ''k'')]])]),
       je_public_key = (\<lambda>_. Inr ()), je_header = (\<lambda>_. Inr [(''alg'', JStr ''EdDSA'')]),
       je_decode = (\<lambda>_ _ t. if t = ''ext'' then Inr [(''type'', JStr ''access''), (''email'', JStr ''eve@y''), (''org_id'', JStr ''o9'')] else Inl ''invalid signature''),
       je_cache_ttl = 3600\<rparr>,
     xe_org = (\<lambda>_ _. None), xe_role_map = [], xe_groups_claim = ''groups'', xe_default_role = ''viewer''\<rparr>"

definition bearer :: "string \<Rightarrow> http_request" where
  "bearer token = (plain_get ''/v1/nodes/x'')\<lparr>rq_headers := [(''authorization'', ''Bearer '' @ token)]\<rparr>"

theorem middleware_keeps_tables_witness:
  "gateway_wf (fst (auth_middleware (demo_env\<lparr>av_mode := ''oidc''\<rparr>) demo_ext (list_cache 30) (bearer ''ext'') ''u9'' demo_gateway \<lparr>js_jwks = None, js_cached_at = 0\<rparr> []))"
  by (rule middleware_keeps_tables [OF demo_wf]) (simp add: fresh_user_def demo_gateway_def demo_user_def new_user_def)

text \<open>
  Runs of the middleware over one cache, from an empty one: requests arrive in the order of their times, each at whatever state
  the tables then have.  The history records the resolutions that succeeded.
\<close>

inductive served :: "auth_env \<Rightarrow> 'k ext_env \<Rightarrow> (string, user_context, 'c) ttl_cache \<Rightarrow> 'c \<Rightarrow> (int \<times> string \<times> user_context) list \<Rightarrow> int \<Rightarrow> bool"
  for env x tc where
  served_start: "(\<And>t k. tc_get tc t k cache = None) \<Longrightarrow> served env x tc cache [] now"
| served_hit: "served env x tc cache hist now \<Longrightarrow> now \<le> gw_now g \<Longrightarrow>
    auth_middleware env x tc r nid g s cache = (g', s', cache, a) \<Longrightarrow> served env x tc cache hist (gw_now g)"
| served_miss: "served env x tc cache hist now \<Longrightarrow> now \<le> gw_now g \<Longrightarrow> auth_middleware env x tc r nid g s cache = (g', s', cache', Admitted u) \<Longrightarrow>
    \<not> skips_auth r \<Longrightarrow> bearer_token r = Inr token \<Longrightarrow> tc_get tc (gw_now g) token cache = None \<Longrightarrow>
    served env x tc cache' ((gw_now g, token, u) # hist) (gw_now g)"

lemma miss_resolves:
  assumes "auth_middleware env x tc r nid g s cache = (g', s', cache', Admitted u)" "\<not> skips_auth r" "bearer_token r = Inr token"
    and "tc_get tc (gw_now g) token cache = None"
  shows "resolve_token_to_user_context env x token nid g s = (g', s', Inr u)" "cache' = tc_put tc (gw_now g) token u cache"
  using assms by (auto simp: auth_middleware_def rejection_def split: prod.splits sum.splits auth_fail.splits http_error.splits)

lemma served_cache:
  assumes laws: "ttl_laws ttl tc" and run: "served env x tc cache hist now"
  shows "now \<le> t \<Longrightarrow> tc_get tc t k cache = Some u \<Longrightarrow> \<exists>n. (n, k, u) \<in> set hist \<and> n \<le> t \<and> t < n + ttl"
  using run
proof (induction arbitrary: t k u rule: served.induct)
  case (served_miss cache hist now g r nid s g' s' cache' v token)
  have "tc_get tc t k (tc_put tc (gw_now g) token v cache) = Some u"
    using served_miss.prems(2) miss_resolves(2) [OF served_miss.hyps(3-6)] by simp
  from ttl_origin [OF laws served_miss.prems(1) this] show ?case
  proof
    assume "k \<noteq> token \<and> tc_get tc t k cache = Some u"
    then show ?thesis using served_miss.IH [of t k u] served_miss.hyps(2) served_miss.prems(1) by auto
  qed (use served_miss.prems(1) in auto)
next
  case (served_hit cache hist now g r nid s g' s' a)
  then show ?case by (meson order_trans)
qed simp

lemma bearer_rejects: "bearer_token r = Inl a \<Longrightarrow> \<exists>n d. a = Rejected n d"
  by (auto simp: bearer_token_def split: option.splits list.splits if_splits)

text \<open>
  C22: The middleware admits a user only on a token that resolved to that user less than thirty seconds ago: the token is resolved
  for this request, or the history of the cache has its resolution.
\<close>

theorem admission_is_recent:
  assumes laws: "ttl_laws 30 tc" and run: "served env x tc cache hist now" "now \<le> gw_now g"
    and adm: "auth_middleware env x tc r nid g s cache = (g', s', cache', Admitted u)"
  shows "\<exists>token. bearer_token r = Inr token \<and> (resolve_token_to_user_context env x token nid g s = (g', s', Inr u) \<or>
    (\<exists>n. (n, token, u) \<in> set hist \<and> n \<le> gw_now g \<and> gw_now g < n + 30))"
proof -
  have sk: "\<not> skips_auth r" using adm by (auto simp: auth_middleware_def)
  obtain token where tok: "bearer_token r = Inr token"
  proof (cases "bearer_token r")
    case (Inl a)
    with bearer_rejects [OF this] adm sk show ?thesis by (auto simp: auth_middleware_def)
  qed (use that in auto)
  show ?thesis
  proof (cases "tc_get tc (gw_now g) token cache")
    case None
    then show ?thesis using miss_resolves(1) [OF adm sk tok] tok by blast
  next
    case (Some v)
    then have "v = u" using adm sk tok by (simp add: auth_middleware_def)
    then show ?thesis using served_cache [OF laws run(1,2), of token u] Some tok by blast
  qed
qed

theorem admission_is_recent_witness:
  "\<exists>g' s' cache' u token. auth_middleware demo_env demo_ext (list_cache 30) (bearer (create_access_token demo_env 100 demo_user ''o1'' ''admin''))
     ''u9'' demo_gateway \<lparr>js_jwks = None, js_cached_at = 0\<rparr> [] = (g', s', cache', Admitted u) \<and>
    resolve_token_to_user_context demo_env demo_ext token ''u9'' demo_gateway \<lparr>js_jwks = None, js_cached_at = 0\<rparr> = (g', s', Inr u)"
proof -
  define token where "token = create_access_token demo_env 100 demo_user ''o1'' ''admin''"
  define js where "js = \<lparr>js_jwks = None, js_cached_at = 0\<rparr>"
  have xs: "token \<noteq> []" "set token \<subseteq> {CHR ''x''}" by (auto simp: token_def create_access_token_def demo_env_def unary_jwt_def)
  have one: "split_on (CHR '' '') w = [w]" if "CHR '' '' \<notin> set w" for w using that by (induction w) auto
  have words: "py_words (''Bearer '' @ token) = [''Bearer'', token]"
  proof -
    have "map (\<lambda>c. if is_space c then CHR '' '' else c) token = token" using xs(2) by (intro map_idI) (auto simp: is_space_def)
    moreover have "CHR '' '' \<notin> set token" using xs(2) by auto
    ultimately show ?thesis using xs one [of token] by (simp add: py_words_def is_space_def)
  qed
  have low: "py_lower ''Authorization'' = ''authorization''" "py_lower ''Bearer'' = ''bearer''" "py_lower ''upgrade'' = ''upgrade''"
    "py_lower ''connection'' = ''connection''" "py_lower [] = []"
    by code_simp+
  have bt: "bearer_token (bearer token) = Inr token"
    using words low by (simp add: bearer_token_def bearer_def header_def plain_get_def nonempty_str_def)
  have sk: "\<not> skips_auth (bearer token)"
    by (simp add: skips_auth_def bearer_def plain_get_def header_lower_def header_def low route_path_def starts_with_def public_paths_def invitation_lookup_def)
  have gc: "get_current_user demo_env token demo_gateway = Inr (demo_user, ''o1'', [''admin''])"
    using access_token_resolves [OF demo_jwt _ demo_wf, where t = 100 and m = "hd (gw_members demo_gateway)" and u = demo_user and u' = demo_user and r = "''admin''"]
    by (simp add: token_def demo_gateway_def demo_env_def demo_user_def new_user_def)
  define u where "u = user_ctx demo_user [''admin''] (local_permissions [''admin''] demo_gateway) (Some ''o1'')"
  have res: "resolve_token_to_user_context demo_env demo_ext token ''u9'' demo_gateway js = (demo_gateway, js, Inr u)"
    by (simp add: resolve_token_to_user_context_def resolve_local_token_def gc u_def)
  have adm: "auth_middleware demo_env demo_ext (list_cache 30) (bearer token) ''u9'' demo_gateway js [] =
      (demo_gateway, js, tc_put (list_cache 30) (gw_now demo_gateway) token u [], Admitted u)"
    using sk bt res by (simp add: auth_middleware_def list_cache_def)
  have empty: "served demo_env demo_ext (list_cache 30) [] [] 0" by (rule served_start) (simp add: list_cache_def)
  have "0 \<le> gw_now demo_gateway" by (simp add: demo_gateway_def)
  from admission_is_recent [OF list_cache_laws empty this adm] adm show ?thesis
    unfolding token_def js_def by (auto simp: bt [unfolded token_def])
qed



end
