(* ===== verification/Url.thy ===== *)
theory Url
  imports Prelude
begin

text \<open>
  The fragment of Python's \<^verbatim>\<open>urllib.parse\<close> and \<^verbatim>\<open>ipaddress\<close> the services use: splitting of an address into
  scheme, user information, host name and port, and the numeric value of an IPv4 or IPv6 literal.  A \<^verbatim>\<open>ValueError\<close> is
  \<^verbatim>\<open>Inl\<close> with its message.
\<close>

section \<open>Splitting strings\<close>

text \<open>\<^verbatim>\<open>s.partition(c)\<close> and \<^verbatim>\<open>s.rpartition(c)\<close>; the middle component tells whether the separator occurs.\<close>

definition partition_at :: "char \<Rightarrow> string \<Rightarrow> string \<times> bool \<times> string" where
  "partition_at c s = (case split_first c s of None \<Rightarrow> (s, False, []) | Some (a, b) \<Rightarrow> (a, True, b))"

definition rpartition_at :: "char \<Rightarrow> string \<Rightarrow> string \<times> bool \<times> string" where
  "rpartition_at c s = (case rsplit1 c s of [a, b] \<Rightarrow> (a, True, b) | _ \<Rightarrow> ([], False, s))"

definition hex_val :: "char \<Rightarrow> int option" where
  "hex_val c = (let n = of_char c :: int in
     if 48 \<le> n \<and> n \<le> 57 then Some (n - 48)
     else if 97 \<le> n \<and> n \<le> 102 then Some (n - 87)
     else if 65 \<le> n \<and> n \<le> 70 then Some (n - 55) else None)"

section \<open>Internet addresses\<close>

datatype ip = V4 int | V6 int

definition parse_octet :: "string \<Rightarrow> nat option" where
  "parse_octet s =
    (if s = [] \<or> \<not> list_all is_digit s \<or> 3 < length s \<or> (s \<noteq> ''0'' \<and> hd s = CHR ''0'') then None
     else if 255 < parse_nat s then None else Some (parse_nat s))"

definition parse_ipv4 :: "string \<Rightarrow> int option" where
  "parse_ipv4 s = (case map parse_octet (split_on CHR ''.'' s) of
     [Some a, Some b, Some c, Some d] \<Rightarrow> Some (((int a * 256 + int b) * 256 + int c) * 256 + int d) | _ \<Rightarrow> None)"

definition parse_hextet :: "string \<Rightarrow> int option" where
  "parse_hextet s = (if s = [] \<or> 4 < length s \<or> \<not> list_all (\<lambda>c. hex_val c \<noteq> None) s then None
     else Some (foldl (\<lambda>a c. 16 * a + the (hex_val c)) 0 s))"

function hex_int :: "int \<Rightarrow> string" where
  "hex_int n = (if n < 16 then [hex_digit (nat n)] else hex_int (n div 16) @ [hex_digit (nat (n mod 16))])"
  by auto
termination by (relation "measure nat") auto

declare hex_int.simps [simp del]

text \<open>A dotted quad at the end is replaced by its two hextets.\<close>

definition ipv6_parts :: "string \<Rightarrow> string list option" where
  "ipv6_parts s = (let parts = split_on CHR '':'' s in
     if length parts < 3 then None
     else if CHR ''.'' \<in> set (last parts)
     then (case parse_ipv4 (last parts) of None \<Rightarrow> None
       | Some n \<Rightarrow> Some (butlast parts @ [hex_int (n div 65536 mod 65536), hex_int (n mod 65536)]))
     else Some parts)"

text \<open>The indices of the empty parts other than the first and the last, where a run of zeros is left out.\<close>

definition skip_indices :: "string list \<Rightarrow> nat list" where
  "skip_indices parts = filter (\<lambda>i. parts ! i = []) [1..<length parts - 1]"

definition hextets :: "string list \<Rightarrow> int \<Rightarrow> int option" where
  "hextets hs start = foldl (\<lambda>a h. case (a, parse_hextet h) of (Some x, Some y) \<Rightarrow> Some (65536 * x + y) | _ \<Rightarrow> None) (Some start) hs"

definition ipv6_value :: "string list \<Rightarrow> int option" where
  "ipv6_value parts = (if 9 < length parts then None else
    case skip_indices parts of
      [] \<Rightarrow> if length parts \<noteq> 8 \<or> hd parts = [] \<or> last parts = [] then None else hextets parts 0
    | [i] \<Rightarrow>
       (let lead = (hd parts = []); trail = (last parts = []);
            hi = (if lead then i - 1 else i); lo = (if trail then length parts - i - 2 else length parts - i - 1)
        in if lead \<and> hi \<noteq> 0 \<or> trail \<and> lo \<noteq> 0 \<or> 8 < hi + lo + 1 then None
           else case hextets (take hi parts) 0 of None \<Rightarrow> None
             | Some x \<Rightarrow> hextets (drop (length parts - lo) parts) (x * 65536 ^ (8 - (hi + lo))))
    | _ \<Rightarrow> None)"

definition parse_ipv6 :: "string \<Rightarrow> int option" where
  "parse_ipv6 s = (case partition_at CHR ''%'' s of (a, sep, zone) \<Rightarrow>
     if sep \<and> (zone = [] \<or> CHR ''%'' \<in> set zone) then None
     else case ipv6_parts a of None \<Rightarrow> None | Some parts \<Rightarrow> ipv6_value parts)"

definition ip_address :: "string \<Rightarrow> string + ip" where
  "ip_address s = (case parse_ipv4 s of Some n \<Rightarrow> Inr (V4 n)
   | None \<Rightarrow> case parse_ipv6 s of Some n \<Rightarrow> Inr (V6 n)
     | None \<Rightarrow> Inl (py_repr_str s @ '' does not appear to be an IPv4 or IPv6 address''))"

text \<open>An address of the other version is in no network.\<close>

fun in_network :: "ip \<Rightarrow> ip \<times> nat \<Rightarrow> bool" where
  "in_network (V4 a) (V4 b, p) = (a div 2 ^ (32 - p) = b div 2 ^ (32 - p))"
| "in_network (V6 a) (V6 b, p) = (a div 2 ^ (128 - p) = b div 2 ^ (128 - p))"
| "in_network _ _ = False"

section \<open>Addresses of services\<close>

record url_parts =
  up_scheme :: string
  up_netloc :: string

definition split_scheme :: "string \<Rightarrow> string \<times> string" where
  "split_scheme u = (case partition_at CHR '':'' u of (a, sep, rest) \<Rightarrow>
     if sep \<and> a \<noteq> [] \<and> is_alpha (hd a) \<and> list_all scheme_char a then (py_lower a, rest) else ([], u))"

definition future_host :: "string \<Rightarrow> bool" where
  "future_host h = (case partition_at CHR ''.'' (tl h) of (v, sep, rest) \<Rightarrow>
     sep \<and> v \<noteq> [] \<and> list_all (\<lambda>c. hex_val c \<noteq> None) v \<and> rest \<noteq> [] \<and> CHR 0x0A \<notin> set rest)"

definition check_bracketed :: "string \<Rightarrow> string option" where
  "check_bracketed netloc =
    (let h = fst (partition_at CHR '']'' (snd (snd (partition_at CHR ''['' netloc)))) in
     if starts_with h ''v'' then (if future_host h then None else Some ''IPvFuture address is invalid'')
     else case ip_address h of Inl e \<Rightarrow> Some e
       | Inr (V4 n) \<Rightarrow> Some ''An IPv4 address cannot be in brackets''
       | Inr (V6 n) \<Rightarrow> None)"

text \<open>Leading control characters and blanks, and every tab, carriage return and line feed, are dropped first.\<close>

definition urlparse :: "string \<Rightarrow> string + url_parts" where
  "urlparse url =
    (let u = filter (\<lambda>c. c \<notin> {CHR 0x09, CHR 0x0A, CHR 0x0D}) (dropWhile (\<lambda>c. (of_char c :: nat) \<le> 32) url);
         (scheme, rest) = split_scheme u;
         netloc = (if starts_with rest ''//'' then takeWhile (\<lambda>c. c \<notin> {CHR ''/'', CHR ''?'', CHR ''#''}) (drop 2 rest) else []);
         opn = CHR ''['' \<in> set netloc; cls = CHR '']'' \<in> set netloc
     in if opn \<noteq> cls then Inl ''Invalid IPv6 URL''
        else case (if opn then check_bracketed netloc else None) of
            Some e \<Rightarrow> Inl e
          | None \<Rightarrow> Inr \<lparr>up_scheme = scheme, up_netloc = netloc\<rparr>)"

definition url_username :: "url_parts \<Rightarrow> string option" where
  "url_username u = (case rpartition_at CHR ''@'' (up_netloc u) of (info, has, _) \<Rightarrow>
     if has then Some (fst (partition_at CHR '':'' info)) else None)"

definition url_password :: "url_parts \<Rightarrow> string option" where
  "url_password u = (case rpartition_at CHR ''@'' (up_netloc u) of (info, has, _) \<Rightarrow>
     if has then (case partition_at CHR '':'' info of (_, sep, pw) \<Rightarrow> if sep then Some pw else None) else None)"

definition hostinfo :: "url_parts \<Rightarrow> string \<times> string" where
  "hostinfo u = (let info = snd (snd (rpartition_at CHR ''@'' (up_netloc u))) in
     case partition_at CHR ''['' info of (_, opn, bracketed) \<Rightarrow>
       if opn then (case partition_at CHR '']'' bracketed of (h, _, rest) \<Rightarrow> (h, snd (snd (partition_at CHR '':'' rest))))
       else (case partition_at CHR '':'' info of (h, _, port) \<Rightarrow> (h, port)))"

definition url_hostname :: "url_parts \<Rightarrow> string option" where
  "url_hostname u = (let h = fst (hostinfo u) in
     if h = [] then None
     else case partition_at CHR ''%'' h of (a, sep, zone) \<Rightarrow> Some (py_lower a @ (if sep then ''%'' @ zone else [])))"

definition url_port :: "url_parts \<Rightarrow> string + nat option" where
  "url_port u = (let p = snd (hostinfo u) in
     if p = [] then Inr None
     else if \<not> isdigit_str p then Inl (''Port could not be cast to integer value as '' @ py_repr_str p)
     else if 65535 < parse_nat p then Inl ''Port out of range 0-65535''
     else Inr (Some (parse_nat p)))"

section \<open>Lemmas\<close>

lemma partition_absent: "c \<notin> set s \<Longrightarrow> partition_at c s = (s, False, [])"
  by (simp add: partition_at_def split_first_def)

lemma takeWhile_absent: "c \<notin> set a \<Longrightarrow> takeWhile (\<lambda>x. x \<noteq> c) (a @ c # b) = a"
  by (induction a) auto

lemma dropWhile_absent: "c \<notin> set a \<Longrightarrow> dropWhile (\<lambda>x. x \<noteq> c) (a @ c # b) = c # b"
  by (induction a) auto

lemma partition_first: "c \<notin> set a \<Longrightarrow> partition_at c (a @ c # b) = (a, True, b)"
  by (simp add: partition_at_def split_first_def takeWhile_absent dropWhile_absent)

lemma rpartition_absent: "c \<notin> set s \<Longrightarrow> rpartition_at c s = ([], False, s)"
  by (simp add: rpartition_at_def rsplit1_def)

lemma split_on_first: "c \<notin> set a \<Longrightarrow> split_on c (a @ c # b) = a # split_on c b"
  by (induction a) auto

lemma split_on_absent: "c \<notin> set a \<Longrightarrow> split_on c a = [a]"
  by (induction a) auto

text \<open>Decimal numerals are read back as octets.\<close>

lemma dec_nat_hd: "0 < n \<Longrightarrow> hd (dec_nat n) \<noteq> CHR ''0''"
proof (induction n rule: dec_nat.induct)
  case (1 n)
  show ?case
  proof (cases "n < 10")
    case True
    have "digit_val CHR ''0'' = 0" by (simp add: digit_val_def)
    then have "digit_char n \<noteq> CHR ''0''" using 1(2) digit_val_digit_char [OF True] by auto
    then show ?thesis using True by (subst dec_nat.simps) simp
  next
    case False
    then have "0 < n div 10" by (simp add: div_greater_zero_iff)
    then show ?thesis using 1 False by (subst dec_nat.simps) (simp add: hd_append)
  qed
qed

lemma dec_nat_short: "n \<le> 255 \<Longrightarrow> length (dec_nat n) \<le> 3"
proof -
  assume n: "n \<le> 255"
  have "n div 10 div 10 < 10" using n by simp
  then show ?thesis
    by (subst dec_nat.simps, subst dec_nat.simps, subst dec_nat.simps) auto
qed

lemma dec_nat_zero: "dec_nat 0 = ''0''"
  by code_simp

lemma parse_octet_dec: "n \<le> 255 \<Longrightarrow> parse_octet (dec_nat n) = Some n"
proof -
  assume n: "n \<le> 255"
  have "n = 0 \<or> hd (dec_nat n) \<noteq> CHR ''0''" using dec_nat_hd [of n] by auto
  then show ?thesis
    using n dec_nat_digits [of n] dec_nat_short [OF n] dec_nat_zero by (auto simp: parse_octet_def)
qed

lemma digits_without: "\<not> is_digit c \<Longrightarrow> c \<notin> set (dec_nat n)"
  using dec_nat_digits [of n] by (auto simp: list_all_iff)

text \<open>The text of an IPv4 address.\<close>

definition dotted :: "nat \<Rightarrow> nat \<Rightarrow> nat \<Rightarrow> nat \<Rightarrow> string" where
  "dotted a b c d = dec_nat a @ ''.'' @ dec_nat b @ ''.'' @ dec_nat c @ ''.'' @ dec_nat d"

lemma dot_not_digit [simp]: "\<not> is_digit CHR ''.''"
  by (simp add: is_digit_def)

lemma ipv4_roundtrip:
  assumes "a \<le> 255" "b \<le> 255" "c \<le> 255" "d \<le> 255"
  shows "parse_ipv4 (dotted a b c d) = Some (((int a * 256 + int b) * 256 + int c) * 256 + int d)"
  using assms digits_without [of "CHR ''.''"]
  by (simp add: dotted_def parse_ipv4_def split_on_first split_on_absent parse_octet_dec)

lemma dotted_chars: "x \<in> set (dotted a b c d) \<Longrightarrow> is_digit x \<or> x = CHR ''.''"
  using dec_nat_digits [of a] dec_nat_digits [of b] dec_nat_digits [of c] dec_nat_digits [of d]
  by (auto simp: dotted_def list_all_iff)

lemma dotted_absent: "\<not> is_digit x \<Longrightarrow> x \<noteq> CHR ''.'' \<Longrightarrow> x \<notin> set (dotted a b c d)"
  using dotted_chars by blast

lemma lower_digit: "is_digit c \<or> c = CHR ''.'' \<Longrightarrow> lower_char c = c"
  by (auto simp: lower_char_def is_digit_def Let_def)

lemma lower_dotted: "py_lower (dotted a b c d) = dotted a b c d"
  unfolding py_lower_def using dotted_chars lower_digit by (intro map_idI) blast

lemma dotted_nonempty [simp]: "dotted a b c d \<noteq> []"
  by (simp add: dotted_def)

end
