(* ===== verification/Upstream.thy ===== *)
theory Upstream
  imports Url
begin

text \<open>
  The pure half of the inference service: provider adapters (\<^verbatim>\<open>inference/core/providers\<close>), worker routing
  (\<^verbatim>\<open>core/worker_routing.py\<close> with \<^verbatim>\<open>common/cluster_naming.py\<close>), the validators of upstream requests
  (\<^verbatim>\<open>core/validators.py\<close>) and the composition of the upstream address (\<^verbatim>\<open>core/service.py\<close>).

  A request body and an upstream answer are arbitrary JSON, so an access that Python would refuse raises: \<^verbatim>\<open>Inl\<close> with
  the name of the exception class.  The deployment is the object the gateway sends for a resolved context, which has text or
  null under the names read here and an object or null under \<^verbatim>\<open>configuration\<close>.
\<close>

section \<open>Dynamic access to JSON values\<close>

definition py_bind :: "'e + 'a \<Rightarrow> ('a \<Rightarrow> 'e + 'b) \<Rightarrow> 'e + 'b" where
  "py_bind m f = (case m of Inl e \<Rightarrow> Inl e | Inr x \<Rightarrow> f x)"

fun py_fold :: "('s \<Rightarrow> 'a \<Rightarrow> 'e + 's) \<Rightarrow> 's \<Rightarrow> 'a list \<Rightarrow> 'e + 's" where
  "py_fold f s [] = Inr s"
| "py_fold f s (x # xs) = (case f s x of Inl e \<Rightarrow> Inl e | Inr t \<Rightarrow> py_fold f t xs)"

text \<open>The receiver of a \<^verbatim>\<open>.get\<close>, and the iteration of a \<^verbatim>\<open>for\<close> over a decoded value.\<close>

definition as_dict :: "json \<Rightarrow> string + jobj" where
  "as_dict v = (case v of JObj d \<Rightarrow> Inr d | _ \<Rightarrow> Inl ''AttributeError'')"

definition py_iter :: "json \<Rightarrow> string + json list" where
  "py_iter v = (case v of JArr xs \<Rightarrow> Inr xs | JObj d \<Rightarrow> Inr (map (\<lambda>kv. JStr (fst kv)) d)
     | JStr s \<Rightarrow> Inr (map (\<lambda>c. JStr [c]) s) | _ \<Rightarrow> Inl ''TypeError'')"

fun as_number :: "json \<Rightarrow> (int \<times> nat) option" where
  "as_number (JInt i) = Some (i, 0)"
| "as_number (JBool b) = Some (if b then 1 else 0, 0)"
| "as_number (JDec m e) = Some (m, e)"
| "as_number _ = None"

definition py_add :: "json \<Rightarrow> json \<Rightarrow> string + json" where
  "py_add a b = (case (as_number a, as_number b) of
     (Some (m, e), Some (n, f)) \<Rightarrow>
       Inr (if e = 0 \<and> f = 0 \<and> \<not> (case a of JDec _ _ \<Rightarrow> True | _ \<Rightarrow> False) \<and> \<not> (case b of JDec _ _ \<Rightarrow> True | _ \<Rightarrow> False) then JInt (m + n)
            else JDec (m * 10 ^ (max e f - e) + n * 10 ^ (max e f - f)) (max e f))
   | _ \<Rightarrow> (case (a, b) of (JStr s, JStr t) \<Rightarrow> Inr (JStr (s @ t)) | (JArr xs, JArr ys) \<Rightarrow> Inr (JArr (xs @ ys))
            | _ \<Rightarrow> Inl ''TypeError''))"

definition jstr :: "json \<Rightarrow> string option" where
  "jstr v = (case v of JStr s \<Rightarrow> Some s | _ \<Rightarrow> None)"

section \<open>Provider adapters\<close>

datatype adapter = OpenAIAdapter | AnthropicAdapter | CohereAdapter | ComputeAdapter | EmbeddingAdapter
  | InferaDiffusionImageAdapter | InferaDiffusionVideoAdapter

definition is_diffusion :: "adapter \<Rightarrow> bool" where
  "is_diffusion a \<longleftrightarrow> a \<in> {InferaDiffusionImageAdapter, InferaDiffusionVideoAdapter}"

definition get_chat_path :: "adapter \<Rightarrow> string" where
  "get_chat_path a = (case a of
     AnthropicAdapter \<Rightarrow> ''/v1/messages'' | CohereAdapter \<Rightarrow> ''/v1/chat''
   | InferaDiffusionImageAdapter \<Rightarrow> ''/v1/images/generations'' | InferaDiffusionVideoAdapter \<Rightarrow> ''/v1/images/generations''
   | _ \<Rightarrow> ''/v1/chat/completions'')"

type_synonym headers = "(string \<times> string) list"

definition get_headers :: "adapter \<Rightarrow> string \<Rightarrow> headers" where
  "get_headers a api_key = (if a = AnthropicAdapter
     then [(''Content-Type'', ''application/json''), (''anthropic-version'', ''2023-06-01'')]
       @ (if api_key = [] then [] else [(''x-api-key'', api_key)])
     else [(''Content-Type'', ''application/json'')]
       @ (if api_key = [] then [] else [(''Authorization'', ''Bearer '' @ api_key)]))"

definition base_endpoint_path :: "adapter \<Rightarrow> string \<Rightarrow> string" where
  "base_endpoint_path a request_type = (case map_of
     [(''chat'', get_chat_path a), (''embedding'', ''/v1/embeddings''), (''image_generation'', ''/v1/images/generations''),
      (''image_edit'', ''/v1/images/edits''), (''image_variations'', ''/v1/images/variations''),
      (''video_generation'', ''/v1/videos/generations''), (''video_edit'', ''/v1/videos/edits''),
      (''video_extension'', ''/v1/videos/extensions'')] request_type of
     Some p \<Rightarrow> p | None \<Rightarrow> get_chat_path a)"

definition diffusion_endpoint_path :: "adapter \<Rightarrow> string \<Rightarrow> string" where
  "diffusion_endpoint_path a request_type = (case map_of
     [(''image_generation'', ''/v1/images/generations''), (''image_edit'', ''/v1/images/edits''),
      (''image_variations'', ''/v1/images/variations''), (''video_generation'', ''/generate/v1/videos/generations''),
      (''video_edit'', ''/generate/v1/videos/edits''), (''video_extension'', ''/generate/v1/videos/extensions'')] request_type of
     Some p \<Rightarrow> p | None \<Rightarrow> get_chat_path a)"

definition get_endpoint_path :: "adapter \<Rightarrow> string \<Rightarrow> string" where
  "get_endpoint_path a request_type =
    (if is_diffusion a then diffusion_endpoint_path a request_type
     else if a = EmbeddingAdapter \<and> request_type = ''embedding'' then ''/embeddings''
     else base_endpoint_path a request_type)"

definition is_external :: "adapter \<Rightarrow> bool" where
  "is_external a \<longleftrightarrow> a \<in> {OpenAIAdapter, AnthropicAdapter, CohereAdapter}"

subsection \<open>Anthropic\<close>

definition anthropic_msg :: "json \<times> json list \<Rightarrow> json \<Rightarrow> string + json \<times> json list" where
  "anthropic_msg st msg = py_bind (as_dict msg) (\<lambda>d.
    let role = jget d ''role''; content = jget_or d ''content'' (JStr []) in
    Inr (if role = JStr ''system'' then (content, snd st)
         else if role = JStr ''user'' then (fst st, snd st @ [JObj [(''role'', JStr ''user''), (''content'', content)]])
         else if role = JStr ''assistant'' then (fst st, snd st @ [JObj [(''role'', JStr ''assistant''), (''content'', content)]])
         else st))"

definition opt_key :: "jobj \<Rightarrow> string \<Rightarrow> jobj" where
  "opt_key payload k = (if jget payload k \<noteq> JNull then [(k, jget payload k)] else [])"

definition anthropic_request :: "jobj \<Rightarrow> string + jobj" where
  "anthropic_request payload =
    py_bind (py_iter (jget_or payload ''messages'' (JArr []))) (\<lambda>messages.
    py_bind (py_fold anthropic_msg (JNull, []) messages) (\<lambda>(system_content, claude_messages).
    Inr ([(''model'', jget payload ''model''), (''messages'', JArr claude_messages),
          (''max_tokens'', jget_or payload ''max_tokens'' (JInt 4096))]
       @ (if truthy system_content then [(''system'', system_content)] else [])
       @ (if truthy (jget payload ''stream'') then [(''stream'', JBool True)] else [])
       @ opt_key payload ''temperature'' @ opt_key payload ''top_p'')))"

definition add_text_block :: "string \<Rightarrow> json \<Rightarrow> string + string" where
  "add_text_block text block = py_bind (as_dict block) (\<lambda>d.
    if jget d ''type'' = JStr ''text''
    then (case jget_or d ''text'' (JStr []) of JStr t \<Rightarrow> Inr (text @ t) | _ \<Rightarrow> Inl ''TypeError'')
    else Inr text)"

definition map_stop_reason :: "json \<Rightarrow> string + string" where
  "map_stop_reason r = (case r of
     JStr s \<Rightarrow> Inr (if s = ''max_tokens'' then ''length'' else ''stop'')
   | JArr _ \<Rightarrow> Inl ''TypeError'' | JObj _ \<Rightarrow> Inl ''TypeError'' | _ \<Rightarrow> Inr ''stop'')"

text \<open>The OpenAI form of a chat answer.\<close>

definition chat_completion :: "json \<Rightarrow> json \<Rightarrow> json \<Rightarrow> string \<Rightarrow> json \<Rightarrow> json \<Rightarrow> json \<Rightarrow> json" where
  "chat_completion rid model text finish prompt completion sum_tokens = JObj
    [(''id'', rid), (''object'', JStr ''chat.completion''), (''created'', JInt 0), (''model'', model),
     (''choices'', JArr [JObj [(''index'', JInt 0),
        (''message'', JObj [(''role'', JStr ''assistant''), (''content'', text)]), (''finish_reason'', JStr finish)]]),
     (''usage'', JObj [(''prompt_tokens'', prompt), (''completion_tokens'', completion), (''total_tokens'', sum_tokens)])]"

definition anthropic_response :: "json \<Rightarrow> string + json" where
  "anthropic_response response =
    py_bind (as_dict response) (\<lambda>r.
    py_bind (py_iter (jget_or r ''content'' (JArr []))) (\<lambda>blocks.
    py_bind (py_fold add_text_block [] blocks) (\<lambda>text.
    py_bind (map_stop_reason (jget r ''stop_reason'')) (\<lambda>finish.
    py_bind (as_dict (jget_or r ''usage'' (JObj []))) (\<lambda>u.
    let p = jget_or u ''input_tokens'' (JInt 0); c = jget_or u ''output_tokens'' (JInt 0) in
    py_bind (py_add p c) (\<lambda>sm.
    Inr (chat_completion (jget_or r ''id'' (JStr [])) (jget_or r ''model'' (JStr [])) (JStr text) finish p c sm)))))))"

subsection \<open>Cohere\<close>

record cohere_state =
  co_history :: "json list"
  co_message :: json
  co_preamble :: json

definition cohere_msg :: "cohere_state \<Rightarrow> json \<Rightarrow> string + cohere_state" where
  "cohere_msg st msg = py_bind (as_dict msg) (\<lambda>d.
    let role = jget d ''role''; content = jget_or d ''content'' (JStr []) in
    Inr (if role = JStr ''system'' then st\<lparr>co_preamble := content\<rparr>
         else if role = JStr ''user'' then
           (if truthy (co_message st)
            then st\<lparr>co_history := co_history st @ [JObj [(''role'', JStr ''USER''), (''message'', co_message st)]], co_message := content\<rparr>
            else st\<lparr>co_message := content\<rparr>)
         else if role = JStr ''assistant'' then
           st\<lparr>co_history := co_history st @ [JObj [(''role'', JStr ''CHATBOT''), (''message'', content)]]\<rparr>
         else st))"

definition cohere_request :: "jobj \<Rightarrow> string + jobj" where
  "cohere_request payload =
    py_bind (py_iter (jget_or payload ''messages'' (JArr []))) (\<lambda>messages.
    py_bind (py_fold cohere_msg \<lparr>co_history = [], co_message = JStr [], co_preamble = JNull\<rparr> messages) (\<lambda>st.
    Inr ([(''model'', jget payload ''model''), (''message'', co_message st)]
       @ (if co_history st \<noteq> [] then [(''chat_history'', JArr (co_history st))] else [])
       @ (if truthy (co_preamble st) then [(''preamble'', co_preamble st)] else [])
       @ (if truthy (jget payload ''stream'') then [(''stream'', JBool True)] else [])
       @ opt_key payload ''temperature'')))"

definition cohere_response :: "json \<Rightarrow> string + json" where
  "cohere_response response =
    py_bind (as_dict response) (\<lambda>r.
    py_bind (as_dict (jget_or r ''meta'' (JObj []))) (\<lambda>m.
    py_bind (as_dict (jget_or m ''tokens'' (JObj []))) (\<lambda>t.
    let p = jget_or t ''input_tokens'' (JInt 0); c = jget_or t ''output_tokens'' (JInt 0) in
    py_bind (py_add p c) (\<lambda>sm.
    Inr (chat_completion (jget_or r ''generation_id'' (JStr [])) (jget_or r ''model'' (JStr [])) (jget_or r ''text'' (JStr [])) ''stop'' p c sm)))))"

subsection \<open>Diffusion engines\<close>

definition diffusion_fields :: "string list" where
  "diffusion_fields = [''prompt'', ''model'', ''n'', ''size'', ''response_format'', ''quality'', ''style'',
     ''step'', ''seed'', ''mode'', ''scheduler'', ''strength'', ''seconds'', ''input_reference'', ''image'', ''mask'']"

definition diffusion_request :: "jobj \<Rightarrow> jobj" where
  "diffusion_request payload = concat (map (\<lambda>k. case map_of payload k of None \<Rightarrow> [] | Some v \<Rightarrow> [(k, v)]) diffusion_fields)"

definition diffusion_response :: "json \<Rightarrow> string + json" where
  "diffusion_response response =
    py_bind (as_dict response) (\<lambda>r.
    let data = json_or (jget r ''video'') (jget r ''output'') in
    if jget r ''status'' = JStr ''completed'' \<and> truthy data
    then (case data of
        JStr s \<Rightarrow> (let url = JStr (if starts_with s ''data:'' then s else ''data:video/mp4;base64,'' @ s)
          in Inr (JObj [(''object'', JStr ''video''),
               (''data'', JArr [JObj [(''id'', jget_or r ''id'' (JStr [])), (''url'', url), (''video_url'', url)]])]))
      | _ \<Rightarrow> Inl ''AttributeError'')
    else Inr response)"

definition transform_request :: "adapter \<Rightarrow> jobj \<Rightarrow> string + jobj" where
  "transform_request a payload = (case a of
     AnthropicAdapter \<Rightarrow> anthropic_request payload | CohereAdapter \<Rightarrow> cohere_request payload
   | InferaDiffusionImageAdapter \<Rightarrow> Inr (diffusion_request payload) | InferaDiffusionVideoAdapter \<Rightarrow> Inr (diffusion_request payload)
   | _ \<Rightarrow> Inr payload)"

definition transform_response :: "adapter \<Rightarrow> json \<Rightarrow> string + json" where
  "transform_response a response = (case a of
     AnthropicAdapter \<Rightarrow> anthropic_response response | CohereAdapter \<Rightarrow> cohere_response response
   | InferaDiffusionImageAdapter \<Rightarrow> diffusion_response response | InferaDiffusionVideoAdapter \<Rightarrow> diffusion_response response
   | _ \<Rightarrow> Inr response)"

subsection \<open>Registry\<close>

definition EXTERNAL_PROVIDERS :: "string list" where
  "EXTERNAL_PROVIDERS = [''openai'', ''anthropic'', ''cohere'', ''groq'', ''gemini'', ''openrouter'', ''cerebras'']"

definition engine_lower :: "string option \<Rightarrow> string" where
  "engine_lower engine = py_lower (case engine of None \<Rightarrow> [] | Some e \<Rightarrow> e)"

text \<open>The adapters are stateless, so the cache of instances does not show.\<close>

definition get_adapter :: "string option \<Rightarrow> adapter" where
  "get_adapter engine = (case map_of
     [(''openai'', OpenAIAdapter), (''groq'', OpenAIAdapter), (''gemini'', OpenAIAdapter), (''openrouter'', OpenAIAdapter),
      (''cerebras'', OpenAIAdapter), (''anthropic'', AnthropicAdapter), (''cohere'', CohereAdapter), (''vllm'', ComputeAdapter),
      (''ollama'', ComputeAdapter), (''generic'', ComputeAdapter), (''infinity'', EmbeddingAdapter), (''tei'', EmbeddingAdapter),
      (''inferia-diffusion'', InferaDiffusionImageAdapter)] (engine_lower engine) of
     Some a \<Rightarrow> a | None \<Rightarrow> ComputeAdapter)"

definition is_external_provider :: "string option \<Rightarrow> bool" where
  "is_external_provider engine \<longleftrightarrow> engine_lower engine \<in> set EXTERNAL_PROVIDERS"

definition resolve_upstream :: "string option \<Rightarrow> string \<Rightarrow> string option \<Rightarrow> adapter \<times> string" where
  "resolve_upstream engine endpoint_url proxy_url = (case nonempty_str proxy_url of
     Some p \<Rightarrow> if is_external_provider engine then (get_adapter (Some ''openai''), rstrip_slash p) else (get_adapter engine, endpoint_url)
   | None \<Rightarrow> (get_adapter engine, endpoint_url))"

section \<open>Cluster names\<close>

definition is_alnum :: "char \<Rightarrow> bool" where
  "is_alnum c = (let n = of_char c :: nat in (48 \<le> n \<and> n \<le> 57) \<or> (65 \<le> n \<and> n \<le> 90) \<or> (97 \<le> n \<and> n \<le> 122)
     \<or> n \<in> {170, 178, 179, 181, 185, 186, 188, 189, 190} \<or> (192 \<le> n \<and> n \<noteq> 215 \<and> n \<noteq> 247))"

definition sanitize_cluster_name :: "string option \<Rightarrow> string" where
  "sanitize_cluster_name v = (case v of None \<Rightarrow> []
     | Some s \<Rightarrow> map (\<lambda>c. if is_alnum c \<or> c \<in> {CHR ''-'', CHR ''_'', CHR ''.''} then c else CHR ''-'') s)"

definition build_envoy_cluster_name :: "string option \<Rightarrow> string option \<Rightarrow> string option \<Rightarrow> string" where
  "build_envoy_cluster_name pool_id engine model0 =
    (let model = (case nonempty_str model0 of None \<Rightarrow> ''__default__'' | Some m \<Rightarrow> m);
         safe_pool = sanitize_cluster_name (nonempty_str pool_id);
         safe_engine = sanitize_cluster_name (nonempty_str engine);
         safe_model = (if model \<noteq> ''__default__'' then sanitize_cluster_name (Some model) else []);
         name = (\<lambda>parts. ''grp-'' @ join_with ''-'' (filter (\<lambda>p. p \<noteq> []) parts))
     in if nonempty_str pool_id \<noteq> None
        then name (if safe_model \<noteq> [] then [safe_pool, safe_engine, safe_model]
                   else if safe_engine \<noteq> [] then [safe_pool, safe_engine] else [safe_pool])
        else if safe_model \<noteq> [] then name [safe_engine, safe_model]
        else ''inferia-workers'')"

section \<open>Worker routing\<close>

definition DEPLOYMENT_ID_HEADER :: string where
  "DEPLOYMENT_ID_HEADER = ''X-Inferia-Deployment-Id''"

definition ROUTE_CLUSTER_HEADER :: string where
  "ROUTE_CLUSTER_HEADER = ''X-Inferia-Route-Cluster''"

definition credentials :: "jobj \<Rightarrow> jobj" where
  "credentials d = (case json_or (json_or (jget d ''credentials_json'') (jget d ''configuration'')) (JObj []) of
     JObj c \<Rightarrow> c | _ \<Rightarrow> [])"

definition provider_auth :: "jobj \<Rightarrow> string option \<Rightarrow> string \<Rightarrow> string \<times> headers" where
  "provider_auth d engine internal_key =
    (if truthy (jget d ''inference_token'')
     then (py_str (jget d ''inference_token''), [(DEPLOYMENT_ID_HEADER, py_str (json_or (jget d ''id'') (JStr [])))])
     else let c = credentials d;
              key = py_str (json_or (json_or (json_or (jget c ''api_key'') (jget c ''key'')) (jget c ''token'')) (JStr []))
          in (if key = [] \<and> \<not> is_external_provider engine then internal_key else key, []))"

definition upstream_model :: "jobj \<Rightarrow> json" where
  "upstream_model d = json_or (json_or (json_or (jget d ''inference_model'') (jget (credentials d) ''model''))
     (jget (credentials d) ''model_id'')) (jget d ''model_name'')"

definition envoy_route_headers :: "jobj \<Rightarrow> string option \<Rightarrow> string option \<times> headers" where
  "envoy_route_headers d envoy_url =
    (if \<not> truthy (jget d ''inference_token'') \<or> nonempty_str envoy_url = None then (None, [])
     else (envoy_url, [(ROUTE_CLUSTER_HEADER, build_envoy_cluster_name (jstr (jget d ''pool_id'')) (jstr (jget d ''engine''))
             (jstr (json_or (jget d ''inference_model'') (jget d ''model_name''))))]))"

section \<open>Validators\<close>

definition PRIVATE_NETWORKS :: "(ip \<times> nat) list" where
  "PRIVATE_NETWORKS = [(V4 (127 * 16777216), 8), (V4 (10 * 16777216), 8), (V4 (172 * 16777216 + 16 * 65536), 12),
     (V4 (192 * 16777216 + 168 * 65536), 16), (V4 (169 * 16777216 + 254 * 65536), 16), (V6 1, 128), (V6 (252 * 256 * 65536 ^ 7), 7)]"

definition host_error :: "string \<Rightarrow> string list \<Rightarrow> string option" where
  "host_error hostname allowed = (case ip_address hostname of
     Inr a \<Rightarrow> if list_ex (in_network a) PRIVATE_NETWORKS \<and> hostname \<notin> set allowed
       then Some (''Upstream host '' @ [CHR 0x27] @ hostname @ [CHR 0x27] @ '' is not allowed'') else None
   | Inl e \<Rightarrow> if py_in ''not allowed'' e \<or> py_in ''illegal'' e then Some e else None)"

definition validate_upstream_url :: "string \<Rightarrow> string list \<Rightarrow> string + string" where
  "validate_upstream_url url allowed =
    (if CHR 0x0D \<in> set url \<or> CHR 0x0A \<in> set url then Inl ''URL contains illegal characters''
     else case urlparse url of Inl e \<Rightarrow> Inl e
     | Inr u \<Rightarrow>
       if up_scheme u \<notin> {''http'', ''https''} then Inl (''URL scheme '' @ [CHR 0x27] @ up_scheme u @ [CHR 0x27] @ '' not allowed'')
       else if nonempty_str (url_username u) \<noteq> None \<or> nonempty_str (url_password u) \<noteq> None
       then Inl ''URL must not contain embedded credentials''
       else case url_hostname u of None \<Rightarrow> Inl ''URL has no hostname''
       | Some h \<Rightarrow> (case host_error h allowed of Some e \<Rightarrow> Inl e | None \<Rightarrow> Inr url))"

definition has_crlf :: "string \<Rightarrow> bool" where
  "has_crlf s \<longleftrightarrow> CHR 0x0D \<in> set s \<or> CHR 0x0A \<in> set s"

definition sanitize_headers :: "headers \<Rightarrow> headers" where
  "sanitize_headers hs = filter (\<lambda>(k, v). \<not> has_crlf k \<and> \<not> has_crlf v) hs"

definition HOP_BY_HOP_HEADERS :: "string list" where
  "HOP_BY_HOP_HEADERS = [''connection'', ''keep-alive'', ''proxy-authenticate'', ''proxy-authorization'', ''te'', ''trailers'',
     ''transfer-encoding'', ''upgrade'']"

definition strip_hop_by_hop_headers :: "headers \<Rightarrow> headers" where
  "strip_hop_by_hop_headers hs = filter (\<lambda>(k, v). py_lower k \<notin> set HOP_BY_HOP_HEADERS) hs"

definition check_response_size :: "int option \<Rightarrow> int \<Rightarrow> string + unit" where
  "check_response_size content_length max_bytes = (case content_length of None \<Rightarrow> Inr ()
     | Some n \<Rightarrow> if n > max_bytes then Inl (''Response size '' @ dec_int n @ '' exceeds limit '' @ dec_int max_bytes) else Inr ())"

section \<open>The upstream address\<close>

definition FULL_PATHS :: "string list" where
  "FULL_PATHS = [''/chat/completions'', ''/messages'', ''/embeddings'', ''/images/generations'', ''/images/edits'',
     ''/images/variations'', ''/videos/generations'', ''/videos/edits'', ''/videos/extensions'']"

definition build_full_url :: "string \<Rightarrow> string \<Rightarrow> string" where
  "build_full_url endpoint_url chat_path =
    (let endpoint = rstrip_slash endpoint_url in
     if list_ex (ends_with endpoint) FULL_PATHS then endpoint
     else if ends_with endpoint ''/v1'' \<or> ends_with endpoint ''/openai''
     then endpoint @ (if starts_with chat_path ''/v1'' then drop 3 chat_path else chat_path)
     else if ends_with endpoint ''/generate''
     then endpoint @ (if starts_with chat_path ''/generate'' then drop 9 chat_path else chat_path)
     else endpoint @ chat_path)"

definition get_allowed_hosts :: "string \<Rightarrow> string list" where
  "get_allowed_hosts raw = (if raw = [] then [] else filter (\<lambda>h. h \<noteq> []) (map py_strip (split_on CHR '','' raw)))"

section \<open>Addresses reached\<close>

definition private_v4 :: "nat \<Rightarrow> nat \<Rightarrow> bool" where
  "private_v4 a b \<longleftrightarrow> a = 127 \<or> a = 10 \<or> a = 172 \<and> 16 \<le> b \<and> b \<le> 31 \<or> a = 192 \<and> b = 168 \<or> a = 169 \<and> b = 254"

lemma octets_div:
  fixes a b c d :: nat
  assumes "a \<le> 255" "b \<le> 255" "c \<le> 255" "d \<le> 255"
  shows "(((a * 256 + b) * 256 + c) * 256 + d) div 16777216 = a" "(((a * 256 + b) * 256 + c) * 256 + d) div 65536 = a * 256 + b"
    "(((a * 256 + b) * 256 + c) * 256 + d) div 1048576 = a * 16 + b div 16"
proof -
  show "(((a * 256 + b) * 256 + c) * 256 + d) div 16777216 = a"
    by (rule div_nat_eqI) (use assms in auto)
  show two: "(((a * 256 + b) * 256 + c) * 256 + d) div 65536 = a * 256 + b"
    by (rule div_nat_eqI) (use assms in auto)
  have "(((a * 256 + b) * 256 + c) * 256 + d) div 1048576 = (((a * 256 + b) * 256 + c) * 256 + d) div 65536 div 16"
    by (simp add: div_mult2_eq [symmetric])
  also have "\<dots> = (a * 256 + b) div 16" using two by simp
  also have "\<dots> = a * 16 + b div 16" by simp
  finally show "(((a * 256 + b) * 256 + c) * 256 + d) div 1048576 = a * 16 + b div 16" .
qed

lemma private_networks_v4:
  assumes "a \<le> 255" "b \<le> 255" "c \<le> 255" "d \<le> 255"
  shows "list_ex (in_network (V4 (((int a * 256 + int b) * 256 + int c) * 256 + int d))) PRIVATE_NETWORKS \<longleftrightarrow> private_v4 a b"
proof -
  define n where "n = ((int a * 256 + int b) * 256 + int c) * 256 + int d"
  have n: "n = int (((a * 256 + b) * 256 + c) * 256 + d)" by (simp add: n_def)
  have q: "n div 16777216 = int a" "n div 65536 = int (a * 256 + b)" "n div 1048576 = int (a * 16 + b div 16)"
    unfolding n using octets_div [OF assms] by (metis of_nat_numeral zdiv_int)+
  have "list_ex (in_network (V4 n)) PRIVATE_NETWORKS \<longleftrightarrow>
     int a = int 127 \<or> int a = int 10 \<or> int (a * 16 + b div 16) = int 2753 \<or> int (a * 256 + b) = int 49320 \<or> int (a * 256 + b) = int 43518"
    by (simp add: PRIVATE_NETWORKS_def q del: of_nat_add of_nat_mult of_nat_eq_iff)
  also have "\<dots> \<longleftrightarrow> a = 127 \<or> a = 10 \<or> a * 16 + b div 16 = 2753 \<or> a * 256 + b = 49320 \<or> a * 256 + b = 43518"
    by (simp only: of_nat_eq_iff)
  also have "\<dots> \<longleftrightarrow> private_v4 a b"
  proof -
    define q where "q = b div 16"
    have "b = 16 * q + b mod 16" "b mod 16 < 16" by (simp_all add: q_def)
    then have q: "q \<le> 15" "q = 1 \<longleftrightarrow> 16 \<le> b \<and> b \<le> 31" using assms(2) by linarith+
    from q(1) have "a * 16 + q = 2753 \<longleftrightarrow> a = 172 \<and> q = 1" by presburger
    with q(2) have "a * 16 + b div 16 = 2753 \<longleftrightarrow> a = 172 \<and> 16 \<le> b \<and> b \<le> 31" by (simp add: q_def)
    moreover have "a * 256 + b = 49320 \<longleftrightarrow> a = 192 \<and> b = 168" "a * 256 + b = 43518 \<longleftrightarrow> a = 169 \<and> b = 254"
      using assms(2) by presburger+
    ultimately show ?thesis by (simp add: private_v4_def)
  qed
  finally show ?thesis unfolding n_def .
qed

definition port_text :: "nat option \<Rightarrow> string" where
  "port_text p = (case p of None \<Rightarrow> [] | Some n \<Rightarrow> '':'' @ dec_nat n)"

lemma port_absent: "\<not> is_digit x \<Longrightarrow> x \<noteq> CHR '':'' \<Longrightarrow> x \<notin> set (port_text p)"
  by (auto simp: port_text_def digits_without split: option.splits)

lemma scheme_split: "scheme \<in> {''http'', ''https''} \<Longrightarrow> split_scheme (scheme @ '':'' @ rest) = (scheme, rest)"
proof -
  assume "scheme \<in> {''http'', ''https''}"
  moreover have "py_lower ''http'' = ''http''" "py_lower ''https'' = ''https''" by code_simp+
  moreover have "list_all scheme_char ''http''" "list_all scheme_char ''https''" "is_alpha (CHR ''h'')" by code_simp+
  moreover have "CHR '':'' \<notin> set ''http''" "CHR '':'' \<notin> set ''https''" by simp_all
  ultimately show ?thesis
    using partition_first [of "CHR '':''" "''http''" rest] partition_first [of "CHR '':''" "''https''" rest]
    by (auto simp: split_scheme_def)
qed

lemma takeWhile_host:
  assumes "\<forall>x \<in> set h. P x" "t = [] \<or> \<not> P (hd t)"
  shows "takeWhile P (h @ t) = h"
  using assms by (induction h) (cases t, auto)

lemma parse_host:
  assumes "scheme \<in> {''http'', ''https''}" "\<forall>x \<in> set h. x \<notin> {CHR ''/'', CHR ''?'', CHR ''#'', CHR ''['', CHR '']'', CHR 0x09, CHR 0x0A, CHR 0x0D}"
    and tail: "tail = [] \<or> hd tail = CHR ''/''"
  shows "urlparse (scheme @ ''://'' @ h @ tail) = Inr \<lparr>up_scheme = scheme, up_netloc = h\<rparr>"
proof -
  define keep where "keep = (\<lambda>c. c \<notin> {CHR 0x09, CHR 0x0A, CHR 0x0D})"
  have "filter keep h = h" using assms(2) by (auto simp: keep_def filter_id_conv)
  moreover have "filter keep scheme = scheme" using assms(1) by (auto simp: keep_def)
  ultimately have f: "filter keep (scheme @ ''://'' @ h @ tail) = scheme @ '':'' @ ''//'' @ h @ filter keep tail"
    by (simp add: keep_def)
  have "dropWhile (\<lambda>c. (of_char c :: nat) \<le> 32) (scheme @ ''://'' @ h @ tail) = scheme @ ''://'' @ h @ tail"
    using assms(1) by auto
  with f have u: "filter keep (dropWhile (\<lambda>c. (of_char c :: nat) \<le> 32) (scheme @ ''://'' @ h @ tail)) =
      scheme @ '':'' @ ''//'' @ h @ filter keep tail" by simp
  have "filter keep tail = [] \<or> hd (filter keep tail) = CHR ''/''" using tail by (cases tail) (auto simp: keep_def)
  then have "takeWhile (\<lambda>c. c \<notin> {CHR ''/'', CHR ''?'', CHR ''#''}) (h @ filter keep tail) = h"
    using assms(2) by (intro takeWhile_host) auto
  moreover have "CHR ''['' \<notin> set h" "CHR '']'' \<notin> set h" using assms(2) by auto
  moreover have "starts_with (''//'' @ h @ filter keep tail) ''//''" by (simp add: starts_with_def)
  ultimately show ?thesis
    unfolding urlparse_def keep_def [symmetric] u scheme_split [OF assms(1)] Let_def by simp
qed

lemma host_of_v4:
  "url_username \<lparr>up_scheme = s, up_netloc = dotted a b c d @ port_text p\<rparr> = None"
  "url_password \<lparr>up_scheme = s, up_netloc = dotted a b c d @ port_text p\<rparr> = None"
  "url_hostname \<lparr>up_scheme = s, up_netloc = dotted a b c d @ port_text p\<rparr> = Some (dotted a b c d)"
proof -
  let ?n = "dotted a b c d @ port_text p"
  have abs: "CHR ''@'' \<notin> set ?n" "CHR ''['' \<notin> set ?n" "CHR ''%'' \<notin> set (dotted a b c d)" "CHR '':'' \<notin> set (dotted a b c d)"
    using dotted_absent port_absent by (auto simp: is_digit_def)
  then show "url_username \<lparr>up_scheme = s, up_netloc = ?n\<rparr> = None" "url_password \<lparr>up_scheme = s, up_netloc = ?n\<rparr> = None"
    by (simp_all add: url_username_def url_password_def rpartition_absent)
  have "fst (partition_at CHR '':'' ?n) = dotted a b c d"
    using abs(4) partition_absent [of "CHR '':''" "dotted a b c d"] partition_first [of "CHR '':''" "dotted a b c d"]
    by (cases p) (simp_all add: port_text_def)
  then have "fst (hostinfo \<lparr>up_scheme = s, up_netloc = ?n\<rparr>) = dotted a b c d"
    using abs by (cases "partition_at CHR '':'' ?n") (simp add: hostinfo_def rpartition_absent partition_absent)
  then show "url_hostname \<lparr>up_scheme = s, up_netloc = ?n\<rparr> = Some (dotted a b c d)"
    using abs by (simp add: url_hostname_def partition_absent lower_dotted)
qed

text \<open>
  C38: An upstream address with an IPv4 host is refused exactly when the host lies in one of the five private ranges and is not on
  the allow list, whatever port and path follow.
\<close>

theorem upstream_ipv4_guard:
  assumes "a \<le> 255" "b \<le> 255" "c \<le> 255" "d \<le> 255" "scheme \<in> {''http'', ''https''}"
    and "tail = [] \<or> hd tail = CHR ''/''" "\<not> has_crlf tail"
  shows "validate_upstream_url (scheme @ ''://'' @ dotted a b c d @ port_text p @ tail) allowed =
    (if private_v4 a b \<and> dotted a b c d \<notin> set allowed
     then Inl (''Upstream host '' @ [CHR 0x27] @ dotted a b c d @ [CHR 0x27] @ '' is not allowed'')
     else Inr (scheme @ ''://'' @ dotted a b c d @ port_text p @ tail))"
proof -
  let ?h = "dotted a b c d @ port_text p" and ?url = "scheme @ ''://'' @ dotted a b c d @ port_text p @ tail"
  have clean: "\<forall>x \<in> set ?h. x \<notin> {CHR ''/'', CHR ''?'', CHR ''#'', CHR ''['', CHR '']'', CHR 0x09, CHR 0x0A, CHR 0x0D}"
    using dotted_absent [of _ a b c d] port_absent [of _ p] by (auto simp: is_digit_def)
  have "urlparse ?url = Inr \<lparr>up_scheme = scheme, up_netloc = ?h\<rparr>"
    by (rule parse_host [OF assms(5) clean assms(6), unfolded append_assoc])
  moreover have "CHR 0x0D \<notin> set ?h" "CHR 0x0A \<notin> set ?h" using clean by blast+
  then have "CHR 0x0D \<notin> set (dotted a b c d)" "CHR 0x0A \<notin> set (dotted a b c d)" "CHR 0x0D \<notin> set (port_text p)" "CHR 0x0A \<notin> set (port_text p)"
    by simp_all
  moreover have "CHR 0x0D \<notin> set scheme" "CHR 0x0A \<notin> set scheme" using assms(5) by auto
  ultimately have "urlparse ?url = Inr \<lparr>up_scheme = scheme, up_netloc = ?h\<rparr>" "CHR 0x0D \<notin> set ?url" "CHR 0x0A \<notin> set ?url"
    using assms(7) by (simp_all add: has_crlf_def)
  moreover
  have "ip_address (dotted a b c d) = Inr (V4 (((int a * 256 + int b) * 256 + int c) * 256 + int d))"
    using ipv4_roundtrip [OF assms(1-4)] by (simp add: ip_address_def)
  then have "host_error (dotted a b c d) allowed = (if private_v4 a b \<and> dotted a b c d \<notin> set allowed
     then Some (''Upstream host '' @ [CHR 0x27] @ dotted a b c d @ [CHR 0x27] @ '' is not allowed'') else None)"
    using private_networks_v4 [OF assms(1-4)] by (simp add: host_error_def)
  ultimately show ?thesis
    using assms(5) unfolding validate_upstream_url_def by (simp add: host_of_v4 nonempty_str_def)
qed

theorem upstream_ipv4_guard_witness:
  "validate_upstream_url ''http://10.2.0.7/v1/chat'' [] = Inl (''Upstream host '' @ [CHR 0x27] @ ''10.2.0.7'' @ [CHR 0x27] @ '' is not allowed'')
   \<and> validate_upstream_url ''http://10.2.0.7/v1/chat'' [''10.2.0.7''] = Inr ''http://10.2.0.7/v1/chat''"
proof -
  have tx: "''http'' @ ''://'' @ dotted 10 2 0 7 @ port_text None @ ''/v1/chat'' = ''http://10.2.0.7/v1/chat''"
    "dotted 10 2 0 7 = ''10.2.0.7''" by code_simp+
  have "validate_upstream_url (''http'' @ ''://'' @ dotted 10 2 0 7 @ port_text None @ ''/v1/chat'') al =
    (if private_v4 10 2 \<and> dotted 10 2 0 7 \<notin> set al
     then Inl (''Upstream host '' @ [CHR 0x27] @ dotted 10 2 0 7 @ [CHR 0x27] @ '' is not allowed'')
     else Inr (''http'' @ ''://'' @ dotted 10 2 0 7 @ port_text None @ ''/v1/chat''))" for al
    by (rule upstream_ipv4_guard) (simp_all add: has_crlf_def)
  then show ?thesis unfolding tx by (simp add: private_v4_def port_text_def)
qed

text \<open>
  Names and the other spellings of the same machine are not covered: \<^verbatim>\<open>localhost\<close>, the unspecified address and an
  IPv4-mapped loopback pass, while a public name that contains the word \<^verbatim>\<open>illegal\<close> is refused.
\<close>

lemma upstream_guard_gaps:
  "validate_upstream_url ''http://localhost:8080/x'' [] = Inr ''http://localhost:8080/x''"
  "validate_upstream_url ''http://0.0.0.0/x'' [] = Inr ''http://0.0.0.0/x''"
  "validate_upstream_url ''http://[::ffff:127.0.0.1]/x'' [] = Inr ''http://[::ffff:127.0.0.1]/x''"
  "isl (validate_upstream_url ''https://illegal-texts.example/x'' [])"
  by code_simp+

lemma rstrip_slash_id: "s = [] \<or> last s \<noteq> CHR ''/'' \<Longrightarrow> rstrip_slash s = s"
  by (cases s rule: rev_cases) (auto simp: rstrip_slash_def)

lemma rstrip_slash_snoc: "rstrip_slash (s @ ''/'') = rstrip_slash s"
  by (simp add: rstrip_slash_def)

lemma ends_with_last: "ends_with s p \<Longrightarrow> p \<noteq> [] \<Longrightarrow> last s = last p"
  by (auto simp: ends_with_iff)

lemma full_paths_last: "p \<in> set FULL_PATHS \<Longrightarrow> p \<noteq> [] \<and> last p = CHR ''s''"
  by (auto simp: FULL_PATHS_def)

lemma full_path_last: "list_ex (ends_with s) FULL_PATHS \<Longrightarrow> last s = CHR ''s''"
  using ends_with_last full_paths_last by (fastforce simp: list_ex_iff)

lemma full_path_append: "list_ex (ends_with s) FULL_PATHS \<Longrightarrow> list_ex (ends_with (t @ s)) FULL_PATHS"
  unfolding list_ex_iff ends_with_iff by (metis append_assoc)

text \<open>
  However much of the path an endpoint already carries (nothing, a trailing slash, the version prefix, the whole path), the
  upstream address is the base followed by the path once.
\<close>

theorem full_url_once:
  assumes base: "b \<noteq> []" "last b \<noteq> CHR ''/''" "\<not> list_ex (ends_with b) FULL_PATHS"
      "\<not> ends_with b ''/v1''" "\<not> ends_with b ''/openai''" "\<not> ends_with b ''/generate''"
    and path: "list_ex (ends_with q) FULL_PATHS"
    and endpoint: "e \<in> {b, b @ ''/'', b @ ''/v1'', b @ ''/v1/'', b @ ''/v1'' @ q}"
  shows "build_full_url e (''/v1'' @ q) = b @ ''/v1'' @ q"
proof -
  have "rstrip_slash b = b" using base rstrip_slash_id by blast
  then have u1: "build_full_url b (''/v1'' @ q) = b @ ''/v1'' @ q" "build_full_url (b @ ''/'') (''/v1'' @ q) = b @ ''/v1'' @ q"
    using base by (simp_all add: build_full_url_def rstrip_slash_snoc Let_def)
  have v1: "rstrip_slash (b @ ''/v1'') = b @ ''/v1''" by (rule rstrip_slash_id) simp
  have no: "\<not> list_ex (ends_with (b @ ''/v1'')) FULL_PATHS" using full_path_last [of "b @ ''/v1''"] by auto
  have "starts_with (''/v1'' @ q) ''/v1''" by (rule starts_with_append)
  then have u2: "build_full_url (b @ ''/v1'') (''/v1'' @ q) = b @ ''/v1'' @ q"
    using v1 no by (simp add: build_full_url_def Let_def)
  have "rstrip_slash (b @ ''/v1/'') = b @ ''/v1''" using v1 rstrip_slash_snoc [of "b @ ''/v1''"] by simp
  then have u3: "build_full_url (b @ ''/v1/'') (''/v1'' @ q) = b @ ''/v1'' @ q"
    using no \<open>starts_with (''/v1'' @ q) ''/v1''\<close> ends_with_append [of b "''/v1''"] by (simp add: build_full_url_def Let_def)
  have full: "list_ex (ends_with (b @ ''/v1'' @ q)) FULL_PATHS" using full_path_append [OF path, of "b @ ''/v1''"] by simp
  moreover have "rstrip_slash (b @ ''/v1'' @ q) = b @ ''/v1'' @ q"
    using full_path_last [OF full] by (intro rstrip_slash_id) auto
  ultimately have "build_full_url (b @ ''/v1'' @ q) (''/v1'' @ q) = b @ ''/v1'' @ q"
    by (simp add: build_full_url_def Let_def)
  with endpoint u1 u2 u3 show ?thesis by blast
qed

theorem full_url_once_witness:
  "build_full_url ''https://api.example/v1/'' ''/v1/chat/completions'' = ''https://api.example/v1/chat/completions''"
proof -
  have "\<not> list_ex (ends_with ''https://api.example'') FULL_PATHS" "list_ex (ends_with ''/chat/completions'') FULL_PATHS"
    by code_simp+
  then show ?thesis
    using full_url_once [of "''https://api.example''" "''/chat/completions''" "''https://api.example/v1/''"] by (simp add: ends_with_def)
qed

section \<open>Dialogues\<close>

definition spoken :: "jobj \<Rightarrow> bool" where
  "spoken d \<longleftrightarrow> jget d ''role'' \<in> {JStr ''user'', JStr ''assistant''}"

definition turn :: "jobj \<Rightarrow> json" where
  "turn d = JObj [(''role'', jget d ''role''), (''content'', jget_or d ''content'' (JStr []))]"

lemma anthropic_fold:
  "py_fold anthropic_msg st (map JObj ms) =
     Inr (foldl (\<lambda>c d. if jget d ''role'' = JStr ''system'' then jget_or d ''content'' (JStr []) else c) (fst st) ms,
          snd st @ map turn (filter spoken ms))"
  by (induction ms arbitrary: st) (auto simp: anthropic_msg_def py_bind_def as_dict_def Let_def spoken_def turn_def)

text \<open>
  The Anthropic adapter keeps the turns of user and assistant in their order and with their contents; the last system message
  becomes the system prompt.
\<close>

theorem anthropic_keeps_dialogue:
  assumes "jget_or payload ''messages'' (JArr []) = JArr (map JObj ms)"
  shows "\<exists>p. transform_request AnthropicAdapter payload = Inr p \<and> jget p ''messages'' = JArr (map turn (filter spoken ms)) \<and>
    jget p ''model'' = jget payload ''model'' \<and>
    (let s = foldl (\<lambda>c d. if jget d ''role'' = JStr ''system'' then jget_or d ''content'' (JStr []) else c) JNull ms
     in jget p ''system'' = (if truthy s then s else JNull))"
  using assms by (simp add: transform_request_def anthropic_request_def py_iter_def py_bind_def anthropic_fold jget_def opt_key_def Let_def)

theorem anthropic_keeps_dialogue_witness:
  "\<exists>p. transform_request AnthropicAdapter [(''model'', JStr ''m''), (''messages'', JArr [JObj [(''role'', JStr ''user''), (''content'', JStr ''hi'')]])] = Inr p
     \<and> jget p ''messages'' = JArr [JObj [(''role'', JStr ''user''), (''content'', JStr ''hi'')]]"
  using anthropic_keeps_dialogue [of "[(''model'', JStr ''m''), (''messages'', JArr [JObj [(''role'', JStr ''user''), (''content'', JStr ''hi'')]])]"
      "[[(''role'', JStr ''user''), (''content'', JStr ''hi'')]]"]
  by (auto simp: jget_or_def jget_def turn_def spoken_def)

text \<open>
  The Cohere adapter does not: when a second user message follows an answer, the answer is put before the question it answers.
\<close>

lemma cohere_swaps_turns:
  "\<exists>p. transform_request CohereAdapter [(''messages'', JArr [JObj [(''role'', JStr ''user''), (''content'', JStr (c # q))],
       JObj [(''role'', JStr ''assistant''), (''content'', JStr a)], JObj [(''role'', JStr ''user''), (''content'', JStr q')]])] = Inr p \<and>
     jget p ''chat_history'' = JArr [JObj [(''role'', JStr ''CHATBOT''), (''message'', JStr a)], JObj [(''role'', JStr ''USER''), (''message'', JStr (c # q))]]
     \<and> jget p ''message'' = JStr q'"
  by (simp add: transform_request_def cohere_request_def py_iter_def py_bind_def cohere_msg_def as_dict_def jget_def jget_or_def Let_def)

section \<open>Credentials on the wire\<close>

text \<open>
  A worker-hosted deployment authenticates with its pool's token and names itself; the internal key is used only for an engine
  that is no external provider and a deployment without token and credentials.
\<close>

theorem internal_key_confined:
  assumes "\<forall>k \<in> {''api_key'', ''key'', ''token''}. py_str (jget (credentials d) k) \<noteq> internal_key"
    and "py_str (jget d ''inference_token'') \<noteq> internal_key" "internal_key \<noteq> []"
  shows "(fst (provider_auth d engine internal_key) = internal_key \<longleftrightarrow>
       \<not> truthy (jget d ''inference_token'') \<and> \<not> is_external_provider engine \<and>
       py_str (json_or (json_or (json_or (jget (credentials d) ''api_key'') (jget (credentials d) ''key'')) (jget (credentials d) ''token'')) (JStr [])) = [])
    \<and> (truthy (jget d ''inference_token'') \<longrightarrow> provider_auth d engine internal_key =
       (py_str (jget d ''inference_token''), [(DEPLOYMENT_ID_HEADER, py_str (json_or (jget d ''id'') (JStr [])))]))"
  using assms by (auto simp: provider_auth_def Let_def json_or_def split: if_splits)

theorem internal_key_confined_witness:
  "provider_auth [(''id'', JStr ''d1''), (''inference_token'', JStr ''tok'')] (Some ''vllm'') ''secret'' =
     (''tok'', [(DEPLOYMENT_ID_HEADER, ''d1'')])"
  using internal_key_confined [of "[(''id'', JStr ''d1''), (''inference_token'', JStr ''tok'')]" "''secret''" "Some ''vllm''"]
  by (simp add: jget_def json_or_def credentials_def)

end
