(* ===== verification/Xds.thy ===== *)
theory Xds
  imports InventoryViews Upstream
begin

text \<open>
  \<^verbatim>\<open>orchestration/api/xds.py\<close>: the Envoy clusters built from the ready nodes, and their agreement with the routing header
  the inference service computes (theory Upstream).  The iteration order of a Python set and the SHA-1 digest are parameters.
\<close>

section \<open>Addresses of nodes\<close>

definition parse_advertise_url :: "string \<Rightarrow> string + string \<times> int" where
  "parse_advertise_url url =
    (if py_in ''//'' url
     then py_bind (urlparse url) (\<lambda>u. py_bind (url_port u) (\<lambda>port.
       Inr (case url_hostname u of None \<Rightarrow> ''localhost'' | Some h \<Rightarrow> h,
            case port of None \<Rightarrow> 8080 | Some p \<Rightarrow> if p = 0 then 8080 else int p)))
     else case partition_at CHR '':'' url of (host, _, port) \<Rightarrow>
       if port = [] then Inr (host, 8080)
       else case text_to_int port of None \<Rightarrow> Inl ''ValueError'' | Some p \<Rightarrow> Inr (host, p))"

record xds_member =
  xm_host :: string
  xm_port :: int
  xm_id :: uuid
  xm_pool :: "string option"
  xm_engine :: "string option"
  xm_model :: string

type_synonym ready_node = "xds_entry \<times> string option \<times> string option \<times> time option"

definition member_of :: "ready_node \<Rightarrow> string + xds_member list" where
  "member_of = (\<lambda>(x, expose, _, _). case nonempty_str (or_str expose (xe_url x)) of
     None \<Rightarrow> Inr []
   | Some url \<Rightarrow> py_bind (parse_advertise_url url) (\<lambda>(host, port).
       Inr [\<lparr>xm_host = host, xm_port = port, xm_id = xe_id x, xm_pool = nonempty_str (Some (xe_pool_id x)),
             xm_engine = xe_engine x, xm_model = xe_model x\<rparr>]))"

definition gather :: "xds_member list \<Rightarrow> ready_node \<Rightarrow> string + xds_member list" where
  "gather ms n = py_bind (member_of n) (\<lambda>m. Inr (ms @ m))"

definition members_of :: "ready_node list \<Rightarrow> string + xds_member list" where
  "members_of ns = py_fold gather [] ns"

section \<open>Clusters\<close>

definition CLUSTER_TYPE_URL :: string where
  "CLUSTER_TYPE_URL = ''type.googleapis.com/envoy.config.cluster.v3.Cluster''"

definition ENDPOINT_TYPE_URL :: string where
  "ENDPOINT_TYPE_URL = ''type.googleapis.com/envoy.config.endpoint.v3.ClusterLoadAssignment''"

definition diffusion_engine :: "string option \<Rightarrow> bool" where
  "diffusion_engine engine \<longleftrightarrow> engine = Some ''inferia-diffusion''"

definition health_checks :: "string option \<Rightarrow> json" where
  "health_checks engine = (let slow = diffusion_engine engine in
     JArr [JObj [(''timeout'', JStr (if slow then ''60s'' else ''10s'')), (''interval'', JStr (if slow then ''60s'' else ''5s'')),
       (''unhealthy_threshold'', JInt (if slow then 30 else 2)), (''healthy_threshold'', JInt 1),
       (''http_health_check'', JObj [(''path'', JStr ''/healthz'')])]])"

definition lb_endpoint :: "xds_member \<Rightarrow> json" where
  "lb_endpoint m = JObj [(''endpoint'', JObj [(''address'', JObj [(''socket_address'',
     JObj [(''address'', JStr (xm_host m)), (''port_value'', JInt (xm_port m))])])])]"

definition build_cluster :: "string \<Rightarrow> xds_member list \<Rightarrow> string option \<Rightarrow> json" where
  "build_cluster cluster_name members engine = JObj
    [(''@type'', JStr CLUSTER_TYPE_URL), (''name'', JStr cluster_name),
     (''connect_timeout'', JStr (if diffusion_engine engine then ''120s'' else ''45s'')), (''lb_policy'', JStr ''ROUND_ROBIN''),
     (''type'', JStr ''STRICT_DNS''), (''health_checks'', health_checks engine),
     (''load_assignment'', JObj [(''cluster_name'', JStr cluster_name),
        (''endpoints'', JArr [JObj [(''lb_endpoints'', JArr (map lb_endpoint members))]])])]"

text \<open>A group of members that serve the same model, in a pool or alone.\<close>

type_synonym group = "string option \<times> string option \<times> string"

definition group_of :: "xds_member \<Rightarrow> group" where
  "group_of m = (xm_pool m, xm_engine m, xm_model m)"

definition group_name :: "group \<Rightarrow> string" where
  "group_name g = build_envoy_cluster_name (fst g) (fst (snd g)) (Some (snd (snd g)))"

definition group_members :: "group \<Rightarrow> xds_member list \<Rightarrow> xds_member list" where
  "group_members g ms = filter (\<lambda>m. group_of m = g) ms"

text \<open>The keys of a dictionary filled in the order of a list.\<close>

definition first_seen :: "'a list \<Rightarrow> 'a list" where
  "first_seen xs = rev (remdups (rev xs))"

text \<open>
  Pools in the order in which they appear; the groups of one pool are a set, iterated in the order \<^verbatim>\<open>order\<close> gives; the
  groups of the members without a pool come last.
\<close>

definition pool_groups :: "(group list \<Rightarrow> group list) \<Rightarrow> xds_member list \<Rightarrow> group list" where
  "pool_groups order ms =
     concat (map (\<lambda>p. order (remdups (map group_of (filter (\<lambda>m. xm_pool m = Some p) ms))))
       (first_seen (concat (map (\<lambda>m. case xm_pool m of None \<Rightarrow> [] | Some p \<Rightarrow> [p]) ms))))
     @ first_seen (map group_of (filter (\<lambda>m. xm_pool m = None) ms))"

record xds_resources =
  xr_clusters :: "(string \<times> json) list"
  xr_route_table :: "(uuid \<times> string) list"
  xr_cds_version :: string

definition add_cluster :: "xds_member list \<Rightarrow> (string \<times> json) list \<Rightarrow> group \<Rightarrow> (string \<times> json) list" where
  "add_cluster ms cs g = AList.update (group_name g) (build_cluster (group_name g) (group_members g ms) (fst (snd g))) cs"

definition add_routes :: "xds_member list \<Rightarrow> (uuid \<times> string) list \<Rightarrow> group \<Rightarrow> (uuid \<times> string) list" where
  "add_routes ms rt g = foldl (\<lambda>r m. AList.update (xm_id m) (group_name g) r) rt (group_members g ms)"

definition build_resources :: "(group list \<Rightarrow> group list) \<Rightarrow> (json list \<Rightarrow> string) \<Rightarrow> ready_node list \<Rightarrow> string + xds_resources" where
  "build_resources order digest nodes = py_bind (members_of nodes) (\<lambda>ms.
    let groups = pool_groups order ms; clusters = foldl (add_cluster ms) [] groups in
    Inr \<lparr>xr_clusters = clusters, xr_route_table = foldl (add_routes ms) [] groups,
         xr_cds_version = digest (map snd (sort_key fst clusters))\<rparr>)"

section \<open>Discovery\<close>

datatype discovery = NotModified | Discovered jobj

definition discovery_response :: "string \<Rightarrow> json list \<Rightarrow> string \<Rightarrow> string \<Rightarrow> jobj" where
  "discovery_response version resources type_url nonce =
    [(''version_info'', JStr version), (''resources'', JArr resources), (''type_url'', JStr type_url), (''nonce'', JStr nonce)]"

definition discovery_clusters ::
  "(group list \<Rightarrow> group list) \<Rightarrow> (json list \<Rightarrow> string) \<Rightarrow> string \<Rightarrow> json \<Rightarrow> db \<Rightarrow> string + discovery" where
  "discovery_clusters order digest nonce body d =
    py_bind (if truthy body then as_dict body else Inr []) (\<lambda>b.
    py_bind (build_resources order digest (get_ready_nodes d)) (\<lambda>r.
    Inr (if jget_or b ''version_info'' (JStr []) = JStr (xr_cds_version r) then NotModified
         else Discovered (discovery_response (xr_cds_version r) (map snd (xr_clusters r)) CLUSTER_TYPE_URL nonce))))"

definition discovery_endpoints :: "string \<Rightarrow> jobj" where
  "discovery_endpoints nonce = discovery_response ''1'' [] ENDPOINT_TYPE_URL nonce"

definition route_table :: "(group list \<Rightarrow> group list) \<Rightarrow> (json list \<Rightarrow> string) \<Rightarrow> db \<Rightarrow> string + (uuid \<times> string) list" where
  "route_table order digest d = py_bind (build_resources order digest (get_ready_nodes d)) (\<lambda>r. Inr (xr_route_table r))"

section \<open>Lemmas\<close>

lemma gather_cases: "gather ms n = Inr ms' \<longleftrightarrow> (\<exists>m. member_of n = Inr m \<and> ms' = ms @ m)"
  by (auto simp: gather_def py_bind_def split: sum.splits)

lemma py_fold_members:
  assumes "py_fold gather acc ns = Inr ms" "n \<in> set ns"
  shows "\<exists>m. member_of n = Inr m \<and> set m \<subseteq> set ms"
proof -
  have grows: "py_fold gather acc ns = Inr ms \<Longrightarrow> set acc \<subseteq> set ms" for acc ns
  proof (induction ns arbitrary: acc)
    case (Cons k ns)
    then obtain mk where "py_fold gather (acc @ mk) ns = Inr ms" by (auto simp: gather_cases split: sum.splits)
    from Cons.IH [OF this] show ?case by simp
  qed simp
  show ?thesis using assms
  proof (induction ns arbitrary: acc)
    case (Cons k ns)
    then obtain mk where mk: "member_of k = Inr mk" "py_fold gather (acc @ mk) ns = Inr ms"
      by (auto simp: gather_cases split: sum.splits)
    show ?case
    proof (cases "n = k")
      case True
      then show ?thesis using mk grows [OF mk(2)] by auto
    next
      case False
      then show ?thesis using Cons.prems(2) Cons.IH [OF mk(2)] by simp
    qed
  qed simp
qed

lemma members_of_url:
  assumes "members_of ns = Inr ms" "(x, expose, ep, hb) \<in> set ns" "nonempty_str (or_str expose (xe_url x)) = Some url"
  obtains host port where "parse_advertise_url url = Inr (host, port)"
    "\<lparr>xm_host = host, xm_port = port, xm_id = xe_id x, xm_pool = nonempty_str (Some (xe_pool_id x)),
       xm_engine = xe_engine x, xm_model = xe_model x\<rparr> \<in> set ms"
proof -
  obtain m where "member_of (x, expose, ep, hb) = Inr m" "set m \<subseteq> set ms"
    using py_fold_members [OF assms(1) [unfolded members_of_def] assms(2)] by blast
  with assms(3) show thesis
    by (auto simp: member_of_def py_bind_def intro: that split: sum.splits)
qed

lemma members_source:
  assumes "members_of ns = Inr ms" "m \<in> set ms"
  shows "\<exists>y \<in> set ns. group_of m = (nonempty_str (Some (xe_pool_id (fst y))), xe_engine (fst y), xe_model (fst y))"
proof -
  have "\<forall>m \<in> set ms. m \<in> set acc \<or> (\<exists>y \<in> set ns. group_of m = (nonempty_str (Some (xe_pool_id (fst y))), xe_engine (fst y), xe_model (fst y)))"
    if "py_fold gather acc ns = Inr ms" for acc
    using that
  proof (induction ns arbitrary: acc)
    case (Cons k ns)
    then obtain mk where mk: "member_of k = Inr mk" "py_fold gather (acc @ mk) ns = Inr ms"
      by (auto simp: gather_cases split: sum.splits)
    have "\<forall>m \<in> set mk. group_of m = (nonempty_str (Some (xe_pool_id (fst k))), xe_engine (fst k), xe_model (fst k))"
      using mk(1) by (auto simp: member_of_def py_bind_def group_of_def split: prod.splits option.splits sum.splits)
    with Cons.IH [OF mk(2)] show ?case by fastforce
  qed simp
  from this [OF assms(1) [unfolded members_of_def]] assms(2) show ?thesis by auto
qed

lemma set_first_seen [simp]: "set (first_seen xs) = set xs"
  by (simp add: first_seen_def)

lemma set_pool_groups:
  assumes "\<And>xs. set (order xs) = set xs"
  shows "set (pool_groups order ms) = group_of ` set ms"
proof -
  have "group_of m \<in> set (pool_groups order ms)" if "m \<in> set ms" for m
    using that by (cases "xm_pool m") (force simp: pool_groups_def assms)+
  moreover have "set (pool_groups order ms) \<subseteq> group_of ` set ms"
    by (auto simp: pool_groups_def assms)
  ultimately show ?thesis by blast
qed

lemma clusters_last:
  assumes "\<forall>g' \<in> set groups. group_name g' = group_name g \<longrightarrow> g' = g" "g \<in> set groups \<or> map_of cs (group_name g) =
      Some (build_cluster (group_name g) (group_members g ms) (fst (snd g)))"
  shows "map_of (foldl (add_cluster ms) cs groups) (group_name g) =
      Some (build_cluster (group_name g) (group_members g ms) (fst (snd g)))"
  using assms
proof (induction groups arbitrary: cs)
  case (Cons k groups)
  have "map_of (add_cluster ms cs k) (group_name g) = (if group_name k = group_name g
      then Some (build_cluster (group_name k) (group_members k ms) (fst (snd k))) else map_of cs (group_name g))"
    by (simp add: add_cluster_def AList.update_conv')
  with Cons.prems have "g \<in> set groups \<or> map_of (add_cluster ms cs k) (group_name g) =
      Some (build_cluster (group_name g) (group_members g ms) (fst (snd g)))"
    by (cases "group_name k = group_name g") auto
  with Cons show ?case by simp
qed simp

text \<open>
  A ready node whose group shares its cluster name with no other group is an endpoint of the cluster of that name, beside nodes
  that serve the same model only.
\<close>

lemma ready_node_published:
  assumes res: "build_resources order digest ns = Inr r" and order: "\<And>xs. set (order xs) = set xs"
    and node: "(x, expose, ep, hb) \<in> set ns" "nonempty_str (or_str expose (xe_url x)) = Some url"
    and g: "g = (nonempty_str (Some (xe_pool_id x)), xe_engine x, xe_model x)"
    and unique: "\<forall>y \<in> set ns. group_name (nonempty_str (Some (xe_pool_id (fst y))), xe_engine (fst y), xe_model (fst y)) = group_name g
        \<longrightarrow> (nonempty_str (Some (xe_pool_id (fst y))), xe_engine (fst y), xe_model (fst y)) = g"
  obtains host port ms where "parse_advertise_url url = Inr (host, port)"
    "map_of (xr_clusters r) (group_name g) = Some (build_cluster (group_name g) ms (xe_engine x))"
    "\<lparr>xm_host = host, xm_port = port, xm_id = xe_id x, xm_pool = fst g, xm_engine = xe_engine x, xm_model = xe_model x\<rparr> \<in> set ms"
    "\<forall>m \<in> set ms. group_of m = g"
proof -
  obtain ms where ms: "members_of ns = Inr ms" and r: "xr_clusters r = foldl (add_cluster ms) [] (pool_groups order ms)"
    using res by (auto simp: build_resources_def py_bind_def Let_def split: sum.splits)
  obtain host port where url: "parse_advertise_url url = Inr (host, port)"
    and mem: "\<lparr>xm_host = host, xm_port = port, xm_id = xe_id x, xm_pool = nonempty_str (Some (xe_pool_id x)),
       xm_engine = xe_engine x, xm_model = xe_model x\<rparr> \<in> set ms"
    using members_of_url [OF ms node] by blast
  have src: "\<exists>y \<in> set ns. group_of m = (nonempty_str (Some (xe_pool_id (fst y))), xe_engine (fst y), xe_model (fst y))" if "m \<in> set ms" for m
    using members_source [OF ms that] .
  have "g' = g" if "g' \<in> set (pool_groups order ms)" "group_name g' = group_name g" for g'
    using that src unique unfolding set_pool_groups [of order, OF order] by fastforce
  moreover have "g \<in> set (pool_groups order ms)"
    unfolding set_pool_groups [of order, OF order] g using mem by (force simp: group_of_def)
  ultimately have "map_of (xr_clusters r) (group_name g) = Some (build_cluster (group_name g) (group_members g ms) (xe_engine x))"
    unfolding r using clusters_last [of "pool_groups order ms" g "[]" ms] by (simp add: g)
  then show thesis
    by (rule that [OF url]) (use mem in \<open>auto simp: group_members_def group_of_def g\<close>)
qed

end
