(* ===== verification/InferenceClient.thy ===== *)
theory InferenceClient
  imports TtlCache Upstream
begin

text \<open>
  \<^verbatim>\<open>inference/client.py\<close>: the client of the API gateway with its positive and negative caches and its sharing of requests in
  flight.  Concurrent calls are a transition system whose steps are the stretches between two suspensions of the event loop.
  Times are readings of the monotonic clock in milliseconds; the gateway's answer to a request is an argument of the step that
  receives it.
\<close>

section \<open>Exceptions and replies\<close>

datatype inf_exn = HttpExc int json headers | PyExc string

text \<open>An answer with its status and decoded body (None when the body is no JSON), or no connection.\<close>

datatype gw_reply = Reply int "json option" | Unreachable

definition is_success :: "int \<Rightarrow> bool" where
  "is_success status \<longleftrightarrow> 200 \<le> status \<and> status \<le> 299"

definition http_exc :: "int \<Rightarrow> string \<Rightarrow> inf_exn" where
  "http_exc status detail = HttpExc status (JStr detail) []"

text \<open>\<^verbatim>\<open>e.response.json().get("detail", dflt)\<close> in the handler of a failed status.\<close>

definition error_detail :: "int \<Rightarrow> json option \<Rightarrow> string \<Rightarrow> inf_exn" where
  "error_detail status body dflt = (case body of
     None \<Rightarrow> PyExc ''JSONDecodeError''
   | Some (JObj d) \<Rightarrow> HttpExc status (jget_or d ''detail'' (JStr dflt)) []
   | Some _ \<Rightarrow> PyExc ''AttributeError'')"

section \<open>Requests shared by concurrent calls\<close>

datatype 'r task_state = Created | Requesting | Done 'r

record ('k, 'a, 'r) flight_task =
  ft_key :: 'k
  ft_arg :: 'a
  ft_state :: "'r task_state"

datatype ('k, 'a, 'r) call_phase = Called 'k 'a | Missed 'k 'a | Waiting 'k nat bool | Leaving 'k nat 'r | Returned 'r

record ('k, 'a, 'r, 'x) flights =
  fs_shared :: 'x
  fs_tasks :: "('k, 'a, 'r) flight_task list"
  fs_inflight :: "('k \<times> nat) list"
  fs_calls :: "('k, 'a, 'r) call_phase list"

text \<open>
  What a use of the scheme supplies: the look-up before anything is shared, the start of the task, its treatment of the answer,
  and what a call does with a result it awaited.
\<close>

record ('k, 'a, 'r, 'x, 'y) flight_ops =
  fo_hit :: "'k \<Rightarrow> 'x \<Rightarrow> 'r option"
  fo_begin :: "'k \<Rightarrow> 'x \<Rightarrow> 'x \<times> 'r option"
  fo_answer :: "'k \<Rightarrow> 'a \<Rightarrow> 'y \<Rightarrow> 'x \<Rightarrow> 'x \<times> 'r"
  fo_after :: "'k \<Rightarrow> 'r \<Rightarrow> 'x \<Rightarrow> 'x"

definition set_phase :: "nat \<Rightarrow> ('k, 'a, 'r) call_phase \<Rightarrow> ('k, 'a, 'r, 'x) flights \<Rightarrow> ('k, 'a, 'r, 'x) flights" where
  "set_phase i p s = s\<lparr>fs_calls := (fs_calls s)[i := p]\<rparr>"

definition set_task :: "nat \<Rightarrow> 'r task_state \<Rightarrow> ('k, 'a, 'r, 'x) flights \<Rightarrow> ('k, 'a, 'r, 'x) flights" where
  "set_task t st s = s\<lparr>fs_tasks := (fs_tasks s)[t := (fs_tasks s ! t)\<lparr>ft_state := st\<rparr>]\<rparr>"

definition look_up_call :: "('k, 'a, 'r, 'x, 'y) flight_ops \<Rightarrow> nat \<Rightarrow> 'k \<Rightarrow> 'a \<Rightarrow> ('k, 'a, 'r, 'x) flights \<Rightarrow> ('k, 'a, 'r, 'x) flights" where
  "look_up_call ops i k a s = (case fo_hit ops k (fs_shared s) of
     Some r \<Rightarrow> set_phase i (Returned r) s | None \<Rightarrow> set_phase i (Missed k a) s)"

definition join_flight :: "nat \<Rightarrow> 'k \<Rightarrow> 'a \<Rightarrow> ('k, 'a, 'r, 'x) flights \<Rightarrow> ('k, 'a, 'r, 'x) flights" where
  "join_flight i k a s = (case map_of (fs_inflight s) k of
     Some t \<Rightarrow> set_phase i (Waiting k t False) s
   | None \<Rightarrow> (let t = length (fs_tasks s) in
       set_phase i (Waiting k t True) (s\<lparr>fs_tasks := fs_tasks s @ [\<lparr>ft_key = k, ft_arg = a, ft_state = Created\<rparr>],
         fs_inflight := AList.update k t (fs_inflight s)\<rparr>)))"

definition begin_task :: "('k, 'a, 'r, 'x, 'y) flight_ops \<Rightarrow> nat \<Rightarrow> ('k, 'a, 'r, 'x) flights \<Rightarrow> ('k, 'a, 'r, 'x) flights" where
  "begin_task ops t s = (case fo_begin ops (ft_key (fs_tasks s ! t)) (fs_shared s) of
     (x, Some r) \<Rightarrow> set_task t (Done r) (s\<lparr>fs_shared := x\<rparr>) | (x, None) \<Rightarrow> set_task t Requesting (s\<lparr>fs_shared := x\<rparr>))"

definition answer_task :: "('k, 'a, 'r, 'x, 'y) flight_ops \<Rightarrow> nat \<Rightarrow> 'y \<Rightarrow> ('k, 'a, 'r, 'x) flights \<Rightarrow> ('k, 'a, 'r, 'x) flights" where
  "answer_task ops t y s = (case fo_answer ops (ft_key (fs_tasks s ! t)) (ft_arg (fs_tasks s ! t)) y (fs_shared s) of
     (x, r) \<Rightarrow> set_task t (Done r) (s\<lparr>fs_shared := x\<rparr>))"

definition wake_call :: "('k, 'a, 'r, 'x, 'y) flight_ops \<Rightarrow> nat \<Rightarrow> 'k \<Rightarrow> nat \<Rightarrow> bool \<Rightarrow> 'r \<Rightarrow> ('k, 'a, 'r, 'x) flights \<Rightarrow> ('k, 'a, 'r, 'x) flights" where
  "wake_call ops i k t owner r s =
     set_phase i (if owner then Leaving k t r else Returned r) (s\<lparr>fs_shared := fo_after ops k r (fs_shared s)\<rparr>)"

definition leave_flight :: "nat \<Rightarrow> 'k \<Rightarrow> nat \<Rightarrow> 'r \<Rightarrow> ('k, 'a, 'r, 'x) flights \<Rightarrow> ('k, 'a, 'r, 'x) flights" where
  "leave_flight i k t r s = set_phase i (Returned r)
     (if map_of (fs_inflight s) k = Some t then s\<lparr>fs_inflight := AList.delete k (fs_inflight s)\<rparr> else s)"

inductive flight_step :: "('k, 'a, 'r, 'x, 'y) flight_ops \<Rightarrow> ('k, 'a, 'r, 'x) flights \<Rightarrow> ('k, 'a, 'r, 'x) flights \<Rightarrow> bool" for ops where
  enter: "flight_step ops s (s\<lparr>fs_calls := fs_calls s @ [Called k a]\<rparr>)"
| look_up: "i < length (fs_calls s) \<Longrightarrow> fs_calls s ! i = Called k a \<Longrightarrow> flight_step ops s (look_up_call ops i k a s)"
| join: "i < length (fs_calls s) \<Longrightarrow> fs_calls s ! i = Missed k a \<Longrightarrow> flight_step ops s (join_flight i k a s)"
| start: "t < length (fs_tasks s) \<Longrightarrow> ft_state (fs_tasks s ! t) = Created \<Longrightarrow> flight_step ops s (begin_task ops t s)"
| answer: "t < length (fs_tasks s) \<Longrightarrow> ft_state (fs_tasks s ! t) = Requesting \<Longrightarrow> flight_step ops s (answer_task ops t y s)"
| wake: "i < length (fs_calls s) \<Longrightarrow> fs_calls s ! i = Waiting k t owner \<Longrightarrow> ft_state (fs_tasks s ! t) = Done r \<Longrightarrow>
    flight_step ops s (wake_call ops i k t owner r s)"
| leave: "i < length (fs_calls s) \<Longrightarrow> fs_calls s ! i = Leaving k t r \<Longrightarrow> flight_step ops s (leave_flight i k t r s)"
| pass: "flight_step ops s (s\<lparr>fs_shared := x\<rparr>)"

text \<open>The last rule lets time pass and other parts of the client run: the shared state may change in any way.\<close>

definition no_flights :: "'x \<Rightarrow> ('k, 'a, 'r, 'x) flights" where
  "no_flights x = \<lparr>fs_shared = x, fs_tasks = [], fs_inflight = [], fs_calls = []\<rparr>"

text \<open>A call that is alone.\<close>

definition lone_call :: "('k, 'a, 'r, 'x, 'y) flight_ops \<Rightarrow> 'k \<Rightarrow> 'a \<Rightarrow> 'y \<Rightarrow> 'x \<Rightarrow> 'x \<times> 'r" where
  "lone_call ops k a y x = (case fo_hit ops k x of
     Some r \<Rightarrow> (x, r)
   | None \<Rightarrow> (case fo_begin ops k x of
       (x1, Some r) \<Rightarrow> (fo_after ops k r x1, r)
     | (x1, None) \<Rightarrow> (case fo_answer ops k a y x1 of (x2, r) \<Rightarrow> (fo_after ops k r x2, r))))"

section \<open>The gateway client\<close>

type_synonym context_key = "string \<times> json \<times> string"
type_synonym quota_key = "json \<times> json"

record ('c, 'q) client =
  cl_now :: int
  cl_context_cache :: 'c
  cl_quota_cache :: 'q
  cl_negative :: "(context_key + quota_key) \<rightharpoonup> int"

definition negative_cache_ttl :: int where
  "negative_cache_ttl = 5000"

definition check_negative_cache :: "context_key + quota_key \<Rightarrow> ('c, 'q) client \<Rightarrow> ('c, 'q) client \<times> inf_exn option" where
  "check_negative_cache key c = (case cl_negative c key of
     None \<Rightarrow> (c, None)
   | Some ts \<Rightarrow> if cl_now c - ts < negative_cache_ttl
       then (c, Some (http_exc 503 ''Gateway temporarily unavailable (cached failure)''))
       else (c\<lparr>cl_negative := (cl_negative c)(key := None)\<rparr>, None))"

definition set_negative_cache :: "context_key + quota_key \<Rightarrow> ('c, 'q) client \<Rightarrow> ('c, 'q) client" where
  "set_negative_cache key c = c\<lparr>cl_negative := (cl_negative c)(key \<mapsto> cl_now c)\<rparr>"

subsection \<open>Contexts\<close>

definition resolve_context_uncached ::
  "(context_key, jobj, 'c) ttl_cache \<Rightarrow> context_key \<Rightarrow> gw_reply \<Rightarrow> ('c, 'q) client \<Rightarrow> ('c, 'q) client \<times> (inf_exn + jobj)" where
  "resolve_context_uncached tc key reply c = (case reply of
     Unreachable \<Rightarrow> (set_negative_cache (Inl key) c, Inl (http_exc 500 ''Failed to resolve deployment context''))
   | Reply status body \<Rightarrow>
      if \<not> is_success status then (c, Inl (error_detail status body ''Failed to resolve deployment context''))
      else (case body of
          Some (JObj data) \<Rightarrow> (if truthy (jget data ''valid'')
             then c\<lparr>cl_context_cache := tc_put tc (cl_now c) key data (cl_context_cache c)\<rparr> else c, Inr data)
        | _ \<Rightarrow> (c, Inl (http_exc 500 ''Failed to resolve deployment context''))))"

text \<open>The request carries the sandbox flag, the cache and the sharing do not.\<close>

definition context_ops :: "(context_key, jobj, 'c) ttl_cache \<Rightarrow>
    (context_key, bool, inf_exn + jobj, ('c, 'q) client, bool \<Rightarrow> gw_reply) flight_ops" where
  "context_ops tc = \<lparr>fo_hit = (\<lambda>key c. map_option Inr (tc_get tc (cl_now c) key (cl_context_cache c))),
     fo_begin = (\<lambda>key c. case check_negative_cache (Inl key) c of (c1, e) \<Rightarrow> (c1, map_option Inl e)),
     fo_answer = (\<lambda>key sandbox reply c. resolve_context_uncached tc key (reply sandbox) c),
     fo_after = (\<lambda>key r c. c)\<rparr>"

subsection \<open>Quotas\<close>

definition check_quota_uncached :: "string \<Rightarrow> quota_key \<Rightarrow> gw_reply \<Rightarrow> ('c, 'q) client \<Rightarrow> ('c, 'q) client \<times> (inf_exn + unit)" where
  "check_quota_uncached shown key reply c = (case reply of
     Unreachable \<Rightarrow> (set_negative_cache (Inr key) c, Inl (http_exc 503 ''Gateway temporarily unavailable''))
   | Reply status body \<Rightarrow>
      if is_success status then (c, Inr ())
      else if status = 429 then (c, Inl (error_detail 429 body ''Quota exceeded''))
      else (c, Inl (http_exc 500 (''Policy check failed: '' @ shown))))"

text \<open>A verdict is remembered only with a positive life time; \<^verbatim>\<open>shown\<close> is the text of the failed status.\<close>

definition quota_ops :: "int \<Rightarrow> string \<Rightarrow> (quota_key, int, 'q) ttl_cache \<Rightarrow>
    (quota_key, unit, inf_exn + unit, ('c, 'q) client, gw_reply) flight_ops" where
  "quota_ops ttl shown tc = \<lparr>fo_hit = (\<lambda>key c. if 0 < ttl \<and> tc_get tc (cl_now c) key (cl_quota_cache c) \<noteq> None then Some (Inr ()) else None),
     fo_begin = (\<lambda>key c. case check_negative_cache (Inr key) c of (c1, e) \<Rightarrow> (c1, map_option Inl e)),
     fo_answer = (\<lambda>key _ reply c. check_quota_uncached shown key reply c),
     fo_after = (\<lambda>key r c. case r of Inr () \<Rightarrow>
        if 0 < ttl then c\<lparr>cl_quota_cache := tc_put tc (cl_now c) key (cl_now c) (cl_quota_cache c)\<rparr> else c | Inl _ \<Rightarrow> c)\<rparr>"

subsection \<open>Plain requests\<close>

text \<open>\<^verbatim>\<open>login\<close>, \<^verbatim>\<open>get_user_info\<close>, \<^verbatim>\<open>create_completion\<close>, \<^verbatim>\<open>list_models\<close> and \<^verbatim>\<open>get_permissions\<close> differ in the path and
  in the text used when the gateway gives no detail.\<close>

definition plain_request :: "string \<Rightarrow> gw_reply \<Rightarrow> inf_exn + json" where
  "plain_request dflt reply = (case reply of
     Unreachable \<Rightarrow> Inl (http_exc 503 ''API Gateway unavailable'')
   | Reply status body \<Rightarrow> if \<not> is_success status then Inl (error_detail status body dflt)
      else (case body of None \<Rightarrow> Inl (PyExc ''JSONDecodeError'') | Some v \<Rightarrow> Inr v))"

definition get_client_headers :: "string \<Rightarrow> string option \<Rightarrow> headers" where
  "get_client_headers internal_key auth_token = [(''X-Internal-API-Key'', internal_key), (''Content-Type'', ''application/json'')]
     @ (case nonempty_str auth_token of None \<Rightarrow> [] | Some t \<Rightarrow> [(''Authorization'', t)])"

section \<open>At most one request per key\<close>

definition unfinished :: "('k, 'a, 'r) flight_task \<Rightarrow> bool" where
  "unfinished t \<longleftrightarrow> (case ft_state t of Done _ \<Rightarrow> False | _ \<Rightarrow> True)"

definition flight_ok :: "('k, 'a, 'r, 'x) flights \<Rightarrow> ('k, 'a, 'r) call_phase \<Rightarrow> bool" where
  "flight_ok s p = (case p of
     Waiting k t owner \<Rightarrow> t < length (fs_tasks s) \<and> ft_key (fs_tasks s ! t) = k
   | Leaving k t r \<Rightarrow> t < length (fs_tasks s) \<and> ft_key (fs_tasks s ! t) = k \<and> ft_state (fs_tasks s ! t) = Done r
   | _ \<Rightarrow> True)"

definition serves :: "'k \<Rightarrow> nat \<Rightarrow> ('k, 'a, 'r) call_phase \<Rightarrow> bool" where
  "serves k t p \<longleftrightarrow> p = Waiting k t True \<or> (\<exists>r. p = Leaving k t r)"

definition flight_inv :: "('k, 'a, 'r, 'x) flights \<Rightarrow> bool" where
  "flight_inv s \<longleftrightarrow> distinct (map fst (fs_inflight s))
     \<and> (\<forall>t < length (fs_tasks s). unfinished (fs_tasks s ! t) \<longrightarrow> map_of (fs_inflight s) (ft_key (fs_tasks s ! t)) = Some t)
     \<and> (\<forall>k t. map_of (fs_inflight s) k = Some t \<longrightarrow> t < length (fs_tasks s) \<and> ft_key (fs_tasks s ! t) = k
          \<and> (\<exists>p \<in> set (fs_calls s). serves k t p))
     \<and> (\<forall>p \<in> set (fs_calls s). flight_ok s p)"

lemma flight_ok_cong: "fs_tasks s' = fs_tasks s \<Longrightarrow> flight_ok s' = flight_ok s"
  by (auto simp: flight_ok_def fun_eq_iff split: call_phase.split)

lemma inv_shared [simp]: "flight_inv (s\<lparr>fs_shared := x\<rparr>) = flight_inv s"
proof -
  have "flight_ok (s\<lparr>fs_shared := x\<rparr>) = flight_ok s" by (rule flight_ok_cong) simp
  then show ?thesis by (simp add: flight_inv_def)
qed

lemma inv_entry:
  assumes "flight_inv s" "map_of (fs_inflight s) k = Some t"
  obtains j where "j < length (fs_calls s)" "serves k t (fs_calls s ! j)"
proof -
  have "\<exists>p \<in> set (fs_calls s). serves k t p" using assms by (simp add: flight_inv_def)
  then show thesis using that by (auto simp: in_set_conv_nth)
qed

lemma inv_set_phase:
  assumes inv: "flight_inv s" and i: "i < length (fs_calls s)" and ok: "flight_ok s p"
    and keep: "\<And>k t. map_of (fs_inflight s) k = Some t \<Longrightarrow> serves k t (fs_calls s ! i) \<Longrightarrow> serves k t p"
  shows "flight_inv (set_phase i p s)"
proof -
  have ok': "flight_ok (set_phase i p s) = flight_ok s" by (rule flight_ok_cong) (simp add: set_phase_def)
  have "\<exists>q \<in> set ((fs_calls s)[i := p]). serves k t q" if e: "map_of (fs_inflight s) k = Some t" for k t
  proof -
    obtain j where j: "j < length (fs_calls s)" "serves k t (fs_calls s ! j)"
      using inv_entry [OF inv e] .
    show ?thesis
    proof (cases "j = i")
      case True
      then show ?thesis using keep [OF e] j i set_update_memI by metis
    next
      case False
      then have "(fs_calls s)[i := p] ! j = fs_calls s ! j" "j < length ((fs_calls s)[i := p])" using j by auto
      then show ?thesis using j(2) by (metis nth_mem)
    qed
  qed
  moreover have "\<forall>q \<in> set ((fs_calls s)[i := p]). flight_ok s q"
    using inv ok set_update_subset_insert [of "fs_calls s" i p] unfolding flight_inv_def by blast
  ultimately show ?thesis
    using inv unfolding flight_inv_def ok' by (simp add: set_phase_def)
qed

lemma inv_set_task:
  assumes inv: "flight_inv s" and t: "t < length (fs_tasks s)" "unfinished (fs_tasks s ! t)"
  shows "flight_inv (set_task t st s)"
proof -
  have key: "ft_key (fs_tasks (set_task t st s) ! u) = ft_key (fs_tasks s ! u)" for u
    by (cases "u = t") (auto simp: set_task_def nth_list_update t)
  have "flight_ok (set_task t st s) p" if "flight_ok s p" for p
    using that t key by (cases p) (auto simp: flight_ok_def set_task_def unfinished_def nth_list_update)
  moreover have "unfinished (fs_tasks (set_task t st s) ! u) \<Longrightarrow> unfinished (fs_tasks s ! u)" for u
    by (cases "u = t") (auto simp: set_task_def t)
  ultimately show ?thesis
    using inv key unfolding flight_inv_def by (simp add: set_task_def)
qed

lemma inv_join:
  assumes inv: "flight_inv s" and i: "i < length (fs_calls s)" "fs_calls s ! i = Missed k a"
  shows "flight_inv (join_flight i k a s)"
proof (cases "map_of (fs_inflight s) k")
  case (Some t)
  then have "flight_ok s (Waiting k t False)" using inv by (simp add: flight_inv_def flight_ok_def)
  with Some show ?thesis
    using inv_set_phase [OF inv i(1), of "Waiting k t False"] i(2) by (simp add: join_flight_def serves_def)
next
  case None
  let ?t = "length (fs_tasks s)"
  define s1 where "s1 = s\<lparr>fs_tasks := fs_tasks s @ [\<lparr>ft_key = k, ft_arg = a, ft_state = Created\<rparr>], fs_inflight := AList.update k ?t (fs_inflight s)\<rparr>"
  define cs where "cs = (fs_calls s)[i := Waiting k ?t True]"
  have here: "Waiting k ?t True \<in> set cs" using i(1) by (simp add: cs_def set_update_memI)
  have old: "\<exists>p \<in> set cs. serves k' t' p" if e: "map_of (fs_inflight s) k' = Some t'" for k' t'
  proof -
    obtain j where j: "j < length (fs_calls s)" "serves k' t' (fs_calls s ! j)"
      using inv_entry [OF inv e] .
    then have "j \<noteq> i" using i(2) by (auto simp: serves_def)
    then have "cs ! j = fs_calls s ! j" "j < length cs" using j by (auto simp: cs_def)
    then show ?thesis using j(2) by (metis nth_mem)
  qed
  have ok: "flight_ok (s1\<lparr>fs_calls := cs\<rparr>) p" if "flight_ok s p" for p
    using that by (cases p) (auto simp: flight_ok_def s1_def nth_append)
  have "flight_ok (s1\<lparr>fs_calls := cs\<rparr>) (Waiting k ?t True)" by (simp add: flight_ok_def s1_def)
  then have calls: "\<forall>p \<in> set cs. flight_ok (s1\<lparr>fs_calls := cs\<rparr>) p"
    using inv ok set_update_subset_insert [of "fs_calls s" i "Waiting k ?t True"] unfolding flight_inv_def cs_def by blast
  have tasks: "map_of (AList.update k ?t (fs_inflight s)) (ft_key (fs_tasks s1 ! u)) = Some u"
    if "u < length (fs_tasks s1)" "unfinished (fs_tasks s1 ! u)" for u
  proof (cases "u = ?t")
    case False
    then have "map_of (fs_inflight s) (ft_key (fs_tasks s ! u)) = Some u"
      using that inv by (auto simp: flight_inv_def s1_def nth_append)
    then show ?thesis using None that False by (auto simp: AList.update_conv' s1_def nth_append)
  qed (simp add: AList.update_conv' s1_def)
  have entries: "t' < length (fs_tasks s1) \<and> ft_key (fs_tasks s1 ! t') = k' \<and> (\<exists>p \<in> set cs. serves k' t' p)"
    if "map_of (AList.update k ?t (fs_inflight s)) k' = Some t'" for k' t'
  proof (cases "k' = k")
    case True
    then show ?thesis using that here by (auto simp: AList.update_conv' s1_def serves_def)
  next
    case False
    then have e: "map_of (fs_inflight s) k' = Some t'" using that by (simp add: AList.update_conv')
    then have "t' < length (fs_tasks s)" "ft_key (fs_tasks s ! t') = k'" using inv unfolding flight_inv_def by blast+
    then show ?thesis using old [OF e] by (simp add: s1_def nth_append)
  qed
  have "join_flight i k a s = s1\<lparr>fs_calls := cs\<rparr>"
    using None by (simp add: join_flight_def set_phase_def s1_def cs_def Let_def)
  moreover have "distinct (map fst (AList.update k ?t (fs_inflight s)))"
    using inv by (simp add: flight_inv_def distinct_update)
  ultimately show ?thesis
    using tasks entries calls by (simp add: flight_inv_def s1_def)
qed

lemma inv_leave:
  assumes inv: "flight_inv s" and i: "i < length (fs_calls s)" "fs_calls s ! i = Leaving k t r"
  shows "flight_inv (leave_flight i k t r s)"
proof -
  have ok: "ft_key (fs_tasks s ! t) = k" "ft_state (fs_tasks s ! t) = Done r" "t < length (fs_tasks s)"
    using inv i nth_mem [OF i(1)] unfolding flight_inv_def by (force simp: flight_ok_def)+
  define s1 where "s1 = (if map_of (fs_inflight s) k = Some t then s\<lparr>fs_inflight := AList.delete k (fs_inflight s)\<rparr> else s)"
  have other: "map_of (fs_inflight s1) k' = Some t' \<longleftrightarrow> map_of (fs_inflight s) k' = Some t' \<and> (k', t') \<noteq> (k, t)" for k' t'
    by (auto simp: s1_def AList.delete_conv')
  have "flight_ok s1 = flight_ok s" by (rule flight_ok_cong) (simp add: s1_def)
  moreover have "distinct (map fst (fs_inflight s1))"
    using inv by (simp add: flight_inv_def s1_def distinct_delete)
  moreover have "fs_tasks s1 = fs_tasks s" "fs_calls s1 = fs_calls s" by (simp_all add: s1_def)
  moreover have "\<not> unfinished (fs_tasks s ! t)" using ok by (simp add: unfinished_def)
  ultimately have "flight_inv s1"
    using inv unfolding flight_inv_def other by auto
  then have "flight_inv (set_phase i (Returned r) s1)"
    by (rule inv_set_phase) (use i other in \<open>auto simp: s1_def flight_ok_def serves_def split: if_splits\<close>)
  then show ?thesis by (simp add: leave_flight_def s1_def)
qed

lemma flight_step_inv:
  assumes "flight_inv s" "flight_step ops s s'"
  shows "flight_inv s'"
  using assms(2,1)
proof (cases rule: flight_step.cases)
  case (enter k a)
  let ?s = "s\<lparr>fs_calls := fs_calls s @ [Called k a]\<rparr>"
  have ok: "flight_ok ?s = flight_ok s" by (rule flight_ok_cong) simp
  have "flight_ok s (Called k a)" by (simp add: flight_ok_def)
  then have "flight_inv ?s" using assms(1) unfolding flight_inv_def ok by auto
  then show ?thesis unfolding enter .
next
  case (look_up i k a)
  have "flight_inv (set_phase i p s)" if "p = Missed k a \<or> p = Returned r" for p r
    using that look_up(3) by (intro inv_set_phase [OF assms(1) look_up(2)]) (auto simp: flight_ok_def serves_def)
  then show ?thesis unfolding look_up(1) by (simp add: look_up_call_def split: option.split)
next
  case (join i k a)
  show ?thesis unfolding join(1) by (rule inv_join [OF assms(1) join(2,3)])
next
  case (start t)
  then have "unfinished (fs_tasks (s\<lparr>fs_shared := x\<rparr>) ! t)" for x by (simp add: unfinished_def)
  then have "flight_inv (set_task t st (s\<lparr>fs_shared := x\<rparr>))" for x st
    using inv_set_task [of "s\<lparr>fs_shared := x\<rparr>" t st] assms(1) start(2) by simp
  then show ?thesis unfolding start(1) by (simp add: begin_task_def split: prod.split option.split)
next
  case (answer t y)
  then have "unfinished (fs_tasks (s\<lparr>fs_shared := x\<rparr>) ! t)" for x by (simp add: unfinished_def)
  then have "flight_inv (set_task t st (s\<lparr>fs_shared := x\<rparr>))" for x st
    using inv_set_task [of "s\<lparr>fs_shared := x\<rparr>" t st] assms(1) answer(2) by simp
  then show ?thesis unfolding answer(1) by (simp add: answer_task_def split: prod.split)
next
  case (wake i k t owner r)
  let ?s = "s\<lparr>fs_shared := fo_after ops k r (fs_shared s)\<rparr>"
  have "flight_ok s (Waiting k t owner)" using assms(1) wake(2,3) nth_mem [OF wake(2)] by (simp add: flight_inv_def)
  then have "flight_ok ?s (if owner then Leaving k t r else Returned r)" using wake(4) by (simp add: flight_ok_def)
  moreover have "flight_inv ?s" using assms(1) by simp
  ultimately have "flight_inv (set_phase i (if owner then Leaving k t r else Returned r) ?s)"
    using wake(2,3) by (intro inv_set_phase) (auto simp: serves_def)
  then show ?thesis unfolding wake(1) by (simp add: wake_call_def)
next
  case (leave i k t r)
  show ?thesis unfolding leave(1) by (rule inv_leave [OF assms(1) leave(2,3)])
next
  case (pass x)
  show ?thesis unfolding pass using assms(1) by simp
qed

lemma no_flights_inv: "flight_inv (no_flights x)"
  by (simp add: flight_inv_def no_flights_def)

interpretation flown: inv_system "\<lambda>s. \<exists>x. s = no_flights x" "flight_step ops" flight_inv for ops
  by unfold_locales (metis no_flights_inv, rule flight_step_inv)

text \<open>
  C15: Whatever calls overlap and however the loop schedules them, no two requests for the same context are under way at once, and
  every request under way, and every entry of the table of requests, belongs to a call that will take the entry out again.
\<close>

theorem context_single_flight:
  fixes tc :: "(context_key, jobj, 'c) ttl_cache" and x :: "('c, 'q) client"
  assumes "rtranclp (flight_step (context_ops tc)) (no_flights x) s"
    and "t < length (fs_tasks s)" "unfinished (fs_tasks s ! t)"
  shows "(\<forall>u < length (fs_tasks s). unfinished (fs_tasks s ! u) \<and> ft_key (fs_tasks s ! u) = ft_key (fs_tasks s ! t) \<longrightarrow> u = t)
    \<and> (\<exists>p \<in> set (fs_calls s). serves (ft_key (fs_tasks s ! t)) t p)"
proof -
  have inv: "flight_inv s" by (rule flown.run_inv [OF assms(1) no_flights_inv])
  then have e: "map_of (fs_inflight s) (ft_key (fs_tasks s ! u)) = Some u" if "u < length (fs_tasks s)" "unfinished (fs_tasks s ! u)" for u
    using that by (simp add: flight_inv_def)
  have "u = t" if "u < length (fs_tasks s)" "unfinished (fs_tasks s ! u)" "ft_key (fs_tasks s ! u) = ft_key (fs_tasks s ! t)" for u
    using e [OF that(1,2)] e [OF assms(2,3)] unfolding that(3) by simp
  moreover have "\<exists>p \<in> set (fs_calls s). serves (ft_key (fs_tasks s ! t)) t p"
    using inv_entry [OF inv e [OF assms(2,3)]] by (metis nth_mem)
  ultimately show ?thesis by simp
qed

text \<open>The steps of a call that runs alone, from an empty table of requests.\<close>

lemma lone_entered:
  "rtranclp (flight_step ops) (no_flights x) \<lparr>fs_shared = x, fs_tasks = [], fs_inflight = [], fs_calls = [Called k a]\<rparr>"
  using flight_step.enter [of ops "no_flights x" k a] by (simp add: no_flights_def r_into_rtranclp)

lemma lone_joined:
  assumes "fo_hit ops k x = None"
  shows "rtranclp (flight_step ops) (no_flights x)
    \<lparr>fs_shared = x, fs_tasks = [\<lparr>ft_key = k, ft_arg = a, ft_state = Created\<rparr>], fs_inflight = [(k, 0)], fs_calls = [Waiting k 0 True]\<rparr>"
proof -
  note lone_entered [of ops x k a]
  also have "flight_step ops \<lparr>fs_shared = x, fs_tasks = [], fs_inflight = [], fs_calls = [Called k a]\<rparr>
      \<lparr>fs_shared = x, fs_tasks = [], fs_inflight = [], fs_calls = [Missed k a]\<rparr>"
    using flight_step.look_up [of 0 "\<lparr>fs_shared = x, fs_tasks = [], fs_inflight = [], fs_calls = [Called k a]\<rparr>" k a ops] assms
    by (simp add: look_up_call_def set_phase_def)
  also have "flight_step ops \<lparr>fs_shared = x, fs_tasks = [], fs_inflight = [], fs_calls = [Missed k a]\<rparr>
      \<lparr>fs_shared = x, fs_tasks = [\<lparr>ft_key = k, ft_arg = a, ft_state = Created\<rparr>], fs_inflight = [(k, 0)], fs_calls = [Waiting k 0 True]\<rparr>"
    using flight_step.join [of 0 "\<lparr>fs_shared = x, fs_tasks = [], fs_inflight = [], fs_calls = [Missed k a]\<rparr>" k a ops]
    by (simp add: join_flight_def set_phase_def)
  finally show ?thesis .
qed

lemma lone_finished:
  assumes "rtranclp (flight_step ops) (no_flights x)
    \<lparr>fs_shared = x1, fs_tasks = [\<lparr>ft_key = k, ft_arg = a, ft_state = Done r\<rparr>], fs_inflight = [(k, 0)], fs_calls = [Waiting k 0 True]\<rparr>"
  shows "rtranclp (flight_step ops) (no_flights x)
    \<lparr>fs_shared = fo_after ops k r x1, fs_tasks = [\<lparr>ft_key = k, ft_arg = a, ft_state = Done r\<rparr>], fs_inflight = [], fs_calls = [Returned r]\<rparr>"
proof -
  note assms
  also have "flight_step ops
      \<lparr>fs_shared = x1, fs_tasks = [\<lparr>ft_key = k, ft_arg = a, ft_state = Done r\<rparr>], fs_inflight = [(k, 0)], fs_calls = [Waiting k 0 True]\<rparr>
      \<lparr>fs_shared = fo_after ops k r x1, fs_tasks = [\<lparr>ft_key = k, ft_arg = a, ft_state = Done r\<rparr>], fs_inflight = [(k, 0)], fs_calls = [Leaving k 0 r]\<rparr>"
    using flight_step.wake [of 0 "\<lparr>fs_shared = x1, fs_tasks = [\<lparr>ft_key = k, ft_arg = a, ft_state = Done r\<rparr>],
        fs_inflight = [(k, 0)], fs_calls = [Waiting k 0 True]\<rparr>" k 0 True r ops]
    by (simp add: wake_call_def set_phase_def)
  also have "flight_step ops
      \<lparr>fs_shared = fo_after ops k r x1, fs_tasks = [\<lparr>ft_key = k, ft_arg = a, ft_state = Done r\<rparr>], fs_inflight = [(k, 0)], fs_calls = [Leaving k 0 r]\<rparr>
      \<lparr>fs_shared = fo_after ops k r x1, fs_tasks = [\<lparr>ft_key = k, ft_arg = a, ft_state = Done r\<rparr>], fs_inflight = [], fs_calls = [Returned r]\<rparr>"
    using flight_step.leave [of 0 "\<lparr>fs_shared = fo_after ops k r x1, fs_tasks = [\<lparr>ft_key = k, ft_arg = a, ft_state = Done r\<rparr>],
        fs_inflight = [(k, 0)], fs_calls = [Leaving k 0 r]\<rparr>" k 0 r ops]
    by (simp add: leave_flight_def set_phase_def)
  finally show ?thesis .
qed

lemma lone_begun:
  assumes "fo_hit ops k x = None" "fo_begin ops k x = (x1, ro)"
  shows "rtranclp (flight_step ops) (no_flights x)
    \<lparr>fs_shared = x1, fs_tasks = [\<lparr>ft_key = k, ft_arg = a, ft_state = (case ro of None \<Rightarrow> Requesting | Some r \<Rightarrow> Done r)\<rparr>],
     fs_inflight = [(k, 0)], fs_calls = [Waiting k 0 True]\<rparr>"
proof -
  note lone_joined [OF assms(1), of a]
  also have "flight_step ops
      \<lparr>fs_shared = x, fs_tasks = [\<lparr>ft_key = k, ft_arg = a, ft_state = Created\<rparr>], fs_inflight = [(k, 0)], fs_calls = [Waiting k 0 True]\<rparr>
      \<lparr>fs_shared = x1, fs_tasks = [\<lparr>ft_key = k, ft_arg = a, ft_state = (case ro of None \<Rightarrow> Requesting | Some r \<Rightarrow> Done r)\<rparr>],
       fs_inflight = [(k, 0)], fs_calls = [Waiting k 0 True]\<rparr>"
    using flight_step.start [of 0 "\<lparr>fs_shared = x, fs_tasks = [\<lparr>ft_key = k, ft_arg = a, ft_state = Created\<rparr>],
        fs_inflight = [(k, 0)], fs_calls = [Waiting k 0 True]\<rparr>" ops] assms(2)
    by (cases ro) (simp_all add: begin_task_def set_task_def)
  finally show ?thesis .
qed

text \<open>
  A call that runs alone returns what \<^term>\<open>lone_call\<close> computes, leaves the shared state it computes, and empties the table of
  requests.
\<close>

theorem lone_call_run:
  assumes "lone_call ops k a y x = (x', r)"
  shows "\<exists>s. rtranclp (flight_step ops) (no_flights x) s \<and> fs_shared s = x' \<and> fs_inflight s = [] \<and> fs_calls s = [Returned r]"
proof (cases "fo_hit ops k x")
  case (Some r')
  note lone_entered [of ops x k a]
  also have "flight_step ops \<lparr>fs_shared = x, fs_tasks = [], fs_inflight = [], fs_calls = [Called k a]\<rparr>
      \<lparr>fs_shared = x, fs_tasks = [], fs_inflight = [], fs_calls = [Returned r']\<rparr>"
    using flight_step.look_up [of 0 "\<lparr>fs_shared = x, fs_tasks = [], fs_inflight = [], fs_calls = [Called k a]\<rparr>" k a ops] Some
    by (simp add: look_up_call_def set_phase_def)
  finally show ?thesis using assms Some by (intro exI conjI) (auto simp: lone_call_def)
next
  case None
  obtain x1 ro where b: "fo_begin ops k x = (x1, ro)" by force
  show ?thesis
  proof (cases ro)
    case (Some r')
    have "rtranclp (flight_step ops) (no_flights x) \<lparr>fs_shared = fo_after ops k r' x1, fs_tasks = [\<lparr>ft_key = k, ft_arg = a, ft_state = Done r'\<rparr>],
        fs_inflight = [], fs_calls = [Returned r']\<rparr>"
      by (rule lone_finished) (use lone_begun [OF None b, of a] Some in simp)
    then show ?thesis using assms None b Some by (intro exI conjI) (auto simp: lone_call_def)
  next
    case none: None
    obtain x2 r' where ans: "fo_answer ops k a y x1 = (x2, r')" by force
    have "rtranclp (flight_step ops) (no_flights x)
       \<lparr>fs_shared = x1, fs_tasks = [\<lparr>ft_key = k, ft_arg = a, ft_state = Requesting\<rparr>], fs_inflight = [(k, 0)], fs_calls = [Waiting k 0 True]\<rparr>"
      using lone_begun [OF None b, of a] none by simp
    also have "flight_step ops
       \<lparr>fs_shared = x1, fs_tasks = [\<lparr>ft_key = k, ft_arg = a, ft_state = Requesting\<rparr>], fs_inflight = [(k, 0)], fs_calls = [Waiting k 0 True]\<rparr>
       \<lparr>fs_shared = x2, fs_tasks = [\<lparr>ft_key = k, ft_arg = a, ft_state = Done r'\<rparr>], fs_inflight = [(k, 0)], fs_calls = [Waiting k 0 True]\<rparr>"
      using flight_step.answer [of 0 "\<lparr>fs_shared = x1, fs_tasks = [\<lparr>ft_key = k, ft_arg = a, ft_state = Requesting\<rparr>],
          fs_inflight = [(k, 0)], fs_calls = [Waiting k 0 True]\<rparr>" ops y] ans
      by (simp add: answer_task_def set_task_def)
    finally have "rtranclp (flight_step ops) (no_flights x) \<lparr>fs_shared = fo_after ops k r' x2, fs_tasks = [\<lparr>ft_key = k, ft_arg = a, ft_state = Done r'\<rparr>],
        fs_inflight = [], fs_calls = [Returned r']\<rparr>"
      by (rule lone_finished)
    then show ?thesis using assms None b none ans by (intro exI conjI) (auto simp: lone_call_def)
  qed
qed

definition idle_client :: "((context_key \<times> int \<times> jobj) list, (quota_key \<times> int \<times> int) list) client" where
  "idle_client = \<lparr>cl_now = 0, cl_context_cache = [], cl_quota_cache = [], cl_negative = (\<lambda>_. None)\<rparr>"

theorem context_single_flight_witness:
  "\<exists>s. rtranclp (flight_step (context_ops (list_cache 30000))) (no_flights idle_client) s \<and> length (fs_tasks s) = 1 \<and>
     (\<exists>p \<in> set (fs_calls s). serves (''key'', JStr ''m'', ''inference'') 0 p)"
proof -
  let ?k = "(''key'', JStr ''m'', ''inference'')" and ?ops = "context_ops (list_cache 30000)"
  have "fo_hit ?ops ?k idle_client = None" by (simp add: context_ops_def idle_client_def list_cache_def)
  from lone_joined [OF this, of False] obtain s where s: "rtranclp (flight_step ?ops) (no_flights idle_client) s"
      "fs_tasks s = [\<lparr>ft_key = ?k, ft_arg = False, ft_state = Created\<rparr>]" by fastforce
  have "\<exists>p \<in> set (fs_calls s). serves (ft_key (fs_tasks s ! 0)) 0 p"
    using context_single_flight [OF s(1), of 0] s(2) by (simp add: unfinished_def)
  with s show ?thesis by auto
qed

section \<open>Verdicts\<close>

text \<open>While the gateway cannot be reached, a key that has just failed sends no further request for five seconds.\<close>

lemma context_call:
  assumes "tc_get tc (cl_now c) key (cl_context_cache c) = None"
  shows "lone_call (context_ops tc) key sandbox reply c = (case check_negative_cache (Inl key) c of
    (c1, Some e) \<Rightarrow> (c1, Inl e) | (c1, None) \<Rightarrow> resolve_context_uncached tc key (reply sandbox) c1)"
  using assms by (cases "check_negative_cache (Inl key) c"; cases "snd (check_negative_cache (Inl key) c)")
    (simp_all add: lone_call_def context_ops_def split: prod.split)

lemma context_hit:
  assumes "tc_get tc (cl_now c) key (cl_context_cache c) = Some data"
  shows "lone_call (context_ops tc) key sandbox reply c = (c, Inr data)"
  using assms by (simp add: lone_call_def context_ops_def)

lemma negative_cache_holds:
  assumes "resolve_context_uncached tc key Unreachable c = (c', r)" "cl_now c \<le> t" "t < cl_now c + negative_cache_ttl"
    and "tc_get tc t key (cl_context_cache c) = None"
  shows "lone_call (context_ops tc) key sandbox reply (c'\<lparr>cl_now := t\<rparr>) =
    (c'\<lparr>cl_now := t\<rparr>, Inl (http_exc 503 ''Gateway temporarily unavailable (cached failure)''))"
proof -
  have c': "c' = set_negative_cache (Inl key) c" using assms(1) by (simp add: resolve_context_uncached_def)
  then have "check_negative_cache (Inl key) (c'\<lparr>cl_now := t\<rparr>) =
      (c'\<lparr>cl_now := t\<rparr>, Some (http_exc 503 ''Gateway temporarily unavailable (cached failure)''))"
    using assms(2,3) by (simp add: check_negative_cache_def set_negative_cache_def)
  then show ?thesis using assms(4) c' by (subst context_call) (simp_all add: set_negative_cache_def)
qed

text \<open>
  The sandbox flag is no part of the key: what a sandbox call resolved is returned to a call outside the sandbox that
  presents the same text as its API key, without a request to the gateway.
\<close>

lemma sandbox_shares_context:
  assumes "ttl_laws ttl tc" "tc_get tc (cl_now c) key (cl_context_cache c) = None" "cl_negative c (Inl key) = None"
    and "lone_call (context_ops tc) key True (\<lambda>_. Reply 200 (Some (JObj data))) c = (c', r)" "truthy (jget data ''valid'')"
    and "cl_now c \<le> t" "t < cl_now c + ttl"
  shows "lone_call (context_ops tc) key False reply (c'\<lparr>cl_now := t\<rparr>) = (c'\<lparr>cl_now := t\<rparr>, Inr data)"
proof -
  have "c' = c\<lparr>cl_context_cache := tc_put tc (cl_now c) key data (cl_context_cache c)\<rparr>"
    using assms(3-5) unfolding context_call [OF assms(2)]
    by (simp add: check_negative_cache_def resolve_context_uncached_def is_success_def)
  then show ?thesis using ttl_hit [OF assms(1,6,7)] by (intro context_hit) simp
qed

end
