(* ===== verification/StreamUsage.thy ===== *)
theory StreamUsage
  imports Upstream
begin

text \<open>
  \<^verbatim>\<open>inference/core/stream_processor.py\<close>, the usage accounting of a streamed answer, and \<^verbatim>\<open>core/request_logger.py\<close>.

  A text decoded from the wire is represented by its UTF-8 bytes, so that the length of a text is the number of its bytes.
  \<^verbatim>\<open>json.loads\<close> and the tokenizer library are parameters: \<^verbatim>\<open>loads\<close> gives None for a \<^verbatim>\<open>JSONDecodeError\<close>, \<^verbatim>\<open>count\<close> gives the
  number of tokens a model's encoder finds, None when there is no encoder or it fails.
\<close>

section \<open>Decoding with errors ignored\<close>

text \<open>The number of bytes a lead byte announces (0 for a byte that starts nothing), and the range of the byte after it.\<close>

definition lead_need :: "nat \<Rightarrow> nat" where
  "lead_need b = (if b < 128 then 1 else if 194 \<le> b \<and> b \<le> 223 then 2 else if 224 \<le> b \<and> b \<le> 239 then 3
     else if 240 \<le> b \<and> b \<le> 244 then 4 else 0)"

definition second_ok :: "nat \<Rightarrow> nat \<Rightarrow> bool" where
  "second_ok b c = ((if b = 224 then 160 else if b = 240 then 144 else 128) \<le> c
     \<and> c \<le> (if b = 237 then 159 else if b = 244 then 143 else 191))"

definition conts :: "nat \<Rightarrow> string \<Rightarrow> nat" where
  "conts b bs = (let n = lead_need b in
     if n \<le> 1 \<or> bs = [] \<or> \<not> second_ok b (of_char (hd bs)) then 0
     else Suc (length (takeWhile (\<lambda>c. 128 \<le> (of_char c :: nat) \<and> (of_char c :: nat) \<le> 191) (take (n - 2) (tl bs)))))"

text \<open>\<^verbatim>\<open>b.decode("utf-8", errors="ignore")\<close>: an incomplete sequence is dropped together with its valid beginning.\<close>

function decode_ignore :: "string \<Rightarrow> string" where
  "decode_ignore [] = []"
| "decode_ignore (b # bs) = (let n = lead_need (of_char b); k = conts (of_char b) bs in
     (if 0 < n \<and> Suc k = n then b # take k bs else []) @ decode_ignore (drop k bs))"
  by pat_completeness auto
termination by (relation "measure length") (auto simp: conts_def Let_def)

text \<open>\<^verbatim>\<open>s.strip()\<close> on a text given by its bytes: the white space characters of one, two and three bytes.\<close>

definition blanks :: "string list" where
  "blanks = map (\<lambda>n. [char_of n]) ([9..<14] @ [28..<33])
     @ [[CHR 0xC2, CHR 0x85], [CHR 0xC2, CHR 0xA0], [CHR 0xE1, CHR 0x9A, CHR 0x80], [CHR 0xE2, CHR 0x81, CHR 0x9F], [CHR 0xE3, CHR 0x80, CHR 0x80]]
     @ map (\<lambda>n. [CHR 0xE2, CHR 0x80, char_of n]) ([128..<139] @ [168, 169, 175])"

function lstrip_text :: "string \<Rightarrow> string" where
  "lstrip_text s = (case find (starts_with s) blanks of None \<Rightarrow> s | Some w \<Rightarrow> if w = [] then s else lstrip_text (drop (length w) s))"
  by auto
termination
proof (relation "measure length", goal_cases)
  case (2 s w)
  then have "starts_with s w" by (blast dest: find_in)
  then have "s \<noteq> []" using 2 by (auto simp: starts_with_def)
  with 2 show ?case by simp
qed simp

function rstrip_text :: "string \<Rightarrow> string" where
  "rstrip_text s = (case find (ends_with s) blanks of None \<Rightarrow> s | Some w \<Rightarrow> if w = [] then s else rstrip_text (take (length s - length w) s))"
  by auto
termination
proof (relation "measure length", goal_cases)
  case (2 s w)
  then have "ends_with s w" by (blast dest: find_in)
  then have "s \<noteq> []" using 2 by (auto simp: ends_with_def)
  with 2 show ?case by (cases s) auto
qed simp

declare decode_ignore.simps(2) [simp del]
declare lstrip_text.simps [simp del]
declare rstrip_text.simps [simp del]

definition strip_text :: "string \<Rightarrow> string" where
  "strip_text s = rstrip_text (lstrip_text s)"

section \<open>Usage\<close>

record usage_tracker =
  ut_prompt_tokens :: json
  ut_completion_tokens :: json
  ut_ttft_ms :: "int option"
  ut_tokenizer_model :: string
  ut_provider_usage_seen :: bool

definition extract_content :: "jobj \<Rightarrow> string" where
  "extract_content event = (case jget event ''choices'' of
     JArr (c # _) \<Rightarrow>
       (let f = (case c of JObj d \<Rightarrow> d | _ \<Rightarrow> []);
            inner = (\<lambda>k. case jget f k of JObj d \<Rightarrow> (case jget d ''content'' of JStr s \<Rightarrow> Some s | _ \<Rightarrow> None) | _ \<Rightarrow> None)
        in case inner ''delta'' of Some s \<Rightarrow> s
           | None \<Rightarrow> (case inner ''message'' of Some s \<Rightarrow> s
              | None \<Rightarrow> (case jget f ''text'' of JStr s \<Rightarrow> s | _ \<Rightarrow> [])))
   | _ \<Rightarrow> [])"

definition estimate_tokens :: "(string \<Rightarrow> string \<Rightarrow> int option) \<Rightarrow> string \<Rightarrow> string \<Rightarrow> int" where
  "estimate_tokens count text model = (if text = [] then 0
     else case count model text of Some n \<Rightarrow> max 1 n | None \<Rightarrow> max 1 ((int (length text) + 3) div 4))"

text \<open>The first case of \<^verbatim>\<open>_parse_usage\<close>: usage the provider reports.\<close>

definition note_usage :: "jobj \<Rightarrow> usage_tracker \<Rightarrow> usage_tracker" where
  "note_usage event u = (case jget event ''usage'' of
     JObj d \<Rightarrow> u\<lparr>ut_prompt_tokens := jget_or d ''prompt_tokens'' (ut_prompt_tokens u),
       ut_completion_tokens := jget_or d ''completion_tokens'' (ut_completion_tokens u), ut_provider_usage_seen := True\<rparr>
   | _ \<Rightarrow> u)"

text \<open>The second: an estimate from the text, while no usage was reported.\<close>

definition note_content :: "(string \<Rightarrow> string \<Rightarrow> int option) \<Rightarrow> jobj \<Rightarrow> bool \<times> usage_tracker \<Rightarrow> bool \<times> usage_tracker + bool \<times> usage_tracker" where
  "note_content count event hu = (let content = extract_content event; u = snd hu in
     if content = [] then Inr hu
     else if ut_provider_usage_seen u then Inr (True, u)
     else case py_add (ut_completion_tokens u) (JInt (estimate_tokens count content (ut_tokenizer_model u))) of
       Inr v \<Rightarrow> Inr (True, u\<lparr>ut_completion_tokens := v\<rparr>) | Inl e \<Rightarrow> Inl (True, u))"

text \<open>One line; \<^verbatim>\<open>Inl\<close> is the state in which an exception leaves the loop.\<close>

definition parse_line :: "(string \<Rightarrow> json option) \<Rightarrow> (string \<Rightarrow> string \<Rightarrow> int option) \<Rightarrow> bool \<times> usage_tracker \<Rightarrow> string
    \<Rightarrow> bool \<times> usage_tracker + bool \<times> usage_tracker" where
  "parse_line loads count hu line0 =
    (let line = rev (dropWhile (\<lambda>c. c = CHR 0x0D) (rev line0)) in
     if \<not> starts_with line ''data: '' then Inr hu
     else let payload = strip_text (drop 6 line) in
       if payload = [] \<or> payload = ''[DONE]'' then Inr hu
       else case loads payload of
           None \<Rightarrow> Inr hu
         | Some (JObj event) \<Rightarrow> note_content count event (fst hu, note_usage event (snd hu))
         | Some _ \<Rightarrow> Inl hu)"

definition parse_usage :: "(string \<Rightarrow> json option) \<Rightarrow> (string \<Rightarrow> string \<Rightarrow> int option) \<Rightarrow> string \<Rightarrow> usage_tracker \<Rightarrow> string \<Rightarrow> bool
    \<Rightarrow> usage_tracker \<times> bool \<times> string" where
  "parse_usage loads count chunk u buffer flush =
    (let data = buffer @ decode_ignore chunk; parts = split_on CHR 0x0A data;
         lines = (if flush then parts else butlast parts); remaining = (if flush then [] else last parts)
     in case py_fold (parse_line loads count) (False, u) lines of
          Inr (has, u') \<Rightarrow> (u', has, remaining)
        | Inl (has, u') \<Rightarrow> (u', has, buffer))"

definition mark_ttft :: "bool \<Rightarrow> int \<Rightarrow> usage_tracker \<Rightarrow> usage_tracker" where
  "mark_ttft has elapsed u = (if has \<and> ut_ttft_ms u = None then u\<lparr>ut_ttft_ms := Some elapsed\<rparr> else u)"

text \<open>The chunks of the stream, each with the milliseconds since the request began; the chunks passed on, and the tracker.\<close>

fun process_chunks :: "(string \<Rightarrow> json option) \<Rightarrow> (string \<Rightarrow> string \<Rightarrow> int option) \<Rightarrow> (string \<times> int) list \<Rightarrow> string list \<times> usage_tracker \<times> string
    \<Rightarrow> string list \<times> usage_tracker \<times> string" where
  "process_chunks loads count [] st = st"
| "process_chunks loads count ((chunk, elapsed) # cs) (out, u, buffer) =
    (case parse_usage loads count chunk u buffer False of
       (u', has, buffer') \<Rightarrow> process_chunks loads count cs (out @ [chunk], mark_ttft has elapsed u', buffer'))"

definition process_stream :: "(string \<Rightarrow> json option) \<Rightarrow> (string \<Rightarrow> string \<Rightarrow> int option) \<Rightarrow> (string \<times> int) list \<Rightarrow> int \<Rightarrow> usage_tracker
    \<Rightarrow> string list \<times> usage_tracker" where
  "process_stream loads count chunks finish u = (case process_chunks loads count chunks ([], u, []) of
     (out, u1, buffer) \<Rightarrow>
       if buffer = [] then (out, u1)
       else (case parse_usage loads count [] u1 buffer True of (u2, has, _) \<Rightarrow> (out, mark_ttft has finish u2)))"

text \<open>Prompt tokens of a list of messages; \<^verbatim>\<open>str\<close> of a message content is \<^term>\<open>py_str\<close>.\<close>

definition message_tokens :: "(string \<Rightarrow> string \<Rightarrow> int option) \<Rightarrow> string \<Rightarrow> json \<Rightarrow> string + int" where
  "message_tokens count model msg = py_bind (as_dict msg) (\<lambda>d.
    let content = jget_or d ''content'' (JStr []); text = py_str content in
    Inr (if \<not> truthy content then 0
         else case count model text of Some n \<Rightarrow> n | None \<Rightarrow> max 1 (int (length text) div 4)))"

definition estimate_prompt_tokens :: "(string \<Rightarrow> string \<Rightarrow> int option) \<Rightarrow> json \<Rightarrow> string \<Rightarrow> string + int" where
  "estimate_prompt_tokens count messages model =
    (if \<not> truthy messages then Inr 0
     else py_bind (py_iter messages) (\<lambda>ms.
       py_bind (py_fold (\<lambda>acc m. py_bind (message_tokens count model m) (\<lambda>n. Inr (acc + n))) 0 ms) (\<lambda>sm.
         Inr (sm + int (length ms) * 4))))"

section \<open>Request logging\<close>

definition BINARY_FIELDS :: "jobj" where
  "BINARY_FIELDS = [(''image'', JStr ''<base64_image_omitted>''), (''mask'', JStr ''<base64_mask_omitted>''),
     (''video'', JStr ''<base64_video_omitted>''), (''input_reference'', JStr ''<base64_image_omitted>'')]"

definition MAX_PAYLOAD_BYTES :: int where
  "MAX_PAYLOAD_BYTES = 65536"

text \<open>The text \<^verbatim>\<open>json.dumps\<close> gives, with every character outside printable ASCII escaped.\<close>

definition py_json_escape :: "char \<Rightarrow> string" where
  "py_json_escape c = (let n = of_char c :: nat in
     if n = 34 then [CHR 0x5C, CHR 0x22] else if n = 92 then [CHR 0x5C, CHR 0x5C]
     else if n = 8 then [CHR 0x5C] @ ''b'' else if n = 12 then [CHR 0x5C] @ ''f''
     else if n = 10 then [CHR 0x5C] @ ''n'' else if n = 13 then [CHR 0x5C] @ ''r''
     else if n = 9 then [CHR 0x5C] @ ''t''
     else if n < 32 \<or> 126 < n then [CHR 0x5C] @ ''u00'' @ hex2 n else [c])"

definition py_json_quote :: "string \<Rightarrow> string" where
  "py_json_quote s = [CHR 0x22] @ concat (map py_json_escape s) @ [CHR 0x22]"

fun json_dumps :: "json \<Rightarrow> string" where
  "json_dumps (JStr s) = py_json_quote s"
| "json_dumps (JArr xs) = ''['' @ join_with '', '' (map json_dumps xs) @ '']''"
| "json_dumps (JObj kvs) = ''{'' @ join_with '', '' (map (\<lambda>kv. py_json_quote (fst kv) @ '': '' @ json_dumps (snd kv)) kvs) @ ''}''"
| "json_dumps v = json_dump v"

definition sanitize_payload :: "jobj \<Rightarrow> bool \<Rightarrow> jobj option" where
  "sanitize_payload payload log_payloads =
    (if \<not> log_payloads \<or> payload = [] then None
     else let binary = (\<lambda>k. k \<in> fst ` set BINARY_FIELDS);
              p1 = (if list_ex (\<lambda>kv. binary (fst kv)) payload then filter (\<lambda>kv. \<not> binary (fst kv)) payload else payload);
              p2 = (if list_ex (\<lambda>kv. binary (fst kv)) payload
                    then foldl (\<lambda>p (k, ph). if k \<in> fst ` set p then AList.update k ph p else p) p1 BINARY_FIELDS else p1);
              size = int (length (json_dumps (JObj p2)))
          in Some (if size > MAX_PAYLOAD_BYTES then [(''_truncated'', JBool True), (''_size'', JInt size)] else p2))"

definition build_usage :: "string \<Rightarrow> json \<Rightarrow> json \<Rightarrow> json \<Rightarrow> json option \<Rightarrow> json option \<Rightarrow> jobj" where
  "build_usage request_type prompt completion sum_tokens input_count n_items =
    [(''prompt_tokens'', prompt), (''completion_tokens'', completion), (''total_tokens'', sum_tokens)]
    @ (if request_type = ''embedding'' \<and> input_count \<noteq> None then [(''input_count'', the input_count)]
       else if starts_with request_type ''image'' \<and> n_items \<noteq> None then [(''image_count'', the n_items)]
       else if starts_with request_type ''video'' \<and> n_items \<noteq> None then [(''video_count'', the n_items)] else [])"

text \<open>What a handler passes to \<^verbatim>\<open>RequestLogger.log\<close>.\<close>

record log_args =
  la_deployment_id :: json
  la_user_id :: json
  la_model :: json
  la_request_payload :: jobj
  la_request_type :: string
  la_applied_policies :: "string list"
  la_log_payloads :: bool
  la_ip_address :: "string option"
  la_status_code :: int
  la_error_message :: "json option"
  la_prompt_tokens :: json
  la_completion_tokens :: json
  la_ttft_ms :: "int option"
  la_is_streaming :: bool
  la_input_count :: "json option"
  la_n_items :: "json option"

text \<open>\<^verbatim>\<open>round(p / q, 2)\<close>, exact, with ties to the even digit.\<close>

definition round2 :: "int \<Rightarrow> int \<Rightarrow> json" where
  "round2 p q = (let f = (100 * p) div q; r = (100 * p) mod q
     in JDec (if 2 * r > q \<or> 2 * r = q \<and> odd f then f + 1 else f) 2)"

definition tokens_per_second :: "json \<Rightarrow> int \<Rightarrow> string + json" where
  "tokens_per_second completion duration = (if duration \<le> 0 then Inr JNull
     else case as_number completion of None \<Rightarrow> Inl ''TypeError''
       | Some (m, e) \<Rightarrow> Inr (if m > 0 then round2 (m * 1000) (10 ^ e * duration) else JNull))"

definition log_inference :: "log_args \<Rightarrow> jobj option \<Rightarrow> int \<Rightarrow> json \<Rightarrow> json \<Rightarrow> jobj" where
  "log_inference a payload duration tps sum_tokens =
    [(''deployment_id'', la_deployment_id a), (''user_id'', la_user_id a), (''model'', la_model a),
     (''request_payload'', case payload of None \<Rightarrow> JNull | Some p \<Rightarrow> JObj p), (''latency_ms'', JInt duration),
     (''ttft_ms'', case la_ttft_ms a of None \<Rightarrow> JNull | Some t \<Rightarrow> JInt t), (''tokens_per_second'', tps),
     (''prompt_tokens'', la_prompt_tokens a), (''completion_tokens'', la_completion_tokens a), (''total_tokens'', sum_tokens),
     (''status_code'', JInt (la_status_code a)), (''error_message'', case la_error_message a of None \<Rightarrow> JNull | Some m \<Rightarrow> m),
     (''is_streaming'', JBool (la_is_streaming a)), (''applied_policies'', JArr (map JStr (la_applied_policies a))),
     (''ip_address'', jopt (la_ip_address a)), (''request_type'', JStr (la_request_type a))]
    @ (let n = json_or (case la_input_count a of None \<Rightarrow> JNull | Some c \<Rightarrow> c) (case la_n_items a of None \<Rightarrow> JNull | Some c \<Rightarrow> c)
       in if la_request_type a = ''embedding'' \<and> n \<noteq> JNull then [(''input_count'', n)] else [])"

text \<open>The log entry and the usage sent to the gateway; an exception of the background task sends neither.\<close>

definition request_log :: "log_args \<Rightarrow> int \<Rightarrow> string + jobj \<times> jobj" where
  "request_log a duration =
    py_bind (py_add (la_prompt_tokens a) (la_completion_tokens a)) (\<lambda>sm.
    py_bind (tokens_per_second (la_completion_tokens a) duration) (\<lambda>tps.
    Inr (log_inference a (sanitize_payload (la_request_payload a) (la_log_payloads a)) duration tps sm,
         build_usage (la_request_type a) (la_prompt_tokens a) (la_completion_tokens a) sm (la_input_count a) (la_n_items a))))"

section \<open>Counting does not depend on the chunks\<close>

definition line_event :: "(string \<Rightarrow> json option) \<Rightarrow> string \<Rightarrow> json option" where
  "line_event loads line0 =
    (let line = rev (dropWhile (\<lambda>c. c = CHR 0x0D) (rev line0)); payload = strip_text (drop 6 line) in
     if \<not> starts_with line ''data: '' \<or> payload = [] \<or> payload = ''[DONE]'' then None else loads payload)"

definition line_usage :: "(string \<Rightarrow> json option) \<Rightarrow> (string \<Rightarrow> string \<Rightarrow> int option) \<Rightarrow> usage_tracker \<Rightarrow> string \<Rightarrow> usage_tracker" where
  "line_usage loads count u line = (case line_event loads line of
     Some (JObj event) \<Rightarrow>
       (let u1 = note_usage event u; content = extract_content event
        in if content = [] \<or> ut_provider_usage_seen u1 then u1
           else case ut_completion_tokens u1 of
               JInt n \<Rightarrow> u1\<lparr>ut_completion_tokens := JInt (n + estimate_tokens count content (ut_tokenizer_model u1))\<rparr> | _ \<Rightarrow> u1)
   | _ \<Rightarrow> u)"

text \<open>Every payload that is JSON is an object.\<close>

definition events_only :: "(string \<Rightarrow> json option) \<Rightarrow> bool" where
  "events_only loads \<longleftrightarrow> (\<forall>p v. loads p = Some v \<longrightarrow> (\<exists>d. v = JObj d))"

definition counting :: "usage_tracker \<Rightarrow> bool" where
  "counting u \<longleftrightarrow> ut_provider_usage_seen u \<or> (\<exists>n. ut_completion_tokens u = JInt n)"

lemma line_usage_counting: "counting u \<Longrightarrow> counting (line_usage loads count u l)"
  by (auto simp: line_usage_def counting_def note_usage_def Let_def split: option.splits json.splits)

lemma line_usage_ttft: "line_usage loads count (u\<lparr>ut_ttft_ms := t\<rparr>) l = (line_usage loads count u l)\<lparr>ut_ttft_ms := t\<rparr>"
  by (auto simp: line_usage_def note_usage_def Let_def split: option.split json.split)

lemma lines_ttft: "foldl (line_usage loads count) (u\<lparr>ut_ttft_ms := t\<rparr>) ls = (foldl (line_usage loads count) u ls)\<lparr>ut_ttft_ms := t\<rparr>"
  by (induction ls arbitrary: u) (simp_all add: line_usage_ttft)

lemma lines_counting: "counting u \<Longrightarrow> counting (foldl (line_usage loads count) u ls)"
  by (induction ls arbitrary: u) (simp_all add: line_usage_counting)

lemma parse_line_usage:
  assumes "counting u" "events_only loads"
  shows "\<exists>h'. parse_line loads count (h, u) l = Inr (h', line_usage loads count u l)"
proof -
  have add: "py_add (JInt n) (JInt m) = Inr (JInt (n + m))" for n m by (simp add: py_add_def)
  show ?thesis
  proof (cases "line_event loads l")
    case None
    then show ?thesis by (auto simp: parse_line_def line_usage_def line_event_def Let_def split: if_splits)
  next
    case (Some v)
    then obtain event where ev: "v = JObj event" using assms(2) by (auto simp: line_event_def events_only_def Let_def split: if_splits)
    have "parse_line loads count (h, u) l = note_content count event (h, note_usage event u)"
      using Some ev by (auto simp: parse_line_def line_event_def Let_def split: if_splits)
    moreover have "counting (note_usage event u)" using assms(1) by (auto simp: counting_def note_usage_def split: json.split)
    ultimately show ?thesis
      using Some ev by (auto simp: line_usage_def note_content_def counting_def add Let_def)
  qed
qed

lemma parse_lines_usage:
  assumes "counting u" "events_only loads"
  shows "\<exists>h'. py_fold (parse_line loads count) (h, u) ls = Inr (h', foldl (line_usage loads count) u ls)"
  using assms(1)
proof (induction ls arbitrary: h u)
  case (Cons l ls)
  obtain h1 where "parse_line loads count (h, u) l = Inr (h1, line_usage loads count u l)"
    using parse_line_usage [OF Cons.prems assms(2)] by blast
  with Cons.IH [of "line_usage loads count u l" h1] line_usage_counting [OF Cons.prems] show ?case by simp
qed simp

lemma split_on_append:
  "split_on c (a @ b) = butlast (split_on c a) @ split_on c (last (split_on c a) @ b)"
proof (induction a)
  case (Cons x a)
  obtain w ws where w: "split_on c a = w # ws" by (cases "split_on c a") auto
  show ?case
  proof (cases "x = c \<or> ws \<noteq> []")
    case True
    then show ?thesis using Cons w by (auto split: list.splits)
  next
    case False
    then show ?thesis using Cons w by auto
  qed
qed simp

lemma last_split_absent: "c \<notin> set (last (split_on c s))"
proof (induction s)
  case (Cons x s)
  obtain w ws where "split_on c s = w # ws" by (cases "split_on c s") auto
  with Cons show ?case by (cases ws) auto
qed simp

lemma process_chunks_usage:
  assumes "events_only loads"
    and "\<forall>c \<in> set cs. decode_ignore (fst c) = fst c" "counting u" "CHR 0x0A \<notin> set buf"
  shows "\<exists>t. process_chunks loads count cs (out, u, buf) = (out @ map fst cs,
    (foldl (line_usage loads count) u (butlast (split_on CHR 0x0A (buf @ concat (map fst cs)))))\<lparr>ut_ttft_ms := t\<rparr>,
    last (split_on CHR 0x0A (buf @ concat (map fst cs))))"
  using assms(2-)
proof (induction cs arbitrary: out u buf)
  case Nil
  then show ?case using split_on_absent [of "CHR 0x0A" buf] by (intro exI [of _ "ut_ttft_ms u"]) simp
next
  case (Cons ce cs)
  obtain c e where ce: "ce = (c, e)" by force
  let ?parts = "split_on CHR 0x0A (buf @ c)"
  define u1 where "u1 = foldl (line_usage loads count) u (butlast ?parts)"
  obtain h where h: "py_fold (parse_line loads count) (False, u) (butlast ?parts) = Inr (h, u1)"
    unfolding u1_def using parse_lines_usage [OF Cons.prems(2) assms(1)] by blast
  have "decode_ignore c = c" using Cons.prems(1) ce by simp
  with h have pu: "parse_usage loads count c u buf False = (u1, h, last ?parts)" by (simp add: parse_usage_def Let_def)
  obtain t0 where m: "mark_ttft h e u1 = u1\<lparr>ut_ttft_ms := t0\<rparr>"
    using that [of "ut_ttft_ms u1"] that [of "Some e"] by (cases "h \<and> ut_ttft_ms u1 = None") (auto simp: mark_ttft_def)
  have "counting (u1\<lparr>ut_ttft_ms := t0\<rparr>)" using lines_counting [OF Cons.prems(2)] by (simp add: u1_def counting_def)
  then obtain t where "process_chunks loads count cs (out @ [c], u1\<lparr>ut_ttft_ms := t0\<rparr>, last ?parts) = (out @ [c] @ map fst cs,
      (foldl (line_usage loads count) (u1\<lparr>ut_ttft_ms := t0\<rparr>) (butlast (split_on CHR 0x0A (last ?parts @ concat (map fst cs)))))\<lparr>ut_ttft_ms := t\<rparr>,
      last (split_on CHR 0x0A (last ?parts @ concat (map fst cs))))"
    using Cons.IH [of "u1\<lparr>ut_ttft_ms := t0\<rparr>" "last ?parts" "out @ [c]"] Cons.prems(1) last_split_absent by auto
  moreover have "split_on CHR 0x0A (buf @ c @ concat (map fst cs)) =
      butlast ?parts @ split_on CHR 0x0A (last ?parts @ concat (map fst cs))"
    using split_on_append [of "CHR 0x0A" "buf @ c" "concat (map fst cs)"] by simp
  ultimately show ?case
    using pu m ce by (auto simp: lines_ttft butlast_append u1_def)
qed

lemma process_stream_lines:
  assumes events: "events_only loads" and start: "counting u"
    and chunks: "\<forall>c \<in> set cs. decode_ignore (fst c) = fst c"
  shows "\<exists>t. process_stream loads count cs finish u =
    (map fst cs, (foldl (line_usage loads count) u (split_on CHR 0x0A (concat (map fst cs))))\<lparr>ut_ttft_ms := t\<rparr>)"
proof -
  let ?parts = "split_on CHR 0x0A (concat (map fst cs))"
  obtain t where run: "process_chunks loads count cs ([], u, []) = (map fst cs,
      (foldl (line_usage loads count) u (butlast ?parts))\<lparr>ut_ttft_ms := t\<rparr>, last ?parts)"
    using process_chunks_usage [OF events chunks start, of "[]" count "[]"] by auto
  define u1 where "u1 = (foldl (line_usage loads count) u (butlast ?parts))\<lparr>ut_ttft_ms := t\<rparr>"
  have all: "foldl (line_usage loads count) u ?parts = line_usage loads count (foldl (line_usage loads count) u (butlast ?parts)) (last ?parts)"
    by (metis append_butlast_last_id foldl_Cons foldl_Nil foldl_append split_on_nonempty)
  show ?thesis
  proof (cases "last ?parts = []")
    case True
    have "line_usage loads count v [] = v" for v by (simp add: line_usage_def line_event_def starts_with_def)
    with True all run show ?thesis by (auto simp: process_stream_def)
  next
    case False
    have c1: "counting u1" using lines_counting [OF start] by (simp add: u1_def counting_def)
    have "decode_ignore [] = []" by simp
    moreover have "split_on CHR 0x0A (last ?parts) = [last ?parts]" using split_on_absent last_split_absent by blast
    moreover obtain h where "parse_line loads count (False, u1) (last ?parts) = Inr (h, line_usage loads count u1 (last ?parts))"
      using parse_line_usage [OF c1 events] by blast
    ultimately have "parse_usage loads count [] u1 (last ?parts) True = (line_usage loads count u1 (last ?parts), h, [])"
      by (simp add: parse_usage_def)
    then have "process_stream loads count cs finish u = (map fst cs, mark_ttft h finish (line_usage loads count u1 (last ?parts)))"
      using run False by (simp add: process_stream_def u1_def)
    moreover have "line_usage loads count u1 (last ?parts) = (foldl (line_usage loads count) u ?parts)\<lparr>ut_ttft_ms := t\<rparr>"
      unfolding all u1_def by (rule line_usage_ttft)
    ultimately show ?thesis by (auto simp: mark_ttft_def intro: exI [of _ t] exI [of _ "Some finish"])
  qed
qed


definition new_tracker :: "int \<Rightarrow> string \<Rightarrow> usage_tracker" where
  "new_tracker prompt model = \<lparr>ut_prompt_tokens = JInt prompt, ut_completion_tokens = JInt 0, ut_ttft_ms = None,
     ut_tokenizer_model = model, ut_provider_usage_seen = False\<rparr>"

lemma new_tracker_counting [simp]: "counting (new_tracker prompt model)"
  by (simp add: counting_def new_tracker_def)

lemma decode_ascii: "\<forall>c \<in> set s. (of_char c :: nat) < 128 \<Longrightarrow> decode_ignore s = s"
  by (induction s) (simp_all add: decode_ignore.simps(2) lead_need_def conts_def)

text \<open>A decoder that knows two texts, for the examples.\<close>

definition two_events :: "string \<Rightarrow> json option" where
  "two_events p = (if p = ''{A}'' then Some (JObj [(''choices'', JArr [JObj [(''text'', JStr ''abcde'')]])])
     else if p = ''{B}'' then Some (JObj [(''usage'', JObj [(''prompt_tokens'', JInt 7), (''completion_tokens'', JInt 9)])]) else None)"

lemma two_events_only: "events_only two_events"
  by (simp add: events_only_def two_events_def)


text \<open>The usage object of a line, if it has one.\<close>

definition reported :: "(string \<Rightarrow> json option) \<Rightarrow> string \<Rightarrow> jobj option" where
  "reported loads line = (case line_event loads line of
     Some (JObj event) \<Rightarrow> (case jget event ''usage'' of JObj d \<Rightarrow> Some d | _ \<Rightarrow> None) | _ \<Rightarrow> None)"

lemma line_reports:
  assumes "reported loads l = Some d"
  shows "ut_provider_usage_seen (line_usage loads count u l)"
    "ut_prompt_tokens (line_usage loads count u l) = jget_or d ''prompt_tokens'' (ut_prompt_tokens u)"
    "ut_completion_tokens (line_usage loads count u l) = jget_or d ''completion_tokens'' (ut_completion_tokens u)"
  using assms by (auto simp: reported_def line_usage_def note_usage_def Let_def split: option.splits json.splits)

lemma line_silent:
  assumes "reported loads l = None" "ut_provider_usage_seen u"
  shows "line_usage loads count u l = u"
proof (cases "line_event loads l")
  case (Some v)
  then show ?thesis using assms by (cases v) (auto simp: reported_def line_usage_def note_usage_def Let_def split: json.splits)
qed (simp add: line_usage_def)

lemma lines_silent:
  "\<forall>l \<in> set ls. reported loads l = None \<Longrightarrow> ut_provider_usage_seen u \<Longrightarrow> foldl (line_usage loads count) u ls = u"
  by (induction ls) (simp_all add: line_silent)

text \<open>
  Usage the provider reports replaces the estimates: the tokens recorded for a stream are those of the last report, whatever
  text came before or after it.
\<close>

theorem provider_usage_wins:
  assumes "events_only loads" "counting u" "\<forall>c \<in> set cs. decode_ignore (fst c) = fst c"
    and parts: "split_on CHR 0x0A (concat (map fst cs)) = pre @ l # post"
    and last: "reported loads l = Some d" "\<forall>l' \<in> set post. reported loads l' = None"
    and both: "map_of d ''prompt_tokens'' = Some p" "map_of d ''completion_tokens'' = Some c"
  shows "ut_prompt_tokens (snd (process_stream loads count cs finish u)) = p \<and>
    ut_completion_tokens (snd (process_stream loads count cs finish u)) = c"
proof -
  obtain t where run: "snd (process_stream loads count cs finish u) = (foldl (line_usage loads count) u (pre @ l # post))\<lparr>ut_ttft_ms := t\<rparr>"
    using process_stream_lines [OF assms(1-3), of count finish] unfolding parts by auto
  define v where "v = line_usage loads count (foldl (line_usage loads count) u pre) l"
  have "foldl (line_usage loads count) u (pre @ l # post) = v"
    using lines_silent [OF last(2)] line_reports(1) [OF last(1)] by (simp add: v_def)
  moreover have "ut_prompt_tokens v = p" "ut_completion_tokens v = c"
    unfolding v_def line_reports(2,3) [OF last(1)] using both by (simp_all add: jget_or_def)
  ultimately show ?thesis using run by simp
qed

theorem provider_usage_wins_witness:
  "ut_completion_tokens (snd (process_stream two_events (\<lambda>_ _. None) [(''data: {A}'' @ [CHR 0x0A] @ ''data: {B}'', 5)] 8 (new_tracker 3 ''m''))) = JInt 9"
proof -
  let ?cs = "[(''data: {A}'' @ [CHR 0x0A] @ ''data: {B}'', 5)] :: (string \<times> int) list"
  have "reported two_events ''data: {B}'' = Some [(''prompt_tokens'', JInt 7), (''completion_tokens'', JInt 9)]" by code_simp
  moreover have "\<forall>c \<in> set ?cs. decode_ignore (fst c) = fst c" by (simp add: decode_ascii)
  moreover have "split_on CHR 0x0A (concat (map fst ?cs)) = [''data: {A}''] @ ''data: {B}'' # []" by simp
  ultimately show ?thesis
    using provider_usage_wins [OF two_events_only, of "new_tracker 3 ''m''" ?cs "[''data: {A}'']" "''data: {B}''" "[]"
        "[(''prompt_tokens'', JInt 7), (''completion_tokens'', JInt 9)]" "JInt 7" "JInt 9" "\<lambda>_ _. None" 8] by simp
qed

text \<open>
  A payload that is JSON but no object ends the treatment of its chunk: the rest of the chunk is not counted and its unfinished
  line is forgotten, while the text left over from earlier chunks is read once more.
\<close>

lemma odd_event_rereads:
  assumes "decode_ignore chunk = chunk" "butlast (split_on CHR 0x0A (buffer @ chunk)) = l # ls"
    and "line_event loads l = Some v" "\<nexists>d. v = JObj d"
  shows "parse_usage loads count chunk u buffer False = (u, False, buffer)"
proof -
  have "parse_line loads count (False, u) l = Inl (False, u)"
    using assms(3,4) by (cases v) (auto simp: parse_line_def line_event_def Let_def split: if_splits)
  with assms(1,2) show ?thesis by (simp add: parse_usage_def Let_def)
qed

section \<open>What is logged\<close>

lemma placeholders_unused:
  "fst ` set p \<inter> fst ` set fs = {} \<Longrightarrow> foldl (\<lambda>p (k, ph). if k \<in> fst ` set p then AList.update k ph p else p) p fs = p"
  by (induction fs) (auto simp: image_iff)

text \<open>
  A logged payload carries no binary field and at most 64 KiB of JSON, or is the marker of a longer one; the placeholders
  intended for the fields removed are never written.
\<close>

theorem logged_payload_bounded:
  assumes "sanitize_payload payload log_payloads = Some p"
  shows "log_payloads \<and> (p = filter (\<lambda>kv. fst kv \<notin> {''image'', ''mask'', ''video'', ''input_reference''}) payload \<and>
      int (length (json_dumps (JObj p))) \<le> MAX_PAYLOAD_BYTES \<or>
      (\<exists>n > MAX_PAYLOAD_BYTES. p = [(''_truncated'', JBool True), (''_size'', JInt n)]))"
proof -
  let ?bin = "\<lambda>k. k \<in> fst ` set BINARY_FIELDS" and ?q = "filter (\<lambda>kv. fst kv \<notin> {''image'', ''mask'', ''video'', ''input_reference''}) payload"
  have names: "fst ` set BINARY_FIELDS = {''image'', ''mask'', ''video'', ''input_reference''}" by (simp add: BINARY_FIELDS_def)
  have keep: "foldl (\<lambda>p (k, ph). if k \<in> fst ` set p then AList.update k ph p else p) ?q BINARY_FIELDS = ?q"
    by (rule placeholders_unused) (auto simp: names)
  have "?q = payload" if "\<not> list_ex (\<lambda>kv. ?bin (fst kv)) payload"
    using that by (auto simp: list_ex_iff names filter_id_conv)
  then have "(let size = int (length (json_dumps (JObj ?q))) in
      Some (if size > MAX_PAYLOAD_BYTES then [(''_truncated'', JBool True), (''_size'', JInt size)] else ?q)) = Some p"
    using assms keep unfolding sanitize_payload_def Let_def names by (simp split: if_splits)
  moreover have "log_payloads" using assms by (simp add: sanitize_payload_def split: if_splits)
  ultimately show ?thesis by (auto simp: Let_def split: if_splits)
qed

theorem logged_payload_bounded_witness:
  "sanitize_payload [(''prompt'', JStr ''cat''), (''image'', JStr ''AAAA'')] True = Some [(''prompt'', JStr ''cat'')]"
proof -
  have "sanitize_payload [(''prompt'', JStr ''cat''), (''image'', JStr ''AAAA'')] True \<noteq> None" by (simp add: sanitize_payload_def Let_def)
  then obtain p where p: "sanitize_payload [(''prompt'', JStr ''cat''), (''image'', JStr ''AAAA'')] True = Some p" by blast
  have "p \<noteq> [(''_truncated'', JBool True), (''_size'', JInt n)]" for n
  proof -
    have "p = [(''prompt'', JStr ''cat'')]" using p by (simp add: sanitize_payload_def BINARY_FIELDS_def MAX_PAYLOAD_BYTES_def Let_def
        py_json_quote_def join_with_def py_json_escape_def split: if_splits)
    then show ?thesis by simp
  qed
  with logged_payload_bounded [OF p] p show ?thesis by auto
qed

end
