(* ===== verification/InferenceService.thy ===== *)
theory InferenceService
  imports InferenceClient StreamUsage RateLimit CircuitBreaker
begin

text \<open>
  The inference service from the client's request to the upstream call: \<^verbatim>\<open>inference/core/service.py\<close>, \<^verbatim>\<open>core/pipeline.py\<close>, the
  handlers under \<^verbatim>\<open>core/handlers\<close> and the extraction of keys in \<^verbatim>\<open>app.py\<close>.  One request is one function of the service's
  state: the gateway client's caches, the rate buckets, the breakers, the requests sent upstream and the log tasks scheduled.
  The answers of the gateway and of the upstream, whether the concurrency limiter grants a slot, and the clock are parameters.
  The text of an exception that is no \<^verbatim>\<open>HTTPException\<close> is represented by the name of its class.
\<close>

section \<open>State and environment\<close>

record up_request =
  ur_url :: string
  ur_payload :: jobj
  ur_headers :: headers

text \<open>An upstream answer: status, content length header, length of the body, decoded body; or no answer.\<close>

datatype up_reply = UpReply int "string option" int "json option" | UpFail

text \<open>A streamed answer: status, chunks, and whether the connection broke after them.\<close>

datatype stream_reply = StreamReply int "string list" bool | StreamFail

record ('c, 'q) inf_state =
  if_client :: "('c, 'q) client"
  if_buckets :: inference_buckets
  if_breakers :: breaker_registry
  if_sent :: "up_request list"
  if_logs :: "log_args list"

record ('c, 'q) inf_env =
  ie_internal_key :: string
  ie_allowed_hosts :: string
  ie_envoy_url :: "string option"
  ie_proxy_url :: "string option"
  ie_max_bytes :: int
  ie_context_cache :: "(context_key, jobj, 'c) ttl_cache"
  ie_quota_cache :: "(quota_key, int, 'q) ttl_cache"
  ie_quota_ttl :: int
  ie_shown :: string
  ie_now :: real
  ie_done :: real
  ie_live :: "string \<Rightarrow> bool"
  ie_slot :: "string \<Rightarrow> bool"
  ie_context :: "context_key \<Rightarrow> bool \<Rightarrow> gw_reply"
  ie_quota :: "quota_key \<Rightarrow> gw_reply"
  ie_upstream :: "up_request \<Rightarrow> up_reply"
  ie_stream :: "up_request \<Rightarrow> stream_reply"
  ie_loads :: "string \<Rightarrow> json option"
  ie_count :: "string \<Rightarrow> string \<Rightarrow> int option"

definition put_breaker :: "breaker \<Rightarrow> ('c, 'q) inf_state \<Rightarrow> ('c, 'q) inf_state" where
  "put_breaker b st = st\<lparr>if_breakers := AList.update (cb_name b) b (if_breakers st)\<rparr>"

definition upstream_breaker :: "string \<Rightarrow> ('c, 'q) inf_state \<Rightarrow> breaker" where
  "upstream_breaker key st = snd (get_or_create (''upstream:'' @ key) 5 30 (if_breakers st))"

definition hupdate :: "headers \<Rightarrow> headers \<Rightarrow> headers" where
  "hupdate hs extra = foldl (\<lambda>h kv. AList.update (fst kv) (snd kv) h) hs extra"

section \<open>Calls to the provider\<close>

definition unavailable :: inf_exn where
  "unavailable = http_exc 502 ''Upstream provider is unavailable''"

definition bad_length :: "int \<Rightarrow> string option \<Rightarrow> bool" where
  "bad_length max_bytes content_length = (case nonempty_str content_length of None \<Rightarrow> False
     | Some t \<Rightarrow> (case text_to_int t of None \<Rightarrow> True | Some n \<Rightarrow> check_response_size (Some n) max_bytes \<noteq> Inr ()))"

text \<open>What becomes of an answer, and of the breaker.\<close>

definition upstream_outcome :: "int \<Rightarrow> real \<Rightarrow> adapter \<Rightarrow> bool \<Rightarrow> up_reply \<Rightarrow> breaker \<Rightarrow> breaker \<times> (inf_exn + json)" where
  "upstream_outcome max_bytes stop a transform reply b = (case reply of
     UpFail \<Rightarrow> (record_failure stop b, Inl unavailable)
   | UpReply status content_length len body \<Rightarrow>
      if \<not> is_success status then (record_failure stop b, Inl (http_exc status ''Upstream provider returned an error''))
      else if bad_length max_bytes content_length then (record_failure stop b, Inl unavailable)
      else if len > max_bytes then (b, Inl (http_exc 502 ''Upstream response exceeded size limit''))
      else (case body of None \<Rightarrow> (record_failure stop b, Inl unavailable)
        | Some raw \<Rightarrow>
           if \<not> transform then (record_success b, Inr raw)
           else (case transform_response a raw of
               Inl e \<Rightarrow> (record_failure stop (record_success b), Inl unavailable)
             | Inr v \<Rightarrow> (record_success b, Inr v))))"

definition no_slot :: inf_exn where
  "no_slot = HttpExc 429 (JStr ''Server is handling too many concurrent requests. Please retry.'') [(''Retry-After'', ''1'')]"

definition call_upstream :: "('c, 'q) inf_env \<Rightarrow> string \<Rightarrow> jobj \<Rightarrow> headers \<Rightarrow> string option \<Rightarrow> string \<Rightarrow> string \<Rightarrow> bool
    \<Rightarrow> ('c, 'q) inf_state \<Rightarrow> ('c, 'q) inf_state \<times> (inf_exn + json)" where
  "call_upstream env endpoint_url payload hs engine path key transform st =
    (let a = get_adapter engine;
         full_url = build_full_url endpoint_url (if path \<noteq> [] then path else get_chat_path a) in
     case validate_upstream_url full_url (get_allowed_hosts (ie_allowed_hosts env)) of
       Inl e \<Rightarrow> (st, Inl (http_exc 400 e))
     | Inr url \<Rightarrow> (case transform_request a payload of
         Inl e \<Rightarrow> (st, Inl (PyExc e))
       | Inr transformed \<Rightarrow>
          (let (b1, ok) = can_execute (ie_now env) (upstream_breaker key st); st1 = put_breaker b1 st in
           if \<not> ok then (st1, Inl (http_exc 503 ''Upstream temporarily unavailable (circuit breaker open)''))
           else if \<not> ie_slot env key then (st1, Inl no_slot)
           else let req = \<lparr>ur_url = url, ur_payload = transformed, ur_headers = sanitize_headers hs\<rparr>;
                    (b2, r) = upstream_outcome (ie_max_bytes env) (ie_done env) a transform (ie_upstream env req) b1
                in (put_breaker b2 (st1\<lparr>if_sent := if_sent st1 @ [req]\<rparr>), r))))"

definition sse_error :: "string \<Rightarrow> string" where
  "sse_error text = ''data: {'' @ [CHR 0x22] @ ''error'' @ [CHR 0x22] @ '': '' @ [CHR 0x22] @ text @ [CHR 0x22] @ ''}'' @ [CHR 0x0A, CHR 0x0A]"

text \<open>The chunks that fit, and whether one did not.\<close>

fun within_limit :: "int \<Rightarrow> int \<Rightarrow> string list \<Rightarrow> string list \<times> bool" where
  "within_limit max_bytes total_bytes [] = ([], False)"
| "within_limit max_bytes total_bytes (c # cs) =
    (let n = total_bytes + int (length c) in
     if n > max_bytes then ([], True) else (case within_limit max_bytes n cs of (out, over) \<Rightarrow> (c # out, over)))"

definition stream_outcome :: "int \<Rightarrow> real \<Rightarrow> stream_reply \<Rightarrow> breaker \<Rightarrow> breaker \<times> string list" where
  "stream_outcome max_bytes stop reply b = (case reply of
     StreamFail \<Rightarrow> (record_failure stop b, [sse_error ''Streaming connection failed''])
   | StreamReply status chunks broken \<Rightarrow>
      if \<not> is_success status then (record_failure stop b, [sse_error ''Upstream provider returned an error''])
      else (case within_limit max_bytes 0 chunks of (out, over) \<Rightarrow>
        if over then (b, out @ [sse_error ''Upstream response exceeded size limit''])
        else if broken then (record_failure stop b, out @ [sse_error ''Streaming connection failed''])
        else (b, out)))"

definition stream_upstream :: "('c, 'q) inf_env \<Rightarrow> string \<Rightarrow> jobj \<Rightarrow> headers \<Rightarrow> string option \<Rightarrow> string
    \<Rightarrow> ('c, 'q) inf_state \<Rightarrow> ('c, 'q) inf_state \<times> (inf_exn + string list)" where
  "stream_upstream env endpoint_url payload hs engine key st =
    (let a = get_adapter engine in
     case transform_request a payload of
       Inl e \<Rightarrow> (st, Inl (PyExc e))
     | Inr transformed \<Rightarrow>
        (case validate_upstream_url (build_full_url endpoint_url (get_chat_path a)) (get_allowed_hosts (ie_allowed_hosts env)) of
          Inl e \<Rightarrow> (st, Inr [sse_error ''Invalid upstream configuration''])
        | Inr url \<Rightarrow>
           (let (b1, ok) = can_execute (ie_now env) (upstream_breaker key st); st1 = put_breaker b1 st in
            if \<not> ok then (st1, Inr [sse_error ''Upstream temporarily unavailable (circuit breaker open)''])
            else if \<not> ie_slot env key
            then (put_breaker (record_failure (ie_done env) b1) st1, Inr [sse_error ''Streaming connection failed''])
            else let req = \<lparr>ur_url = url, ur_payload = transformed, ur_headers = sanitize_headers hs\<rparr>;
                     (b2, out) = stream_outcome (ie_max_bytes env) (ie_done env) (ie_stream env req) b1
                 in (put_breaker b2 (st1\<lparr>if_sent := if_sent st1 @ [req]\<rparr>), Inr out))))"

section \<open>The pipeline\<close>

record req_context =
  rc_deployment :: jobj
  rc_user :: json
  rc_rate_limit :: json
  rc_log_payloads :: bool

definition hashable :: "json \<Rightarrow> bool" where
  "hashable v = (case v of JArr _ \<Rightarrow> False | JObj _ \<Rightarrow> False | _ \<Rightarrow> True)"

text \<open>\<^verbatim>\<open>context[k]\<close>.\<close>

definition jitem :: "jobj \<Rightarrow> string \<Rightarrow> inf_exn + json" where
  "jitem d k = (case map_of d k of None \<Rightarrow> Inl (PyExc ''KeyError'') | Some v \<Rightarrow> Inr v)"

definition on_client :: "('c, 'q) inf_state \<Rightarrow> ('c, 'q) client \<times> 'a \<Rightarrow> ('c, 'q) inf_state \<times> 'a" where
  "on_client st r = (st\<lparr>if_client := fst r\<rparr>, snd r)"

definition gateway_resolve :: "('c, 'q) inf_env \<Rightarrow> string \<Rightarrow> json \<Rightarrow> string \<Rightarrow> bool \<Rightarrow> ('c, 'q) inf_state
    \<Rightarrow> ('c, 'q) inf_state \<times> (inf_exn + jobj)" where
  "gateway_resolve env api_key model model_type sandbox st =
    (if \<not> hashable model then (st, Inl (PyExc ''TypeError''))
     else case on_client st (lone_call (context_ops (ie_context_cache env)) (api_key, model, model_type) sandbox
          (ie_context env (api_key, model, model_type)) (if_client st)) of
       (st1, Inl e) \<Rightarrow> (st1, Inl e)
     | (st1, Inr context) \<Rightarrow> (st1, if truthy (jget context ''valid'') then Inr context
          else Inl (HttpExc 401 (jget_or context ''error'' (JStr ''Unauthorized'')) [])))"

definition read_context :: "jobj \<Rightarrow> inf_exn + req_context" where
  "read_context context =
    py_bind (jitem context ''deployment'') (\<lambda>dv.
    py_bind (case as_dict dv of Inl e \<Rightarrow> Inl (PyExc e) | Inr d \<Rightarrow> Inr d) (\<lambda>d.
    py_bind (jitem context ''user_id_context'') (\<lambda>u.
    Inr \<lparr>rc_deployment = d, rc_user = u, rc_rate_limit = jget context ''rate_limit_config'',
         rc_log_payloads = truthy (jget_or context ''log_payloads'' (JBool True))\<rparr>)))"

text \<open>The token bucket of the deployment; the policies applied so far are returned as well.\<close>

definition rate_limit_step :: "('c, 'q) inf_env \<Rightarrow> req_context \<Rightarrow> ('c, 'q) inf_state \<Rightarrow> ('c, 'q) inf_state \<times> (inf_exn + string list)" where
  "rate_limit_step env rc st =
    (if \<not> truthy (rc_rate_limit rc) then (st, Inr [])
     else case rc_rate_limit rc of
       JObj cfg \<Rightarrow>
         if \<not> truthy (jget_or cfg ''enabled'' (JBool True)) then (st, Inr [])
         else (case py_int (jget_or cfg ''rpm'' (JInt 0)) of
             None \<Rightarrow> (st, Inl (PyExc ''ValueError''))
           | Some rpm \<Rightarrow>
              if rpm \<le> 0 then (st, Inr [''rate_limit''])
              else let (bs, allowed, wait) = check_limit (ie_live env) (''deployment:'' @ py_str (jget (rc_deployment rc) ''id'')) rpm 1
                         (ie_now env) (if_buckets st); st1 = st\<lparr>if_buckets := bs\<rparr>
                   in if allowed then (st1, Inr [''rate_limit''])
                      else (st1, Inl (HttpExc 429 (JStr (''Rate limit exceeded. Limit: '' @ dec_int rpm @ '' RPM.''))
                             [(''Retry-After'', dec_int (py_trunc wait + 1))])))
     | _ \<Rightarrow> (st, Inl (PyExc ''AttributeError'')))"

definition quota_step :: "('c, 'q) inf_env \<Rightarrow> json \<Rightarrow> json \<Rightarrow> ('c, 'q) inf_state \<Rightarrow> ('c, 'q) inf_state \<times> (inf_exn + unit)" where
  "quota_step env user model st = on_client st (lone_call (quota_ops (ie_quota_ttl env) (ie_shown env) (ie_quota_cache env))
     (user, model) () (ie_quota env (user, model)) (if_client st))"

text \<open>Context, rate limit and quota, in this order; the first refusal ends the request.\<close>

definition admit :: "('c, 'q) inf_env \<Rightarrow> string \<Rightarrow> json \<Rightarrow> string \<Rightarrow> bool \<Rightarrow> ('c, 'q) inf_state
    \<Rightarrow> ('c, 'q) inf_state \<times> (inf_exn + req_context \<times> string list)" where
  "admit env api_key model model_type sandbox st =
    (case gateway_resolve env api_key model model_type sandbox st of
       (st1, Inl e) \<Rightarrow> (st1, Inl e)
     | (st1, Inr context) \<Rightarrow> (case read_context context of
         Inl e \<Rightarrow> (st1, Inl e)
       | Inr rc \<Rightarrow> (case rate_limit_step env rc st1 of
           (st2, Inl e) \<Rightarrow> (st2, Inl e)
         | (st2, Inr policies) \<Rightarrow> (case quota_step env (rc_user rc) model st2 of
             (st3, Inl e) \<Rightarrow> (st3, Inl e)
           | (st3, Inr _) \<Rightarrow> (st3, Inr (rc, policies @ [''quota'']))))))"

definition concurrency_key :: "jobj \<Rightarrow> json \<Rightarrow> string" where
  "concurrency_key d model = py_str (json_or (jget d ''id'') model)"

text \<open>Adapter, address and headers for the upstream; None is a missing endpoint.\<close>

definition provider_route :: "('c, 'q) inf_env \<Rightarrow> jobj \<Rightarrow> string option \<Rightarrow> string \<Rightarrow> adapter \<times> string \<times> headers" where
  "provider_route env d engine endpoint0 =
    (let (a, endpoint1) = resolve_upstream engine endpoint0 (ie_proxy_url env);
         (key, extra) = provider_auth d engine (ie_internal_key env);
         hs = hupdate (get_headers a key) extra
     in case envoy_route_headers d (ie_envoy_url env) of
          (Some u, eh) \<Rightarrow> (a, u, hupdate hs eh) | (None, _) \<Rightarrow> (a, endpoint1, hs))"

definition exn_status :: "inf_exn \<Rightarrow> int" where
  "exn_status e = (case e of HttpExc s _ _ \<Rightarrow> s | PyExc _ \<Rightarrow> 500)"

definition exn_message :: "inf_exn \<Rightarrow> json" where
  "exn_message e = (case e of HttpExc _ d _ \<Rightarrow> JStr (py_str d) | PyExc n \<Rightarrow> JStr n)"

definition schedule_log :: "log_args \<Rightarrow> ('c, 'q) inf_state \<Rightarrow> ('c, 'q) inf_state" where
  "schedule_log a st = st\<lparr>if_logs := if_logs st @ [a]\<rparr>"

section \<open>Chat completions\<close>

datatype answer = Body json | Stream "string list"

definition completion_log :: "req_context \<Rightarrow> json \<Rightarrow> jobj \<Rightarrow> string list \<Rightarrow> string option \<Rightarrow> log_args" where
  "completion_log rc model body policies ip = \<lparr>la_deployment_id = jget (rc_deployment rc) ''id'', la_user_id = rc_user rc, la_model = model,
     la_request_payload = body, la_request_type = ''llm'', la_applied_policies = policies, la_log_payloads = rc_log_payloads rc,
     la_ip_address = ip, la_status_code = 200, la_error_message = None, la_prompt_tokens = JInt 0, la_completion_tokens = JInt 0,
     la_ttft_ms = None, la_is_streaming = False, la_input_count = None, la_n_items = None\<rparr>"

text \<open>\<^verbatim>\<open>usage = response_data.get("usage", {})\<close> and the two counts.\<close>

definition response_usage :: "json \<Rightarrow> inf_exn + json \<times> json" where
  "response_usage v = (case as_dict v of Inl e \<Rightarrow> Inl (PyExc e)
   | Inr d \<Rightarrow> (case as_dict (jget_or d ''usage'' (JObj [])) of Inl e \<Rightarrow> Inl (PyExc e)
     | Inr u \<Rightarrow> Inr (jget_or u ''prompt_tokens'' (JInt 0), jget_or u ''completion_tokens'' (JInt 0))))"

definition handle_standard :: "('c, 'q) inf_env \<Rightarrow> string \<Rightarrow> jobj \<Rightarrow> headers \<Rightarrow> string option \<Rightarrow> string \<Rightarrow> log_args
    \<Rightarrow> ('c, 'q) inf_state \<Rightarrow> ('c, 'q) inf_state \<times> (inf_exn + answer)" where
  "handle_standard env endpoint payload hs engine key la st =
    (case call_upstream env endpoint payload hs engine [] key True st of
       (st1, Inl e) \<Rightarrow> (schedule_log (la\<lparr>la_status_code := exn_status e, la_error_message := Some (exn_message e)\<rparr>) st1, Inl e)
     | (st1, Inr v) \<Rightarrow> (case response_usage v of
         Inl e \<Rightarrow> (schedule_log (la\<lparr>la_status_code := exn_status e, la_error_message := Some (exn_message e)\<rparr>) st1, Inl e)
       | Inr (p, c) \<Rightarrow> (schedule_log (la\<lparr>la_prompt_tokens := p, la_completion_tokens := c\<rparr>) st1, Inr (Body v))))"

text \<open>The wrapper that watches the chunks for an upstream error.\<close>

definition stream_status :: "string list \<Rightarrow> int \<times> json option" where
  "stream_status chunks = foldl (\<lambda>acc c. if py_in ([CHR 0x22] @ ''error'' @ [CHR 0x22] @ '':'') c \<and> py_in ''Upstream Error'' c
     then (502, Some (JStr (decode_ignore c))) else acc) (200, None) chunks"

definition handle_streaming :: "('c, 'q) inf_env \<Rightarrow> string \<Rightarrow> jobj \<Rightarrow> headers \<Rightarrow> string option \<Rightarrow> string \<Rightarrow> json \<Rightarrow> (nat \<Rightarrow> int) \<Rightarrow> log_args
    \<Rightarrow> ('c, 'q) inf_state \<Rightarrow> ('c, 'q) inf_state \<times> (inf_exn + answer)" where
  "handle_streaming env endpoint payload hs engine key model elapsed la st =
    (let tokenizer = py_str (json_or (jget payload ''model'') model) in
     case estimate_prompt_tokens (ie_count env) (jget_or payload ''messages'' (JArr [])) tokenizer of
       Inl e \<Rightarrow> (st, Inl (PyExc e))
     | Inr prompt \<Rightarrow> (case stream_upstream env endpoint payload hs engine key st of
         (st1, Inl e) \<Rightarrow> (schedule_log (la\<lparr>la_status_code := exn_status e, la_error_message := Some (exn_message e),
             la_prompt_tokens := JInt prompt, la_is_streaming := True\<rparr>) st1, Inl e)
       | (st1, Inr chunks) \<Rightarrow>
          (let timed_chunks = zip chunks (map elapsed [0..<length chunks]);
               (out, u) = process_stream (ie_loads env) (ie_count env) timed_chunks (elapsed (length chunks)) (new_tracker prompt tokenizer);
               (status, err) = stream_status out
           in (schedule_log (la\<lparr>la_status_code := status, la_error_message := err, la_prompt_tokens := ut_prompt_tokens u,
                 la_completion_tokens := ut_completion_tokens u, la_ttft_ms := ut_ttft_ms u, la_is_streaming := True\<rparr>) st1,
               Inr (Stream out)))))"

text \<open>The steps after admission, and the handler.\<close>

definition dispatch_completion :: "('c, 'q) inf_env \<Rightarrow> req_context \<Rightarrow> string list \<Rightarrow> jobj \<Rightarrow> string option \<Rightarrow> (nat \<Rightarrow> int) \<Rightarrow> ('c, 'q) inf_state
    \<Rightarrow> ('c, 'q) inf_state \<times> (inf_exn + answer)" where
  "dispatch_completion env rc policies body ip elapsed st =
    (let d = rc_deployment rc; model = jget body ''model''; messages = jget_or body ''messages'' (JArr []) in
     case jstr (jget d ''endpoint'') of
       Some (c # s) \<Rightarrow>
         (let engine = jstr (jget_or d ''engine'' (JStr ''vllm''));
              (a, endpoint, hs) = provider_route env d engine (py_strip (c # s));
              payload1 = AList.update ''messages'' messages body;
              payload = (if truthy (upstream_model d) then AList.update ''model'' (upstream_model d) payload1 else payload1);
              la = completion_log rc model body policies ip; key = concurrency_key d model
          in if truthy (jget body ''stream'') then handle_streaming env endpoint payload hs engine key model elapsed la st
             else handle_standard env endpoint payload hs engine key la st)
     | _ \<Rightarrow> (st, Inl (http_exc 500 ''Deployment misconfiguration: No endpoint_url provided'')))"

definition handle_completion :: "('c, 'q) inf_env \<Rightarrow> string \<Rightarrow> jobj \<Rightarrow> string option \<Rightarrow> bool \<Rightarrow> (nat \<Rightarrow> int) \<Rightarrow> ('c, 'q) inf_state
    \<Rightarrow> ('c, 'q) inf_state \<times> (inf_exn + answer)" where
  "handle_completion env api_key body ip sandbox elapsed st =
    (let model = jget body ''model'' in
     if \<not> truthy model \<or> \<not> truthy (jget_or body ''messages'' (JArr [])) then (st, Inl (http_exc 400 ''Model and messages are required''))
     else case admit env api_key model ''inference'' sandbox st of
       (st1, Inl e) \<Rightarrow> (st1, Inl e)
     | (st1, Inr (rc, policies)) \<Rightarrow> dispatch_completion env rc policies body ip elapsed st1)"

section \<open>Embeddings, images and videos\<close>

text \<open>\<^verbatim>\<open>Pipeline.resolve_provider\<close>: the route, and the body with its model replaced.\<close>

definition resolve_provider :: "('c, 'q) inf_env \<Rightarrow> jobj \<Rightarrow> string \<Rightarrow> jobj \<Rightarrow> string option \<times> (adapter \<times> string \<times> headers) \<times> jobj" where
  "resolve_provider env d default_engine body =
    (let engine = jstr (jget_or d ''engine'' (JStr default_engine));
         endpoint = (case jstr (jget_or d ''endpoint'' (JStr [])) of None \<Rightarrow> [] | Some e \<Rightarrow> e);
         body1 = (if truthy (jget d ''inference_model'') then AList.update ''model'' (jget d ''inference_model'') body
                  else if is_external_provider engine \<and> truthy (jget (credentials d) ''model'')
                  then AList.update ''model'' (jget (credentials d) ''model'') body else body)
     in (engine, provider_route env d engine endpoint, body1))"

record media_request =
  mr_model_type :: string
  mr_request_type :: string
  mr_default_engine :: string
  mr_extra :: "string list"

definition add_extra :: "string list \<Rightarrow> jobj \<Rightarrow> jobj \<Rightarrow> jobj" where
  "add_extra names body payload = foldl (\<lambda>p k. case map_of body k of None \<Rightarrow> p | Some v \<Rightarrow> AList.update k v p) payload names"

text \<open>
  The body of the handlers for embeddings, images and videos: the payload is transformed by the adapter of the route, the extra
  fields are added, and \<^verbatim>\<open>call_upstream\<close> transforms it once more.  An endpoint that is null raises inside the guarded call.
\<close>

definition handle_media :: "('c, 'q) inf_env \<Rightarrow> media_request \<Rightarrow> string \<Rightarrow> jobj \<Rightarrow> string option \<Rightarrow> bool \<Rightarrow> (log_args \<Rightarrow> json \<Rightarrow> inf_exn + log_args)
    \<Rightarrow> log_args \<Rightarrow> ('c, 'q) inf_state \<Rightarrow> ('c, 'q) inf_state \<times> (inf_exn + answer)" where
  "handle_media env mr api_key body ip sandbox count_usage la0 st =
    (let model = jget_or body ''model'' (JStr []) in
     case admit env api_key model (mr_model_type mr) sandbox st of
       (st1, Inl e) \<Rightarrow> (st1, Inl e)
     | (st1, Inr (rc, policies)) \<Rightarrow>
        (let d = rc_deployment rc; (engine, (a, endpoint, hs), body1) = resolve_provider env d (mr_default_engine mr) body in
         case transform_request a body1 of
           Inl e \<Rightarrow> (st1, Inl (PyExc e))
         | Inr p \<Rightarrow>
            (let payload = add_extra (mr_extra mr) body1 p; key = concurrency_key d model;
                 la = la0\<lparr>la_deployment_id := jget d ''id'', la_user_id := rc_user rc, la_model := model, la_request_payload := body1,
                   la_applied_policies := policies, la_log_payloads := rc_log_payloads rc, la_ip_address := ip\<rparr>;
                 called = (if endpoint = [] \<and> jget_or d ''endpoint'' (JStr []) = JNull then (st1, Inl (PyExc ''AttributeError''))
                           else call_upstream env endpoint payload hs engine (get_endpoint_path a (mr_request_type mr)) key True st1)
             in case called of
                  (st2, Inl e) \<Rightarrow> (schedule_log (la\<lparr>la_status_code := exn_status e, la_error_message := Some (exn_message e)\<rparr>) st2, Inl e)
                | (st2, Inr v) \<Rightarrow> (case count_usage la v of
                    Inl e \<Rightarrow> (schedule_log (la\<lparr>la_status_code := exn_status e, la_error_message := Some (exn_message e)\<rparr>) st2, Inl e)
                  | Inr la1 \<Rightarrow> (schedule_log la1 st2, Inr (Body v))))))"

definition media_log :: "string \<Rightarrow> json option \<Rightarrow> json option \<Rightarrow> log_args" where
  "media_log request_type input_count n_items = \<lparr>la_deployment_id = JNull, la_user_id = JNull, la_model = JNull, la_request_payload = [],
     la_request_type = request_type, la_applied_policies = [], la_log_payloads = True, la_ip_address = None, la_status_code = 200,
     la_error_message = None, la_prompt_tokens = JInt 0, la_completion_tokens = JInt 0, la_ttft_ms = None, la_is_streaming = False,
     la_input_count = input_count, la_n_items = n_items\<rparr>"

definition handle_embeddings :: "('c, 'q) inf_env \<Rightarrow> string \<Rightarrow> jobj \<Rightarrow> string option \<Rightarrow> bool \<Rightarrow> ('c, 'q) inf_state
    \<Rightarrow> ('c, 'q) inf_state \<times> (inf_exn + answer)" where
  "handle_embeddings env api_key body ip sandbox st =
    (let input = jget body ''input'' in
     if \<not> truthy (jget_or body ''model'' (JStr [])) \<or> \<not> truthy input then (st, Inl (http_exc 400 ''Model and input are required''))
     else handle_media env \<lparr>mr_model_type = ''embedding'', mr_request_type = ''embedding'', mr_default_engine = ''infinity'', mr_extra = []\<rparr>
       api_key body ip sandbox
       (\<lambda>la v. case response_usage v of Inl e \<Rightarrow> Inl e | Inr (p, c) \<Rightarrow> Inr (la\<lparr>la_prompt_tokens := p\<rparr>))
       (media_log ''embedding'' (Some (JInt (case input of JArr xs \<Rightarrow> int (length xs) | _ \<Rightarrow> 1))) None) st)"

definition media_handler :: "string \<Rightarrow> string \<Rightarrow> string \<Rightarrow> string list \<Rightarrow> ('c, 'q) inf_env \<Rightarrow> string \<Rightarrow> jobj \<Rightarrow> string option \<Rightarrow> bool
    \<Rightarrow> ('c, 'q) inf_state \<Rightarrow> ('c, 'q) inf_state \<times> (inf_exn + answer)" where
  "media_handler model_type request_type default_engine extra env api_key body ip sandbox st =
    handle_media env \<lparr>mr_model_type = model_type, mr_request_type = request_type, mr_default_engine = default_engine, mr_extra = extra\<rparr>
      api_key body ip sandbox (\<lambda>la v. Inr la) (media_log request_type None (Some (jget_or body ''n'' (JInt 1)))) st"

definition handle_image_generation :: "('c, 'q) inf_env \<Rightarrow> string \<Rightarrow> jobj \<Rightarrow> string option \<Rightarrow> bool \<Rightarrow> ('c, 'q) inf_state
    \<Rightarrow> ('c, 'q) inf_state \<times> (inf_exn + answer)" where
  "handle_image_generation env api_key body ip sandbox st =
    (if \<not> truthy (jget body ''model'') \<or> \<not> truthy (jget body ''prompt'') then (st, Inl (http_exc 400 ''Model and prompt are required''))
     else media_handler ''image_generation'' ''image_generation'' ''localai'' [] env api_key body ip sandbox st)"

definition handle_image_edit :: "('c, 'q) inf_env \<Rightarrow> string \<Rightarrow> jobj \<Rightarrow> string option \<Rightarrow> bool \<Rightarrow> ('c, 'q) inf_state
    \<Rightarrow> ('c, 'q) inf_state \<times> (inf_exn + answer)" where
  "handle_image_edit env api_key body ip sandbox st =
    (if \<not> truthy (jget body ''model'') \<or> \<not> truthy (jget body ''prompt'') then (st, Inl (http_exc 400 ''Model and prompt are required''))
     else media_handler ''image_generation'' ''image_edit'' ''inferia-diffusion'' [''image'', ''mask''] env api_key body ip sandbox st)"

definition handle_image_variations :: "('c, 'q) inf_env \<Rightarrow> string \<Rightarrow> jobj \<Rightarrow> string option \<Rightarrow> bool \<Rightarrow> ('c, 'q) inf_state
    \<Rightarrow> ('c, 'q) inf_state \<times> (inf_exn + answer)" where
  "handle_image_variations env api_key body ip sandbox st =
    (if \<not> truthy (jget body ''model'') then (st, Inl (http_exc 400 ''Model is required''))
     else if \<not> truthy (jget body ''image'') then (st, Inl (http_exc 400 ''Image is required''))
     else media_handler ''image_generation'' ''image_variations'' ''inferia-diffusion'' [''image''] env api_key body ip sandbox st)"

definition handle_video_generation :: "('c, 'q) inf_env \<Rightarrow> string \<Rightarrow> jobj \<Rightarrow> string option \<Rightarrow> bool \<Rightarrow> ('c, 'q) inf_state
    \<Rightarrow> ('c, 'q) inf_state \<times> (inf_exn + answer)" where
  "handle_video_generation env api_key body ip sandbox st =
    (if \<not> truthy (jget body ''model'') \<or> \<not> truthy (jget body ''prompt'') then (st, Inl (http_exc 400 ''Model and prompt are required''))
     else media_handler ''video_generation'' ''video_generation'' ''inferia-diffusion'' [] env api_key body ip sandbox st)"

definition handle_video_edit :: "('c, 'q) inf_env \<Rightarrow> string \<Rightarrow> jobj \<Rightarrow> string option \<Rightarrow> bool \<Rightarrow> ('c, 'q) inf_state
    \<Rightarrow> ('c, 'q) inf_state \<times> (inf_exn + answer)" where
  "handle_video_edit env api_key body ip sandbox st =
    (if \<not> truthy (jget body ''model'') then (st, Inl (http_exc 400 ''Model is required''))
     else if \<not> truthy (jget body ''video'') then (st, Inl (http_exc 400 ([CHR 0x27] @ ''video'' @ [CHR 0x27] @ '' (base64) is required for video edits'')))
     else media_handler ''video_generation'' ''video_edit'' ''inferia-diffusion'' [''video''] env api_key body ip sandbox st)"

definition handle_video_extension :: "('c, 'q) inf_env \<Rightarrow> string \<Rightarrow> jobj \<Rightarrow> string option \<Rightarrow> bool \<Rightarrow> ('c, 'q) inf_state
    \<Rightarrow> ('c, 'q) inf_state \<times> (inf_exn + answer)" where
  "handle_video_extension env api_key body ip sandbox st =
    (if \<not> truthy (jget body ''model'') then (st, Inl (http_exc 400 ''Model is required''))
     else if \<not> truthy (jget body ''video'') then (st, Inl (http_exc 400 ([CHR 0x27] @ ''video'' @ [CHR 0x27] @ '' (base64) is required for video extensions'')))
     else if \<not> truthy (jget body ''prompt'') then (st, Inl (http_exc 400 ([CHR 0x27] @ ''prompt'' @ [CHR 0x27] @ '' is required for video extensions'')))
     else media_handler ''video_generation'' ''video_extension'' ''inferia-diffusion'' [''video''] env api_key body ip sandbox st)"

text \<open>The status of a video goes to the provider without rate limit, quota, address check or log entry.\<close>

definition video_outcome :: "adapter \<Rightarrow> string \<Rightarrow> string \<Rightarrow> up_reply \<Rightarrow> inf_exn + answer" where
  "video_outcome a video_id shown reply = (case reply of
     UpFail \<Rightarrow> Inl (http_exc 502 shown)
   | UpReply status _ _ body \<Rightarrow>
      if status = 404 then Inr (Body (JObj [(''status'', JStr ''processing''), (''id'', JStr video_id)]))
      else if \<not> is_success status then Inl (http_exc status shown)
      else (case body of
          Some (JObj d) \<Rightarrow> if jget_or d ''status'' (JStr ''unknown'') = JStr ''failed''
            then Inl (HttpExc 500 (jget_or d ''error'' (JStr ''Video generation failed'')) [])
            else (case transform_response a (JObj d) of Inl e \<Rightarrow> Inl (http_exc 502 shown) | Inr v \<Rightarrow> Inr (Body v))
        | _ \<Rightarrow> Inl (http_exc 502 shown)))"

definition handle_video_status :: "('c, 'q) inf_env \<Rightarrow> string \<Rightarrow> string \<Rightarrow> json \<Rightarrow> bool \<Rightarrow> ('c, 'q) inf_state
    \<Rightarrow> ('c, 'q) inf_state \<times> (inf_exn + answer)" where
  "handle_video_status env api_key video_id model sandbox st =
    (case gateway_resolve env api_key model ''video_generation'' sandbox st of
       (st1, Inl e) \<Rightarrow> (st1, Inl e)
     | (st1, Inr context) \<Rightarrow> (case py_bind (jitem context ''deployment'') (\<lambda>v. case as_dict v of Inl e \<Rightarrow> Inl (PyExc e) | Inr d \<Rightarrow> Inr d) of
         Inl e \<Rightarrow> (st1, Inl e)
       | Inr d \<Rightarrow>
          (let engine = jstr (jget_or d ''engine'' (JStr ''inferia-diffusion'')); a = get_adapter engine;
               (key, extra) = provider_auth d engine (ie_internal_key env);
               hs = hupdate (get_headers a key) extra;
               endpoint0 = (case jstr (jget_or d ''endpoint'' (JStr [])) of None \<Rightarrow> [] | Some e \<Rightarrow> e);
               (envoy, eh) = envoy_route_headers d (ie_envoy_url env)
           in case (case envoy of Some u \<Rightarrow> Some (u, hupdate hs eh)
                 | None \<Rightarrow> if starts_with endpoint0 ''http://'' \<or> starts_with endpoint0 ''https://'' then Some (endpoint0, hs) else None) of
                None \<Rightarrow> (st1, Inl (http_exc 502 ''Video endpoint URL is invalid or missing''))
              | Some (endpoint, hs1) \<Rightarrow>
                 (let req = \<lparr>ur_url = rstrip_slash endpoint @ ''/generate/v1/videos/'' @ video_id, ur_payload = [], ur_headers = hs1\<rparr>
                  in (st1\<lparr>if_sent := if_sent st1 @ [req]\<rparr>, video_outcome a video_id (ie_shown env) (ie_upstream env req))))))"

section \<open>Keys and addresses of clients\<close>

text \<open>\<^verbatim>\<open>verify\<close> gives the claims of a valid token of the identity provider, \<^verbatim>\<open>decode\<close> those of a local token.\<close>

definition sandbox_key_from_claims :: "jobj \<Rightarrow> string" where
  "sandbox_key_from_claims claims =
    (let sub = py_str (json_or (jget_or claims ''sub'' (JStr [])) (JStr []));
         user_id = (case split_first CHR '':'' sub of None \<Rightarrow> sub | Some (_, r) \<Rightarrow> r);
         org = (if truthy (jget claims ''org_id'') then jget claims ''org_id''
                else (case jget claims ''org_ids'' of JArr (o1 # _) \<Rightarrow> o1 | _ \<Rightarrow> JNull))
     in ''sandbox:'' @ py_str org @ '':'' @ user_id)"

definition extract_api_key :: "bool \<Rightarrow> (string \<Rightarrow> jobj option) \<Rightarrow> (string \<Rightarrow> jobj option) \<Rightarrow> string option \<Rightarrow> bool \<Rightarrow> inf_exn + string" where
  "extract_api_key external_mode verify decode authorization sandbox = (case authorization of
     Some h \<Rightarrow>
       if \<not> starts_with h ''Bearer '' then Inl (http_exc 401 ''Invalid API Key format'')
       else let token = split_on CHR '' '' h ! 1 in
         if \<not> sandbox then Inr token
         else if external_mode then (case verify token of
             None \<Rightarrow> Inl (http_exc 401 ''Invalid JWT token for sandbox mode'') | Some claims \<Rightarrow> Inr (sandbox_key_from_claims claims))
         else (case decode token of
             None \<Rightarrow> Inl (http_exc 401 ''Invalid JWT token for sandbox mode'')
           | Some p \<Rightarrow> if jget p ''type'' \<noteq> JStr ''access'' then Inl (http_exc 401 ''Invalid token type for sandbox mode'')
               else Inr (''sandbox:'' @ py_str (jget p ''org_id'') @ '':'' @ py_str (jget p ''sub'')))
   | None \<Rightarrow> Inl (http_exc 401 ''Invalid API Key format''))"

definition first_address :: "string option \<Rightarrow> string option" where
  "first_address raw = (case nonempty_str raw of None \<Rightarrow> None | Some r \<Rightarrow> nonempty_str (Some (py_strip (hd (split_on CHR '','' r)))))"

definition extract_client_ip :: "(string \<Rightarrow> string option) \<Rightarrow> string option \<Rightarrow> string option" where
  "extract_client_ip header client =
    (case concat (map (\<lambda>n. case first_address (header n) of None \<Rightarrow> [] | Some a \<Rightarrow> [a])
        [''X-IP-Address'', ''X-Client-IP'', ''X-Forwarded-For'', ''X-Real-IP'']) of
       a # _ \<Rightarrow> Some a | [] \<Rightarrow> nonempty_str client)"

text \<open>The header \<^verbatim>\<open>x-sandbox\<close>, and a completion request as the service receives it.\<close>

definition is_sandbox :: "string option \<Rightarrow> bool" where
  "is_sandbox h \<longleftrightarrow> (case h of None \<Rightarrow> False | Some s \<Rightarrow> py_lower s = ''true'')"

definition create_completion :: "('c, 'q) inf_env \<Rightarrow> bool \<Rightarrow> (string \<Rightarrow> jobj option) \<Rightarrow> (string \<Rightarrow> jobj option) \<Rightarrow> (string \<Rightarrow> string option) \<Rightarrow> string option
    \<Rightarrow> json option \<Rightarrow> string \<Rightarrow> (nat \<Rightarrow> int) \<Rightarrow> ('c, 'q) inf_state \<Rightarrow> ('c, 'q) inf_state \<times> (inf_exn + answer)" where
  "create_completion env external_mode verify decode header client body parse_error elapsed st =
    (let sandbox = is_sandbox (header ''x-sandbox'') in
     case extract_api_key external_mode verify decode (header ''authorization'') sandbox of
       Inl e \<Rightarrow> (st, Inl e)
     | Inr api_key \<Rightarrow> (case body of
         None \<Rightarrow> (st, Inl (http_exc 400 (''Invalid JSON in request body: '' @ parse_error)))
       | Some (JObj b) \<Rightarrow> handle_completion env api_key b (extract_client_ip header client) sandbox elapsed st
       | Some _ \<Rightarrow> (st, Inl (PyExc ''AttributeError''))))"

section \<open>Frames\<close>

definition same_traffic :: "('c, 'q) inf_state \<Rightarrow> ('c, 'q) inf_state \<Rightarrow> bool" where
  "same_traffic s t \<longleftrightarrow> if_sent t = if_sent s \<and> if_logs t = if_logs s \<and> if_breakers t = if_breakers s"

lemma same_traffic_refl [simp]: "same_traffic s s"
  by (simp add: same_traffic_def)

lemma same_traffic_trans: "same_traffic s t \<Longrightarrow> same_traffic t u \<Longrightarrow> same_traffic s u"
  by (simp add: same_traffic_def)

lemma on_client_traffic: "on_client st r = (st', x) \<Longrightarrow> same_traffic st st'"
  by (auto simp: on_client_def same_traffic_def)

lemma gateway_resolve_traffic: "gateway_resolve env api_key model ty sandbox st = (st', r) \<Longrightarrow> same_traffic st st'"
  by (auto simp: gateway_resolve_def split: if_splits prod.splits sum.splits dest!: on_client_traffic)

lemma rate_limit_traffic: "rate_limit_step env rc st = (st', r) \<Longrightarrow> same_traffic st st'"
  by (auto simp: rate_limit_step_def same_traffic_def Let_def split: if_splits json.splits option.splits prod.splits)

lemma quota_traffic: "quota_step env user model st = (st', r) \<Longrightarrow> same_traffic st st'"
  unfolding quota_step_def by (rule on_client_traffic)

lemma admit_traffic: "admit env api_key model ty sandbox st = (st', r) \<Longrightarrow> same_traffic st st'"
  unfolding admit_def
  by (auto split: prod.splits sum.splits dest!: gateway_resolve_traffic rate_limit_traffic quota_traffic intro: same_traffic_trans)

text \<open>What an admitted request has passed.\<close>

definition context_known :: "('c, 'q) inf_env \<Rightarrow> context_key \<Rightarrow> bool \<Rightarrow> ('c, 'q) client \<Rightarrow> jobj \<Rightarrow> bool" where
  "context_known env key sandbox c context \<longleftrightarrow> truthy (jget context ''valid'') \<and>
     (tc_get (ie_context_cache env) (cl_now c) key (cl_context_cache c) = Some context
      \<or> (\<exists>status. is_success status \<and> ie_context env key sandbox = Reply status (Some (JObj context))))"

definition quota_known :: "('c, 'q) inf_env \<Rightarrow> quota_key \<Rightarrow> ('c, 'q) client \<Rightarrow> bool" where
  "quota_known env key c \<longleftrightarrow>
     (0 < ie_quota_ttl env \<and> tc_get (ie_quota_cache env) (cl_now c) key (cl_quota_cache c) \<noteq> None)
     \<or> (\<exists>status body. is_success status \<and> ie_quota env key = Reply status body)"

lemma check_negative_clock: "check_negative_cache k c = (c1, e) \<Longrightarrow> cl_now c1 = cl_now c \<and> cl_quota_cache c1 = cl_quota_cache c \<and> cl_context_cache c1 = cl_context_cache c"
  by (auto simp: check_negative_cache_def split: option.splits if_splits)

lemma resolved_known:
  assumes "gateway_resolve env api_key model ty sandbox st = (st', Inr context)"
  shows "context_known env (api_key, model, ty) sandbox (if_client st) context
    \<and> cl_now (if_client st') = cl_now (if_client st) \<and> cl_quota_cache (if_client st') = cl_quota_cache (if_client st)"
proof -
  let ?tc = "ie_context_cache env" and ?key = "(api_key, model, ty)" and ?c = "if_client st"
  obtain c1 where call: "lone_call (context_ops ?tc) ?key sandbox (ie_context env ?key) ?c = (c1, Inr context)"
    and st': "st' = st\<lparr>if_client := c1\<rparr>" and valid: "truthy (jget context ''valid'')"
    using assms by (cases "lone_call (context_ops ?tc) ?key sandbox (ie_context env ?key) ?c")
      (auto simp: gateway_resolve_def on_client_def split: if_splits sum.splits)
  show ?thesis
  proof (cases "tc_get ?tc (cl_now ?c) ?key (cl_context_cache ?c)")
    case (Some data)
    then show ?thesis using call valid st' by (simp add: context_hit context_known_def)
  next
    case None
    obtain c2 e where neg: "check_negative_cache (Inl ?key) ?c = (c2, e)" by force
    with call have none: "e = None" and un: "resolve_context_uncached ?tc ?key (ie_context env ?key sandbox) c2 = (c1, Inr context)"
      unfolding context_call [OF None] by (auto split: option.splits)
    then have "\<exists>status. is_success status \<and> ie_context env ?key sandbox = Reply status (Some (JObj context))"
      and "cl_now c1 = cl_now c2" "cl_quota_cache c1 = cl_quota_cache c2"
      by (auto simp: resolve_context_uncached_def split: gw_reply.splits if_splits option.splits json.splits)
    then show ?thesis using check_negative_clock [OF neg] valid st' by (simp add: context_known_def)
  qed
qed

lemma quota_passed:
  assumes "quota_step env user model st = (st', Inr u)"
  shows "quota_known env (user, model) (if_client st)"
proof -
  let ?tc = "ie_quota_cache env" and ?key = "(user, model)" and ?c = "if_client st"
  have call: "snd (lone_call (quota_ops (ie_quota_ttl env) (ie_shown env) ?tc) ?key () (ie_quota env ?key) ?c) = Inr u"
    using assms by (auto simp: quota_step_def on_client_def)
  obtain c2 e where neg: "check_negative_cache (Inr ?key) ?c = (c2, e)" by force
  show ?thesis
  proof (rule ccontr)
    assume no: "\<not> quota_known env ?key ?c"
    then have miss: "\<not> (0 < ie_quota_ttl env \<and> tc_get ?tc (cl_now ?c) ?key (cl_quota_cache ?c) \<noteq> None)"
      by (simp add: quota_known_def)
    from call neg have "\<exists>c3. check_quota_uncached (ie_shown env) ?key (ie_quota env ?key) c2 = (c3, Inr u)"
      unfolding lone_call_def quota_ops_def using miss
      by (cases "check_quota_uncached (ie_shown env) ?key (ie_quota env ?key) c2") (auto split: option.splits)
    then show False using no by (auto simp: check_quota_uncached_def quota_known_def split: gw_reply.splits if_splits)
  qed
qed

definition rate_granted :: "('c, 'q) inf_env \<Rightarrow> req_context \<Rightarrow> inference_buckets \<Rightarrow> bool" where
  "rate_granted env rc buckets \<longleftrightarrow> (\<forall>cfg rpm. rc_rate_limit rc = JObj cfg \<and> cfg \<noteq> [] \<and> truthy (jget_or cfg ''enabled'' (JBool True))
     \<and> py_int (jget_or cfg ''rpm'' (JInt 0)) = Some rpm \<and> 0 < rpm \<longrightarrow>
     fst (snd (check_limit (ie_live env) (''deployment:'' @ py_str (jget (rc_deployment rc) ''id'')) rpm 1 (ie_now env) buckets)))"

lemma rate_limit_granted:
  assumes "rate_limit_step env rc st = (st', Inr policies)"
  shows "rate_granted env rc (if_buckets st) \<and> if_client st' = if_client st"
  using assms by (auto simp: rate_granted_def rate_limit_step_def Let_def split: if_splits json.splits option.splits prod.splits)

lemma quota_known_cong:
  "cl_now c' = cl_now c \<Longrightarrow> cl_quota_cache c' = cl_quota_cache c \<Longrightarrow> quota_known env key c' = quota_known env key c"
  by (simp add: quota_known_def)

lemma gateway_resolve_buckets: "gateway_resolve env api_key model ty sandbox st = (st', r) \<Longrightarrow> if_buckets st' = if_buckets st"
  by (auto simp: gateway_resolve_def on_client_def split: if_splits prod.splits sum.splits)

lemma admitted:
  assumes "admit env api_key model ty sandbox st = (st', Inr (rc, policies))"
  shows "\<exists>context. context_known env (api_key, model, ty) sandbox (if_client st) context \<and> read_context context = Inr rc
    \<and> rate_granted env rc (if_buckets st) \<and> quota_known env (rc_user rc, model) (if_client st)"
proof -
  obtain st1 cx st2 ps u where
    ctx: "gateway_resolve env api_key model ty sandbox st = (st1, Inr cx)" "read_context cx = Inr rc"
    and rate: "rate_limit_step env rc st1 = (st2, Inr ps)" and quota: "quota_step env (rc_user rc) model st2 = (st', Inr u)"
    using assms unfolding admit_def by (auto split: prod.splits sum.splits)
  have "quota_known env (rc_user rc, model) (if_client st)"
    using quota_passed [OF quota] rate_limit_granted [OF rate] resolved_known [OF ctx(1)]
      quota_known_cong [of "if_client st1" "if_client st"] by simp
  moreover have "rate_granted env rc (if_buckets st)"
    using rate_limit_granted [OF rate] gateway_resolve_buckets [OF ctx(1)] by simp
  ultimately show ?thesis using resolved_known [OF ctx(1)] ctx(2) by blast
qed

text \<open>What a request that goes out has passed: the address check, the header check, a slot and the breaker.\<close>

definition checked :: "('c, 'q) inf_env \<Rightarrow> up_request \<Rightarrow> bool" where
  "checked env req \<longleftrightarrow> validate_upstream_url (ur_url req) (get_allowed_hosts (ie_allowed_hosts env)) = Inr (ur_url req)
     \<and> (\<forall>(k, v) \<in> set (ur_headers req). \<not> has_crlf k \<and> \<not> has_crlf v)"

definition dispatched :: "('c, 'q) inf_env \<Rightarrow> string \<Rightarrow> ('c, 'q) inf_state \<Rightarrow> up_request \<Rightarrow> ('c, 'q) inf_state \<Rightarrow> bool" where
  "dispatched env key st req st' \<longleftrightarrow> if_sent st' = if_sent st @ [req] \<and> checked env req \<and> ie_slot env key
     \<and> snd (can_execute (ie_now env) (upstream_breaker key st))"

lemma validate_same: "validate_upstream_url url hosts = Inr url' \<Longrightarrow> url' = url"
  by (auto simp: validate_upstream_url_def split: if_splits sum.splits option.splits)

lemma checked_request:
  "validate_upstream_url u (get_allowed_hosts (ie_allowed_hosts env)) = Inr url \<Longrightarrow>
   checked env \<lparr>ur_url = url, ur_payload = p, ur_headers = sanitize_headers hs\<rparr>"
  using validate_same by (fastforce simp: checked_def sanitize_headers_def)

lemma put_breaker_traffic [simp]: "if_sent (put_breaker b st) = if_sent st" "if_logs (put_breaker b st) = if_logs st"
  by (simp_all add: put_breaker_def)

lemma call_upstream_traffic:
  assumes "call_upstream env ep payload hs engine path key tr st = (st', r)"
  shows "if_logs st' = if_logs st \<and> (if_sent st' = if_sent st \<or>
    (\<exists>req. dispatched env key st req st' \<and> transform_request (get_adapter engine) payload = Inr (ur_payload req)))"
  using assms unfolding call_upstream_def
  by (auto simp: dispatched_def Let_def dest: checked_request split: sum.splits prod.splits if_splits)

lemma stream_upstream_traffic:
  assumes "stream_upstream env ep payload hs engine key st = (st', r)"
  shows "if_logs st' = if_logs st \<and> (if_sent st' = if_sent st \<or>
    (\<exists>req. dispatched env key st req st' \<and> transform_request (get_adapter engine) payload = Inr (ur_payload req)))"
  using assms unfolding stream_upstream_def
  by (auto simp: dispatched_def Let_def dest: checked_request split: sum.splits prod.splits if_splits)

text \<open>What the log entry of a request says about its result.\<close>

definition log_agrees :: "log_args \<Rightarrow> inf_exn + answer \<Rightarrow> bool" where
  "log_agrees la r = (case r of
     Inl e \<Rightarrow> la_status_code la = exn_status e \<and> la_error_message la = Some (exn_message e)
   | Inr (Body v) \<Rightarrow> la_status_code la = 200 \<and> response_usage v = Inr (la_prompt_tokens la, la_completion_tokens la)
   | Inr (Stream out) \<Rightarrow> la_is_streaming la)"

lemma handle_standard_run:
  assumes "handle_standard env ep payload hs engine key la st = (st', r)" "la_status_code la = 200"
  shows "\<exists>la'. if_logs st' = if_logs st @ [la'] \<and> la_user_id la' = la_user_id la \<and> la_model la' = la_model la \<and> log_agrees la' r
    \<and> (if_sent st' = if_sent st \<or> (\<exists>req. dispatched env key st req st'))"
proof -
  obtain st1 c where call: "call_upstream env ep payload hs engine [] key True st = (st1, c)" by force
  show ?thesis
    using assms call_upstream_traffic [OF call] unfolding handle_standard_def call
    by (auto simp: schedule_log_def log_agrees_def dispatched_def split: sum.splits prod.splits)
qed

lemma handle_streaming_run:
  assumes "handle_streaming env ep payload hs engine key model elapsed la st = (st', r)" "if_sent st' \<noteq> if_sent st"
  shows "\<exists>la'. if_logs st' = if_logs st @ [la'] \<and> la_user_id la' = la_user_id la \<and> la_model la' = la_model la \<and> log_agrees la' r
    \<and> (\<exists>req. dispatched env key st req st')"
proof -
  obtain st1 c where call: "stream_upstream env ep payload hs engine key st = (st1, c)" by force
  show ?thesis
    using assms stream_upstream_traffic [OF call] unfolding handle_streaming_def call Let_def
    by (auto simp: schedule_log_def log_agrees_def dispatched_def split: sum.splits prod.splits)
qed

lemma dispatch_run:
  assumes run: "dispatch_completion env rc policies body ip elapsed st = (st', r)" and sent: "if_sent st' \<noteq> if_sent st"
  shows "\<exists>la req. dispatched env (concurrency_key (rc_deployment rc) (jget body ''model'')) st req st' \<and> if_logs st' = if_logs st @ [la]
    \<and> la_user_id la = rc_user rc \<and> la_model la = jget body ''model'' \<and> log_agrees la r"
proof -
  let ?d = "rc_deployment rc" and ?model = "jget body ''model''"
  define la where "la = completion_log rc ?model body policies ip"
  have la: "la_status_code la = 200" "la_user_id la = rc_user rc" "la_model la = ?model"
    by (simp_all add: la_def completion_log_def)
  obtain c s where ep: "jstr (jget ?d ''endpoint'') = Some (c # s)"
    using run sent by (auto simp: dispatch_completion_def Let_def split: option.splits list.splits)
  obtain a endpoint hs where route: "provider_route env ?d (jstr (jget_or ?d ''engine'' (JStr ''vllm''))) (py_strip (c # s)) = (a, endpoint, hs)"
    by (metis prod_cases3)
  show ?thesis
  proof (cases "truthy (jget body ''stream'')")
    case True
    with run ep route have "\<exists>payload. handle_streaming env endpoint payload hs (jstr (jget_or ?d ''engine'' (JStr ''vllm''))) (concurrency_key ?d ?model)
        ?model elapsed la st = (st', r)"
      by (auto simp: dispatch_completion_def la_def Let_def)
    then show ?thesis using handle_streaming_run [OF _ sent] la by metis
  next
    case False
    with run ep route have "\<exists>payload. handle_standard env endpoint payload hs (jstr (jget_or ?d ''engine'' (JStr ''vllm''))) (concurrency_key ?d ?model)
        la st = (st', r)"
      by (auto simp: dispatch_completion_def la_def Let_def)
    then show ?thesis using handle_standard_run [OF _ la(1)] la sent by metis
  qed
qed

lemma completion_run:
  assumes run: "handle_completion env api_key body ip sandbox elapsed st = (st', r)" and sent: "if_sent st' \<noteq> if_sent st"
  obtains rc policies st1 where "admit env api_key (jget body ''model'') ''inference'' sandbox st = (st1, Inr (rc, policies))"
    "same_traffic st st1" "dispatch_completion env rc policies body ip elapsed st1 = (st', r)" "if_sent st' \<noteq> if_sent st1"
proof -
  obtain st1 a where adm: "admit env api_key (jget body ''model'') ''inference'' sandbox st = (st1, a)" by force
  have same: "same_traffic st st1" by (rule admit_traffic [OF adm])
  then have sent1: "if_sent st' \<noteq> if_sent st1" using sent by (simp add: same_traffic_def)
  show thesis
  proof (cases a)
    case (Inl e)
    then show thesis using run sent sent1 adm by (simp add: handle_completion_def Let_def split: if_splits)
  next
    case (Inr p)
    then show thesis using run sent sent1 adm same that by (cases p) (simp add: handle_completion_def Let_def split: if_splits)
  qed
qed

section \<open>Properties\<close>

text \<open>
  C5: Nothing reaches a provider unadmitted.  Every chat completion that leads to an upstream request was resolved to a valid context
  (cached, or answered by the gateway for this key, model and sandbox flag), was granted by the deployment's rate limit, had its
  quota confirmed (recently, or by the gateway), got a concurrency slot and was let through by the breaker; the one request sent
  passed the address check and carries no header with a line break.
\<close>

theorem upstream_only_admitted:
  assumes "handle_completion env api_key body ip sandbox elapsed st = (st', r)" "if_sent st' \<noteq> if_sent st"
  shows "\<exists>cx rc req. context_known env (api_key, jget body ''model'', ''inference'') sandbox (if_client st) cx \<and> read_context cx = Inr rc
    \<and> rate_granted env rc (if_buckets st) \<and> quota_known env (rc_user rc, jget body ''model'') (if_client st)
    \<and> dispatched env (concurrency_key (rc_deployment rc) (jget body ''model'')) st req st'"
proof -
  obtain rc policies st1 where run: "admit env api_key (jget body ''model'') ''inference'' sandbox st = (st1, Inr (rc, policies))"
    "same_traffic st st1" "dispatch_completion env rc policies body ip elapsed st1 = (st', r)" "if_sent st' \<noteq> if_sent st1"
    using completion_run [OF assms] .
  obtain req where "dispatched env (concurrency_key (rc_deployment rc) (jget body ''model'')) st1 req st'"
    using dispatch_run [OF run(3,4)] by blast
  then have "dispatched env (concurrency_key (rc_deployment rc) (jget body ''model'')) st req st'"
    using run(2) by (simp add: dispatched_def same_traffic_def upstream_breaker_def)
  then show ?thesis using admitted [OF run(1)] by blast
qed


section \<open>An example\<close>

definition demo_reply :: jobj where
  "demo_reply = [(''valid'', JBool True), (''deployment'', JObj [(''id'', JStr ''d1''), (''endpoint'', JStr ''http://10.2.0.7''),
     (''engine'', JStr ''vllm''), (''configuration'', JNull), (''inference_token'', JStr ''tok'')]),
     (''user_id_context'', JStr ''apikey:1''), (''rate_limit_config'', JNull), (''log_payloads'', JBool True)]"

definition demo_inf :: "((context_key \<times> int \<times> jobj) list, (quota_key \<times> int \<times> int) list) inf_env" where
  "demo_inf = \<lparr>ie_internal_key = ''secret'', ie_allowed_hosts = ''10.2.0.7'', ie_envoy_url = None, ie_proxy_url = None, ie_max_bytes = 100,
     ie_context_cache = list_cache 30000, ie_quota_cache = list_cache 1000, ie_quota_ttl = 1000, ie_shown = ''error'', ie_now = 1, ie_done = 2,
     ie_live = (\<lambda>_. True), ie_slot = (\<lambda>_. True), ie_context = (\<lambda>_ _. Reply 200 (Some (JObj demo_reply))), ie_quota = (\<lambda>_. Reply 200 None),
     ie_upstream = (\<lambda>_. UpReply 200 None 10 (Some (JObj [(''usage'', JObj [(''prompt_tokens'', JInt 3)])]))),
     ie_stream = (\<lambda>_. StreamFail), ie_loads = (\<lambda>_. None), ie_count = (\<lambda>_ _. None)\<rparr>"

definition demo_state :: "((context_key \<times> int \<times> jobj) list, (quota_key \<times> int \<times> int) list) inf_state" where
  "demo_state = \<lparr>if_client = idle_client, if_buckets = (\<lambda>_. None), if_breakers = [], if_sent = [], if_logs = []\<rparr>"

definition demo_body :: jobj where
  "demo_body = [(''model'', JStr ''m''), (''messages'', JArr [JObj [(''role'', JStr ''user''), (''content'', JStr ''hi'')]])]"

lemma demo_sends: "if_sent (fst (handle_completion demo_inf ''k'' demo_body None False (\<lambda>_. 0) demo_state)) \<noteq> []"
  by code_simp

theorem upstream_only_admitted_witness:
  "\<exists>cx rc req. context_known demo_inf (''k'', JStr ''m'', ''inference'') False idle_client cx \<and> read_context cx = Inr rc \<and> checked demo_inf req"
proof -
  let ?run = "handle_completion demo_inf ''k'' demo_body None False (\<lambda>_. 0) demo_state"
  obtain st' r where run: "?run = (st', r)" by force
  have "if_sent st' \<noteq> if_sent demo_state" using demo_sends run by (simp add: demo_state_def)
  from upstream_only_admitted [OF run this] show ?thesis
    by (auto simp: dispatched_def demo_body_def demo_state_def jget_def)
qed


section \<open>Streams and the breaker\<close>

definition named :: "breaker_registry \<Rightarrow> bool" where
  "named reg \<longleftrightarrow> (\<forall>n b. map_of reg n = Some b \<longrightarrow> cb_name b = n)"

lemma named_put: "named (if_breakers st) \<Longrightarrow> named (if_breakers (put_breaker b st))"
  by (auto simp: named_def put_breaker_def AList.update_conv' split: if_splits)

lemma upstream_breaker_name: "named (if_breakers st) \<Longrightarrow> cb_name (upstream_breaker key st) = ''upstream:'' @ key"
  by (auto simp: upstream_breaker_def get_or_create_def named_def new_breaker_def Let_def split: option.splits)

lemma upstream_breaker_put:
  "upstream_breaker key (put_breaker b st) = (if cb_name b = ''upstream:'' @ key then b else upstream_breaker key st)"
  by (auto simp: upstream_breaker_def get_or_create_def put_breaker_def AList.update_conv' Let_def split: option.split)

lemma breaker_names [simp]: "cb_name (record_failure t b) = cb_name b" "can_execute t b = (b', ok) \<Longrightarrow> cb_name b' = cb_name b"
  by (auto simp: record_failure_def can_execute_def Let_def split: circuit_state.splits if_splits)

text \<open>No better than before: as many failures counted, and not closed if it was not.\<close>

definition no_better :: "breaker \<Rightarrow> breaker \<Rightarrow> bool" where
  "no_better b b' \<longleftrightarrow> cb_failure_count b \<le> cb_failure_count b' \<and> (cb_state b \<noteq> CLOSED \<longrightarrow> cb_state b' \<noteq> CLOSED)"

lemma no_better_refl [simp]: "no_better b b" and no_better_trans: "no_better a b \<Longrightarrow> no_better b c \<Longrightarrow> no_better a c"
  by (auto simp: no_better_def)

lemma can_execute_no_better: "can_execute t b = (b', ok) \<Longrightarrow> no_better b b'"
  by (auto simp: no_better_def can_execute_def split: circuit_state.splits if_splits)

lemma record_failure_no_better: "no_better b (record_failure t b)"
  by (auto simp: no_better_def record_failure_def Let_def)

lemma stream_outcome_breaker: "stream_outcome m t reply b = (b', out) \<Longrightarrow> no_better b b' \<and> cb_name b' = cb_name b"
  by (auto simp: stream_outcome_def record_failure_no_better split: stream_reply.splits if_splits prod.splits)

lemma stream_upstream_breakers:
  assumes "stream_upstream env ep payload hs engine key st = (st', r)" "named (if_breakers st)"
  shows "named (if_breakers st') \<and> no_better (upstream_breaker k st) (upstream_breaker k st')"
proof -
  obtain b1 ok where ce: "can_execute (ie_now env) (upstream_breaker key st) = (b1, ok)" by force
  have n1: "cb_name b1 = ''upstream:'' @ key" using ce upstream_breaker_name [OF assms(2)] by simp
  have nb1: "no_better (upstream_breaker key st) b1" by (rule can_execute_no_better [OF ce])
  have sent: "upstream_breaker k (s\<lparr>if_sent := x\<rparr>) = upstream_breaker k s" "if_breakers (s\<lparr>if_sent := x\<rparr>) = if_breakers s" for s x
    by (simp_all add: upstream_breaker_def)
  have put: "named (if_breakers (put_breaker b s)) \<and> no_better (upstream_breaker k st) (upstream_breaker k (put_breaker b s))"
    if "named (if_breakers s)" "cb_name b = ''upstream:'' @ key" "no_better (upstream_breaker key st) b"
       "no_better (upstream_breaker k st) (upstream_breaker k s)" for b s
    using that named_put by (auto simp: upstream_breaker_put)
  have s1: "named (if_breakers (put_breaker b1 st)) \<and> no_better (upstream_breaker k st) (upstream_breaker k (put_breaker b1 st))"
    using put [OF assms(2) n1 nb1] by simp
  have s2: "named (if_breakers (put_breaker b2 (put_breaker b1 st))) \<and> no_better (upstream_breaker k st) (upstream_breaker k (put_breaker b2 (put_breaker b1 st)))"
    if "cb_name b2 = cb_name b1" "no_better b1 b2" for b2
    using put [of "put_breaker b1 st" b2] s1 that n1 nb1 no_better_trans by metis
  have s3: "put_breaker b2 (s\<lparr>if_sent := x\<rparr>) = (put_breaker b2 s)\<lparr>if_sent := x\<rparr>" for b2 s x by (simp add: put_breaker_def)
  let ?hosts = "get_allowed_hosts (ie_allowed_hosts env)" and ?ad = "get_adapter engine"
  show ?thesis
  proof (cases "isl (transform_request ?ad payload) \<or> isl (validate_upstream_url (build_full_url ep (get_chat_path ?ad)) ?hosts)")
    case True
    then have "st' = st" using assms(1) by (auto simp: stream_upstream_def Let_def isl_def split: sum.splits)
    then show ?thesis using assms(2) by simp
  next
    case False
    then obtain p u where pu: "transform_request ?ad payload = Inr p" "validate_upstream_url (build_full_url ep (get_chat_path ?ad)) ?hosts = Inr u"
      by (cases "transform_request ?ad payload"; cases "validate_upstream_url (build_full_url ep (get_chat_path ?ad)) ?hosts") auto
    define req where "req = \<lparr>ur_url = u, ur_payload = p, ur_headers = sanitize_headers hs\<rparr>"
    obtain b2 out where o: "stream_outcome (ie_max_bytes env) (ie_done env) (ie_stream env req) b1 = (b2, out)" by force
    have st': "st' = (if \<not> ok then put_breaker b1 st else if \<not> ie_slot env key then put_breaker (record_failure (ie_done env) b1) (put_breaker b1 st)
        else (put_breaker b2 (put_breaker b1 st))\<lparr>if_sent := if_sent st @ [req]\<rparr>)"
      using assms(1) pu o by (simp add: stream_upstream_def ce req_def [symmetric] s3 Let_def split: if_splits)
    show ?thesis
      using s1 s2 [of b2] s2 [of "record_failure (ie_done env) b1"] stream_outcome_breaker [OF o] record_failure_no_better
      unfolding st' by (simp add: sent)
  qed
qed

record ('c, 'q) stream_call =
  sc_env :: "('c, 'q) inf_env"
  sc_endpoint :: string
  sc_payload :: jobj
  sc_headers :: headers
  sc_engine :: "string option"
  sc_key :: string

fun run_streams :: "('c, 'q) stream_call list \<Rightarrow> ('c, 'q) inf_state \<Rightarrow> ('c, 'q) inf_state" where
  "run_streams [] st = st"
| "run_streams (c # cs) st =
    run_streams cs (fst (stream_upstream (sc_env c) (sc_endpoint c) (sc_payload c) (sc_headers c) (sc_engine c) (sc_key c) st))"

text \<open>
  Streamed requests report failures to the breaker of their deployment and never a success: along any sequence of streams its
  count of failures never falls, and a breaker that has opened never closes again, however many streams succeed.
\<close>

theorem streams_never_heal:
  assumes "named (if_breakers st)"
  shows "no_better (upstream_breaker k st) (upstream_breaker k (run_streams cs st))"
  using assms
proof (induction cs arbitrary: st)
  case (Cons c cs)
  obtain st1 r where s: "stream_upstream (sc_env c) (sc_endpoint c) (sc_payload c) (sc_headers c) (sc_engine c) (sc_key c) st = (st1, r)"
    by force
  with stream_upstream_breakers [OF s Cons.prems, of k] Cons.IH [of st1] no_better_trans show ?case by auto
qed simp

theorem streams_never_heal_witness:
  "no_better (upstream_breaker ''d1'' demo_state)
     (upstream_breaker ''d1'' (run_streams [\<lparr>sc_env = demo_inf, sc_endpoint = ''http://10.2.0.7'', sc_payload = demo_body, sc_headers = [], sc_engine = None, sc_key = ''d1''\<rparr>] demo_state))"
  by (rule streams_never_heal) (simp add: named_def demo_state_def)

section \<open>Log entries of failed streams\<close>

lemma process_chunks_out: "fst (process_chunks loads count cs (out, u, buf)) = out @ map fst cs"
  by (induction cs arbitrary: out u buf) (auto split: prod.split)

lemma process_stream_out: "fst (process_stream loads count cs stop u) = map fst cs"
proof -
  obtain out u1 buf where p: "process_chunks loads count cs ([], u, []) = (out, u1, buf)" by (metis prod_cases3)
  then have "out = map fst cs" using process_chunks_out [of loads count cs "[]" u "[]"] by simp
  then show ?thesis by (auto simp: process_stream_def p split: prod.split)
qed

lemma failure_unrecognised: "stream_status [sse_error ''Streaming connection failed''] = (200, None)"
  by code_simp

text \<open>The wrapper looks for a text none of the service's own messages contains: a stream that failed is logged as a success.\<close>

theorem stream_failure_logged_as_success:
  assumes run: "handle_streaming env ep payload hs engine key model elapsed la st = (st', r)" and sent: "if_sent st' \<noteq> if_sent st"
    and failed: "ie_stream env = (\<lambda>_. StreamFail)"
  shows "r = Inr (Stream [sse_error ''Streaming connection failed'']) \<and>
    (\<exists>la'. if_logs st' = if_logs st @ [la'] \<and> la_status_code la' = 200 \<and> la_error_message la' = None)"
proof -
  obtain st1 c where call: "stream_upstream env ep payload hs engine key st = (st1, c)" by force
  from call sent run have sent1: "if_sent st1 \<noteq> if_sent st"
    by (auto simp: handle_streaming_def schedule_log_def Let_def split: sum.splits prod.splits)
  then have c: "c = Inr [sse_error ''Streaming connection failed'']"
    using call failed by (auto simp: stream_upstream_def stream_outcome_def Let_def split: sum.splits prod.splits if_splits)
  obtain prompt where est: "estimate_prompt_tokens (ie_count env) (jget_or payload ''messages'' (JArr [])) (py_str (json_or (jget payload ''model'') model)) = Inr prompt"
    using run sent by (auto simp: handle_streaming_def Let_def split: sum.splits)
  define pr where "pr = process_stream (ie_loads env) (ie_count env) [(sse_error ''Streaming connection failed'', elapsed 0)] (elapsed 1)
      (new_tracker prompt (py_str (json_or (jget payload ''model'') model)))"
  have "fst pr = map fst [(sse_error ''Streaming connection failed'', elapsed 0)]" unfolding pr_def by (rule process_stream_out)
  then obtain u where ps: "pr = ([sse_error ''Streaming connection failed''], u)" by (cases pr) simp
  then show ?thesis
    using run call c est ps [unfolded pr_def] failure_unrecognised stream_upstream_traffic [OF call]
    by (auto simp: handle_streaming_def schedule_log_def Let_def)
qed

theorem stream_failure_logged_as_success_witness:
  "\<exists>la'. if_logs (fst (handle_streaming demo_inf ''http://10.2.0.7'' demo_body [] None ''d1'' (JStr ''m'') (\<lambda>_. 0) (media_log ''llm'' None None) demo_state)) = [la']
     \<and> la_status_code la' = 200"
proof -
  let ?run = "handle_streaming demo_inf ''http://10.2.0.7'' demo_body [] None ''d1'' (JStr ''m'') (\<lambda>_. 0) (media_log ''llm'' None None) demo_state"
  obtain st' r where run: "?run = (st', r)" by force
  have "if_sent (fst ?run) \<noteq> []" by code_simp
  then have "if_sent st' \<noteq> if_sent demo_state" using run by (simp add: demo_state_def)
  from stream_failure_logged_as_success [OF run this] run show ?thesis by (auto simp: demo_inf_def demo_state_def)
qed

section \<open>Requests that lose their content\<close>

lemma diffusion_keys: "fst ` set (diffusion_request p) \<subseteq> set diffusion_fields"
  by (auto simp: diffusion_request_def split: option.splits)

lemma diffusion_drops_video: "map_of (diffusion_request p) ''video'' = None"
  using diffusion_keys [of p] by (auto simp: map_of_eq_None_iff diffusion_fields_def)


definition video_inf :: "((context_key \<times> int \<times> jobj) list, (quota_key \<times> int \<times> int) list) inf_env" where
  "video_inf = demo_inf\<lparr>ie_context := (\<lambda>_ _. Reply 200 (Some (JObj [(''valid'', JBool True), (''deployment'', JObj [(''id'', JStr ''d1''),
     (''endpoint'', JStr ''http://10.2.0.7''), (''engine'', JStr ''inferia-diffusion'')]), (''user_id_context'', JStr ''apikey:1'')])))\<rparr>"


text \<open>
  Behind a configured proxy the headers are those of the OpenAI format, while the path and the payload follow the engine: an
  Anthropic deployment is sent to the proxy at the Anthropic path.
\<close>

lemma proxied_request_mixes_formats:
  "resolve_upstream (Some ''anthropic'') endpoint (Some ''http://proxy/'') = (OpenAIAdapter, ''http://proxy'')"
  "get_headers OpenAIAdapter ''key'' = [(''Content-Type'', ''application/json''), (''Authorization'', ''Bearer key'')]"
  "build_full_url ''http://proxy'' (get_chat_path (get_adapter (Some ''anthropic''))) = ''http://proxy/v1/messages''"
  by code_simp+

section \<open>Sandbox keys\<close>

lemma split_three:
  assumes "c \<notin> set a" "c \<notin> set b" "c \<notin> set d"
  shows "split_on c (a @ [c] @ b @ [c] @ d) = [a, b, d]"
  using assms by (simp add: split_on_first split_on_absent)

text \<open>
  The key a sandbox session is given has the three parts the policy engine splits it into, whatever signed token it comes from,
  as long as the identifiers carry no colon of their own (a prefix of the subject up to its first colon is removed).
\<close>

theorem sandbox_key_splits:
  assumes ok: "extract_api_key external_mode verify decode (Some h) True = Inr key"
    and claims: "(if external_mode then verify else decode) (split_on CHR '' '' h ! 1) = Some p"
    and ids: "jget p ''org_id'' = JStr org" "org \<noteq> []" "CHR '':'' \<notin> set org" "CHR '':'' \<notin> set uid"
    and sub: "if external_mode then jget p ''sub'' = JStr (''user:'' @ uid) else jget p ''sub'' = JStr uid"
  shows "split_on CHR '':'' key = [''sandbox'', org, uid]"
proof -
  have "split_first CHR '':'' (''user:'' @ uid) = Some (''user'', uid)" by (simp add: split_first_def)
  moreover have "jget_or p ''sub'' (JStr []) = jget p ''sub''" if "jget p ''sub'' = JStr s" for s
    using that by (auto simp: jget_or_def jget_def split: option.splits)
  ultimately have "key = ''sandbox'' @ [CHR '':''] @ org @ [CHR '':''] @ uid"
    using ok claims ids(1,2) sub
    by (auto simp: extract_api_key_def sandbox_key_from_claims_def json_or_def Let_def split: if_splits)
  then show ?thesis using split_three [of "CHR '':''" "''sandbox''" org uid] ids by simp
qed

theorem sandbox_key_splits_witness:
  "\<exists>key. extract_api_key True (\<lambda>_. Some [(''sub'', JStr ''user:u1''), (''org_id'', JStr ''o1'')]) (\<lambda>_. None) (Some ''Bearer t'') True = Inr key
     \<and> split_on CHR '':'' key = [''sandbox'', ''o1'', ''u1'']"
proof -
  let ?x = "extract_api_key True (\<lambda>_. Some [(''sub'', JStr ''user:u1''), (''org_id'', JStr ''o1'')]) (\<lambda>_. None) (Some ''Bearer t'') True"
  have "\<not> isl ?x" by code_simp
  then obtain key where k: "?x = Inr key" by (cases ?x) auto
  have "split_on CHR '':'' key = [''sandbox'', ''o1'', ''u1'']"
    using sandbox_key_splits [OF k, of "[(''sub'', JStr ''user:u1''), (''org_id'', JStr ''o1'')]" "''o1''" "''u1''"] by (simp add: jget_def)
  with k show ?thesis by blast
qed

end
