(* ===== verification/Spec2Isabelle.thy ===== *)
theory Spec2Isabelle
  imports Linker Scheduler Concurrency NodesApi PolicyEngine GatewayEdge Xds InferenceService
begin

text \<open>
  A verification development of InferiaLLM.  Source paths below are relative to \<^verbatim>\<open>src/src\<close>.

  \<^bold>\<open>The program.\<close>  InferiaLLM runs large language models on rented or owned machines.  Three services share one Postgres
  server.  The orchestrator (\<^verbatim>\<open>orchestration\<close>) keeps compute pools, nodes and deployments, provisions machines by a queue
  of jobs, talks to the workers on the machines, and publishes the ready nodes to an Envoy proxy.  The API gateway
  (\<^verbatim>\<open>api_gateway\<close>) authenticates users and API keys, resolves a key and a model name to a deployment with its policies, and
  proxies administrative requests.  The inference service (\<^verbatim>\<open>inference\<close>) receives the requests for completions, asks the gateway
  for the context, enforces limits, and forwards to a provider or, through Envoy, to a worker.

  \<^bold>\<open>Conventions.\<close>  A handler or repository method is a function from its arguments and the state to the new state and its
  result; an exception is \<^verbatim>\<open>Inl\<close>.  One SQL statement or one transaction is one atomic function on the tables (theory Database,
  a record of lists of rows, and theory GatewayDb for the gateway's rows).  Objects in memory are records: the worker registry,
  the breakers, the buckets, the caches.  Code that interleaves at suspension points is an inductive step relation.  Times and
  floats are exact reals or whole milliseconds.  Identifiers drawn at random, clock readings, replies of remote parties and the
  results of third-party libraries are arguments or fields of an environment record.  There is no fuel: the
  recursive definitions are structural or come with a termination proof, and a loop that polls is given the list of the answers
  it receives.

  \<^bold>\<open>Theories of the orchestrator.\<close>
  \<^item> Prelude: JSON, texts, decimal numbers, rows and dictionaries, and the locale \<^verbatim>\<open>inv_system\<close> of a step relation with an
    invariant, which eight theories interpret.
  \<^item> ProvJob, Classifier, JobRepo, EventLog (\<^verbatim>\<open>state_machine/jobs\<close>, \<^verbatim>\<open>errors.py\<close>, \<^verbatim>\<open>retry\<close>, \<^verbatim>\<open>events.py\<close>,
    \<^verbatim>\<open>repositories/node_provisioning_repo.py\<close>): the job queue with leases.  The lemmas show that every history keeps the queue well
    formed and moves jobs along the phase graph, that no live lease is claimed twice, that a lease protects its job (locale
    \<^verbatim>\<open>lease_guard\<close>), and that polling the event log misses nothing.
  \<^item> Phases, Reconciler, Reaper (\<^verbatim>\<open>state_machine/phases\<close>, \<^verbatim>\<open>state_machine/reconciler\<close>): the phase handlers (locale
    \<^verbatim>\<open>phase_handler\<close>, four interpretations), one iteration of the loop and one tick of the reaper.  A job is served a bounded number of
    times, a teardown leaves nothing, a tick leaves nothing stuck.
  \<^item> InventoryRepo, InventoryViews, PoolRepo, DeploymentRepo, Linker (\<^verbatim>\<open>repositories\<close>, \<^verbatim>\<open>models/model_deployment\<close>): nodes, pools,
    deployments and their binding.  GPU counts are a ledger, a purge leaves no reference, linking books once and ends RUNNING
    or FAILED.
  \<^item> Scheduler (\<^verbatim>\<open>scheduling\<close>, \<^verbatim>\<open>scheduler_repo.py\<close>, \<^verbatim>\<open>quota_repo.py\<close>, \<^verbatim>\<open>placement_repo.py\<close>): allocation with quotas and preemption,
    placement scores.  No node is overbooked, and preemption evicts a minimal prefix.
  \<^item> Tokens, Workers, WorkerApi, Providers, NodesApi (\<^verbatim>\<open>workers/worker_controller\<close>, \<^verbatim>\<open>api/workers.py\<close>, \<^verbatim>\<open>api/admin_workers.py\<close>,
    \<^verbatim>\<open>provisioning/engine\<close>, \<^verbatim>\<open>api/nodes.py\<close>): tokens of workers, the registry of connections as a transition system, registration, and the
    node endpoints.  Streams are never left hanging, token kinds are separate, an accepted deletion settles.
  \<^item> Xds (\<^verbatim>\<open>api/xds.py\<close>): clusters of ready nodes; a ready node is published in the cluster of its group.

  \<^bold>\<open>Theories of the gateway.\<close>
  \<^item> Permissions, Jwt, GatewayDb, GatewayAuth (\<^verbatim>\<open>rbac\<close>, \<^verbatim>\<open>db/models\<close>, \<^verbatim>\<open>audit\<close>): permissions and roles, login, sessions, invitations.  A
    login opens a session, an invitation is used once, the tables stay well formed.
  \<^item> GatewayEdge (\<^verbatim>\<open>rbac/middleware.py\<close>, \<^verbatim>\<open>rbac/external_org.py\<close>, \<^verbatim>\<open>gateway/proxy_routes.py\<close>, \<^verbatim>\<open>common/middleware.py\<close>,
    \<^verbatim>\<open>common/jwks_verifier.py\<close>): what the middleware admits and what the proxies forward.
  \<^item> TtlCache, PolicyEngine (\<^verbatim>\<open>policy/engine.py\<close>, \<^verbatim>\<open>management/api_keys.py\<close>, \<^verbatim>\<open>gateway/router.py\<close>): context resolution, quotas, usage,
    masking of credentials.
  \<^item> CircuitBreaker, RateLimit, Concurrency (\<^verbatim>\<open>common/circuit_breaker.py\<close>, \<^verbatim>\<open>common/rate_limit.py\<close>, both \<^verbatim>\<open>rate_limiter.py\<close>,
    \<^verbatim>\<open>concurrency_limiter.py\<close>), used by both services: the breaker refines a specification over the history of calls, both token buckets
    satisfy the contract of the locale \<^verbatim>\<open>credit_bucket\<close>, and in-flight limits hold under every interleaving.

  \<^bold>\<open>Theories of the inference service.\<close>
  \<^item> Url: the fragment of \<^verbatim>\<open>urllib.parse\<close> and \<^verbatim>\<open>ipaddress\<close> in use.
  \<^item> Upstream (\<^verbatim>\<open>inference/core/providers\<close>, \<^verbatim>\<open>worker_routing.py\<close>, \<^verbatim>\<open>validators.py\<close>, \<^verbatim>\<open>common/cluster_naming.py\<close>): adapters, route headers
    and checks; which IPv4 addresses pass, that the path of an address is never doubled, where the internal key may go.
  \<^item> InferenceClient (\<^verbatim>\<open>inference/client.py\<close>): the shared requests to the gateway as a transition system.
  \<^item> StreamUsage (\<^verbatim>\<open>stream_processor.py\<close>, \<^verbatim>\<open>request_logger.py\<close>): accounting of streams, independent of how the network cuts them.
  \<^item> InferenceService (\<^verbatim>\<open>service.py\<close>, \<^verbatim>\<open>pipeline.py\<close>, \<^verbatim>\<open>handlers\<close>, \<^verbatim>\<open>app.py\<close>): a request from key to provider; nothing reaches a provider
    unadmitted, and what does is logged once.

  \<^bold>\<open>This theory\<close> holds the properties that join components: a deployment becomes RUNNING only on its worker's own reply
  (linker, controller and registry), and the header the inference service sends names a published cluster that contains the node
  serving the deployment (gateway, orchestrator and inference service).

  \<^bold>\<open>Hypotheses on code outside the repository.\<close>  An expiring cache returns only what was put under the key less than its time to
  live ago; decoding a JWT gives the payload that was encoded while it has not expired; a password hash verifies its own password; the order
  in which Python iterates a set is some order of its elements.  Witnesses instantiate each of them with a concrete function.

  \<^bold>\<open>Results about defects.\<close>  Some theorems state what the code does where that is not what it means to do, among them
  \<^verbatim>\<open>video_edit_loses_video\<close>, \<^verbatim>\<open>streams_never_heal\<close>, \<^verbatim>\<open>stream_failure_logged_as_success\<close> (theory InferenceService),
  \<^verbatim>\<open>revoked_key_still_resolves\<close>, \<^verbatim>\<open>sandbox_context_leaks\<close> (PolicyEngine), \<^verbatim>\<open>parent_segments_evade_permission\<close>,
  \<^verbatim>\<open>client_organization_wins\<close> (GatewayEdge), \<^verbatim>\<open>retry_is_undone_by_reaper\<close> (NodesApi) and \<^verbatim>\<open>deployment_limit_exceeded\<close> (Concurrency).

  \<^bold>\<open>Not modelled.\<close>  The deployment server with its gRPC services, the deployment worker, direct provisioning and preflight, which
  compose the repositories above with provider calls; the autoscaler, the outbox and the other timer-driven workers; the model cache and
  its mirrors (file system and network); the provider back ends and the documents generated for them; the gateway's management
  endpoints other than API keys, and the OAuth exchange; service start-up, configuration and logging; the command line; generated
  protocol code; the DePIN sidecar and the dashboard, which are separate TypeScript programs.  Inside modelled components the relaying of
  bytes and WebSocket frames, the endless loops around one tick, and log output are left out.
\<close>

section \<open>The linker over the worker channel\<close>

text \<open>
  The linker's \<^verbatim>\<open>load_model\<close> call is the controller's, over the registry \<^verbatim>\<open>r\<close>: whatever the controller raises reaches the
  linker as the text of the exception, which is empty for a timeout.
\<close>

definition controller_load ::
  "(nat \<Rightarrow> bool) \<Rightarrow> string \<Rightarrow> (registry \<Rightarrow> registry) \<Rightarrow> registry \<Rightarrow> uuid \<Rightarrow> jobj \<Rightarrow> load_result" where
  "controller_load up eid world r nid spec = (case load_model up eid nid spec world r of
     (r', w, Inl (SpecError e)) \<Rightarrow> LoadRaised e
   | (r', w, Inl (NodeUnreachableError e)) \<Rightarrow> LoadRaised e
   | (r', w, Inl CommandTimeout) \<Rightarrow> LoadRaised []
   | (r', w, Inr res) \<Rightarrow> LoadReturned (cr_status res) (cr_detail res))"

lemma controller_load_returned:
  assumes "controller_load up eid world r nid spec = LoadReturned st det"
  shows "\<exists>r' w res b. load_model up eid nid spec world r = (r', w, Inr res) \<and> cr_status res = st
    \<and> run_command up eid nid \<lparr>en_type = ''LoadModel'', en_id = eid, en_body = b\<rparr> world r = (r', w, Inr res)"
proof -
  obtain r' w res where l: "load_model up eid nid spec world r = (r', w, Inr res)" "cr_status res = st"
    using assms by (auto simp: controller_load_def split: prod.splits sum.splits controller_error.splits)
  then show ?thesis by (auto simp: load_model_def split: sum.splits if_splits option.splits)
qed

lemma drive_running_status:
  assumes "get_deployment (md_id dep) d = Some m" "get_deployment (md_id dep) (fst (drive_deploy env nid pr dep d)) = Some m'"
    and "md_state m' = ''RUNNING''"
  shows "\<exists>spec st det. le_load_model env nid spec = LoadReturned st det \<and> st \<noteq> ''failed''"
proof -
  have no: "False" if "drive_deploy env nid pr dep d = rollback env nid dep msg d" for msg
    using that assms get_dep_in [OF assms(1)] by (auto simp: rollback_dep)
  obtain spec0 where spec0: "spec_from_pending dep (gpu_required_of dep) = Inr spec0"
    using no by (cases "spec_from_pending dep (gpu_required_of dep)") (auto simp: drive_deploy_def)
  define spec where "spec = resolve_and_apply_mirror (le_prefers_origin env) (le_cache env) (spec_text spec0 ''recipe'')
     (spec_text (sub_obj spec0 ''model'') ''artifact_uri'') (le_mirror_base env) pr spec0"
  obtain st det where r: "le_load_model env nid spec = LoadReturned st det"
    using no spec0 by (cases "le_load_model env nid spec") (auto simp: drive_deploy_def Let_def spec_def)
  have "st \<noteq> ''failed''"
    using no [of "''load_model failed on worker: '' @ (if det = [] then ''worker reported load failure'' else det)"] spec0 r
    by (auto simp: drive_deploy_def Let_def spec_def)
  with r show ?thesis by blast
qed


definition sample_offline_env :: link_env where
  "sample_offline_env = sample_link_env\<lparr>le_load_model := controller_load (\<lambda>s. True) ''e1'' id empty_registry\<rparr>"


section \<open>From the gateway's context to the serving node\<close>

text \<open>
  The orchestrator publishes clusters of ready nodes, the gateway describes the deployment, and the inference service names a
  cluster in a header: three services that agree only through the name that \<^verbatim>\<open>build_envoy_cluster_name\<close> computes on both sides.
\<close>

definition node_group :: "ready_node \<Rightarrow> group" where
  "node_group y = (nonempty_str (Some (xe_pool_id (fst y))), xe_engine (fst y), xe_model (fst y))"

lemma cluster_name_served:
  "build_envoy_cluster_name p e (jstr (json_or (jopt (md_inference_model m)) (jopt (md_model_name m))))
     = build_envoy_cluster_name p e (Some (served_model m))"
  by (cases "md_inference_model m"; cases "md_model_name m")
    (auto simp: build_envoy_cluster_name_def served_model_def json_or_def jopt_def jstr_def nonempty_str_def coalesce_def Let_def)

lemma jstr_jopt [simp]: "jstr (jopt s) = s"
  by (cases s) (simp_all add: jstr_def jopt_def)

lemma context_deployment:
  assumes "resolve_key_context env loads key g = Inr cx" "distinct (map md_id (db_deps (gw_core g)))"
    and "m \<in> set (db_deps (gw_core g))" "md_id m = dc_id (cx_deployment cx)"
  shows "cx_deployment cx = deployment_dict m g" "serving_state m"
proof -
  obtain k model mtype m' o' where m': "key_deployment k model mtype g = Some (m', o')" "serving_state m'"
    "cx_deployment cx = deployment_dict m' g"
    using assms(1) by (auto simp: resolve_key_context_def split: prod.splits option.splits if_splits sum.splits)
  then have "m' \<in> set (db_deps (gw_core g))"
    unfolding key_deployment_def by (drule_tac first_deployment_in) simp
  moreover have "md_id m' = md_id m"
    using m'(3) assms(4) by (simp add: deployment_dict_def split: prod.splits)
  ultimately have "m' = m"
    using assms(2,3) by (auto simp: distinct_map inj_on_def)
  with m' show "cx_deployment cx = deployment_dict m g" "serving_state m" by simp_all
qed

lemma route_header:
  assumes "cx_deployment cx = deployment_dict m g" "read_context (resolve_inference_context (Inr cx)) = Inr rc"
    and "filter (\<lambda>p. cp_id p = md_pool_id m) (db_pools (gw_core g)) = [p]" "cp_inference_token p = Some tok" "tok \<noteq> []"
    and "md_pool_id m \<noteq> []" "ie_envoy_url ie = Some envoy" "envoy \<noteq> []"
  shows "\<exists>a hs. provider_route ie (rc_deployment rc) engine endpoint = (a, envoy, hs) \<and>
    map_of hs ROUTE_CLUSTER_HEADER = Some (group_name (Some (md_pool_id m), md_engine m, served_model m))"
proof -
  have f: "fetch_inference_token m g = (Some tok, Some (md_pool_id m))"
    using assms(3,4,6) by (simp add: fetch_inference_token_def nonempty_str_def)
  have d: "rc_deployment rc = [(''id'', JStr (md_id m)), (''model_name'', jopt (md_model_name m)), (''endpoint'', jopt (md_endpoint m)),
      (''engine'', jopt (md_engine m)), (''configuration'', case md_configuration m of None \<Rightarrow> JNull | Some c \<Rightarrow> JObj c),
      (''inference_model'', jopt (md_inference_model m)), (''inference_token'', jopt (Some tok)), (''pool_id'', jopt (Some (md_pool_id m)))]"
    using assms(2) by (auto simp: read_context_def resolve_inference_context_def assms(1) deployment_dict_def f jitem_def py_bind_def as_dict_def Let_def)
  have "envoy_route_headers (rc_deployment rc) (Some envoy)
      = (Some envoy, [(ROUTE_CLUSTER_HEADER, group_name (Some (md_pool_id m), md_engine m, served_model m))])"
    using assms(5,8) by (simp add: envoy_route_headers_def d jget_def cluster_name_served group_name_def nonempty_str_def) (simp add: jopt_def)
  then show ?thesis
    by (simp add: provider_route_def assms(7) hupdate_def update_conv' split: prod.split)
qed


definition routed_gateway :: gateway where
  "routed_gateway = key_created\<lparr>gw_core := empty_db\<lparr>db_now := 1000,
     db_nodes := [(sample_node ''n1'' ''p2'' ''ready'' 4 1)\<lparr>ci_expose_url := Some ''http://10.0.0.7'', ci_last_heartbeat := Some 990\<rparr>],
     db_pools := [(sample_pool ''p2'' ''running'')\<lparr>cp_inference_token := Some ''tok''\<rparr>],
     db_deps := [(sample_dep ''d2'' ''p2'' ''RUNNING'' (Some ''n1'') 1)\<lparr>md_org_id := Some ''o2''\<rparr>]\<rparr>\<rparr>"


end
